(* ===== verification/Prelude.thy ===== *)
theory Prelude
  imports Main "HOL-Library.AList" "HOL-Library.Sublist"
begin

text \<open>
  Shared vocabulary of the development: the JavaScript values, sets, maps and string
  operations that the executor's TypeScript uses, and the generic lemmas about them.

  \<^item> A string is an Isabelle \<^typ>\<open>string\<close>, read as the UTF-8 bytes of the TypeScript
    string. The code only concatenates, compares, tests prefixes and suffixes and matches
    patterns built from ASCII classes and fixed literals, for which bytes and UTF-16 units
    agree.
  \<^item> A \<open>Set\<close> is the duplicate-free list of its elements in insertion order, which is the
    order in which the code iterates it; a \<open>Map\<close> is the association list of its entries
    in insertion order (\<open>Map.set\<close> on a present key keeps the position, as
    \<open>AList.update\<close> does).
  \<^item> A dynamically typed value is a \<open>jval\<close>; an absent property reads as \<open>JUndef\<close>.
\<close>

named_theorems js_simps "rewriting of the set, map and string operations of the model"
named_theorems wf_intros "preservation of the well-formedness invariants"

section \<open>Sets in insertion order\<close>

definition sadd :: "'a \<Rightarrow> 'a list \<Rightarrow> 'a list" where
  "sadd x xs = (if x \<in> set xs then xs else xs @ [x])"

definition sdel :: "'a \<Rightarrow> 'a list \<Rightarrow> 'a list" where
  "sdel x xs = filter (\<lambda>y. y \<noteq> x) xs"

fun sadds :: "'a list \<Rightarrow> 'a list \<Rightarrow> 'a list" where
  "sadds [] xs = xs"
| "sadds (y # ys) xs = sadds ys (sadd y xs)"

text \<open>\<open>new Set(array)\<close>.\<close>

definition set_of_array :: "'a list \<Rightarrow> 'a list" where
  "set_of_array ys = sadds ys []"

lemma set_sadd [simp, js_simps]: "set (sadd x xs) = insert x (set xs)"
  by (auto simp: sadd_def)

lemma distinct_sadd [simp, js_simps]: "distinct (sadd x xs) = distinct xs"
  by (auto simp: sadd_def)

lemma set_sdel [simp, js_simps]: "set (sdel x xs) = set xs - {x}"
  by (auto simp: sdel_def)

lemma distinct_sdel [simp]: "distinct xs \<Longrightarrow> distinct (sdel x xs)"
  by (simp add: sdel_def)

lemma set_sadds [simp, js_simps]: "set (sadds ys xs) = set ys \<union> set xs"
  by (induction ys arbitrary: xs) auto

lemma distinct_sadds [simp, js_simps]: "distinct (sadds ys xs) = distinct xs"
  by (induction ys arbitrary: xs) auto

lemma set_set_of_array [simp, js_simps]: "set (set_of_array ys) = set ys"
  by (simp add: set_of_array_def)

lemma distinct_set_of_array [simp, intro]: "distinct (set_of_array ys)"
  by (simp add: set_of_array_def)

section \<open>Maps in insertion order\<close>

type_synonym ('k, 'v) jsmap = "('k \<times> 'v) list"

definition mget :: "('k, 'v) jsmap \<Rightarrow> 'k \<Rightarrow> 'v option" where
  "mget m k = map_of m k"

definition mhas :: "('k, 'v) jsmap \<Rightarrow> 'k \<Rightarrow> bool" where
  "mhas m k = (mget m k \<noteq> None)"

definition mput :: "'k \<Rightarrow> 'v \<Rightarrow> ('k, 'v) jsmap \<Rightarrow> ('k, 'v) jsmap" where
  "mput k v m = AList.update k v m"

definition mdel :: "'k \<Rightarrow> ('k, 'v) jsmap \<Rightarrow> ('k, 'v) jsmap" where
  "mdel k m = filter (\<lambda>(k', _). k' \<noteq> k) m"

definition mkeys :: "('k, 'v) jsmap \<Rightarrow> 'k list" where
  "mkeys m = map fst m"

definition mvalues :: "('k, 'v) jsmap \<Rightarrow> 'v list" where
  "mvalues m = map snd m"

text \<open>A map is proper when every key occurs once; every map built by \<open>mput\<close> is.\<close>

definition mproper :: "('k, 'v) jsmap \<Rightarrow> bool" where
  "mproper m \<longleftrightarrow> distinct (map fst m)"

lemma mget_Nil [simp]: "mget [] k = None"
  by (simp add: mget_def)

lemma mget_Cons [simp]: "mget ((k', v) # m) k = (if k' = k then Some v else mget m k)"
  by (simp add: mget_def)

lemma mget_mput [simp, js_simps]: "mget (mput k v m) k' = (if k' = k then Some v else mget m k')"
  by (simp add: mget_def mput_def update_conv')

lemma mget_mdel [simp, js_simps]: "mget (mdel k m) k' = (if k' = k then None else mget m k')"
  by (induction m) (auto simp: mget_def mdel_def)

lemma mhas_mput [simp, js_simps]: "mhas (mput k v m) k' \<longleftrightarrow> k' = k \<or> mhas m k'"
  by (simp add: mhas_def)

lemma mhas_mdel [simp, js_simps]: "mhas (mdel k m) k' \<longleftrightarrow> k' \<noteq> k \<and> mhas m k'"
  by (simp add: mhas_def)

lemma mhas_Nil [simp]: "\<not> mhas [] k"
  by (simp add: mhas_def)

lemma mhas_Cons [simp]: "mhas ((k', v) # m) k \<longleftrightarrow> k' = k \<or> mhas m k"
  by (simp add: mhas_def)

lemma set_mkeys [simp]: "k \<in> set (mkeys m) \<longleftrightarrow> mhas m k"
  by (auto simp: mkeys_def mhas_def mget_def map_of_eq_None_iff)

lemma mproper_Nil [simp]: "mproper []"
  by (simp add: mproper_def)

lemma mproper_mput [simp]: "mproper m \<Longrightarrow> mproper (mput k v m)"
  by (simp add: mproper_def mput_def distinct_update)

lemma mproper_mdel [simp]: "mproper m \<Longrightarrow> mproper (mdel k m)"
  by (auto simp: mproper_def mdel_def distinct_map_filter)

lemma mget_in_set: "mget m k = Some v \<Longrightarrow> (k, v) \<in> set m"
  by (simp add: mget_def map_of_SomeD)

lemma mget_iff_in_set: "mproper m \<Longrightarrow> mget m k = Some v \<longleftrightarrow> (k, v) \<in> set m"
  by (simp add: mproper_def mget_def)

lemma mhasI: "mget m k = Some v \<Longrightarrow> mhas m k"
  by (simp add: mhas_def)

lemma mhasE: "mhas m k \<Longrightarrow> (\<And>v. mget m k = Some v \<Longrightarrow> P) \<Longrightarrow> P"
  by (auto simp: mhas_def)

lemma set_mput_subset: "set (mput k v m) \<subseteq> insert (k, v) (set m)"
  by (induction m) (auto simp: mput_def)

text \<open>
  A contract shared by every keyed store of the program: what a read returns after a
  write or a deletion. It is stated over the observation \<open>look\<close> so that a component may
  keep more than one index for its entries.
\<close>

locale keyed_store =
  fixes look :: "'s \<Rightarrow> 'k \<Rightarrow> 'v option"
    and put :: "'k \<Rightarrow> 'v \<Rightarrow> 's \<Rightarrow> 's"
    and del :: "'k \<Rightarrow> 's \<Rightarrow> 's"
  assumes look_put: "look (put k v s) k' = (if k' = k then Some v else look s k')"
    and look_del: "look (del k s) k' = (if k' = k then None else look s k')"
begin

lemma look_put_same: "look (put k v s) k = Some v"
  by (simp add: look_put)

lemma look_put_other: "k' \<noteq> k \<Longrightarrow> look (put k v s) k' = look s k'"
  by (simp add: look_put)

lemma look_put_put: "look (put k v (put k v' s)) = look (put k v s)"
  by (rule ext) (simp add: look_put)

lemma look_del_put: "look s k = None \<Longrightarrow> look (del k (put k v s)) = look s"
  by (rule ext) (simp add: look_put look_del)

lemma look_puts_notin:
  "k \<notin> fst ` set kvs \<Longrightarrow> look (fold (\<lambda>(k, v). put k v) kvs s) k = look s k"
  by (induction kvs arbitrary: s) (auto simp: look_put)

end

interpretation jsmap_store: keyed_store mget mput mdel
  by unfold_locales simp_all

section \<open>Dynamically typed values\<close>

datatype jval =
    JUndef
  | JNull
  | JBool bool
  | JNum int
  | JStr string
  | JArr "jval list"
  | JObj "(string \<times> jval) list"

type_synonym jobj = "(string, jval) jsmap"

fun truthy :: "jval \<Rightarrow> bool" where
  "truthy JUndef = False"
| "truthy JNull = False"
| "truthy (JBool b) = b"
| "truthy (JNum n) = (n \<noteq> 0)"
| "truthy (JStr s) = (s \<noteq> [])"
| "truthy (JArr _) = True"
| "truthy (JObj _) = True"

definition get_prop :: "jobj \<Rightarrow> string \<Rightarrow> jval" where
  "get_prop obj k = (case mget obj k of None \<Rightarrow> JUndef | Some v \<Rightarrow> v)"

text \<open>\<open>a ?? b\<close>.\<close>

fun nullish :: "jval \<Rightarrow> jval \<Rightarrow> jval" where
  "nullish JUndef b = b"
| "nullish JNull b = b"
| "nullish a b = a"

text \<open>An optional string (\<open>string | undefined\<close>) is falsy when absent or empty.\<close>

fun falsy_str :: "string option \<Rightarrow> bool" where
  "falsy_str None = True"
| "falsy_str (Some s) = (s = [])"

section \<open>Strings\<close>

definition starts_with :: "string \<Rightarrow> string \<Rightarrow> bool" where
  "starts_with s p = prefix p s"

definition ends_with :: "string \<Rightarrow> string \<Rightarrow> bool" where
  "ends_with s p = suffix p s"

definition includes_str :: "string \<Rightarrow> string \<Rightarrow> bool" where
  "includes_str s p = sublist p s"

text \<open>\<open>trim\<close>: the white space of the language, in UTF-8. \<open>skip_space\<close> is what follows a leading
  white space character.\<close>

fun skip_space :: "string \<Rightarrow> string option" where
  "skip_space [] = None"
| "skip_space (c # cs) =
     (if c \<in> {CHR 0x09, CHR 0x0A, CHR 0x0B, CHR 0x0C, CHR 0x0D, CHR 0x20} then Some cs
      else case cs of
             [] \<Rightarrow> None
           | d # ds \<Rightarrow>
               if c = CHR 0xC2 \<and> d = CHR 0xA0 then Some ds
               else (case ds of
                       [] \<Rightarrow> None
                     | e # es \<Rightarrow>
                         if c = CHR 0xE1 \<and> d = CHR 0x9A \<and> e = CHR 0x80 \<or>
                            c = CHR 0xE2 \<and> d = CHR 0x80 \<and>
                              e \<in> {CHR 0x80, CHR 0x81, CHR 0x82, CHR 0x83, CHR 0x84, CHR 0x85, CHR 0x86, CHR 0x87,
                                   CHR 0x88, CHR 0x89, CHR 0x8A, CHR 0xA8, CHR 0xA9, CHR 0xAF} \<or>
                            c = CHR 0xE2 \<and> d = CHR 0x81 \<and> e = CHR 0x9F \<or>
                            c = CHR 0xE3 \<and> d = CHR 0x80 \<and> e = CHR 0x80 \<or>
                            c = CHR 0xEF \<and> d = CHR 0xBB \<and> e = CHR 0xBF
                         then Some es else None))"

lemma skip_space_shorter: "skip_space s = Some r \<Longrightarrow> length r < length s"
  by (cases s) (auto split: if_splits list.splits)

function trim_start :: "string \<Rightarrow> string" where
  "trim_start s = (case skip_space s of None \<Rightarrow> s | Some r \<Rightarrow> trim_start r)"
  by pat_completeness auto
termination by (relation "measure length") (auto dest: skip_space_shorter)

declare trim_start.simps [simp del]

fun trim_end :: "string \<Rightarrow> string" where
  "trim_end [] = []"
| "trim_end (c # cs) = (if trim_start (c # cs) = [] then [] else c # trim_end cs)"

definition js_trim :: "string \<Rightarrow> string" where
  "js_trim s = trim_end (trim_start s)"

definition is_digit :: "char \<Rightarrow> bool" where
  "is_digit c \<longleftrightarrow> (48::nat) \<le> of_char c \<and> of_char c \<le> (57::nat)"

definition digit_char :: "nat \<Rightarrow> char" where
  "digit_char n = char_of (48 + n)"

definition digit_val :: "char \<Rightarrow> nat" where
  "digit_val c = of_char c - 48"

text \<open>The decimal rendering of a non-negative integer in a template literal, and
  \<open>Number.parseInt(_, 10)\<close> on a string of digits.\<close>

fun show_nat :: "nat \<Rightarrow> string" where
  "show_nat n = (if n < 10 then [digit_char n] else show_nat (n div 10) @ [digit_char (n mod 10)])"

declare show_nat.simps [simp del]

definition parse_nat :: "string \<Rightarrow> nat" where
  "parse_nat s = foldl (\<lambda>a c. 10 * a + digit_val c) 0 s"

lemma digit_char_props:
  assumes "n < 10"
  shows "is_digit (digit_char n)" and "digit_val (digit_char n) = n"
  using assms by (simp_all add: is_digit_def digit_char_def digit_val_def)

lemma show_nat_digits: "\<forall>c \<in> set (show_nat n). is_digit c"
proof (induction n rule: show_nat.induct)
  case (1 n)
  then show ?case
    by (subst show_nat.simps) (auto simp: digit_char_props)
qed

lemma show_nat_nonempty [simp]: "show_nat n \<noteq> []"
  by (subst show_nat.simps) simp

lemma parse_show_nat [simp, js_simps]: "parse_nat (show_nat n) = n"
proof (induction n rule: show_nat.induct)
  case (1 n)
  show ?case
  proof (cases "n < 10")
    case True
    then show ?thesis by (subst show_nat.simps) (simp add: parse_nat_def digit_char_props)
  next
    case False
    with 1 show ?thesis
      by (subst show_nat.simps) (simp add: parse_nat_def digit_char_props)
  qed
qed

lemma show_nat_inj [simp]: "show_nat m = show_nat n \<longleftrightarrow> m = n"
  by (metis parse_show_nat)

end
