(* ===== verification/Constants.thy ===== *)
theory Constants
  imports Prelude
begin

text \<open>
  The string constants and block-type predicates of \<open>executor/constants.ts\<close>, with the
  canonicalisation of persisted source handles from \<open>packages/workflow-types\<close>. The
  subscript parentheses of a branch id (U+208D and U+208E) are written as their UTF-8
  bytes.
\<close>

section \<open>Edge handles (EDGE)\<close>

definition CONDITION_PREFIX :: string where "CONDITION_PREFIX = ''condition-''"
definition ROUTER_PREFIX :: string where "ROUTER_PREFIX = ''router-''"
definition LOOP_CONTINUE :: string where "LOOP_CONTINUE = ''loop_continue''"
definition LOOP_CONTINUE_ALT :: string where "LOOP_CONTINUE_ALT = ''loop-continue-source''"
definition LOOP_EXIT :: string where "LOOP_EXIT = ''loop_exit''"
definition PARALLEL_CONTINUE :: string where "PARALLEL_CONTINUE = ''parallel_continue''"
definition PARALLEL_EXIT :: string where "PARALLEL_EXIT = ''parallel_exit''"
definition ERROR :: string where "ERROR = ''error''"
definition SOURCE :: string where "SOURCE = ''source''"
definition DEFAULT :: string where "DEFAULT = ''default''"

definition SUBFLOW_CONTROL_EDGE_HANDLES :: "string list" where
  "SUBFLOW_CONTROL_EDGE_HANDLES =
     [LOOP_CONTINUE, LOOP_CONTINUE_ALT, LOOP_EXIT, PARALLEL_CONTINUE, PARALLEL_EXIT]"

definition CONTROL_BACK_EDGE_HANDLES :: "string list" where
  "CONTROL_BACK_EDGE_HANDLES = [LOOP_CONTINUE, LOOP_CONTINUE_ALT, PARALLEL_CONTINUE]"

lemmas edge_handle_defs =
  CONDITION_PREFIX_def ROUTER_PREFIX_def LOOP_CONTINUE_def LOOP_CONTINUE_ALT_def LOOP_EXIT_def
  PARALLEL_CONTINUE_def PARALLEL_EXIT_def ERROR_def SOURCE_def DEFAULT_def
  SUBFLOW_CONTROL_EDGE_HANDLES_def CONTROL_BACK_EDGE_HANDLES_def

section \<open>Node-id templates (LOOP, PARALLEL)\<close>

definition LOOP_PREFIX :: string where "LOOP_PREFIX = ''loop-''"
definition PARALLEL_PREFIX :: string where "PARALLEL_PREFIX = ''parallel-''"
definition START_SUFFIX :: string where "START_SUFFIX = ''-sentinel-start''"
definition END_SUFFIX :: string where "END_SUFFIX = ''-sentinel-end''"
definition BRANCH_PREFIX :: string where "BRANCH_PREFIX = [CHR 0xE2, CHR 0x82, CHR 0x8D]"
definition BRANCH_SUFFIX :: string where "BRANCH_SUFFIX = [CHR 0xE2, CHR 0x82, CHR 0x8E]"

lemmas id_template_defs =
  LOOP_PREFIX_def PARALLEL_PREFIX_def START_SUFFIX_def END_SUFFIX_def BRANCH_PREFIX_def
  BRANCH_SUFFIX_def

definition DEFAULT_LOOP_ITERATIONS :: nat where "DEFAULT_LOOP_ITERATIONS = 1000"

section \<open>Block types\<close>

definition isHumanInTheLoopBlock :: "string option \<Rightarrow> bool" where
  "isHumanInTheLoopBlock t \<longleftrightarrow>
     t \<in> {Some ''human_in_the_loop'', Some ''human_in_the_loop_v2''}"

definition isTriggerBlockType :: "string option \<Rightarrow> bool" where
  "isTriggerBlockType t \<longleftrightarrow> t \<in> {Some ''start_trigger'', Some ''starter'', Some ''trigger''}"

definition isSentinelBlockType :: "string option \<Rightarrow> bool" where
  "isSentinelBlockType t \<longleftrightarrow> t \<in> {Some ''sentinel_start'', Some ''sentinel_end''}"

definition isWorkflowBlockType :: "string option \<Rightarrow> bool" where
  "isWorkflowBlockType t \<longleftrightarrow> t \<in> {Some ''workflow'', Some ''workflow_input''}"

definition isMetadataOnlyBlockType :: "string option \<Rightarrow> bool" where
  "isMetadataOnlyBlockType t \<longleftrightarrow>
     t \<in> {Some ''loop'', Some ''parallel'', Some ''note'', Some ''notifications''}"

definition isConditionBlockType :: "string \<Rightarrow> bool" where
  "isConditionBlockType t \<longleftrightarrow> t = ''condition''"

definition isRouterBlockType :: "string \<Rightarrow> bool" where
  "isRouterBlockType t \<longleftrightarrow> t = ''router'' \<or> t = ''router_v2''"

definition isRouterV2BlockType :: "string \<Rightarrow> bool" where
  "isRouterV2BlockType t \<longleftrightarrow> t = ''router_v2''"

lemmas block_type_defs =
  isHumanInTheLoopBlock_def isTriggerBlockType_def isMetadataOnlyBlockType_def
  isConditionBlockType_def isRouterBlockType_def isRouterV2BlockType_def isSentinelBlockType_def
  isWorkflowBlockType_def

text \<open>The back-edge handles are control handles, and no control handle is a routing prefix,
  the error handle or the source handle.\<close>

lemma back_edge_is_control:
  "h \<in> set CONTROL_BACK_EDGE_HANDLES \<Longrightarrow> h \<in> set SUBFLOW_CONTROL_EDGE_HANDLES"
  by (auto simp: CONTROL_BACK_EDGE_HANDLES_def SUBFLOW_CONTROL_EDGE_HANDLES_def)

lemma error_source_not_control:
  "ERROR \<notin> set SUBFLOW_CONTROL_EDGE_HANDLES" "SOURCE \<notin> set SUBFLOW_CONTROL_EDGE_HANDLES"
  by (simp_all add: edge_handle_defs)

lemma trigger_not_metadata: "isTriggerBlockType t \<Longrightarrow> \<not> isMetadataOnlyBlockType t"
  by (auto simp: isTriggerBlockType_def isMetadataOnlyBlockType_def)

end
