(* ===== verification/NodeIds.thy ===== *)
theory NodeIds
  imports Constants
begin

text \<open>
  The codec of subflow node ids, \<open>executor/utils/subflow-node-id-codec.ts\<close>. The regular
  expressions of the code have two shapes, both modelled by executable matchers: a fixed
  literal followed by a greedy run of a character class and an optional closing literal
  (\<open>seg_pattern\<close>), and \<open>prefix(.+)suffix\<close>, where the dot stops at a line terminator and
  the run is greedy (\<open>extract_between\<close>). Branch indices are natural numbers; the code
  parses them with \<open>Number.parseInt\<close>, which is exact below 2 to the 53.
\<close>

section \<open>Matchers\<close>

record seg_pattern =
  seg_fold :: "char \<Rightarrow> char"
  seg_lit :: string
  seg_class :: "char \<Rightarrow> bool"
  seg_close :: string

definition match_at :: "seg_pattern \<Rightarrow> string \<Rightarrow> (string \<times> string) option" where
  "match_at p s =
     (if map (seg_fold p) (take (length (seg_lit p)) s) = seg_lit p
      then let r = drop (length (seg_lit p)) s;
               d = takeWhile (seg_class p) r;
               r' = dropWhile (seg_class p) r
           in if d \<noteq> [] \<and> prefix (seg_close p) r'
              then Some (d, drop (length (seg_close p)) r') else None
      else None)"

lemma match_at_shorter: "match_at p s = Some (d, r) \<Longrightarrow> length r < length s"
proof -
  assume m: "match_at p s = Some (d, r)"
  let ?t = "drop (length (seg_lit p)) s"
  have d: "takeWhile (seg_class p) ?t \<noteq> []"
    and r: "r = drop (length (seg_close p)) (dropWhile (seg_class p) ?t)"
    using m by (auto simp: match_at_def Let_def split: if_splits)
  have "length (takeWhile (seg_class p) ?t) + length (dropWhile (seg_class p) ?t) = length ?t"
    by (metis length_append takeWhile_dropWhile_id)
  moreover have "0 < length (takeWhile (seg_class p) ?t)"
    using d by blast
  ultimately have "length (dropWhile (seg_class p) ?t) < length ?t"
    by linarith
  then show "length r < length s"
    using r by simp
qed

text \<open>\<open>s.match(p)\<close>: the first match, scanning from the left.\<close>

fun first_match :: "seg_pattern \<Rightarrow> string \<Rightarrow> string option" where
  "first_match p [] = (case match_at p [] of Some (d, _) \<Rightarrow> Some d | None \<Rightarrow> None)"
| "first_match p (c # cs) =
     (case match_at p (c # cs) of Some (d, _) \<Rightarrow> Some d | None \<Rightarrow> first_match p cs)"

text \<open>\<open>s.matchAll(p)\<close>: the captured runs of all matches, left to right.\<close>

function all_matches :: "seg_pattern \<Rightarrow> string \<Rightarrow> string list" where
  "all_matches p s =
     (case match_at p s of
        Some (d, r) \<Rightarrow> d # all_matches p r
      | None \<Rightarrow> (case s of [] \<Rightarrow> [] | c # cs \<Rightarrow> all_matches p cs))"
  by pat_completeness auto
termination
  by (relation "measure (\<lambda>(p, s). length s)") (auto dest: match_at_shorter)

text \<open>\<open>s.replace(p, '')\<close> for a global \<open>p\<close>.\<close>

function strip_all :: "seg_pattern \<Rightarrow> string \<Rightarrow> string" where
  "strip_all p s =
     (case match_at p s of
        Some (d, r) \<Rightarrow> strip_all p r
      | None \<Rightarrow> (case s of [] \<Rightarrow> [] | c # cs \<Rightarrow> c # strip_all p cs))"
  by pat_completeness auto
termination
  by (relation "measure (\<lambda>(p, s). length s)") (auto dest: match_at_shorter)

declare all_matches.simps [simp del] strip_all.simps [simp del]

definition ascii_lower :: "char \<Rightarrow> char" where
  "ascii_lower c =
     (if (65::nat) \<le> of_char c \<and> of_char c \<le> (90::nat) then char_of (of_char c + (32::nat)) else c)"

definition is_hex :: "char \<Rightarrow> bool" where
  "is_hex c \<longleftrightarrow> is_digit c \<or> ((97::nat) \<le> of_char (ascii_lower c) \<and> of_char (ascii_lower c) \<le> (102::nat))"

definition BRANCH_SEG :: seg_pattern where
  "BRANCH_SEG = \<lparr>seg_fold = id, seg_lit = BRANCH_PREFIX, seg_class = is_digit, seg_close = BRANCH_SUFFIX\<rparr>"

definition OBRANCH_LIT :: string where "OBRANCH_LIT = ''__obranch-''"

definition OUTER_BRANCH :: seg_pattern where
  "OUTER_BRANCH = \<lparr>seg_fold = id, seg_lit = OBRANCH_LIT, seg_class = is_digit, seg_close = []\<rparr>"

definition CLONE_DIGEST :: seg_pattern where
  "CLONE_DIGEST = \<lparr>seg_fold = ascii_lower, seg_lit = ''__clone'', seg_class = is_hex, seg_close = []\<rparr>"

definition LOOP_DIGEST :: seg_pattern where
  "LOOP_DIGEST = \<lparr>seg_fold = id, seg_lit = ''_loop'', seg_class = is_digit, seg_close = []\<rparr>"

lemmas seg_pattern_defs = BRANCH_SEG_def OUTER_BRANCH_def CLONE_DIGEST_def LOOP_DIGEST_def

definition line_term_at :: "string \<Rightarrow> bool" where
  "line_term_at s \<longleftrightarrow>
     prefix [CHR 0x0A] s \<or> prefix [CHR 0x0D] s \<or>
     prefix [CHR 0xE2, CHR 0x80, CHR 0xA8] s \<or> prefix [CHR 0xE2, CHR 0x80, CHR 0xA9] s"

fun dot_run :: "string \<Rightarrow> string" where
  "dot_run [] = []"
| "dot_run (c # cs) = (if line_term_at (c # cs) then [] else c # dot_run cs)"

fun greedy_split :: "string \<Rightarrow> string \<Rightarrow> nat \<Rightarrow> string option" where
  "greedy_split suf r 0 = None"
| "greedy_split suf r (Suc k) =
     (if prefix suf (drop (Suc k) r) then Some (take (Suc k) r) else greedy_split suf r k)"

definition between_at :: "string \<Rightarrow> string \<Rightarrow> string \<Rightarrow> string option" where
  "between_at pre suf s =
     (if prefix pre s
      then greedy_split suf (drop (length pre) s) (length (dot_run (drop (length pre) s)))
      else None)"

fun extract_between :: "string \<Rightarrow> string \<Rightarrow> string \<Rightarrow> string option" where
  "extract_between pre suf [] = between_at pre suf []"
| "extract_between pre suf (c # cs) =
     (case between_at pre suf (c # cs) of Some x \<Rightarrow> Some x | None \<Rightarrow> extract_between pre suf cs)"

section \<open>Building and parsing ids\<close>

definition buildSentinelStartId :: "string \<Rightarrow> string" where
  "buildSentinelStartId loopId = LOOP_PREFIX @ loopId @ START_SUFFIX"

definition buildSentinelEndId :: "string \<Rightarrow> string" where
  "buildSentinelEndId loopId = LOOP_PREFIX @ loopId @ END_SUFFIX"

definition buildParallelSentinelStartId :: "string \<Rightarrow> string" where
  "buildParallelSentinelStartId parallelId = PARALLEL_PREFIX @ parallelId @ START_SUFFIX"

definition buildParallelSentinelEndId :: "string \<Rightarrow> string" where
  "buildParallelSentinelEndId parallelId = PARALLEL_PREFIX @ parallelId @ END_SUFFIX"

lemmas sentinel_id_defs =
  buildSentinelStartId_def buildSentinelEndId_def buildParallelSentinelStartId_def
  buildParallelSentinelEndId_def

definition isLoopSentinelNodeId :: "string \<Rightarrow> bool" where
  "isLoopSentinelNodeId nodeId \<longleftrightarrow>
     starts_with nodeId LOOP_PREFIX \<and> (ends_with nodeId START_SUFFIX \<or> ends_with nodeId END_SUFFIX)"

definition isParallelSentinelNodeId :: "string \<Rightarrow> bool" where
  "isParallelSentinelNodeId nodeId \<longleftrightarrow>
     starts_with nodeId PARALLEL_PREFIX \<and> (ends_with nodeId START_SUFFIX \<or> ends_with nodeId END_SUFFIX)"

definition extractLoopIdFromSentinel :: "string \<Rightarrow> string option" where
  "extractLoopIdFromSentinel sid =
     (case extract_between LOOP_PREFIX START_SUFFIX sid of
        Some x \<Rightarrow> Some x
      | None \<Rightarrow> extract_between LOOP_PREFIX END_SUFFIX sid)"

definition extractParallelIdFromSentinel :: "string \<Rightarrow> string option" where
  "extractParallelIdFromSentinel sid =
     (case extract_between PARALLEL_PREFIX START_SUFFIX sid of
        Some x \<Rightarrow> Some x
      | None \<Rightarrow> extract_between PARALLEL_PREFIX END_SUFFIX sid)"

definition buildBranchNodeId :: "string \<Rightarrow> nat \<Rightarrow> string" where
  "buildBranchNodeId baseId branchIndex = baseId @ BRANCH_PREFIX @ show_nat branchIndex @ BRANCH_SUFFIX"

text \<open>The pattern anchored at the end: base id and digits of a trailing branch subscript.\<close>

definition match_branch_end :: "string \<Rightarrow> (string \<times> string) option" where
  "match_branch_end s =
     (if suffix BRANCH_SUFFIX s
      then let r = rev (take (length s - length BRANCH_SUFFIX) s);
               d = takeWhile is_digit r;
               b = dropWhile is_digit r
           in if d \<noteq> [] \<and> prefix (rev BRANCH_PREFIX) b
              then Some (rev (drop (length BRANCH_PREFIX) b), rev d) else None
      else None)"

definition extractBaseBlockId :: "string \<Rightarrow> string" where
  "extractBaseBlockId branchNodeId =
     (case match_branch_end branchNodeId of Some (b, _) \<Rightarrow> b | None \<Rightarrow> branchNodeId)"

definition extractBranchIndex :: "string \<Rightarrow> nat option" where
  "extractBranchIndex branchNodeId =
     (case match_branch_end branchNodeId of Some (_, d) \<Rightarrow> Some (parse_nat d) | None \<Rightarrow> None)"

definition isBranchNodeId :: "string \<Rightarrow> bool" where
  "isBranchNodeId nodeId \<longleftrightarrow> match_branch_end nodeId \<noteq> None"

definition extractOuterBranchIndex :: "string \<Rightarrow> nat option" where
  "extractOuterBranchIndex clonedId = map_option parse_nat (first_match OUTER_BRANCH clonedId)"

definition extractInnermostOuterBranchIndex :: "string \<Rightarrow> nat option" where
  "extractInnermostOuterBranchIndex clonedId =
     (case all_matches OUTER_BRANCH clonedId of [] \<Rightarrow> None | ms \<Rightarrow> Some (parse_nat (last ms)))"

definition stripOuterBranchSuffix :: "string \<Rightarrow> string" where
  "stripOuterBranchSuffix i = strip_all CLONE_DIGEST (strip_all OUTER_BRANCH i)"

definition stripCloneSuffixes :: "string \<Rightarrow> string" where
  "stripCloneSuffixes nodeId =
     extractBaseBlockId (strip_all CLONE_DIGEST (strip_all OUTER_BRANCH nodeId))"

definition buildOuterBranchScopedId :: "string \<Rightarrow> nat \<Rightarrow> string" where
  "buildOuterBranchScopedId originalId branchIndex = originalId @ OBRANCH_LIT @ show_nat branchIndex"

definition hasCloneMarker :: "string \<Rightarrow> bool" where
  "hasCloneMarker i \<longleftrightarrow> includes_str i ''__clone''"

definition normalizeNodeId :: "string \<Rightarrow> string" where
  "normalizeNodeId nodeId =
     (if isBranchNodeId nodeId then extractBaseBlockId nodeId
      else if isLoopSentinelNodeId nodeId
      then (case extractLoopIdFromSentinel nodeId of Some x \<Rightarrow> x | None \<Rightarrow> nodeId)
      else if isParallelSentinelNodeId nodeId
      then (case extractParallelIdFromSentinel nodeId of Some x \<Rightarrow> x | None \<Rightarrow> nodeId)
      else nodeId)"

text \<open>The three scans of \<open>findEffectiveContainerId\<close> over the keys of the execution map.\<close>

definition find_clone_scope :: "string \<Rightarrow> nat \<Rightarrow> (string \<Rightarrow> bool) \<Rightarrow> string list \<Rightarrow> string option" where
  "find_clone_scope originalId idx extra ks =
     List.find (\<lambda>k. extra k \<and> ends_with k (OBRANCH_LIT @ show_nat idx) \<and>
                    stripOuterBranchSuffix k = originalId) ks"

definition find_scoped_or_clone :: "string \<Rightarrow> nat \<Rightarrow> string list \<Rightarrow> string option" where
  "find_scoped_or_clone originalId idx ks =
     (if buildOuterBranchScopedId originalId idx \<in> set ks
      then Some (buildOuterBranchScopedId originalId idx)
      else find_clone_scope originalId idx (\<lambda>_. True) ks)"

definition findEffectiveContainerId ::
  "string \<Rightarrow> string \<Rightarrow> string list \<Rightarrow> nat option \<Rightarrow> string" where
  "findEffectiveContainerId originalId currentNodeId ks mapped =
     (let mappedHit =
        (case mapped of
           Some n \<Rightarrow> if n > 0 then find_scoped_or_clone originalId n ks else None
         | None \<Rightarrow> None)
      in case mappedHit of
           Some k \<Rightarrow> k
         | None \<Rightarrow>
             (case extractOuterBranchIndex currentNodeId of
                None \<Rightarrow> originalId
              | Some idx \<Rightarrow>
                  (case (if hasCloneMarker currentNodeId
                         then find_clone_scope originalId idx hasCloneMarker ks else None) of
                     Some k \<Rightarrow> k
                   | None \<Rightarrow>
                       (case find_scoped_or_clone originalId idx ks of
                          Some k \<Rightarrow> k
                        | None \<Rightarrow> originalId))))"

definition normalizeLookupId :: "string \<Rightarrow> string" where
  "normalizeLookupId i = strip_all LOOP_DIGEST (strip_all BRANCH_SEG i)"

definition extractBranchSuffix :: "string \<Rightarrow> string" where
  "extractBranchSuffix i =
     (case first_match BRANCH_SEG i of
        Some d \<Rightarrow> BRANCH_PREFIX @ d @ BRANCH_SUFFIX | None \<Rightarrow> [])"

definition extractLoopSuffix :: "string \<Rightarrow> string" where
  "extractLoopSuffix i = (case first_match LOOP_DIGEST i of Some d \<Rightarrow> ''_loop'' @ d | None \<Rightarrow> [])"


section \<open>Round trips\<close>

text \<open>
  An id format is a builder and a parser; the parser recovers what was built for the
  valid components. Injectivity of the builder, and that distinct components give
  distinct ids, follow once for all formats.
\<close>

locale id_format =
  fixes build :: "'a \<Rightarrow> string"
    and parse :: "string \<Rightarrow> 'a option"
    and valid :: "'a \<Rightarrow> bool"
  assumes parse_build: "valid a \<Longrightarrow> parse (build a) = Some a"
begin

lemma build_inj: "valid a \<Longrightarrow> valid b \<Longrightarrow> build a = build b \<longleftrightarrow> a = b"
  by (metis option.inject parse_build)

lemma inj_on_build: "inj_on build {a. valid a}"
  by (rule inj_onI) (simp add: build_inj)

lemma distinct_builds:
  assumes "distinct xs" and "\<forall>a \<in> set xs. valid a"
  shows "distinct (map build xs)"
proof -
  have "inj_on build (set xs)"
    using inj_on_build by (rule inj_on_subset) (use assms(2) in auto)
  with assms(1) show ?thesis
    by (simp add: distinct_map)
qed

lemma parse_eq_iff: "valid a \<Longrightarrow> valid b \<Longrightarrow> parse (build a) = Some b \<longleftrightarrow> a = b"
  using parse_build by simp

end

subsection \<open>Branch ids\<close>

lemma digit_not_bracket:
  "is_digit c \<Longrightarrow> c \<noteq> CHR 0xE2 \<and> c \<noteq> CHR 0x8D \<and> c \<noteq> CHR 0x8E \<and> c \<noteq> CHR 0x82"
  by (auto simp: is_digit_def)

lemma takeWhile_all_append:
  "\<forall>x \<in> set xs. P x \<Longrightarrow> (ys = [] \<or> \<not> P (hd ys)) \<Longrightarrow> takeWhile P (xs @ ys) = xs"
  by (induction xs) (auto simp: takeWhile_eq_Nil_iff)

lemma dropWhile_all_append:
  "\<forall>x \<in> set xs. P x \<Longrightarrow> (ys = [] \<or> \<not> P (hd ys)) \<Longrightarrow> dropWhile P (xs @ ys) = ys"
  by (induction xs) (auto simp: dropWhile_eq_self_iff)

lemma match_branch_end_build [simp]:
  "match_branch_end (buildBranchNodeId b i) = Some (b, show_nat i)"
proof -
  let ?r = "rev (show_nat i) @ rev BRANCH_PREFIX @ rev b"
  have hd: "\<not> is_digit (hd (rev BRANCH_PREFIX @ rev b))"
    by (simp add: BRANCH_PREFIX_def is_digit_def)
  have tw: "takeWhile is_digit ?r = rev (show_nat i)"
    by (rule takeWhile_all_append) (use hd show_nat_digits in auto)
  have dw: "dropWhile is_digit ?r = rev BRANCH_PREFIX @ rev b"
    by (rule dropWhile_all_append) (use hd show_nat_digits in auto)
  have cut: "rev (take (length (buildBranchNodeId b i) - length BRANCH_SUFFIX) (buildBranchNodeId b i)) = ?r"
    by (simp add: buildBranchNodeId_def)
  have suf: "suffix BRANCH_SUFFIX (buildBranchNodeId b i)"
    by (simp add: buildBranchNodeId_def suffix_def)
  show ?thesis
    unfolding match_branch_end_def cut Let_def tw dw
    using suf by simp
qed

lemma extractBaseBlockId_build [simp, js_simps]: "extractBaseBlockId (buildBranchNodeId b i) = b"
  by (simp add: extractBaseBlockId_def)

lemma extractBranchIndex_build [simp, js_simps]: "extractBranchIndex (buildBranchNodeId b i) = Some i"
  by (simp add: extractBranchIndex_def)

lemma isBranchNodeId_build [simp, js_simps]: "isBranchNodeId (buildBranchNodeId b i)"
  by (simp add: isBranchNodeId_def)

definition parse_branch :: "string \<Rightarrow> (string \<times> nat) option" where
  "parse_branch s = map_option (\<lambda>i. (extractBaseBlockId s, i)) (extractBranchIndex s)"

interpretation branch_id: id_format "\<lambda>(b, i). buildBranchNodeId b i" parse_branch "\<lambda>_. True"
  by unfold_locales (auto simp: parse_branch_def)

subsection \<open>Sentinel ids\<close>

text \<open>A greedy run that reaches the end of the string finds the last occurrence.\<close>

lemma greedy_split_skip:
  assumes "\<forall>k. length x < k \<and> k \<le> n \<longrightarrow> \<not> prefix suf (drop k (x @ suf))" and "length x \<le> n" and "x \<noteq> []"
  shows "greedy_split suf (x @ suf) n = Some x"
  using assms
proof (induction n)
  case 0
  then show ?case by simp
next
  case (Suc n)
  show ?case
  proof (cases "length x = Suc n")
    case True
    then show ?thesis by simp
  next
    case False
    with Suc.prems show ?thesis
      by (simp add: Suc.IH)
  qed
qed

lemma greedy_split_whole:
  assumes "x \<noteq> []" and "suf \<noteq> []" and "length x \<le> n" and "n \<le> length x + length suf"
  shows "greedy_split suf (x @ suf) n = Some x"
proof (rule greedy_split_skip)
  show "\<forall>k. length x < k \<and> k \<le> n \<longrightarrow> \<not> prefix suf (drop k (x @ suf))"
  proof (intro allI impI notI)
    fix k assume k: "length x < k \<and> k \<le> n" and p: "prefix suf (drop k (x @ suf))"
    from p have "length suf \<le> length (drop k (x @ suf))"
      by (rule prefix_length_le)
    with k show False
      using assms(2) by (cases "length suf") auto
  qed
qed (use assms in auto)

definition dot_clean :: "string \<Rightarrow> bool" where
  "dot_clean x \<longleftrightarrow> dot_run x = x"

lemma dot_run_append:
  assumes "dot_clean x" and "s \<noteq> []" and "hd s = CHR ''-''"
  shows "dot_run (x @ s) = x @ dot_run s"
proof -
  have step: "line_term_at (c # xs @ s) \<longleftrightarrow> line_term_at (c # xs)" for c xs
    using assms(2,3) by (cases xs; cases "tl xs"; cases s) (auto simp: line_term_at_def)
  have "dot_run x = x \<Longrightarrow> dot_run (x @ s) = x @ dot_run s"
    by (induction x) (auto simp: step split: if_splits)
  with assms(1) show ?thesis by (simp add: dot_clean_def)
qed

lemma dot_run_suffixes: "dot_run START_SUFFIX = START_SUFFIX" "dot_run END_SUFFIX = END_SUFFIX"
  by (simp_all add: START_SUFFIX_def END_SUFFIX_def line_term_at_def)

lemma extract_between_first: "between_at pre suf s = Some x \<Longrightarrow> extract_between pre suf s = Some x"
  by (cases s) auto

lemma extract_between_build:
  assumes "dot_clean x" and "x \<noteq> []" and "suf = START_SUFFIX \<or> suf = END_SUFFIX"
  shows "extract_between pre suf (pre @ x @ suf) = Some x"
proof (rule extract_between_first)
  have suf: "suf \<noteq> []" "hd suf = CHR ''-''" "dot_run suf = suf"
    using assms(3) dot_run_suffixes by (auto simp: START_SUFFIX_def END_SUFFIX_def)
  have "dot_run (x @ suf) = x @ suf"
    using dot_run_append [OF assms(1) suf(1,2)] suf(3) by simp
  then show "between_at pre suf (pre @ x @ suf) = Some x"
    using greedy_split_whole [OF assms(2) suf(1)] by (simp add: between_at_def)
qed

text \<open>
  A container id survives the sentinel round trip when it is non-empty and has no line
  terminator; for the end sentinel it must also not complete a start suffix, because the
  parser tries the start pattern first.
\<close>

definition container_id :: "string \<Rightarrow> bool" where
  "container_id x \<longleftrightarrow> x \<noteq> [] \<and> dot_clean x"

definition end_container_id :: "string \<Rightarrow> string \<Rightarrow> bool" where
  "end_container_id pre x \<longleftrightarrow>
     container_id x \<and> extract_between pre START_SUFFIX (pre @ x @ END_SUFFIX) = None"

lemma extract_loop_start: "container_id x \<Longrightarrow> extractLoopIdFromSentinel (buildSentinelStartId x) = Some x"
  by (simp add: container_id_def extractLoopIdFromSentinel_def buildSentinelStartId_def extract_between_build)

lemma extract_loop_end:
  "end_container_id LOOP_PREFIX x \<Longrightarrow> extractLoopIdFromSentinel (buildSentinelEndId x) = Some x"
  by (simp add: end_container_id_def container_id_def extractLoopIdFromSentinel_def
      buildSentinelEndId_def extract_between_build)

lemma extract_parallel_start:
  "container_id x \<Longrightarrow> extractParallelIdFromSentinel (buildParallelSentinelStartId x) = Some x"
  by (simp add: container_id_def extractParallelIdFromSentinel_def buildParallelSentinelStartId_def
      extract_between_build)

lemma extract_parallel_end:
  "end_container_id PARALLEL_PREFIX x \<Longrightarrow>
   extractParallelIdFromSentinel (buildParallelSentinelEndId x) = Some x"
  by (simp add: end_container_id_def container_id_def extractParallelIdFromSentinel_def
      buildParallelSentinelEndId_def extract_between_build)

interpretation loop_start: id_format buildSentinelStartId extractLoopIdFromSentinel container_id
  by unfold_locales (rule extract_loop_start)

interpretation loop_end: id_format buildSentinelEndId extractLoopIdFromSentinel "end_container_id LOOP_PREFIX"
  by unfold_locales (rule extract_loop_end)

interpretation parallel_start: id_format buildParallelSentinelStartId extractParallelIdFromSentinel container_id
  by unfold_locales (rule extract_parallel_start)

interpretation parallel_end: id_format buildParallelSentinelEndId extractParallelIdFromSentinel
  "end_container_id PARALLEL_PREFIX"
  by unfold_locales (rule extract_parallel_end)

text \<open>The builders are injective without any side condition, and never confuse the two ends
  or the two kinds of container.\<close>

lemma sentinel_inj [simp]:
  "buildSentinelStartId x = buildSentinelStartId y \<longleftrightarrow> x = y"
  "buildSentinelEndId x = buildSentinelEndId y \<longleftrightarrow> x = y"
  "buildParallelSentinelStartId x = buildParallelSentinelStartId y \<longleftrightarrow> x = y"
  "buildParallelSentinelEndId x = buildParallelSentinelEndId y \<longleftrightarrow> x = y"
  by (simp_all add: sentinel_id_defs)

lemma last_eq_of_append: "xs @ ys = us @ vs \<Longrightarrow> ys \<noteq> [] \<Longrightarrow> vs \<noteq> [] \<Longrightarrow> last ys = last vs"
  by (metis last_appendR)

lemma start_neq_end [simp]:
  "buildSentinelStartId x \<noteq> buildSentinelEndId y"
  "buildSentinelEndId y \<noteq> buildSentinelStartId x"
  "buildParallelSentinelStartId x \<noteq> buildParallelSentinelEndId y"
  "buildParallelSentinelEndId y \<noteq> buildParallelSentinelStartId x"
  using last_eq_of_append [of "LOOP_PREFIX @ x" START_SUFFIX "LOOP_PREFIX @ y" END_SUFFIX]
    last_eq_of_append [of "PARALLEL_PREFIX @ x" START_SUFFIX "PARALLEL_PREFIX @ y" END_SUFFIX]
  by (auto simp: sentinel_id_defs id_template_defs)

lemma loop_neq_parallel [simp]:
  "buildSentinelStartId x \<noteq> buildParallelSentinelStartId y"
  "buildSentinelStartId x \<noteq> buildParallelSentinelEndId y"
  "buildSentinelEndId x \<noteq> buildParallelSentinelStartId y"
  "buildSentinelEndId x \<noteq> buildParallelSentinelEndId y"
  by (simp_all add: sentinel_id_defs id_template_defs)

lemma sentinel_predicates [simp]:
  "isLoopSentinelNodeId (buildSentinelStartId x)" "isLoopSentinelNodeId (buildSentinelEndId x)"
  "isParallelSentinelNodeId (buildParallelSentinelStartId x)"
  "isParallelSentinelNodeId (buildParallelSentinelEndId x)"
  by (simp_all add: isLoopSentinelNodeId_def isParallelSentinelNodeId_def sentinel_id_defs
      starts_with_def ends_with_def suffix_def)

lemma sentinel_kinds_exclusive: "isLoopSentinelNodeId i \<Longrightarrow> \<not> isParallelSentinelNodeId i"
  by (auto simp: isLoopSentinelNodeId_def isParallelSentinelNodeId_def starts_with_def prefix_def
      id_template_defs)

lemma not_branch_if_suffix:
  "suffix suf i \<Longrightarrow> suf \<noteq> [] \<Longrightarrow> last suf \<noteq> CHR 0x8E \<Longrightarrow> \<not> isBranchNodeId i"
  by (auto simp: isBranchNodeId_def match_branch_end_def BRANCH_SUFFIX_def suffix_def
      dest: last_eq_of_append)

lemma sentinel_not_branch [simp]:
  "\<not> isBranchNodeId (buildSentinelStartId x)" "\<not> isBranchNodeId (buildSentinelEndId x)"
  "\<not> isBranchNodeId (buildParallelSentinelStartId x)" "\<not> isBranchNodeId (buildParallelSentinelEndId x)"
  by (rule not_branch_if_suffix [of START_SUFFIX] not_branch_if_suffix [of END_SUFFIX];
      simp add: sentinel_id_defs suffix_def id_template_defs)+

lemma parallel_not_loop_sentinel [simp]:
  "\<not> isLoopSentinelNodeId (buildParallelSentinelStartId x)"
  "\<not> isLoopSentinelNodeId (buildParallelSentinelEndId x)"
  using sentinel_kinds_exclusive sentinel_predicates by blast+

lemma normalizeNodeId_branch [simp]: "normalizeNodeId (buildBranchNodeId b i) = b"
  by (simp add: normalizeNodeId_def)

lemma normalizeNodeId_loop_start: "container_id x \<Longrightarrow> normalizeNodeId (buildSentinelStartId x) = x"
  by (simp add: normalizeNodeId_def extract_loop_start)

lemma normalizeNodeId_parallel_start:
  "container_id x \<Longrightarrow> normalizeNodeId (buildParallelSentinelStartId x) = x"
  by (simp add: normalizeNodeId_def extract_parallel_start)

lemma normalizeNodeId_loop_end:
  "end_container_id LOOP_PREFIX x \<Longrightarrow> normalizeNodeId (buildSentinelEndId x) = x"
  by (simp add: normalizeNodeId_def extract_loop_end)

lemma normalizeNodeId_parallel_end:
  "end_container_id PARALLEL_PREFIX x \<Longrightarrow> normalizeNodeId (buildParallelSentinelEndId x) = x"
  by (simp add: normalizeNodeId_def extract_parallel_end)

subsection \<open>Outer-branch ids\<close>

text \<open>
  A literal has no border when no proper non-empty suffix of it is a prefix of it; then
  an occurrence of the literal cannot straddle the end of the original id.
\<close>

definition borderless :: "string \<Rightarrow> bool" where
  "borderless p \<longleftrightarrow> (\<forall>n \<in> set [1..<length p]. \<not> prefix (drop n p) p)"

lemma borderless_straddle:
  assumes "borderless p" and "t \<noteq> []" and "prefix p (t @ p @ r)"
  shows "prefix p t"
proof (rule ccontr)
  assume np: "\<not> prefix p t"
  have "prefix p (t @ p @ r)" and "prefix t (t @ p @ r)"
    using assms(3) by simp_all
  then have "prefix t p"
    using np prefix_same_cases by blast
  then obtain u where u: "p = t @ u" "u \<noteq> []"
    using np by (auto simp: prefix_def)
  have "prefix u (p @ r)"
    using assms(3) u by (metis append.assoc same_prefix_prefix)
  moreover have "length u < length p"
    using u assms(2) by simp
  ultimately have "prefix u p"
    by (metis append_eq_append_conv_if less_imp_le prefix_def prefix_length_prefix prefixI)
  moreover have "drop (length t) p = u" and "length t \<in> set [1..<length p]"
    using u assms(2) by (auto simp: Suc_le_eq)
  ultimately show False
    using assms(1) by (auto simp: borderless_def)
qed


lemma obranch_borderless: "borderless OBRANCH_LIT"
  by (simp add: borderless_def OBRANCH_LIT_def upt_rec)

lemma match_at_prefix: "match_at p s = Some m \<Longrightarrow> prefix (seg_lit p) (map (seg_fold p) s)"
  by (metis match_at_def option.distinct(1) take_is_prefix take_map)

lemma match_at_run:
  "seg_fold p = id \<Longrightarrow> seg_close p = [] \<Longrightarrow> ds \<noteq> [] \<Longrightarrow> \<forall>c \<in> set ds. seg_class p c \<Longrightarrow>
   match_at p (seg_lit p @ ds) = Some (ds, [])"
  by (simp add: match_at_def Let_def takeWhile_eq_all_conv [THEN iffD2] dropWhile_eq_Nil_conv [THEN iffD2])

lemma match_at_Nil: "match_at p [] = None"
  by (simp add: match_at_def)

lemma strip_all_Nil [simp]: "strip_all p [] = []"
  by (subst strip_all.simps) (simp add: match_at_Nil)

lemma OUTER_BRANCH_sel [simp]:
  "seg_fold OUTER_BRANCH = id" "seg_lit OUTER_BRANCH = OBRANCH_LIT"
  "seg_class OUTER_BRANCH = is_digit" "seg_close OUTER_BRANCH = []"
  by (simp_all add: OUTER_BRANCH_def)

lemma CLONE_DIGEST_sel [simp]:
  "seg_fold CLONE_DIGEST = ascii_lower" "seg_lit CLONE_DIGEST = ''__clone''"
  by (simp_all add: CLONE_DIGEST_def)

definition plain_outer :: "string \<Rightarrow> bool" where
  "plain_outer i \<longleftrightarrow> \<not> sublist OBRANCH_LIT i \<and> \<not> sublist ''__clone'' (map ascii_lower i)"

lemma match_outer_digits:
  "match_at OUTER_BRANCH (OBRANCH_LIT @ show_nat n) = Some (show_nat n, [])"
  using match_at_run [of OUTER_BRANCH "show_nat n"] show_nat_digits by simp

lemma match_outer_skip:
  assumes "\<not> sublist OBRANCH_LIT (c # cs)"
  shows "match_at OUTER_BRANCH (c # cs @ OBRANCH_LIT @ ds) = None"
proof (cases "match_at OUTER_BRANCH (c # cs @ OBRANCH_LIT @ ds)")
  case (Some m)
  then have "prefix OBRANCH_LIT ((c # cs) @ OBRANCH_LIT @ ds)"
    using match_at_prefix [OF Some] by simp
  then have "prefix OBRANCH_LIT (c # cs)"
    using borderless_straddle [OF obranch_borderless, of "c # cs" ds] by simp
  with assms show ?thesis by (simp add: prefix_imp_sublist)
qed

lemma not_sublist_tl: "\<not> sublist p (c # cs) \<Longrightarrow> \<not> sublist p cs"
  by (auto simp: sublist_Cons_right)

lemma strip_outer_build:
  "\<not> sublist OBRANCH_LIT i \<Longrightarrow> strip_all OUTER_BRANCH (i @ OBRANCH_LIT @ show_nat n) = i"
proof (induction i)
  case Nil
  show ?case
    by (subst strip_all.simps) (simp add: match_outer_digits)
next
  case (Cons c cs)
  then show ?case
    using match_outer_skip [OF Cons.prems] not_sublist_tl [OF Cons.prems]
    by (subst strip_all.simps) simp
qed

lemma first_match_hit: "match_at p s = Some (d, r) \<Longrightarrow> first_match p s = Some d"
  by (cases s) simp_all

lemma first_outer_build:
  "\<not> sublist OBRANCH_LIT i \<Longrightarrow>
   first_match OUTER_BRANCH (i @ OBRANCH_LIT @ show_nat n) = Some (show_nat n)"
proof (induction i)
  case Nil
  show ?case
    using first_match_hit [OF match_outer_digits] by simp
next
  case (Cons c cs)
  then show ?case
    using match_outer_skip [OF Cons.prems] not_sublist_tl [OF Cons.prems] by simp
qed

lemma match_at_absent: "\<not> sublist (seg_lit p) (map (seg_fold p) s) \<Longrightarrow> match_at p s = None"
  using match_at_prefix [of p s] prefix_imp_sublist by (cases "match_at p s") auto

lemma strip_all_absent: "\<not> sublist (seg_lit p) (map (seg_fold p) s) \<Longrightarrow> strip_all p s = s"
proof (induction s)
  case Nil
  then show ?case by simp
next
  case (Cons c cs)
  then have "match_at p (c # cs) = None" "strip_all p cs = cs"
    using match_at_absent [of p "c # cs"] by (simp_all add: not_sublist_tl [of "seg_lit p" "seg_fold p c"])
  then show ?case by (subst strip_all.simps) simp
qed

lemma first_match_absent: "\<not> sublist (seg_lit p) (map (seg_fold p) s) \<Longrightarrow> first_match p s = None"
proof (induction s)
  case Nil
  then show ?case using match_at_absent [of p "[]"] by simp
next
  case (Cons c cs)
  then have "match_at p (c # cs) = None" "first_match p cs = None"
    using match_at_absent [of p "c # cs"] by (simp_all add: not_sublist_tl [of "seg_lit p" "seg_fold p c"])
  then show ?case by simp
qed

lemma sublist_append_foreign:
  assumes "sublist p (xs @ ys)" and "p \<noteq> []" and "last p \<notin> set ys"
  shows "sublist p xs"
proof -
  consider "sublist p xs" | "sublist p ys" | p1 p2 where "p = p1 @ p2" "suffix p1 xs" "prefix p2 ys"
    using assms(1) by (auto simp: sublist_append)
  then show ?thesis
  proof cases
    case 2
    then have "set p \<subseteq> set ys" by (rule set_mono_sublist)
    with assms(2,3) last_in_set show ?thesis by blast
  next
    case 3
    show ?thesis
    proof (cases "p2 = []")
      case True
      with 3 show ?thesis by (simp add: suffix_imp_sublist)
    next
      case False
      with 3 have "last p \<in> set p2" by simp
      with 3(3) assms(3) show ?thesis using set_mono_prefix by blast
    qed
  qed
qed

lemma strip_clone_plain: "\<not> sublist ''__clone'' (map ascii_lower i) \<Longrightarrow> strip_all CLONE_DIGEST i = i"
  by (rule strip_all_absent) simp

lemma stripOuterBranchSuffix_build:
  "plain_outer i \<Longrightarrow> stripOuterBranchSuffix (buildOuterBranchScopedId i n) = i"
  by (simp add: plain_outer_def stripOuterBranchSuffix_def buildOuterBranchScopedId_def
      strip_outer_build strip_clone_plain)

lemma extractOuterBranchIndex_build:
  "plain_outer i \<Longrightarrow> extractOuterBranchIndex (buildOuterBranchScopedId i n) = Some n"
  by (simp add: plain_outer_def extractOuterBranchIndex_def buildOuterBranchScopedId_def
      first_outer_build)

definition parse_outer :: "string \<Rightarrow> (string \<times> nat) option" where
  "parse_outer s = map_option (\<lambda>n. (stripOuterBranchSuffix s, n)) (extractOuterBranchIndex s)"

interpretation outer_id: id_format "\<lambda>(i, n). buildOuterBranchScopedId i n" parse_outer
  "\<lambda>(i, n). plain_outer i"
  by unfold_locales
     (auto simp: parse_outer_def stripOuterBranchSuffix_build extractOuterBranchIndex_build)

section \<open>Container scopes\<close>

lemma find_clone_scope_props:
  "find_clone_scope i n extra ks = Some k \<Longrightarrow> k \<in> set ks \<and> stripOuterBranchSuffix k = i"
  by (auto simp: find_clone_scope_def find_Some_iff)

lemma find_scoped_or_clone_props:
  "find_scoped_or_clone i n ks = Some k \<Longrightarrow>
   k \<in> set ks \<and> (k = buildOuterBranchScopedId i n \<or> stripOuterBranchSuffix k = i)"
  by (auto simp: find_scoped_or_clone_def split: if_splits dest: find_clone_scope_props)

text \<open>
  every node id the builders produce is mapped back to the workflow-level id it was
  built from: branch ids by \<open>normalizeNodeId\<close> for any base id, sentinel ids for every
  container id without a line terminator, and outer-branch ids by
  \<open>stripOuterBranchSuffix\<close> together with their branch index.
\<close>

theorem node_id_roundtrip:
  assumes "container_id x" and "end_container_id LOOP_PREFIX x"
    and "end_container_id PARALLEL_PREFIX x" and "plain_outer x"
  shows "normalizeNodeId (buildBranchNodeId b i) = b \<and> extractBranchIndex (buildBranchNodeId b i) = Some i \<and>
    normalizeNodeId (buildSentinelStartId x) = x \<and> normalizeNodeId (buildSentinelEndId x) = x \<and>
    normalizeNodeId (buildParallelSentinelStartId x) = x \<and>
    normalizeNodeId (buildParallelSentinelEndId x) = x \<and>
    stripOuterBranchSuffix (buildOuterBranchScopedId x n) = x \<and>
    extractOuterBranchIndex (buildOuterBranchScopedId x n) = Some n"
  using assms
  by (simp add: normalizeNodeId_loop_start normalizeNodeId_loop_end normalizeNodeId_parallel_start
      normalizeNodeId_parallel_end stripOuterBranchSuffix_build extractOuterBranchIndex_build)

theorem node_id_roundtrip_witness:
  "normalizeNodeId (buildBranchNodeId ''b'' 12) = ''b'' \<and>
   normalizeNodeId (buildSentinelEndId ''l1'') = ''l1'' \<and>
   extractOuterBranchIndex (buildOuterBranchScopedId ''l1'' 3) = Some 3"
proof -
  have "container_id ''l1''" and "end_container_id LOOP_PREFIX ''l1''"
    and "end_container_id PARALLEL_PREFIX ''l1''" and "plain_outer ''l1''"
    by code_simp+
  from node_id_roundtrip [OF this, of "''b''" 12 3] show ?thesis by blast
qed

text \<open>
  the container scope a node resolves to is the original container or an existing key
  of the execution map that is a clone of it: a lookup never leaves the container's family.
\<close>

theorem findEffectiveContainerId_in_family:
  "findEffectiveContainerId i cur ks mapped = i \<or>
   findEffectiveContainerId i cur ks mapped \<in> set ks \<and>
   (stripOuterBranchSuffix (findEffectiveContainerId i cur ks mapped) = i \<or>
    (\<exists>n. findEffectiveContainerId i cur ks mapped = buildOuterBranchScopedId i n))"
proof -
  note props = find_clone_scope_props find_scoped_or_clone_props
  show ?thesis
    unfolding findEffectiveContainerId_def Let_def
    by (auto split: option.splits if_splits dest!: props)
qed

end
