(* ===== verification/Worklist.thy ===== *)
theory Worklist
  imports Prelude
begin

text \<open>
  The breadth-first worklist loop that \<open>PathConstructor.performBFS\<close> and
  \<open>computeExecutionSets\<close> share: take the first element of the queue, and append to the
  queue and to the visited set every neighbour that is not visited yet. The graph is given
  by its adjacency map. The loop of \<open>performBFS\<close> stops at an empty id; the \<open>halt\<close>
  argument is that test. Termination: every round either visits a new node of the finite
  graph or shortens the queue.
\<close>

type_synonym adjacency = "(string, string list) jsmap"

definition succs :: "adjacency \<Rightarrow> string \<Rightarrow> string list" where
  "succs adj x = (case mget adj x of None \<Rightarrow> [] | Some ys \<Rightarrow> ys)"

fun visit :: "string list \<Rightarrow> string list \<Rightarrow> string list \<Rightarrow> string list \<times> string list" where
  "visit [] seen q = (seen, q)"
| "visit (y # ys) seen q =
     (if y \<in> set seen then visit ys seen q else visit ys (seen @ [y]) (q @ [y]))"

definition universe :: "adjacency \<Rightarrow> string set" where
  "universe adj = set (concat (map snd adj))"

lemma finite_universe [simp]: "finite (universe adj)"
  by (simp add: universe_def)

lemma succs_universe: "set (succs adj x) \<subseteq> universe adj"
proof (cases "mget adj x")
  case None
  then show ?thesis by (simp add: succs_def)
next
  case (Some ys)
  then have "ys \<in> set (map snd adj)"
    by (force dest: mget_in_set)
  with Some show ?thesis by (auto simp: succs_def universe_def)
qed

lemma visit_spec:
  "\<exists>new. visit ys seen q = (seen @ new, q @ new) \<and> set new = set ys - set seen"
proof (induction ys arbitrary: seen q)
  case Nil
  then show ?case by simp
next
  case (Cons y ys)
  show ?case
  proof (cases "y \<in> set seen")
    case True
    with Cons [of seen q] show ?thesis by auto
  next
    case False
    from Cons [of "seen @ [y]" "q @ [y]"] obtain new
      where "visit ys (seen @ [y]) (q @ [y]) = ((seen @ [y]) @ new, (q @ [y]) @ new)"
        and "set new = set ys - set (seen @ [y])"
      by blast
    with False show ?thesis
      by (intro exI [of _ "y # new"]) auto
  qed
qed

function bfs :: "(string \<Rightarrow> bool) \<Rightarrow> adjacency \<Rightarrow> string list \<Rightarrow> string list \<Rightarrow> string list" where
  "bfs halt adj seen [] = seen"
| "bfs halt adj seen (x # q) =
     (if halt x then seen
      else let (seen', q') = visit (succs adj x) seen q in bfs halt adj seen' q')"
  by pat_completeness auto
termination
proof (relation "inv_image (less_than <*lex*> less_than)
    (\<lambda>(h, adj, seen, q). (card (universe adj - set seen), length q))")
  fix halt adj seen x q xa seen' q'
  assume v: "xa = visit (succs adj x) seen q" and p: "(seen', q') = xa"
  obtain new where new: "seen' = seen @ new" "q' = q @ new" "set new = set (succs adj x) - set seen"
    using visit_spec [of "succs adj x" seen q] v p by auto
  have "new = [] \<or> card (universe adj - set seen') < card (universe adj - set seen)"
  proof (cases "new = []")
    case False
    then obtain y where "y \<in> set new" by (cases new) auto
    then have "y \<in> universe adj" "y \<notin> set seen"
      using new(3) succs_universe by auto
    then have "universe adj - set seen' \<subset> universe adj - set seen"
      using \<open>y \<in> set new\<close> new(1) by auto
    then show ?thesis by (simp add: psubset_card_mono)
  qed simp
  moreover have "length q' < length (x # q) \<and> seen' = seen" if "new = []"
    using that new by simp
  ultimately show "((halt, adj, seen', q'), (halt, adj, seen, x # q))
      \<in> inv_image (less_than <*lex*> less_than)
          (\<lambda>(h, adj, seen, q). (card (universe adj - set seen), length q))"
    by auto
qed auto

section \<open>The visited set is the closure\<close>

lemma bfs_step:
  assumes "visit (succs adj x) seen q = (seen @ new, q @ new)"
  shows "bfs halt adj seen (x # q) = (if halt x then seen else bfs halt adj (seen @ new) (q @ new))"
  using assms by simp

lemma bfs_seen_subset: "set seen \<subseteq> set (bfs halt adj seen q)"
proof (induction halt adj seen q rule: bfs.induct)
  case (2 halt adj seen x q)
  obtain new where v: "visit (succs adj x) seen q = (seen @ new, q @ new)"
    using visit_spec by blast
  show ?case
  proof (cases "halt x")
    case False
    have "set (seen @ new) \<subseteq> set (bfs halt adj (seen @ new) (q @ new))"
      using 2 False v by simp
    then show ?thesis unfolding bfs_step [OF v] using False by simp
  qed (simp add: bfs_step [OF v])
qed simp

lemma bfs_sound:
  "y \<in> set (bfs halt adj seen q) \<Longrightarrow>
   y \<in> set seen \<or> (\<exists>x \<in> set q. (\<lambda>a b. b \<in> set (succs adj a))\<^sup>+\<^sup>+ x y)"
proof (induction halt adj seen q rule: bfs.induct)
  case (2 halt adj seen x q)
  let ?E = "\<lambda>a b. b \<in> set (succs adj a)"
  show ?case
  proof (cases "halt x")
    case False
    obtain new where v: "visit (succs adj x) seen q = (seen @ new, q @ new)"
      and new: "set new = set (succs adj x) - set seen"
      using visit_spec by blast
    have "y \<in> set (seen @ new) \<or> (\<exists>z \<in> set (q @ new). ?E\<^sup>+\<^sup>+ z y)"
      using 2 False v by simp
    moreover have "?E\<^sup>+\<^sup>+ x z" if "z \<in> set new" for z
      using that new by auto
    ultimately show ?thesis
      by (auto intro: tranclp_trans)
  qed (use 2 in simp)
qed simp

lemma bfs_closed:
  assumes "\<forall>x \<in> set seen. x \<notin> set q \<longrightarrow> set (succs adj x) \<subseteq> set seen"
    and "\<And>x. x \<in> set q \<union> universe adj \<Longrightarrow> \<not> halt x"
  shows "\<forall>x \<in> set q \<union> set (bfs halt adj seen q). set (succs adj x) \<subseteq> set (bfs halt adj seen q)"
  using assms
proof (induction halt adj seen q rule: bfs.induct)
  case (2 halt adj seen x q)
  obtain new where v: "visit (succs adj x) seen q = (seen @ new, q @ new)"
    and new: "set new = set (succs adj x) - set seen"
    using visit_spec by blast
  have nh: "\<not> halt x" using 2(3) by simp
  have "\<forall>z \<in> set (seen @ new). z \<notin> set (q @ new) \<longrightarrow> set (succs adj z) \<subseteq> set (seen @ new)"
    using 2(2) new by auto
  moreover have "\<not> halt z" if z: "z \<in> set (q @ new) \<union> universe adj" for z
  proof (rule 2(3))
    have "set new \<subseteq> universe adj"
      using new succs_universe [of adj x] by auto
    with z show "z \<in> set (x # q) \<union> universe adj" by auto
  qed
  ultimately have IH: "\<forall>z \<in> set (q @ new) \<union> set (bfs halt adj (seen @ new) (q @ new)).
      set (succs adj z) \<subseteq> set (bfs halt adj (seen @ new) (q @ new))"
    by (rule 2(1) [OF nh v [symmetric] refl])
  have "set (seen @ new) \<subseteq> set (bfs halt adj (seen @ new) (q @ new))"
    by (rule bfs_seen_subset)
  then have "set (succs adj x) \<subseteq> set (bfs halt adj (seen @ new) (q @ new))"
    using new by auto
  with IH show ?case
    unfolding bfs_step [OF v] using nh by auto
qed simp

lemma closed_tranclp:
  assumes "\<forall>x \<in> S. set (succs adj x) \<subseteq> S" and "x \<in> Q" and "\<forall>x \<in> Q. set (succs adj x) \<subseteq> S"
    and "(\<lambda>a b. b \<in> set (succs adj a))\<^sup>+\<^sup>+ x y"
  shows "y \<in> S"
  using assms(4) by (induction rule: tranclp_induct) (use assms(1-3) in auto)

lemma bfs_complete:
  assumes "\<forall>x \<in> set seen. x \<notin> set q \<longrightarrow> set (succs adj x) \<subseteq> set seen"
    and "\<And>x. x \<in> set q \<union> universe adj \<Longrightarrow> \<not> halt x"
  shows "set (bfs halt adj seen q) =
    set seen \<union> {y. \<exists>x \<in> set q. (\<lambda>a b. b \<in> set (succs adj a))\<^sup>+\<^sup>+ x y}"
proof
  show "set (bfs halt adj seen q) \<subseteq>
      set seen \<union> {y. \<exists>x \<in> set q. (\<lambda>a b. b \<in> set (succs adj a))\<^sup>+\<^sup>+ x y}"
    using bfs_sound by blast
  have c: "\<forall>x \<in> set q \<union> set (bfs halt adj seen q). set (succs adj x) \<subseteq> set (bfs halt adj seen q)"
    using assms by (rule bfs_closed)
  show "set seen \<union> {y. \<exists>x \<in> set q. (\<lambda>a b. b \<in> set (succs adj a))\<^sup>+\<^sup>+ x y} \<subseteq>
      set (bfs halt adj seen q)"
    using bfs_seen_subset closed_tranclp [where S = "set (bfs halt adj seen q)" and Q = "set q"] c
    by blast
qed

lemma distinct_visit: "distinct seen \<Longrightarrow> distinct (fst (visit ys seen q))"
  by (induction ys arbitrary: seen q) auto

lemma distinct_bfs: "distinct seen \<Longrightarrow> distinct (bfs halt adj seen q)"
proof (induction halt adj seen q rule: bfs.induct)
  case (2 halt adj seen x q)
  then show ?case
    using distinct_visit [OF 2(2), of "succs adj x" q]
    by (cases "visit (succs adj x) seen q") simp
qed simp

text \<open>
  The contract of a graph that is searched through an adjacency map. A client states its
  edges in its own terms; the search results are then closures of that relation.
\<close>

locale graph_view =
  fixes adj :: "'g \<Rightarrow> adjacency"
    and edge :: "'g \<Rightarrow> string \<Rightarrow> string \<Rightarrow> bool"
  assumes succs_edge: "y \<in> set (succs (adj g) x) \<longleftrightarrow> edge g x y"
begin

lemma succs_rel: "(\<lambda>a b. b \<in> set (succs (adj g) a)) = edge g"
  by (intro ext) (simp add: succs_edge)

lemma search_below:
  assumes "\<forall>x \<in> set seen. x \<notin> set q \<longrightarrow> (\<forall>y. edge g x y \<longrightarrow> y \<in> set seen)"
    and "\<And>x. x \<in> set q \<union> universe (adj g) \<Longrightarrow> \<not> halt x"
  shows "set (bfs halt (adj g) seen q) = set seen \<union> {y. \<exists>x \<in> set q. (edge g)\<^sup>+\<^sup>+ x y}"
proof -
  have "\<forall>x \<in> set seen. x \<notin> set q \<longrightarrow> set (succs (adj g) x) \<subseteq> set seen"
    using assms(1) succs_edge by blast
  from bfs_complete [OF this assms(2)] show ?thesis
    by (simp only: succs_rel)
qed

lemma search_from:
  assumes "\<And>x. x = s \<or> x \<in> universe (adj g) \<Longrightarrow> \<not> halt x"
  shows "set (bfs halt (adj g) [s] [s]) = {y. (edge g)\<^sup>*\<^sup>* s y}"
proof -
  have "set (bfs halt (adj g) [s] [s]) = set [s] \<union> {y. \<exists>x \<in> set [s]. (edge g)\<^sup>+\<^sup>+ x y}"
    by (rule search_below) (use assms in auto)
  then show ?thesis
    by (auto dest: rtranclpD intro: tranclp_into_rtranclp)
qed

end

end
