(* ===== verification/Workflow.thy ===== *)
theory Workflow
  imports NodeIds Worklist
begin

text \<open>
  The data the executor works on: the serialized workflow (\<open>serializer/types.ts\<close>), the
  DAG with its nodes, edges and metadata (\<open>executor/dag/types.ts\<close>, the interfaces of
  \<open>executor/dag/builder.ts\<close>), and the well-formedness invariant of a DAG. A node is
  mutated through its id: the code shares node objects only through the \<open>nodes\<close> map.
  Fields that no modelled operation reads (positions, icons, output schemas) are left out.
\<close>

section \<open>Serialized workflows\<close>

text \<open>A number of the retry settings counts by its floor; infinities and what is not a number
  are \<open>NotFinite\<close>.\<close>

datatype js_number = Finite int | NotFinite

record retry_config =
  rc_enabled :: bool
  rc_maxTries :: "js_number option"
  rc_waitBetweenTriesMs :: "js_number option"

record sblock =
  blk_id :: string
  blk_type :: "string option"
  blk_name :: "string option"
  blk_params :: jobj
  blk_enabled :: bool
  blk_category :: "string option"
  blk_subBlocks :: "jobj option"
  blk_retry :: "retry_config option"

record sconnection =
  con_source :: string
  con_target :: string
  con_sourceHandle :: "string option"
  con_targetHandle :: "string option"

record sloop =
  loop_nodes :: "string list"
  loop_iterations :: int
  loop_type :: "string option"
  loop_forEachItems :: jval
  loop_whileCondition :: "string option"
  loop_doWhileCondition :: "string option"

record sparallel =
  par_nodes :: "string list"
  par_distribution :: jval
  par_count :: "int option"
  par_type :: "string option"
  par_batchSize :: "int option"

record sworkflow =
  wf_blocks :: "sblock list"
  wf_connections :: "sconnection list"
  wf_loops :: "(string, sloop) jsmap"
  wf_parallels :: "(string, sparallel) jsmap"

section \<open>The DAG\<close>

datatype sentinel = SentinelStart | SentinelEnd

datatype subflow = SubLoop | SubParallel

record node_meta =
  m_isParallelBranch :: bool
  m_branchIndex :: "nat option"
  m_branchTotal :: "nat option"
  m_isLoopNode :: bool
  m_isSentinel :: bool
  m_sentinelType :: "sentinel option"
  m_subflowType :: "subflow option"
  m_subflowId :: "string option"
  m_isPauseResponse :: bool
  m_isResumeTrigger :: bool
  m_originalBlockId :: "string option"

definition no_meta :: node_meta where
  "no_meta = \<lparr>m_isParallelBranch = False, m_branchIndex = None, m_branchTotal = None,
     m_isLoopNode = False, m_isSentinel = False, m_sentinelType = None, m_subflowType = None,
     m_subflowId = None, m_isPauseResponse = False, m_isResumeTrigger = False,
     m_originalBlockId = None\<rparr>"

record dag_edge =
  edge_target :: string
  edge_sourceHandle :: "string option"
  edge_targetHandle :: "string option"

record dag_node =
  node_id :: string
  node_block :: sblock
  incomingEdges :: "string list"
  outgoingEdges :: "(string, dag_edge) jsmap"
  metadata :: node_meta

record dag =
  dag_nodes :: "(string, dag_node) jsmap"
  loopConfigs :: "(string, sloop) jsmap"
  parallelConfigs :: "(string, sparallel) jsmap"

definition dnode :: "dag \<Rightarrow> string \<Rightarrow> dag_node option" where
  "dnode d i = mget (dag_nodes d) i"

definition has_node :: "dag \<Rightarrow> string \<Rightarrow> bool" where
  "has_node d i = mhas (dag_nodes d) i"

definition put_node :: "dag_node \<Rightarrow> dag \<Rightarrow> dag" where
  "put_node n d = d\<lparr>dag_nodes := mput (node_id n) n (dag_nodes d)\<rparr>"

text \<open>Mutation of a node in place; nothing happens when the id is unknown.\<close>

definition upd_node :: "string \<Rightarrow> (dag_node \<Rightarrow> dag_node) \<Rightarrow> dag \<Rightarrow> dag" where
  "upd_node i f d =
     (case dnode d i of None \<Rightarrow> d | Some n \<Rightarrow> d\<lparr>dag_nodes := mput i (f n) (dag_nodes d)\<rparr>)"

definition out_edges :: "dag_node \<Rightarrow> dag_edge list" where
  "out_edges n = mvalues (outgoingEdges n)"

lemma dnode_put_node [simp, js_simps]:
  "dnode (put_node n d) i = (if i = node_id n then Some n else dnode d i)"
  by (simp add: dnode_def put_node_def)

lemma dnode_upd_node [simp, js_simps]:
  "dnode (upd_node i f d) j = (if j = i then map_option f (dnode d j) else dnode d j)"
  by (auto simp: upd_node_def dnode_def split: option.splits)

lemma has_node_iff: "has_node d i \<longleftrightarrow> dnode d i \<noteq> None"
  by (simp add: has_node_def dnode_def mhas_def)

lemma has_node_upd [simp, js_simps]: "has_node (upd_node i f d) j = has_node d j"
  by (auto simp: has_node_iff)

lemma has_node_put [simp, js_simps]: "has_node (put_node n d) j \<longleftrightarrow> j = node_id n \<or> has_node d j"
  by (auto simp: has_node_iff)

lemma configs_put_node [simp]:
  "loopConfigs (put_node n d) = loopConfigs d" "parallelConfigs (put_node n d) = parallelConfigs d"
  by (simp_all add: put_node_def)

lemma configs_upd_node [simp]:
  "loopConfigs (upd_node i f d) = loopConfigs d" "parallelConfigs (upd_node i f d) = parallelConfigs d"
  by (simp_all add: upd_node_def split: option.splits)

text \<open>
  A DAG is well formed when its node map is proper, every node is stored under its own
  id, every outgoing edge leads to a node, every incoming entry names a node, and no node
  lists an incoming source twice.
\<close>

definition wf_node :: "dag \<Rightarrow> string \<Rightarrow> dag_node \<Rightarrow> bool" where
  "wf_node d i n \<longleftrightarrow>
     node_id n = i \<and> distinct (incomingEdges n) \<and> mproper (outgoingEdges n) \<and>
     (\<forall>e \<in> set (out_edges n). has_node d (edge_target e)) \<and>
     (\<forall>s \<in> set (incomingEdges n). has_node d s)"

definition wf_dag :: "dag \<Rightarrow> bool" where
  "wf_dag d \<longleftrightarrow> mproper (dag_nodes d) \<and> (\<forall>i n. dnode d i = Some n \<longrightarrow> wf_node d i n)"

lemma wf_dagD: "wf_dag d \<Longrightarrow> dnode d i = Some n \<Longrightarrow> wf_node d i n"
  by (simp add: wf_dag_def)

lemma wf_node_mono:
  "wf_node d i n \<Longrightarrow> (\<And>j. has_node d j \<Longrightarrow> has_node d' j) \<Longrightarrow> wf_node d' i n"
  by (auto simp: wf_node_def)

lemma wf_dag_put_fresh [wf_intros]:
  assumes "wf_dag d" and "incomingEdges n = []" and "outgoingEdges n = []"
  shows "wf_dag (put_node n d)"
proof -
  have "mproper (dag_nodes (put_node n d))"
    using assms(1) by (simp add: wf_dag_def put_node_def)
  moreover have "wf_node (put_node n d) i m" if "dnode (put_node n d) i = Some m" for i m
  proof (cases "i = node_id n")
    case True
    with that assms(2,3) show ?thesis
      by (simp add: wf_node_def out_edges_def mvalues_def)
  next
    case False
    with that have "wf_node d i m"
      using wf_dagD [OF assms(1)] by simp
    then show ?thesis by (rule wf_node_mono) simp
  qed
  ultimately show ?thesis by (simp add: wf_dag_def)
qed

lemma wf_dag_upd [wf_intros]:
  assumes "wf_dag d" and "\<And>n. dnode d i = Some n \<Longrightarrow> wf_node d i n \<Longrightarrow> wf_node d i (f n)"
  shows "wf_dag (upd_node i f d)"
proof -
  have "mproper (dag_nodes (upd_node i f d))"
    using assms(1) by (auto simp: wf_dag_def upd_node_def split: option.splits)
  moreover have "wf_node (upd_node i f d) j m" if "dnode (upd_node i f d) j = Some m" for j m
  proof -
    have "wf_node d j m"
      using that assms(2) wf_dagD [OF assms(1)] by (auto split: if_splits)
    then show ?thesis by (rule wf_node_mono) simp
  qed
  ultimately show ?thesis by (simp add: wf_dag_def)
qed

text \<open>The successor and predecessor views of a DAG, used by the searches.\<close>

definition out_adj :: "dag \<Rightarrow> adjacency" where
  "out_adj d = map (\<lambda>(i, n). (i, map edge_target (out_edges n))) (dag_nodes d)"

definition in_adj :: "dag \<Rightarrow> adjacency" where
  "in_adj d = map (\<lambda>(i, n). (i, incomingEdges n)) (dag_nodes d)"

definition dag_edge_rel :: "dag \<Rightarrow> string \<Rightarrow> string \<Rightarrow> bool" where
  "dag_edge_rel d x y \<longleftrightarrow> (\<exists>n. dnode d x = Some n \<and> y \<in> edge_target ` set (out_edges n))"

definition dag_incoming_rel :: "dag \<Rightarrow> string \<Rightarrow> string \<Rightarrow> bool" where
  "dag_incoming_rel d x y \<longleftrightarrow> (\<exists>n. dnode d x = Some n \<and> y \<in> set (incomingEdges n))"

lemma mget_map_values: "mget (map (\<lambda>(i, n). (i, f n)) m) k = map_option f (mget m k)"
  by (induction m) auto

lemma succs_out_adj:
  "succs (out_adj d) x = (case dnode d x of None \<Rightarrow> [] | Some n \<Rightarrow> map edge_target (out_edges n))"
  by (simp add: succs_def out_adj_def mget_map_values dnode_def split: option.split)

lemma succs_in_adj:
  "succs (in_adj d) x = (case dnode d x of None \<Rightarrow> [] | Some n \<Rightarrow> incomingEdges n)"
  by (simp add: succs_def in_adj_def mget_map_values dnode_def split: option.split)

interpretation downstream: graph_view out_adj dag_edge_rel
proof
  fix y d x
  show "y \<in> set (succs (out_adj d) x) \<longleftrightarrow> dag_edge_rel d x y"
    by (cases "dnode d x") (auto simp: succs_out_adj dag_edge_rel_def)
qed

interpretation incoming: graph_view in_adj dag_incoming_rel
proof
  fix y d x
  show "y \<in> set (succs (in_adj d) x) \<longleftrightarrow> dag_incoming_rel d x y"
    by (cases "dnode d x") (auto simp: succs_in_adj dag_incoming_rel_def)
qed

section \<open>Errors of the DAG construction\<close>

datatype dag_error =
    TriggerDisabled string
  | TriggerNotFound string
  | StartNotConnected subflow

end
