(* ===== verification/Paths.thy ===== *)
theory Paths
  imports Workflow
begin

text \<open>
  \<open>PathConstructor\<close> (\<open>executor/dag/construction/paths.ts\<close>): which trigger a run starts
  from and which blocks are reachable from it. Thrown errors are the left summand.
\<close>

definition block_by_id :: "sworkflow \<Rightarrow> string \<Rightarrow> sblock option" where
  "block_by_id w i = List.find (\<lambda>b. blk_id b = i) (wf_blocks w)"

definition findExplicitTrigger :: "sworkflow \<Rightarrow> string option" where
  "findExplicitTrigger w =
     map_option blk_id
       (List.find (\<lambda>b. blk_enabled b \<and> isTriggerBlockType (blk_type b)) (wf_blocks w))"

definition findRootBlock :: "sworkflow \<Rightarrow> string option" where
  "findRootBlock w =
     (let hasIncoming = set_of_array (map con_target (wf_connections w))
      in map_option blk_id
           (List.find (\<lambda>b. blk_id b \<notin> set hasIncoming \<and> blk_enabled b \<and>
                           \<not> isMetadataOnlyBlockType (blk_type b)) (wf_blocks w)))"

definition enabled_ids :: "sworkflow \<Rightarrow> string list" where
  "enabled_ids w = set_of_array (map blk_id (filter blk_enabled (wf_blocks w)))"

definition getAllEnabledBlocks :: "sworkflow \<Rightarrow> string list" where
  "getAllEnabledBlocks w = enabled_ids w"

definition TRIGGER_SUFFIX :: string where "TRIGGER_SUFFIX = ''__trigger''"

definition resolveResumeTriggerFallback :: "string \<Rightarrow> sworkflow \<Rightarrow> string option" where
  "resolveResumeTriggerFallback triggerBlockId w =
     (if \<not> ends_with triggerBlockId TRIGGER_SUFFIX then None
      else let baseId = take (length triggerBlockId - length TRIGGER_SUFFIX) triggerBlockId;
               normalizedBaseId = extractBaseBlockId baseId;
               candidates = (if baseId = normalizedBaseId then [baseId] else [baseId, normalizedBaseId])
           in List.find (\<lambda>c. block_by_id w c \<noteq> None) candidates)"

definition findTriggerBlock :: "sworkflow \<Rightarrow> string option \<Rightarrow> dag_error + string option" where
  "findTriggerBlock w trig =
     (if \<not> falsy_str trig then
        (case block_by_id w (the trig) of
           Some b \<Rightarrow>
             if \<not> blk_enabled b then
               (if \<not> falsy_str (findExplicitTrigger w) then Inr (findExplicitTrigger w)
                else Inl (TriggerDisabled (the trig)))
             else Inr trig
         | None \<Rightarrow>
             if \<not> falsy_str (resolveResumeTriggerFallback (the trig) w)
             then Inr (resolveResumeTriggerFallback (the trig) w)
             else Inl (TriggerNotFound (the trig)))
      else if \<not> falsy_str (findExplicitTrigger w) then Inr (findExplicitTrigger w)
      else if \<not> falsy_str (findRootBlock w) then Inr (findRootBlock w)
      else Inr None)"

fun add_connections :: "string list \<Rightarrow> sconnection list \<Rightarrow> adjacency \<Rightarrow> adjacency" where
  "add_connections en [] adj = adj"
| "add_connections en (c # cs) adj =
     (if con_source c \<notin> set en \<or> con_target c \<notin> set en then add_connections en cs adj
      else add_connections en cs
             (mput (con_source c) (succs adj (con_source c) @ [con_target c]) adj))"

definition buildAdjacencyMap :: "sworkflow \<Rightarrow> adjacency" where
  "buildAdjacencyMap w = add_connections (enabled_ids w) (wf_connections w) []"

definition performBFS :: "string \<Rightarrow> adjacency \<Rightarrow> string list" where
  "performBFS trig adj = bfs (\<lambda>x. x = []) adj [trig] [trig]"

definition path_execute :: "sworkflow \<Rightarrow> string option \<Rightarrow> bool \<Rightarrow> dag_error + string list" where
  "path_execute w trig includeAllBlocks =
     (if includeAllBlocks then Inr (getAllEnabledBlocks w)
      else (case findTriggerBlock w trig of
              Inl e \<Rightarrow> Inl e
            | Inr t \<Rightarrow>
                if falsy_str t then Inr (getAllEnabledBlocks w)
                else Inr (performBFS (the t) (buildAdjacencyMap w))))"

section \<open>The reachable blocks\<close>

definition enabled_block :: "sworkflow \<Rightarrow> string \<Rightarrow> bool" where
  "enabled_block w i \<longleftrightarrow> (\<exists>b \<in> set (wf_blocks w). blk_id b = i \<and> blk_enabled b)"

text \<open>The reference graph: connections between enabled blocks.\<close>

definition enabled_conn :: "sworkflow \<Rightarrow> string \<Rightarrow> string \<Rightarrow> bool" where
  "enabled_conn w x y \<longleftrightarrow>
     enabled_block w x \<and> enabled_block w y \<and>
     (\<exists>c \<in> set (wf_connections w). con_source c = x \<and> con_target c = y)"

lemma set_enabled_ids [simp]: "set (enabled_ids w) = {i. enabled_block w i}"
  by (auto simp: enabled_ids_def enabled_block_def)

lemma succs_mput [simp]: "succs (mput k v adj) x = (if x = k then v else succs adj x)"
  by (simp add: succs_def)

lemma succs_Nil [simp]: "succs [] x = []"
  by (simp add: succs_def)

lemma add_connections_succs:
  "set (succs (add_connections en cs adj) x) =
     set (succs adj x) \<union> {con_target c | c. c \<in> set cs \<and> con_source c = x \<and>
                                           con_source c \<in> set en \<and> con_target c \<in> set en}"
  by (induction en cs adj rule: add_connections.induct) auto

interpretation connections: graph_view buildAdjacencyMap enabled_conn
proof
  fix y w x
  show "y \<in> set (succs (buildAdjacencyMap w) x) \<longleftrightarrow> enabled_conn w x y"
    unfolding buildAdjacencyMap_def add_connections_succs
    by (auto simp: enabled_conn_def succs_Nil)
qed

lemma mproper_add_connections: "mproper adj \<Longrightarrow> mproper (add_connections en cs adj)"
  by (induction en cs adj rule: add_connections.induct) auto

lemma universe_succs: "mproper adj \<Longrightarrow> x \<in> universe adj \<Longrightarrow> \<exists>k. x \<in> set (succs adj k)"
proof -
  assume p: "mproper adj" and "x \<in> universe adj"
  then obtain k ys where "(k, ys) \<in> set adj" and x: "x \<in> set ys"
    by (auto simp: universe_def)
  then have "mget adj k = Some ys"
    using mget_iff_in_set [OF p] by simp
  with x show ?thesis by (auto simp: succs_def intro!: exI [of _ k])
qed

lemma universe_enabled: "x \<in> universe (buildAdjacencyMap w) \<Longrightarrow> enabled_block w x"
proof -
  assume "x \<in> universe (buildAdjacencyMap w)"
  moreover have "mproper (buildAdjacencyMap w)"
    by (simp add: buildAdjacencyMap_def mproper_add_connections)
  ultimately obtain k where "x \<in> set (succs (buildAdjacencyMap w) k)"
    using universe_succs by blast
  then show "enabled_block w x"
    by (simp add: connections.succs_edge enabled_conn_def)
qed

definition named_blocks :: "sworkflow \<Rightarrow> bool" where
  "named_blocks w \<longleftrightarrow> (\<forall>b \<in> set (wf_blocks w). blk_id b \<noteq> [])"

lemma performBFS_reachable:
  assumes "named_blocks w" and "t \<noteq> []"
  shows "set (performBFS t (buildAdjacencyMap w)) = {y. (enabled_conn w)\<^sup>*\<^sup>* t y}"
  unfolding performBFS_def
proof (rule connections.search_from)
  fix x assume "x = t \<or> x \<in> universe (buildAdjacencyMap w)"
  then show "\<not> x = []"
    using assms universe_enabled [of x w] by (auto simp: named_blocks_def enabled_block_def)
qed

text \<open>
  when the constructor returns without a fallback to all blocks, the result is exactly
  the set of blocks reachable from the resolved trigger over connections whose two ends are
  enabled; with \<open>includeAllBlocks\<close>, or when no trigger exists, it is the set of enabled
  blocks.
\<close>

theorem path_execute_correct:
  assumes "named_blocks w" and "path_execute w trig allBlocks = Inr R"
  shows "(if allBlocks \<or> findTriggerBlock w trig = Inr None then set R = {i. enabled_block w i}
          else \<exists>t. findTriggerBlock w trig = Inr (Some t) \<and> set R = {y. (enabled_conn w)\<^sup>*\<^sup>* t y})"
proof -
  have ne: "findTriggerBlock w trig \<noteq> Inr (Some [])"
    by (auto simp: findTriggerBlock_def split: option.splits if_splits)
  show ?thesis
    using assms(2) ne performBFS_reachable [OF assms(1)]
    by (cases "findTriggerBlock w trig")
       (auto simp: path_execute_def getAllEnabledBlocks_def split: if_splits option.splits)
qed

definition demo_block :: "string \<Rightarrow> string \<Rightarrow> bool \<Rightarrow> sblock" where
  "demo_block i t en = \<lparr>blk_id = i, blk_type = Some t, blk_name = Some i, blk_params = [],
     blk_enabled = en, blk_category = None, blk_subBlocks = None, blk_retry = None\<rparr>"

definition demo_con :: "string \<Rightarrow> string \<Rightarrow> string option \<Rightarrow> sconnection" where
  "demo_con s t h = \<lparr>con_source = s, con_target = t, con_sourceHandle = h, con_targetHandle = None\<rparr>"

definition demo_flow :: sworkflow where
  "demo_flow = \<lparr>wf_blocks = [demo_block ''s'' ''starter'' True, demo_block ''a'' ''agent'' True,
      demo_block ''x'' ''agent'' False, demo_block ''b'' ''agent'' True, demo_block ''u'' ''api'' True],
     wf_connections = [demo_con ''s'' ''a'' None, demo_con ''a'' ''b'' None, demo_con ''s'' ''x'' None,
      demo_con ''x'' ''u'' None],
     wf_loops = [], wf_parallels = []\<rparr>"

theorem path_execute_correct_witness:
  "set [''s'', ''a'', ''b''] = {y. (enabled_conn demo_flow)\<^sup>*\<^sup>* ''s'' y}"
proof -
  have n: "named_blocks demo_flow" by code_simp
  have e: "path_execute demo_flow None False = Inr [''s'', ''a'', ''b'']" by code_simp
  have t: "findTriggerBlock demo_flow None = Inr (Some ''s'')" by code_simp
  from path_execute_correct [OF n e] show ?thesis
    unfolding t by auto
qed

text \<open>
  the constructor fails in exactly two situations, both with an explicit trigger: the
  trigger block is disabled and no enabled trigger block exists, or no block has its id and
  the resume fallback finds no block either.
\<close>

theorem path_execute_error_iff:
  "path_execute w trig allBlocks = Inl e \<longleftrightarrow>
     \<not> allBlocks \<and> (\<exists>t b. trig = Some t \<and> t \<noteq> [] \<and>
       (block_by_id w t = Some b \<and> \<not> blk_enabled b \<and> falsy_str (findExplicitTrigger w) \<and> e = TriggerDisabled t \<or>
        block_by_id w t = None \<and> falsy_str (resolveResumeTriggerFallback t w) \<and> e = TriggerNotFound t))"
  by (cases trig) (auto simp: path_execute_def findTriggerBlock_def split: option.splits if_splits)

end
