(* ===== verification/Nodes.thy ===== *)
theory Nodes
  imports Paths
begin

text \<open>
  The node passes of the DAG construction: sentinel nodes
  (\<open>executor/dag/construction/sentinels.ts\<close>), \<open>LoopConstructor\<close> (\<open>loops.ts\<close>),
  \<open>ParallelConstructor\<close> (\<open>parallels.ts\<close>) and \<open>NodeConstructor\<close> (\<open>nodes.ts\<close>).
  The pause-trigger map of \<open>NodeConstructor.execute\<close> is always empty and is passed on as
  such by the builder.
\<close>

section \<open>Sentinels\<close>

definition createSubflowSentinelNode ::
  "string \<Rightarrow> string \<Rightarrow> subflow \<Rightarrow> sentinel \<Rightarrow> string \<Rightarrow> string \<Rightarrow> dag_node" where
  "createSubflowSentinelNode i subflowId subflowType sentinelType blockType name =
     \<lparr>node_id = i,
      node_block = \<lparr>blk_id = i, blk_type = Some blockType, blk_name = Some name, blk_params = [],
                    blk_enabled = True, blk_category = None, blk_subBlocks = None, blk_retry = None\<rparr>,
      incomingEdges = [], outgoingEdges = [],
      metadata = no_meta\<lparr>m_isSentinel := True, m_sentinelType := Some sentinelType,
                         m_subflowId := Some subflowId, m_subflowType := Some subflowType\<rparr>\<rparr>"

definition createLoopSentinelPair :: "string \<Rightarrow> dag \<Rightarrow> dag" where
  "createLoopSentinelPair loopId d =
     put_node (createSubflowSentinelNode (buildSentinelEndId loopId) loopId SubLoop SentinelEnd
                 ''sentinel_end'' (''Loop End ('' @ loopId @ '')''))
       (put_node (createSubflowSentinelNode (buildSentinelStartId loopId) loopId SubLoop SentinelStart
                    ''sentinel_start'' (''Loop Start ('' @ loopId @ '')'')) d)"

definition createParallelSentinelPair :: "string \<Rightarrow> dag \<Rightarrow> dag" where
  "createParallelSentinelPair parallelId d =
     put_node (createSubflowSentinelNode (buildParallelSentinelEndId parallelId) parallelId SubParallel
                 SentinelEnd ''sentinel_end'' (''Parallel End ('' @ parallelId @ '')''))
       (put_node (createSubflowSentinelNode (buildParallelSentinelStartId parallelId) parallelId
                    SubParallel SentinelStart ''sentinel_start'' (''Parallel Start ('' @ parallelId @ '')'')) d)"

section \<open>Loop and parallel constructors\<close>

fun construct_loops :: "string list \<Rightarrow> (string \<times> sloop) list \<Rightarrow> dag \<Rightarrow> dag" where
  "construct_loops reachable [] d = d"
| "construct_loops reachable ((loopId, cfg) # rest) d =
     (if loopId \<notin> set reachable then construct_loops reachable rest d
      else let d1 = (if \<exists>n \<in> set (loop_nodes cfg). n \<in> set reachable then d
                     else d\<lparr>loopConfigs := mput loopId (cfg\<lparr>loop_nodes := []\<rparr>) (loopConfigs d)\<rparr>)
           in construct_loops reachable rest (createLoopSentinelPair loopId d1))"

definition loop_execute :: "dag \<Rightarrow> string list \<Rightarrow> dag" where
  "loop_execute d reachable = construct_loops reachable (loopConfigs d) d"

fun construct_parallels :: "string list \<Rightarrow> (string \<times> sparallel) list \<Rightarrow> dag \<Rightarrow> dag" where
  "construct_parallels reachable [] d = d"
| "construct_parallels reachable ((parallelId, cfg) # rest) d =
     (if parallelId \<notin> set reachable then construct_parallels reachable rest d
      else let d1 = (if \<exists>n \<in> set (par_nodes cfg). n \<in> set reachable then d
                     else d\<lparr>parallelConfigs := mput parallelId (cfg\<lparr>par_nodes := []\<rparr>) (parallelConfigs d)\<rparr>)
           in construct_parallels reachable rest (createParallelSentinelPair parallelId d1))"

definition parallel_execute :: "dag \<Rightarrow> string list \<Rightarrow> dag" where
  "parallel_execute d reachable = construct_parallels reachable (parallelConfigs d) d"

section \<open>Node constructor\<close>

definition shouldProcessBlock :: "sblock \<Rightarrow> string list \<Rightarrow> bool" where
  "shouldProcessBlock b reachable \<longleftrightarrow>
     blk_enabled b \<and> blk_id b \<in> set reachable \<and> \<not> isMetadataOnlyBlockType (blk_type b)"

definition categorizeLoopBlocks :: "dag \<Rightarrow> string list \<Rightarrow> string list" where
  "categorizeLoopBlocks d reachable =
     set_of_array (filter (\<lambda>n. n \<in> set reachable) (concat (map (loop_nodes \<circ> snd) (loopConfigs d))))"

definition categorizeParallelBlocks :: "dag \<Rightarrow> string list \<Rightarrow> string list" where
  "categorizeParallelBlocks d reachable =
     set_of_array (filter (\<lambda>n. n \<in> set reachable) (concat (map (par_nodes \<circ> snd) (parallelConfigs d))))"

definition findParallelForBlock :: "string \<Rightarrow> dag \<Rightarrow> string option" where
  "findParallelForBlock i d = map_option fst (List.find (\<lambda>(_, cfg). i \<in> set (par_nodes cfg)) (parallelConfigs d))"

text \<open>
  \<open>findLoopIdForBlock\<close> (and the identical \<open>findInnermostLoop\<close> of the edge pass): of
  several loops listing a block, the one that lists none of the others.
\<close>

definition loop_candidates :: "string \<Rightarrow> dag \<Rightarrow> string list" where
  "loop_candidates i d = map fst (filter (\<lambda>(_, cfg). i \<in> set (loop_nodes cfg)) (loopConfigs d))"

definition lists_none_of :: "dag \<Rightarrow> string list \<Rightarrow> string \<Rightarrow> bool" where
  "lists_none_of d cs c \<longleftrightarrow>
     (\<forall>o' \<in> set cs. o' = c \<or>
        (case mget (loopConfigs d) c of None \<Rightarrow> True | Some cfg \<Rightarrow> o' \<notin> set (loop_nodes cfg)))"

definition findLoopIdForBlock :: "string \<Rightarrow> dag \<Rightarrow> string option" where
  "findLoopIdForBlock i d =
     (case loop_candidates i d of
        [] \<Rightarrow> None
      | [c] \<Rightarrow> Some c
      | cs \<Rightarrow> List.find (lists_none_of d cs) cs)"

definition createParallelTemplateNode :: "sblock \<Rightarrow> string \<Rightarrow> dag \<Rightarrow> dag" where
  "createParallelTemplateNode b parallelId d =
     (let templateNodeId = buildBranchNodeId (blk_id b) 0
      in put_node \<lparr>node_id = templateNodeId, node_block = b\<lparr>blk_id := templateNodeId\<rparr>,
           incomingEdges = [], outgoingEdges = [],
           metadata = no_meta\<lparr>m_isParallelBranch := True, m_subflowId := Some parallelId,
             m_subflowType := Some SubParallel, m_branchIndex := Some 0, m_branchTotal := Some 1,
             m_isPauseResponse := isHumanInTheLoopBlock (blk_type b),
             m_originalBlockId := Some (blk_id b)\<rparr>\<rparr> d)"

definition createRegularOrLoopNode :: "sblock \<Rightarrow> string list \<Rightarrow> dag \<Rightarrow> dag" where
  "createRegularOrLoopNode b blocksInLoops d =
     (let isLoopNode = blk_id b \<in> set blocksInLoops;
          loopId = (if isLoopNode then findLoopIdForBlock (blk_id b) d else None)
      in put_node \<lparr>node_id = blk_id b, node_block = b, incomingEdges = [], outgoingEdges = [],
           metadata = no_meta\<lparr>m_isLoopNode := isLoopNode,
             m_subflowId := (if falsy_str loopId then None else loopId),
             m_subflowType := (if falsy_str loopId then None else Some SubLoop),
             m_isPauseResponse := isHumanInTheLoopBlock (blk_type b),
             m_originalBlockId := Some (blk_id b)\<rparr>\<rparr> d)"

fun construct_nodes :: "string list \<Rightarrow> string list \<Rightarrow> sblock list \<Rightarrow> dag \<Rightarrow> dag" where
  "construct_nodes reachable inLoops [] d = d"
| "construct_nodes reachable inLoops (b # bs) d =
     (if \<not> shouldProcessBlock b reachable then construct_nodes reachable inLoops bs d
      else if \<not> falsy_str (findParallelForBlock (blk_id b) d)
      then construct_nodes reachable inLoops bs
             (createParallelTemplateNode b (the (findParallelForBlock (blk_id b) d)) d)
      else construct_nodes reachable inLoops bs (createRegularOrLoopNode b inLoops d))"

definition node_execute :: "sworkflow \<Rightarrow> dag \<Rightarrow> string list \<Rightarrow> dag \<times> string list \<times> string list" where
  "node_execute w d reachable =
     (let blocksInLoops = categorizeLoopBlocks d reachable;
          blocksInParallels = categorizeParallelBlocks d reachable
      in (construct_nodes reachable blocksInLoops (wf_blocks w) d, blocksInLoops, blocksInParallels))"

section \<open>Well-formedness and frame\<close>

lemma sentinel_node_sel [simp]:
  "node_id (createSubflowSentinelNode i s t k bt nm) = i"
  "incomingEdges (createSubflowSentinelNode i s t k bt nm) = []"
  "outgoingEdges (createSubflowSentinelNode i s t k bt nm) = []"
  by (simp_all add: createSubflowSentinelNode_def)

lemma wf_dag_configs [simp]:
  "wf_dag (d\<lparr>loopConfigs := l\<rparr>) = wf_dag d" "wf_dag (d\<lparr>parallelConfigs := p\<rparr>) = wf_dag d"
  by (simp_all add: wf_dag_def wf_node_def dnode_def has_node_def)

lemma dnode_configs [simp]:
  "dnode (d\<lparr>loopConfigs := l\<rparr>) = dnode d" "dnode (d\<lparr>parallelConfigs := p\<rparr>) = dnode d"
  by (auto simp: dnode_def)

lemma has_node_configs [simp]:
  "has_node (d\<lparr>loopConfigs := l\<rparr>) = has_node d" "has_node (d\<lparr>parallelConfigs := p\<rparr>) = has_node d"
  by (auto simp: has_node_def)

lemma wf_sentinel_pairs [wf_intros]:
  "wf_dag d \<Longrightarrow> wf_dag (createLoopSentinelPair i d)"
  "wf_dag d \<Longrightarrow> wf_dag (createParallelSentinelPair i d)"
  by (simp_all add: createLoopSentinelPair_def createParallelSentinelPair_def wf_dag_put_fresh)

lemma wf_construct_loops [wf_intros]: "wf_dag d \<Longrightarrow> wf_dag (construct_loops r cs d)"
  by (induction r cs d rule: construct_loops.induct) (auto simp: Let_def wf_sentinel_pairs)

lemma wf_construct_parallels [wf_intros]: "wf_dag d \<Longrightarrow> wf_dag (construct_parallels r cs d)"
  by (induction r cs d rule: construct_parallels.induct) (auto simp: Let_def wf_sentinel_pairs)

lemma wf_block_nodes [wf_intros]:
  "wf_dag d \<Longrightarrow> wf_dag (createParallelTemplateNode b p d)"
  "wf_dag d \<Longrightarrow> wf_dag (createRegularOrLoopNode b l d)"
  by (simp_all add: createParallelTemplateNode_def createRegularOrLoopNode_def Let_def wf_dag_put_fresh)

lemma wf_construct_nodes [wf_intros]: "wf_dag d \<Longrightarrow> wf_dag (construct_nodes r l bs d)"
  by (induction r l bs d rule: construct_nodes.induct) (auto simp: wf_block_nodes)

lemma configs_sentinel_pairs [simp]:
  "loopConfigs (createLoopSentinelPair i d) = loopConfigs d"
  "parallelConfigs (createLoopSentinelPair i d) = parallelConfigs d"
  "loopConfigs (createParallelSentinelPair i d) = loopConfigs d"
  "parallelConfigs (createParallelSentinelPair i d) = parallelConfigs d"
  by (simp_all add: createLoopSentinelPair_def createParallelSentinelPair_def)

lemma configs_block_nodes [simp]:
  "loopConfigs (createParallelTemplateNode b p d) = loopConfigs d"
  "parallelConfigs (createParallelTemplateNode b p d) = parallelConfigs d"
  "loopConfigs (createRegularOrLoopNode b l d) = loopConfigs d"
  "parallelConfigs (createRegularOrLoopNode b l d) = parallelConfigs d"
  by (simp_all add: createParallelTemplateNode_def createRegularOrLoopNode_def Let_def)

lemma has_node_block_nodes [simp]:
  "has_node (createParallelTemplateNode b p d) i \<longleftrightarrow> i = buildBranchNodeId (blk_id b) 0 \<or> has_node d i"
  "has_node (createRegularOrLoopNode b l d) i \<longleftrightarrow> i = blk_id b \<or> has_node d i"
  by (simp_all add: createParallelTemplateNode_def createRegularOrLoopNode_def Let_def)

lemma has_node_sentinel_pairs [simp]:
  "has_node (createLoopSentinelPair c d) i \<longleftrightarrow>
     i = buildSentinelStartId c \<or> i = buildSentinelEndId c \<or> has_node d i"
  "has_node (createParallelSentinelPair c d) i \<longleftrightarrow>
     i = buildParallelSentinelStartId c \<or> i = buildParallelSentinelEndId c \<or> has_node d i"
  by (auto simp: createLoopSentinelPair_def createParallelSentinelPair_def)

lemma has_node_construct_loops:
  "has_node (construct_loops r cs d) i \<longleftrightarrow>
     has_node d i \<or> (\<exists>c \<in> fst ` set cs. c \<in> set r \<and> (i = buildSentinelStartId c \<or> i = buildSentinelEndId c))"
  by (induction r cs d rule: construct_loops.induct) (auto simp: Let_def)

lemma has_node_construct_parallels:
  "has_node (construct_parallels r cs d) i \<longleftrightarrow>
     has_node d i \<or> (\<exists>c \<in> fst ` set cs. c \<in> set r \<and>
       (i = buildParallelSentinelStartId c \<or> i = buildParallelSentinelEndId c))"
  by (induction r cs d rule: construct_parallels.induct) (auto simp: Let_def)

text \<open>The node id of a block: its own id, or its branch-0 template inside a parallel.\<close>

definition block_node_id :: "dag \<Rightarrow> sblock \<Rightarrow> string" where
  "block_node_id d b =
     (if falsy_str (findParallelForBlock (blk_id b) d) then blk_id b else buildBranchNodeId (blk_id b) 0)"

lemma findParallelForBlock_cong: "parallelConfigs d = parallelConfigs d' \<Longrightarrow>
  findParallelForBlock i d = findParallelForBlock i d'"
  by (simp add: findParallelForBlock_def)

lemma block_node_id_cong: "parallelConfigs d = parallelConfigs d' \<Longrightarrow> block_node_id d b = block_node_id d' b"
  by (simp add: block_node_id_def findParallelForBlock_def)

lemma has_node_construct_nodes:
  "has_node (construct_nodes r l bs d) i \<longleftrightarrow>
     has_node d i \<or> (\<exists>b \<in> set bs. shouldProcessBlock b r \<and> i = block_node_id d b)"
proof (induction r l bs d rule: construct_nodes.induct)
  case (2 r l b bs d)
  have "block_node_id (createParallelTemplateNode b p d) b' = block_node_id d b'"
    and "block_node_id (createRegularOrLoopNode b l d) b' = block_node_id d b'" for p b'
    by (rule block_node_id_cong, simp)+
  with 2 show ?case
    by (auto simp: block_node_id_def [of d b])
qed simp

text \<open>Innermost loops.\<close>

lemma set_loop_candidates:
  "mproper (loopConfigs d) \<Longrightarrow>
   c \<in> set (loop_candidates i d) \<longleftrightarrow> (\<exists>cfg. mget (loopConfigs d) c = Some cfg \<and> i \<in> set (loop_nodes cfg))"
  by (force simp: loop_candidates_def mget_iff_in_set)

lemma find_SomeD: "List.find P xs = Some x \<Longrightarrow> x \<in> set xs \<and> P x"
  by (auto simp: find_Some_iff)

lemma findLoopIdForBlock_props:
  "findLoopIdForBlock i d = Some c \<Longrightarrow>
   c \<in> set (loop_candidates i d) \<and> lists_none_of d (loop_candidates i d) c"
proof (cases "loop_candidates i d")
  case (Cons a as)
  assume f: "findLoopIdForBlock i d = Some c"
  show ?thesis
  proof (cases as)
    case Nil
    with f Cons show ?thesis by (simp add: findLoopIdForBlock_def lists_none_of_def)
  next
    case (Cons b bs)
    with f \<open>loop_candidates i d = a # as\<close> show ?thesis
      using find_SomeD [of "lists_none_of d (a # b # bs)" "a # b # bs" c]
      by (simp del: find.simps add: findLoopIdForBlock_def)
  qed
qed (simp add: findLoopIdForBlock_def)

text \<open>
  the loop chosen for a block lists the block and lists none of the other loops that
  list the block, so it is the innermost one.
\<close>

theorem findLoopIdForBlock_innermost:
  assumes "mproper (loopConfigs d)" and "findLoopIdForBlock i d = Some c"
    and "mget (loopConfigs d) other = Some cfg'" and "i \<in> set (loop_nodes cfg')" and "other \<noteq> c"
  shows "\<exists>cfg. mget (loopConfigs d) c = Some cfg \<and> i \<in> set (loop_nodes cfg) \<and> other \<notin> set (loop_nodes cfg)"
proof -
  have c: "c \<in> set (loop_candidates i d)"
    using findLoopIdForBlock_props [OF assms(2)] by simp
  have o: "other \<in> set (loop_candidates i d)"
    using assms(1,3,4) by (simp add: set_loop_candidates)
  from c obtain cfg where cfg: "mget (loopConfigs d) c = Some cfg" "i \<in> set (loop_nodes cfg)"
    using assms(1) by (auto simp: set_loop_candidates)
  have "other \<notin> set (loop_nodes cfg)"
    using findLoopIdForBlock_props [OF assms(2)] o cfg(1) assms(5) by (auto simp: lists_none_of_def)
  with cfg show ?thesis by blast
qed

definition demo_loop :: "string list \<Rightarrow> sloop" where
  "demo_loop ns = \<lparr>loop_nodes = ns, loop_iterations = 3, loop_type = Some ''for'',
     loop_forEachItems = JUndef, loop_whileCondition = None, loop_doWhileCondition = None\<rparr>"

theorem findLoopIdForBlock_innermost_witness:
  "findLoopIdForBlock ''b'' \<lparr>dag_nodes = [], loopConfigs = [(''A'', demo_loop [''B'', ''b'']), (''B'', demo_loop [''b''])],
     parallelConfigs = []\<rparr> = Some ''B'' \<and> ''A'' \<notin> set (loop_nodes (demo_loop [''b'']))"
proof -
  let ?d = "\<lparr>dag_nodes = [], loopConfigs = [(''A'', demo_loop [''B'', ''b'']), (''B'', demo_loop [''b''])],
     parallelConfigs = []\<rparr>"
  have f: "findLoopIdForBlock ''b'' ?d = Some ''B''" by code_simp
  have "\<exists>cfg. mget (loopConfigs ?d) ''B'' = Some cfg \<and> ''b'' \<in> set (loop_nodes cfg) \<and> ''A'' \<notin> set (loop_nodes cfg)"
    by (rule findLoopIdForBlock_innermost [where other = "''A''" and cfg' = "demo_loop [''B'', ''b'']", OF _ f])
       (simp_all add: mproper_def demo_loop_def)
  with f show ?thesis by (simp add: demo_loop_def)
qed

end
