(* ===== verification/Edges.thy ===== *)
theory Edges
  imports Nodes
begin

text \<open>
  \<open>EdgeConstructor\<close> (\<open>executor/dag/construction/edges.ts\<close>): source handles are
  generated from the condition and router configurations, every connection is wired
  (loops and parallels through their sentinels), and the sentinels of each container are
  wired to its boundary nodes. The parameter \<open>parse\<close> stands for \<open>JSON.parse\<close> of a
  configuration string: the parsed array, or nothing when it throws (the code then logs a
  warning and goes on without a configuration). A \<open>continue\<close> of the connection loop is
  the left summand carrying the DAG built so far.
\<close>

section \<open>Adding an edge\<close>

definition ARROW :: string where "ARROW = [CHR 0xE2, CHR 0x86, CHR 0x92]"

definition edge_id :: "string \<Rightarrow> string \<Rightarrow> string option \<Rightarrow> string" where
  "edge_id s t h = s @ ARROW @ t @ (if falsy_str h then [] else ''-'' @ the h)"

definition addEdge :: "string \<Rightarrow> string \<Rightarrow> string option \<Rightarrow> string option \<Rightarrow> bool \<Rightarrow> dag \<Rightarrow> dag" where
  "addEdge s t sourceHandle targetHandle registerIncoming d =
     (if \<not> has_node d s \<or> \<not> has_node d t then d
      else let d1 = upd_node s (\<lambda>n. n\<lparr>outgoingEdges :=
                      mput (edge_id s t sourceHandle)
                        \<lparr>edge_target = t, edge_sourceHandle = sourceHandle, edge_targetHandle = targetHandle\<rparr>
                        (outgoingEdges n)\<rparr>) d
           in if registerIncoming
              then upd_node t (\<lambda>n. n\<lparr>incomingEdges := sadd s (incomingEdges n)\<rparr>) d1
              else d1)"

definition addSubflowStartExitBypass :: "string \<Rightarrow> dag \<Rightarrow> dag" where
  "addSubflowStartExitBypass subflowId d =
     (if mhas (parallelConfigs d) subflowId then
        (let s = buildParallelSentinelStartId subflowId; t = buildParallelSentinelEndId subflowId
         in if has_node d s \<and> has_node d t then addEdge s t (Some PARALLEL_EXIT) None False d else d)
      else if mhas (loopConfigs d) subflowId then
        (let s = buildSentinelStartId subflowId; t = buildSentinelEndId subflowId
         in if has_node d s \<and> has_node d t then addEdge s t (Some LOOP_EXIT) None False d else d)
      else d)"

section \<open>Source handles\<close>

record edge_metadata =
  blockTypeMap :: "(string, string) jsmap"
  conditionConfigMap :: "(string, string list) jsmap"
  routerBlockIds :: "string list"
  routerV2ConfigMap :: "(string, string list) jsmap"

text \<open>A configuration entry is an object with a string \<open>id\<close>.\<close>

fun config_entry_id :: "jval \<Rightarrow> string" where
  "config_entry_id (JObj obj) = (case get_prop obj ''id'' of JStr s \<Rightarrow> s | _ \<Rightarrow> ''undefined'')"
| "config_entry_id _ = ''undefined''"

definition parseConfig :: "(string \<Rightarrow> jval list option) \<Rightarrow> string \<Rightarrow> sblock \<Rightarrow> string list option" where
  "parseConfig parse key b =
     (case get_prop (blk_params b) key of
        JStr s \<Rightarrow> map_option (map config_entry_id) (parse s)
      | JArr vs \<Rightarrow> Some (map config_entry_id vs)
      | _ \<Rightarrow> None)"

definition parseConditionConfig :: "(string \<Rightarrow> jval list option) \<Rightarrow> sblock \<Rightarrow> string list option" where
  "parseConditionConfig parse b = parseConfig parse ''conditions'' b"

definition parseRouterV2Config :: "(string \<Rightarrow> jval list option) \<Rightarrow> sblock \<Rightarrow> string list option" where
  "parseRouterV2Config parse b = parseConfig parse ''routes'' b"

definition add_block_metadata :: "(string \<Rightarrow> jval list option) \<Rightarrow> sblock \<Rightarrow> edge_metadata \<Rightarrow> edge_metadata" where
  "add_block_metadata parse b m =
     (if \<not> blk_enabled b then m
      else let blockType = (case blk_type b of None \<Rightarrow> [] | Some t \<Rightarrow> t);
               m1 = m\<lparr>blockTypeMap := mput (blk_id b) blockType (blockTypeMap m)\<rparr>
           in if isConditionBlockType blockType then
                (case parseConditionConfig parse b of
                   Some cs \<Rightarrow> m1\<lparr>conditionConfigMap := mput (blk_id b) cs (conditionConfigMap m1)\<rparr>
                 | None \<Rightarrow> m1)
              else if isRouterV2BlockType blockType then
                (case parseRouterV2Config parse b of
                   Some rs \<Rightarrow> m1\<lparr>routerV2ConfigMap := mput (blk_id b) rs (routerV2ConfigMap m1)\<rparr>
                 | None \<Rightarrow> m1)
              else if isRouterBlockType blockType then
                m1\<lparr>routerBlockIds := sadd (blk_id b) (routerBlockIds m1)\<rparr>
              else m1)"

definition buildMetadataMaps :: "(string \<Rightarrow> jval list option) \<Rightarrow> sworkflow \<Rightarrow> edge_metadata" where
  "buildMetadataMaps parse w =
     fold (add_block_metadata parse) (wf_blocks w)
       \<lparr>blockTypeMap = [], conditionConfigMap = [], routerBlockIds = [], routerV2ConfigMap = []\<rparr>"

fun find_index :: "('a \<Rightarrow> bool) \<Rightarrow> 'a list \<Rightarrow> nat option" where
  "find_index P [] = None"
| "find_index P (x # xs) = (if P x then Some 0 else map_option Suc (find_index P xs))"

definition edge_index :: "sworkflow \<Rightarrow> string \<Rightarrow> string \<Rightarrow> nat option" where
  "edge_index w source target =
     find_index (\<lambda>c. con_target c = target) (filter (\<lambda>c. con_source c = source) (wf_connections w))"

definition generateSourceHandle ::
  "string \<Rightarrow> string \<Rightarrow> string option \<Rightarrow> edge_metadata \<Rightarrow> sworkflow \<Rightarrow> string option" where
  "generateSourceHandle source target sourceHandle m w =
     (let indexed = (\<lambda>prefix ids h. (case edge_index w source target of
                       Some i \<Rightarrow> if i < length ids then Some (prefix @ ids ! i) else h
                     | None \<Rightarrow> h));
          h1 = (if falsy_str sourceHandle \<and>
                   isConditionBlockType (case mget (blockTypeMap m) source of None \<Rightarrow> [] | Some t \<Rightarrow> t)
                then (case mget (conditionConfigMap m) source of
                        Some cs \<Rightarrow> indexed CONDITION_PREFIX cs sourceHandle
                      | None \<Rightarrow> sourceHandle)
                else sourceHandle);
          h2 = (case mget (routerV2ConfigMap m) source of
                  None \<Rightarrow> h1
                | Some routes \<Rightarrow>
                    if falsy_str h1 \<or> (\<not> starts_with (the h1) ROUTER_PREFIX \<and> the h1 \<noteq> ERROR)
                    then indexed ROUTER_PREFIX routes h1 else h1)
      in if source \<in> set (routerBlockIds m) \<and> h2 \<noteq> Some ERROR
         then Some (ROUTER_PREFIX @ target) else h2)"

section \<open>Resolution through containers\<close>

definition resolveSubflowToSentinelStart :: "string \<Rightarrow> dag \<Rightarrow> string" where
  "resolveSubflowToSentinelStart i d =
     (if mhas (parallelConfigs d) i then buildParallelSentinelStartId i
      else if mhas (loopConfigs d) i then buildSentinelStartId i else buildBranchNodeId i 0)"

definition resolveSubflowToSentinelEnd :: "string \<Rightarrow> dag \<Rightarrow> string" where
  "resolveSubflowToSentinelEnd i d =
     (if mhas (parallelConfigs d) i then buildParallelSentinelEndId i
      else if mhas (loopConfigs d) i then buildSentinelEndId i else buildBranchNodeId i 0)"

definition findInnermostLoop :: "string \<Rightarrow> dag \<Rightarrow> string option" where
  "findInnermostLoop i d = findLoopIdForBlock i d"

definition edgeCrossesLoopBoundary :: "string \<Rightarrow> string \<Rightarrow> string list \<Rightarrow> dag \<Rightarrow> bool" where
  "edgeCrossesLoopBoundary source target blocksInLoops d =
     (let sourceInLoop = source \<in> set blocksInLoops; targetInLoop = target \<in> set blocksInLoops
      in if sourceInLoop \<noteq> targetInLoop then True
         else if \<not> sourceInLoop \<and> \<not> targetInLoop then False
         else findInnermostLoop source d \<noteq> findInnermostLoop target d)"

definition isEdgeReachable :: "string \<Rightarrow> string \<Rightarrow> string list \<Rightarrow> dag \<Rightarrow> bool" where
  "isEdgeReachable source target reachable d \<longleftrightarrow>
     (source \<in> set reachable \<or> has_node d source) \<and> (target \<in> set reachable \<or> has_node d target)"

definition getParallelId :: "string \<Rightarrow> dag \<Rightarrow> string option" where
  "getParallelId i d = findParallelForBlock i d"

definition edgeStaysWithinSameParallel :: "string \<Rightarrow> string \<Rightarrow> dag \<Rightarrow> bool" where
  "edgeStaysWithinSameParallel source target d \<longleftrightarrow>
     \<not> falsy_str (getParallelId source d) \<and> getParallelId source d = getParallelId target d"

definition resolveParallelChildSourceHandle :: "string \<Rightarrow> dag \<Rightarrow> string option \<Rightarrow> string option" where
  "resolveParallelChildSourceHandle source d h =
     (if mhas (parallelConfigs d) source then Some PARALLEL_EXIT
      else if mhas (loopConfigs d) source then Some LOOP_EXIT else h)"

definition resolveSubflowExitHandle :: "string \<Rightarrow> dag \<Rightarrow> string option" where
  "resolveSubflowExitHandle i d =
     (if mhas (parallelConfigs d) i then Some PARALLEL_EXIT
      else if mhas (loopConfigs d) i then Some LOOP_EXIT else None)"

definition wireParallelTemplateEdge ::
  "string \<Rightarrow> string \<Rightarrow> string option \<Rightarrow> string option \<Rightarrow> dag \<Rightarrow> dag" where
  "wireParallelTemplateEdge source target sh th d =
     addEdge (buildBranchNodeId source 0) (buildBranchNodeId target 0) sh th True d"

section \<open>Regular edges\<close>

record wire_env =
  en_inParallels :: "string list"
  en_inLoops :: "string list"
  en_reachable :: "string list"
  en_meta :: edge_metadata
  en_workflow :: sworkflow
  en_pauseMap :: "(string, string) jsmap"

text \<open>The remapping of the source end: the new source and handle, or a skipped edge.\<close>

definition remap_loop_source :: "string \<Rightarrow> string option \<Rightarrow> dag \<Rightarrow> dag + string \<times> string option \<times> dag" where
  "remap_loop_source source sh d =
     (if mhas (loopConfigs d) source then
        (if \<not> has_node d (buildSentinelEndId source) \<or> \<not> has_node d (buildSentinelStartId source)
         then Inl d
         else Inr (buildSentinelEndId source, Some LOOP_EXIT, addSubflowStartExitBypass source d))
      else Inr (source, sh, d))"

definition remap_loop_target :: "string \<Rightarrow> dag \<Rightarrow> dag + string" where
  "remap_loop_target target d =
     (if mhas (loopConfigs d) target then
        (if \<not> has_node d (buildSentinelStartId target) then Inl d else Inr (buildSentinelStartId target))
      else Inr target)"

definition remap_parallel_source ::
  "string \<Rightarrow> string \<Rightarrow> string \<Rightarrow> string option \<Rightarrow> dag \<Rightarrow> dag + string \<times> string option" where
  "remap_parallel_source originalSource originalTarget source sh d =
     (case mget (parallelConfigs d) originalSource of
        None \<Rightarrow> Inr (source, sh)
      | Some cfg \<Rightarrow>
          if originalTarget \<in> set (par_nodes cfg) then Inl d
          else if \<not> has_node d (buildParallelSentinelEndId originalSource) then Inl d
          else Inr (buildParallelSentinelEndId originalSource, Some PARALLEL_EXIT))"

definition remap_parallel_target :: "string \<Rightarrow> string \<Rightarrow> dag \<Rightarrow> dag + string" where
  "remap_parallel_target originalTarget target d =
     (if mhas (parallelConfigs d) originalTarget then
        (if \<not> has_node d (buildParallelSentinelStartId target) then Inl d
         else Inr (buildParallelSentinelStartId target))
      else Inr target)"

definition wire_remapped ::
  "wire_env \<Rightarrow> string \<Rightarrow> string \<Rightarrow> string \<Rightarrow> string \<Rightarrow> string option \<Rightarrow> string option \<Rightarrow> dag \<Rightarrow> dag" where
  "wire_remapped env originalSource originalTarget source target sh th d =
     (if edgeCrossesLoopBoundary originalSource originalTarget (en_inLoops env) d then d
      else if \<not> isEdgeReachable source target (en_reachable env) d then d
      else if source \<in> set (en_inParallels env) \<and> target \<in> set (en_inParallels env) then
        (if getParallelId source d = getParallelId target d
         then wireParallelTemplateEdge source target sh th d else d)
      else if source \<in> set (en_inParallels env) \<or> target \<in> set (en_inParallels env) then d
      else addEdge (case mget (en_pauseMap env) originalSource of Some r \<Rightarrow> r | None \<Rightarrow> source)
             target sh th True d)"

definition wire_connection :: "wire_env \<Rightarrow> sconnection \<Rightarrow> dag \<Rightarrow> dag" where
  "wire_connection env c d =
     (let source = con_source c; target = con_target c; th = con_targetHandle c;
          sh = generateSourceHandle source target (con_sourceHandle c) (en_meta env) (en_workflow env)
      in if edgeStaysWithinSameParallel source target d then
           addSubflowStartExitBypass source
             (addEdge (resolveSubflowToSentinelEnd source d) (resolveSubflowToSentinelStart target d)
                (resolveParallelChildSourceHandle source d sh) th True d)
         else (case remap_loop_source source sh d of
             Inl d' \<Rightarrow> d'
           | Inr (source1, sh1, d1) \<Rightarrow>
             (case remap_loop_target target d1 of
                Inl d' \<Rightarrow> d'
              | Inr target1 \<Rightarrow>
                (case remap_parallel_source source target source1 sh1 d1 of
                   Inl d' \<Rightarrow> d'
                 | Inr (source2, sh2) \<Rightarrow>
                   (case remap_parallel_target target target1 d1 of
                      Inl d' \<Rightarrow> d'
                    | Inr target2 \<Rightarrow>
                        wire_remapped env source target source2 target2 sh2 th
                          (if mhas (parallelConfigs d1) source
                           then addSubflowStartExitBypass source d1 else d1))))))"

definition wireRegularEdges :: "wire_env \<Rightarrow> dag \<Rightarrow> dag" where
  "wireRegularEdges env d = fold (wire_connection env) (wf_connections (en_workflow env)) d"

section \<open>Container boundaries\<close>

definition resolveLoopChildId :: "string \<Rightarrow> dag \<Rightarrow> sentinel \<Rightarrow> string" where
  "resolveLoopChildId i d s =
     (if mhas (loopConfigs d) i then
        (case s of SentinelStart \<Rightarrow> buildSentinelStartId i | SentinelEnd \<Rightarrow> buildSentinelEndId i)
      else if mhas (parallelConfigs d) i then
        (case s of SentinelStart \<Rightarrow> buildParallelSentinelStartId i
                 | SentinelEnd \<Rightarrow> buildParallelSentinelEndId i)
      else i)"

definition buildEffectiveNodeSet :: "string list \<Rightarrow> dag \<Rightarrow> string list" where
  "buildEffectiveNodeSet nodes d =
     set_of_array (concat (map (\<lambda>i.
       if mhas (loopConfigs d) i then [buildSentinelStartId i, buildSentinelEndId i]
       else if mhas (parallelConfigs d) i
       then [buildParallelSentinelStartId i, buildParallelSentinelEndId i]
       else [i]) nodes))"

definition isControlBackEdge :: "string option \<Rightarrow> bool" where
  "isControlBackEdge h \<longleftrightarrow> (case h of None \<Rightarrow> False | Some x \<Rightarrow> x \<in> set CONTROL_BACK_EDGE_HANDLES)"

definition findLoopBoundaryNodes :: "string list \<Rightarrow> dag \<Rightarrow> string list \<times> string list" where
  "findLoopBoundaryNodes nodes d =
     (let eff = set (buildEffectiveNodeSet nodes d);
          starts = filter (\<lambda>i. case dnode d (resolveLoopChildId i d SentinelStart) of
                       None \<Rightarrow> False
                     | Some n \<Rightarrow> \<not> (\<exists>s \<in> set (incomingEdges n). s \<in> eff)) nodes;
          terminals = filter (\<lambda>i. case dnode d (resolveLoopChildId i d SentinelEnd) of
                       None \<Rightarrow> False
                     | Some n \<Rightarrow> \<not> (\<exists>e \<in> set (out_edges n).
                                    \<not> isControlBackEdge (edge_sourceHandle e) \<and> edge_target e \<in> eff)) nodes
      in (set_of_array starts, set_of_array terminals))"

definition resolveParallelChildNodes :: "string \<Rightarrow> dag \<Rightarrow> dag_node option \<times> dag_node option" where
  "resolveParallelChildNodes i d =
     (dnode d (resolveSubflowToSentinelStart i d), dnode d (resolveSubflowToSentinelEnd i d))"

definition findParallelBoundaryNodes :: "string list \<Rightarrow> dag \<Rightarrow> string list \<times> string list" where
  "findParallelBoundaryNodes nodes d =
     (filter (\<lambda>i. case fst (resolveParallelChildNodes i d) of
                None \<Rightarrow> False
              | Some n \<Rightarrow> \<not> (\<exists>s \<in> set (incomingEdges n). normalizeNodeId s \<in> set nodes)) nodes,
      filter (\<lambda>i. case snd (resolveParallelChildNodes i d) of
                None \<Rightarrow> False
              | Some n \<Rightarrow> \<not> (\<exists>e \<in> set (out_edges n). \<not> isControlBackEdge (edge_sourceHandle e) \<and>
                             normalizeNodeId (edge_target e) \<in> set nodes)) nodes)"

section \<open>Sentinel wiring\<close>

definition wire_loop_terminal :: "string \<Rightarrow> string \<Rightarrow> dag \<Rightarrow> dag" where
  "wire_loop_terminal sentinelEndId terminal d =
     (let resolved = resolveLoopChildId terminal d SentinelEnd
      in if resolved \<noteq> terminal then
           addSubflowStartExitBypass terminal
             (addEdge resolved sentinelEndId
                (Some (if mhas (parallelConfigs d) terminal then PARALLEL_EXIT else LOOP_EXIT)) None True d)
         else addEdge resolved sentinelEndId None None True d)"

definition wire_loop :: "string \<Rightarrow> string list \<Rightarrow> dag \<Rightarrow> dag" where
  "wire_loop loopId nodes d =
     (let sid = buildSentinelStartId loopId; eid = buildSentinelEndId loopId
      in if nodes = [] then d
         else if \<not> has_node d sid \<or> \<not> has_node d eid then d
         else let d1 = addSubflowStartExitBypass loopId d;
                  (starts, terminals) = findLoopBoundaryNodes nodes d1;
                  d2 = fold (\<lambda>i d. addEdge sid (resolveLoopChildId i d SentinelStart) None None True d) starts d1;
                  d3 = fold (wire_loop_terminal eid) terminals d2
              in addEdge eid sid (Some LOOP_CONTINUE) None False d3)"

definition wireLoopSentinels :: "dag \<Rightarrow> dag" where
  "wireLoopSentinels d = fold (\<lambda>(i, cfg). wire_loop i (loop_nodes cfg)) (loopConfigs d) d"

definition wire_parallel_entry :: "string \<Rightarrow> string \<Rightarrow> dag \<Rightarrow> dag" where
  "wire_parallel_entry sid entry d =
     (let t = resolveSubflowToSentinelStart entry d
      in if has_node d t then addEdge sid t None None True d else d)"

definition wire_parallel_terminal :: "string \<Rightarrow> string \<Rightarrow> dag \<Rightarrow> dag" where
  "wire_parallel_terminal eid terminal d =
     (let s = resolveSubflowToSentinelEnd terminal d
      in if has_node d s then
           (let h = resolveSubflowExitHandle terminal d; d1 = addEdge s eid h None True d
            in if falsy_str h then d1 else addSubflowStartExitBypass terminal d1)
         else d)"

definition wire_parallel :: "string \<Rightarrow> string list \<Rightarrow> dag \<Rightarrow> dag" where
  "wire_parallel parallelId nodes d =
     (let sid = buildParallelSentinelStartId parallelId; eid = buildParallelSentinelEndId parallelId
      in if nodes = [] then d
         else if \<not> has_node d sid \<or> \<not> has_node d eid then d
         else let d1 = addSubflowStartExitBypass parallelId d;
                  (entries, terminals) = findParallelBoundaryNodes nodes d1;
                  d2 = fold (wire_parallel_entry sid) entries d1;
                  d3 = fold (wire_parallel_terminal eid) terminals d2
              in addEdge eid sid (Some PARALLEL_CONTINUE) None False d3)"

definition wireParallelSentinels :: "dag \<Rightarrow> dag" where
  "wireParallelSentinels d = fold (\<lambda>(i, cfg). wire_parallel i (par_nodes cfg)) (parallelConfigs d) d"

definition edge_execute ::
  "(string \<Rightarrow> jval list option) \<Rightarrow> sworkflow \<Rightarrow> dag \<Rightarrow> string list \<Rightarrow> string list \<Rightarrow> string list \<Rightarrow>
   (string, string) jsmap \<Rightarrow> dag" where
  "edge_execute parse w d blocksInParallels blocksInLoops reachable pauseTriggerMapping =
     (let env = \<lparr>en_inParallels = blocksInParallels, en_inLoops = blocksInLoops,
                 en_reachable = reachable, en_meta = buildMetadataMaps parse w, en_workflow = w,
                 en_pauseMap = pauseTriggerMapping\<rparr>
      in wireParallelSentinels (wireLoopSentinels (wireRegularEdges env d)))"

section \<open>Every pass only adds edges\<close>

text \<open>
  The passes are compositions of \<open>addEdge\<close>; \<open>adds_edges\<close> says so as a step relation, and
  rule induction lifts whatever a single \<open>addEdge\<close> keeps to the whole construction.
\<close>

inductive adds_edges :: "dag \<Rightarrow> dag \<Rightarrow> bool" where
  adds_refl [simp, intro]: "adds_edges d d"
| adds_step: "adds_edges d d' \<Longrightarrow> adds_edges d (addEdge s t h th r d')"

lemma adds_trans: "adds_edges d' d'' \<Longrightarrow> adds_edges d d' \<Longrightarrow> adds_edges d d''"
  by (induction rule: adds_edges.induct) (auto intro: adds_edges.intros)

lemma adds_addEdge [intro]: "adds_edges d (addEdge s t h th r d)"
  by (rule adds_step) simp

lemma adds_fold: "(\<And>x d. x \<in> set xs \<Longrightarrow> adds_edges d (f x d)) \<Longrightarrow> adds_edges d (fold f xs d)"
  by (induction xs arbitrary: d) (auto intro: adds_trans)

lemma adds_bypass [intro]: "adds_edges d (addSubflowStartExitBypass i d)"
  by (auto simp: addSubflowStartExitBypass_def Let_def)

lemma adds_wire_remapped: "adds_edges d (wire_remapped env os ot s t sh th d)"
  by (auto simp: wire_remapped_def wireParallelTemplateEdge_def)

lemma remap_skips:
  "remap_loop_source s sh d = Inl d' \<Longrightarrow> d' = d"
  "remap_loop_target t d = Inl d' \<Longrightarrow> d' = d"
  "remap_parallel_source os ot s sh d = Inl d' \<Longrightarrow> d' = d"
  "remap_parallel_target ot t d = Inl d' \<Longrightarrow> d' = d"
  by (auto simp: remap_loop_source_def remap_loop_target_def remap_parallel_source_def
      remap_parallel_target_def split: if_splits option.splits)

lemma adds_remap_loop_source: "remap_loop_source s sh d = Inr (s', sh', d') \<Longrightarrow> adds_edges d d'"
  by (auto simp: remap_loop_source_def split: if_splits)

lemma adds_wire_connection: "adds_edges d (wire_connection env c d)"
proof (cases "edgeStaysWithinSameParallel (con_source c) (con_target c) d")
  case True
  then show ?thesis
    by (simp add: wire_connection_def Let_def adds_trans [OF adds_bypass adds_addEdge])
next
  case False
  define sh where "sh = generateSourceHandle (con_source c) (con_target c) (con_sourceHandle c)
    (en_meta env) (en_workflow env)"
  have last: "adds_edges d1 (wire_remapped env os ot s t h th (addSubflowStartExitBypass i d1))"
    "adds_edges d1 (wire_remapped env os ot s t h th d1)" for d1 os ot s t h th i
    by (simp_all add: adds_trans [OF adds_wire_remapped adds_bypass] adds_wire_remapped)
  show ?thesis
  proof (cases "remap_loop_source (con_source c) sh d")
    case (Inl d')
    with False remap_skips(1) [OF Inl] show ?thesis
      by (simp add: wire_connection_def Let_def sh_def [symmetric])
  next
    case (Inr r)
    obtain s1 sh1 d1 where r: "r = (s1, sh1, d1)" by (cases r) auto
    have "adds_edges d1 (wire_connection env c d)"
      using False Inr r last
      by (auto simp: wire_connection_def Let_def sh_def [symmetric] dest: remap_skips split: sum.split)
    then show ?thesis
      using adds_remap_loop_source Inr r by (blast intro: adds_trans)
  qed
qed

lemma adds_wireRegularEdges: "adds_edges d (wireRegularEdges env d)"
  unfolding wireRegularEdges_def by (rule adds_fold) (rule adds_wire_connection)

lemma adds_wire_loop: "adds_edges d (wire_loop i nodes d)"
proof -
  have t: "adds_edges d (wire_loop_terminal e x d)" for e x d
    by (auto simp: wire_loop_terminal_def Let_def intro: adds_trans [OF adds_bypass])
  show ?thesis
    by (auto simp: wire_loop_def Let_def split: prod.splits
        intro!: adds_step adds_trans [OF adds_fold [OF t]] adds_trans [OF adds_fold [OF adds_addEdge]])
qed

lemma adds_wire_parallel: "adds_edges d (wire_parallel i nodes d)"
proof -
  have e: "adds_edges d (wire_parallel_entry s x d)" for s x d
    by (auto simp: wire_parallel_entry_def Let_def)
  have t: "adds_edges d (wire_parallel_terminal s x d)" for s x d
    by (auto simp: wire_parallel_terminal_def Let_def intro: adds_trans [OF adds_bypass])
  show ?thesis
    by (auto simp: wire_parallel_def Let_def split: prod.splits
        intro!: adds_step adds_trans [OF adds_fold [OF t]] adds_trans [OF adds_fold [OF e]])
qed

lemma adds_edge_execute: "adds_edges d (edge_execute parse w d bp bl r pm)"
proof -
  have "adds_edges d (wireLoopSentinels d)" and "adds_edges d (wireParallelSentinels d)" for d
    unfolding wireLoopSentinels_def wireParallelSentinels_def
    by (rule adds_fold; auto simp: adds_wire_loop adds_wire_parallel split: prod.splits)+
  then show ?thesis
    unfolding edge_execute_def Let_def by (meson adds_trans adds_wireRegularEdges)
qed

section \<open>What adding an edge keeps\<close>

lemma addEdge_frame [simp]:
  "has_node (addEdge s t h th r d) i = has_node d i"
  "loopConfigs (addEdge s t h th r d) = loopConfigs d"
  "parallelConfigs (addEdge s t h th r d) = parallelConfigs d"
  by (simp_all add: addEdge_def Let_def)

lemma addEdge_node_frame:
  "map_option (\<lambda>n. (node_id n, node_block n, metadata n)) (dnode (addEdge s t h th r d) i) =
   map_option (\<lambda>n. (node_id n, node_block n, metadata n)) (dnode d i)"
  by (simp add: addEdge_def Let_def option.map_comp comp_def)

lemma adds_edges_frame:
  "adds_edges d d' \<Longrightarrow> has_node d' i = has_node d i \<and> loopConfigs d' = loopConfigs d \<and>
     parallelConfigs d' = parallelConfigs d \<and>
     map_option (\<lambda>n. (node_id n, node_block n, metadata n)) (dnode d' i) =
     map_option (\<lambda>n. (node_id n, node_block n, metadata n)) (dnode d i)"
  by (induction rule: adds_edges.induct) (auto simp: addEdge_node_frame)

lemma out_edges_put:
  "e \<in> set (mvalues (mput k v m)) \<Longrightarrow> e = v \<or> e \<in> set (mvalues m)"
  using set_mput_subset [of k v m] by (auto simp: mvalues_def)

lemma wf_addEdge [wf_intros]:
  assumes "wf_dag d"
  shows "wf_dag (addEdge s t h th r d)"
proof (cases "has_node d s \<and> has_node d t")
  case True
  let ?e = "\<lparr>edge_target = t, edge_sourceHandle = h, edge_targetHandle = th\<rparr>"
  let ?d1 = "upd_node s (\<lambda>n. n\<lparr>outgoingEdges := mput (edge_id s t h) ?e (outgoingEdges n)\<rparr>) d"
  have 1: "wf_dag ?d1"
  proof (rule wf_dag_upd [OF assms])
    fix n assume "wf_node d s n"
    then show "wf_node d s (n\<lparr>outgoingEdges := mput (edge_id s t h) ?e (outgoingEdges n)\<rparr>)"
      using True by (auto simp: wf_node_def out_edges_def dest!: out_edges_put)
  qed
  have 2: "wf_dag (upd_node t (\<lambda>n. n\<lparr>incomingEdges := sadd s (incomingEdges n)\<rparr>) ?d1)"
    by (rule wf_dag_upd [OF 1]) (use True in \<open>auto simp: wf_node_def out_edges_def\<close>)
  from 1 2 True show ?thesis
    by (simp add: addEdge_def Let_def)
qed (use assms in \<open>auto simp: addEdge_def\<close>)

lemma wf_adds_edges [wf_intros]: "adds_edges d d' \<Longrightarrow> wf_dag d \<Longrightarrow> wf_dag d'"
  by (induction rule: adds_edges.induct) (auto intro: wf_addEdge)

section \<open>Incoming entries are backed by edges\<close>

text \<open>
  Readiness counts a registered incoming source only through an edge of that source, so a
  source without an edge would be ignored. Edges are stored under the textual id
  \<open>source, arrow, target, -handle\<close>; two different targets share an id only when one node
  id extends another by a dash. For ids without such an extension (\<open>dash_free\<close>) the
  invariant \<open>backed\<close> holds: every incoming entry has its edge.
\<close>

definition dash_free :: "dag \<Rightarrow> bool" where
  "dash_free d \<longleftrightarrow> (\<forall>i \<in> set (mkeys (dag_nodes d)). \<forall>j \<in> set (mkeys (dag_nodes d)). \<not> prefix (i @ ''-'') j)"

definition keyed_edges :: "dag \<Rightarrow> bool" where
  "keyed_edges d \<longleftrightarrow> (\<forall>s n k e. dnode d s = Some n \<longrightarrow> mget (outgoingEdges n) k = Some e \<longrightarrow>
      has_node d (edge_target e) \<and> k = edge_id s (edge_target e) (edge_sourceHandle e))"

definition edge_to :: "dag \<Rightarrow> string \<Rightarrow> string \<Rightarrow> bool" where
  "edge_to d s t \<longleftrightarrow> (\<exists>n k e. dnode d s = Some n \<and> mget (outgoingEdges n) k = Some e \<and> edge_target e = t)"

definition backed :: "dag \<Rightarrow> bool" where
  "backed d \<longleftrightarrow> keyed_edges d \<and>
     (\<forall>t n s. dnode d t = Some n \<longrightarrow> s \<in> set (incomingEdges n) \<longrightarrow> edge_to d s t)"

lemma dash_freeD: "dash_free d \<Longrightarrow> has_node d i \<Longrightarrow> has_node d j \<Longrightarrow> \<not> prefix (i @ ''-'') j"
  by (simp add: dash_free_def has_node_def)

lemma edge_id_target:
  assumes "edge_id s t h = edge_id s t' h'" and "dash_free d" and "has_node d t" and "has_node d t'"
  shows "t = t'"
proof -
  let ?x = "if falsy_str h then [] else ''-'' @ the h" and ?y = "if falsy_str h' then [] else ''-'' @ the h'"
  have dash: "us = [] \<or> prefix ''-'' us" if "us @ v = (if falsy_str g then [] else ''-'' @ the g)" for us v g
    using that by (cases us) (auto split: if_splits)
  have "t @ ?x = t' @ ?y"
    using assms(1) by (simp add: edge_id_def)
  then obtain us where "t = t' @ us \<and> us @ ?x = ?y \<or> t @ us = t' \<and> ?x = us @ ?y"
    using append_eq_append_conv2 [of t ?x t' ?y] by blast
  then have "t = t' \<or> prefix (t' @ ''-'') t \<or> prefix (t @ ''-'') t'"
    using dash [of us ?x h'] dash [of us ?y h] by (auto simp: prefix_def)
  then show ?thesis
    using dash_freeD [OF assms(2)] assms(3,4) by blast
qed

lemma dash_free_adds: "adds_edges d d' \<Longrightarrow> dash_free d \<Longrightarrow> dash_free d'"
  using adds_edges_frame by (simp add: dash_free_def has_node_def [symmetric])

lemma out_after_addEdge:
  assumes "dnode (addEdge s t h th r d) i = Some n"
  obtains n0 where "dnode d i = Some n0" and "incomingEdges n = (if r \<and> i = t \<and> has_node d s \<and> has_node d t
      then sadd s (incomingEdges n0) else incomingEdges n0)"
    and "outgoingEdges n = (if i = s \<and> has_node d s \<and> has_node d t
      then mput (edge_id s t h) \<lparr>edge_target = t, edge_sourceHandle = h, edge_targetHandle = th\<rparr> (outgoingEdges n0)
      else outgoingEdges n0)"
  using assms that by (auto simp: addEdge_def Let_def split: if_splits)

lemma keyed_addEdge: "keyed_edges d \<Longrightarrow> keyed_edges (addEdge s t h th r d)"
  unfolding keyed_edges_def
  by (auto elim!: out_after_addEdge split: if_splits)

lemma edge_to_addEdge:
  assumes "keyed_edges d" and "dash_free d" and "edge_to d a b"
  shows "edge_to (addEdge s t h th r d) a b"
proof -
  obtain n k e where n: "dnode d a = Some n" "mget (outgoingEdges n) k = Some e" "edge_target e = b"
    using assms(3) by (auto simp: edge_to_def)
  have k: "has_node d b" "k = edge_id a b (edge_sourceHandle e)"
    using assms(1) n by (auto simp: keyed_edges_def)
  have "t = b" if "a = s" "k = edge_id s t h" "has_node d t"
  proof (rule edge_id_target [OF _ assms(2) that(3) k(1)])
    show "edge_id s t h = edge_id s b (edge_sourceHandle e)"
      using that k(2) by simp
  qed
  note tb = this
  have "has_node d a"
    using n(1) by (simp add: has_node_iff)
  then have "has_node (addEdge s t h th r d) a" by simp
  then obtain n' where n': "dnode (addEdge s t h th r d) a = Some n'"
    unfolding has_node_iff by blast
  then have "\<exists>e'. mget (outgoingEdges n') k = Some e' \<and> edge_target e' = b"
    by (rule out_after_addEdge) (use n tb in auto)
  with n' show ?thesis by (auto simp: edge_to_def)
qed

lemma edge_to_new: "has_node d s \<Longrightarrow> has_node d t \<Longrightarrow> edge_to (addEdge s t h th r d) s t"
  by (cases "dnode d s") (auto simp: edge_to_def addEdge_def Let_def has_node_iff)

lemma backed_addEdge: "dash_free d \<Longrightarrow> backed d \<Longrightarrow> backed (addEdge s t h th r d)"
proof -
  assume df: "dash_free d" and b: "backed d"
  then have key: "keyed_edges d" by (simp add: backed_def)
  have "edge_to (addEdge s t h th r d) src i"
    if n: "dnode (addEdge s t h th r d) i = Some n" and src: "src \<in> set (incomingEdges n)" for i n src
  proof -
    obtain n0 where n0: "dnode d i = Some n0" and inc: "incomingEdges n = (if r \<and> i = t \<and> has_node d s \<and>
        has_node d t then sadd s (incomingEdges n0) else incomingEdges n0)"
      using n by (rule out_after_addEdge)
    have "src \<in> set (incomingEdges n0) \<or> src = s \<and> i = t \<and> has_node d s \<and> has_node d t"
      using src unfolding inc by (auto split: if_splits)
    then show ?thesis
      using b n0 edge_to_addEdge [OF key df] edge_to_new by (auto simp: backed_def)
  qed
  then show "backed (addEdge s t h th r d)"
    using keyed_addEdge [OF key] by (simp add: backed_def)
qed

lemma backed_adds_edges: "adds_edges d d' \<Longrightarrow> dash_free d \<Longrightarrow> backed d \<Longrightarrow> backed d'"
  by (induction rule: adds_edges.induct) (auto intro: backed_addEdge dash_free_adds)

end
