(* ===== verification/Builder.thy ===== *)
theory Builder
  imports Edges
begin

text \<open>
  \<open>DAGBuilder.build\<close> (\<open>executor/dag/builder.ts\<close>): the passes in order, the restoration
  of saved incoming edges, and the final validation of the subflow structure.
\<close>

definition initializeConfigs :: "sworkflow \<Rightarrow> dag" where
  "initializeConfigs w =
     \<lparr>dag_nodes = [],
      loopConfigs = fold (\<lambda>(i, cfg) m. mput i cfg m) (wf_loops w) [],
      parallelConfigs = fold (\<lambda>(i, cfg) m. mput i cfg m) (wf_parallels w) []\<rparr>"

definition restore_incoming :: "(string \<times> string list) \<Rightarrow> dag \<Rightarrow> dag" where
  "restore_incoming = (\<lambda>(i, srcs). upd_node i (\<lambda>n. n\<lparr>incomingEdges := set_of_array srcs\<rparr>))"

definition validateSubflow :: "dag \<Rightarrow> string \<Rightarrow> string list \<Rightarrow> subflow \<Rightarrow> dag_error option" where
  "validateSubflow d i nodes kind =
     (case dnode d (case kind of SubLoop \<Rightarrow> buildSentinelStartId i
                               | SubParallel \<Rightarrow> buildParallelSentinelStartId i) of
        None \<Rightarrow> None
      | Some n \<Rightarrow>
          if nodes = [] then None
          else if \<exists>e \<in> set (out_edges n). normalizeNodeId (edge_target e) \<in> set nodes then None
          else Some (StartNotConnected kind))"

fun first_error :: "'e option list \<Rightarrow> 'e option" where
  "first_error [] = None"
| "first_error (Some e # _) = Some e"
| "first_error (None # es) = first_error es"

definition validateSubflowStructure :: "dag \<Rightarrow> dag_error option" where
  "validateSubflowStructure d =
     first_error (map (\<lambda>(i, cfg). validateSubflow d i (loop_nodes cfg) SubLoop) (loopConfigs d) @
                  map (\<lambda>(i, cfg). validateSubflow d i (par_nodes cfg) SubParallel) (parallelConfigs d))"

definition build_passes :: "(string \<Rightarrow> jval list option) \<Rightarrow> sworkflow \<Rightarrow> string list \<Rightarrow> dag" where
  "build_passes parse w reachable =
     (let d1 = parallel_execute (loop_execute (initializeConfigs w) reachable) reachable;
          (d2, blocksInLoops, blocksInParallels) = node_execute w d1 reachable
      in edge_execute parse w d2 blocksInParallels blocksInLoops reachable [])"

definition build ::
  "(string \<Rightarrow> jval list option) \<Rightarrow> sworkflow \<Rightarrow> string option \<Rightarrow> (string \<times> string list) list option \<Rightarrow>
   bool \<Rightarrow> dag_error + dag" where
  "build parse w trig saved includeAllBlocks =
     (case path_execute w trig includeAllBlocks of
        Inl e \<Rightarrow> Inl e
      | Inr reachable \<Rightarrow>
          (let d = build_passes parse w reachable;
               d' = (case saved of None \<Rightarrow> d | Some entries \<Rightarrow> fold restore_incoming entries d)
           in case validateSubflowStructure d' of Some e \<Rightarrow> Inl e | None \<Rightarrow> Inr d'))"

section \<open>Correctness of the construction\<close>

lemma mproper_fold_mput: "mproper m \<Longrightarrow> mproper (fold (\<lambda>(i, c) m. mput i c m) xs m)"
  by (induction xs arbitrary: m) auto

lemma wf_initial [simp]: "wf_dag (initializeConfigs w)"
  by (simp add: wf_dag_def initializeConfigs_def dnode_def)

definition before_edges :: "sworkflow \<Rightarrow> string list \<Rightarrow> dag" where
  "before_edges w reachable =
     fst (node_execute w (parallel_execute (loop_execute (initializeConfigs w) reachable) reachable) reachable)"

lemma wf_before_edges: "wf_dag (before_edges w r)"
  by (simp add: before_edges_def node_execute_def Let_def parallel_execute_def loop_execute_def
      wf_construct_nodes wf_construct_parallels wf_construct_loops)

lemma adds_build_passes: "adds_edges (before_edges w r) (build_passes parse w r)"
  by (auto simp: build_passes_def before_edges_def Let_def adds_edge_execute split: prod.splits)

lemma wf_build_passes: "wf_dag (build_passes parse w r)"
  by (rule wf_adds_edges [OF adds_build_passes wf_before_edges])

definition no_edges :: "dag \<Rightarrow> bool" where
  "no_edges d \<longleftrightarrow> (\<forall>i n. dnode d i = Some n \<longrightarrow> incomingEdges n = [] \<and> outgoingEdges n = [])"

lemma no_edges_put [simp]:
  "no_edges d \<Longrightarrow> incomingEdges n = [] \<Longrightarrow> outgoingEdges n = [] \<Longrightarrow> no_edges (put_node n d)"
  by (simp add: no_edges_def)

lemma no_edges_configs [simp]:
  "no_edges (d\<lparr>loopConfigs := l\<rparr>) = no_edges d" "no_edges (d\<lparr>parallelConfigs := p\<rparr>) = no_edges d"
  by (simp_all add: no_edges_def)

lemma no_edges_pairs [simp]:
  "no_edges d \<Longrightarrow> no_edges (createLoopSentinelPair i d)"
  "no_edges d \<Longrightarrow> no_edges (createParallelSentinelPair i d)"
  "no_edges d \<Longrightarrow> no_edges (createParallelTemplateNode b p d)"
  "no_edges d \<Longrightarrow> no_edges (createRegularOrLoopNode b l d)"
  by (simp_all add: createLoopSentinelPair_def createParallelSentinelPair_def
      createParallelTemplateNode_def createRegularOrLoopNode_def Let_def)

lemma no_edges_loops: "no_edges d \<Longrightarrow> no_edges (construct_loops r cs d)"
  by (induction r cs d rule: construct_loops.induct) (simp_all add: Let_def)

lemma no_edges_parallels: "no_edges d \<Longrightarrow> no_edges (construct_parallels r ps d)"
  by (induction r ps d rule: construct_parallels.induct) (simp_all add: Let_def)

lemma no_edges_nodes: "no_edges d \<Longrightarrow> no_edges (construct_nodes r l bs d)"
  by (induction r l bs d rule: construct_nodes.induct) simp_all

lemma no_edges_initial: "no_edges (initializeConfigs w)"
  by (simp add: no_edges_def initializeConfigs_def dnode_def)

lemma no_edges_before: "no_edges (before_edges w r)"
  by (simp add: before_edges_def node_execute_def Let_def parallel_execute_def loop_execute_def
      no_edges_loops no_edges_parallels no_edges_nodes no_edges_initial)

lemma backed_no_edges: "no_edges d \<Longrightarrow> backed d"
  by (auto simp: no_edges_def backed_def keyed_edges_def)


lemma build_unfold:
  "build parse w trig None allBlocks = Inr d \<Longrightarrow>
   \<exists>R. path_execute w trig allBlocks = Inr R \<and> d = build_passes parse w R \<and> validateSubflowStructure d = None"
  by (auto simp: build_def Let_def split: sum.splits option.splits)

text \<open>
  C5: a DAG built without a snapshot is well formed; and when no node id extends another
  one by a dash, every incoming entry of a node has the edge it stands for.
\<close>

theorem build_wf_dag:
  assumes "build parse w trig None allBlocks = Inr d"
  shows "wf_dag d \<and> (dash_free d \<longrightarrow> backed d)"
proof -
  obtain R where d: "d = build_passes parse w R"
    using build_unfold [OF assms] by blast
  have "backed d" if "dash_free d"
  proof -
    have "dash_free (before_edges w R)"
      using that adds_edges_frame [OF adds_build_passes [of w R parse]]
      by (simp add: d dash_free_def has_node_def [symmetric])
    then show ?thesis
      unfolding d using adds_build_passes backed_no_edges [OF no_edges_before] backed_adds_edges by blast
  qed
  then show ?thesis using wf_build_passes d by blast
qed

lemma mhas_fold_mput: "mhas (fold (\<lambda>(i, c) m. mput i c m) xs m) k \<longleftrightarrow> mhas xs k \<or> mhas m k"
proof (induction xs arbitrary: m)
  case (Cons x xs)
  obtain i c where x: "x = (i, c)" by (cases x)
  show ?case
    unfolding x fold_Cons comp_def Cons.IH by auto
qed simp

lemma find_mput:
  "mget m k = Some v0 \<Longrightarrow> \<not> P (k, v0) \<Longrightarrow> \<not> P (k, v) \<Longrightarrow>
   List.find P (mput k v m) = List.find P m"
  by (induction m) (auto simp: mput_def)

lemma findParallel_construct:
  assumes "\<forall>(k, c) \<in> set cs. mget (parallelConfigs d) k = Some c" and "distinct (map fst cs)"
    and "i \<in> set r"
  shows "findParallelForBlock i (construct_parallels r cs d) = findParallelForBlock i d"
  using assms
proof (induction r cs d rule: construct_parallels.induct)
  case (2 r k c cs d)
  let ?d1 = "if \<exists>n \<in> set (par_nodes c). n \<in> set r then d
     else d\<lparr>parallelConfigs := mput k (c\<lparr>par_nodes := []\<rparr>) (parallelConfigs d)\<rparr>"
  have same: "findParallelForBlock i ?d1 = findParallelForBlock i d"
    using 2(3,5) find_mput [of "parallelConfigs d" k c "\<lambda>(_, cfg). i \<in> set (par_nodes cfg)"]
    by (auto simp: findParallelForBlock_def)
  show ?case
  proof (cases "k \<in> set r")
    case True
    have "\<forall>(k', c') \<in> set cs. mget (parallelConfigs (createParallelSentinelPair k ?d1)) k' = Some c'"
      using 2(3,4) by (fastforce simp: image_iff)
    then have "findParallelForBlock i (construct_parallels r cs (createParallelSentinelPair k ?d1)) =
        findParallelForBlock i (createParallelSentinelPair k ?d1)"
      using 2 True by simp
    with True same show ?thesis
      by (simp add: Let_def findParallelForBlock_cong [of "createParallelSentinelPair k ?d1" ?d1])
  next
    case False
    with 2 show ?thesis by simp
  qed
qed simp

lemma parallelConfigs_construct_loops: "parallelConfigs (construct_loops r cs d) = parallelConfigs d"
  by (induction r cs d rule: construct_loops.induct) (auto simp: Let_def)

lemma mproper_keys: "mproper m \<Longrightarrow> \<forall>(k, v) \<in> set m. mget m k = Some v"
  by (auto simp: mget_iff_in_set)

lemma block_node_id_before:
  assumes "shouldProcessBlock b r"
  shows "block_node_id (parallel_execute (loop_execute (initializeConfigs w) r) r) b =
    block_node_id (initializeConfigs w) b"
proof -
  let ?l = "loop_execute (initializeConfigs w) r"
  have pc: "parallelConfigs ?l = parallelConfigs (initializeConfigs w)"
    by (simp add: loop_execute_def parallelConfigs_construct_loops)
  have mp: "mproper (parallelConfigs ?l)"
    unfolding pc by (simp add: initializeConfigs_def mproper_fold_mput)
  have "findParallelForBlock (blk_id b) (parallel_execute ?l r) = findParallelForBlock (blk_id b) ?l"
    unfolding parallel_execute_def
    by (rule findParallel_construct)
       (use mp assms mproper_keys [OF mp] in \<open>auto simp: mproper_def shouldProcessBlock_def\<close>)
  then show ?thesis
    using findParallelForBlock_cong [OF pc] by (simp add: block_node_id_def)
qed

lemma mkeys_fst: "fst ` set m = set (mkeys m)"
  by (simp add: mkeys_def)

lemma has_node_before_edges:
  "has_node (before_edges w R) i \<longleftrightarrow>
     (\<exists>b \<in> set (wf_blocks w). shouldProcessBlock b R \<and> i = block_node_id (initializeConfigs w) b) \<or>
     (\<exists>c \<in> set R. mhas (wf_loops w) c \<and> (i = buildSentinelStartId c \<or> i = buildSentinelEndId c)) \<or>
     (\<exists>c \<in> set R. mhas (wf_parallels w) c \<and>
        (i = buildParallelSentinelStartId c \<or> i = buildParallelSentinelEndId c))"
proof -
  let ?l = "loop_execute (initializeConfigs w) R"
  have l: "has_node ?l i \<longleftrightarrow>
     (\<exists>c \<in> set R. mhas (wf_loops w) c \<and> (i = buildSentinelStartId c \<or> i = buildSentinelEndId c))"
    unfolding loop_execute_def has_node_construct_loops mkeys_fst set_mkeys
    by (auto simp: initializeConfigs_def has_node_def mhas_fold_mput)
  have p: "has_node (parallel_execute ?l R) i \<longleftrightarrow> has_node ?l i \<or> (\<exists>c \<in> set R. mhas (wf_parallels w) c \<and>
        (i = buildParallelSentinelStartId c \<or> i = buildParallelSentinelEndId c))"
    unfolding parallel_execute_def has_node_construct_parallels mkeys_fst set_mkeys
    by (auto simp: loop_execute_def parallelConfigs_construct_loops initializeConfigs_def mhas_fold_mput)
  show ?thesis
    using block_node_id_before [of _ R w]
    by (auto simp: before_edges_def node_execute_def Let_def has_node_construct_nodes p l)
qed

text \<open>
  C6: the nodes of a built DAG are exactly the executable reachable blocks (enabled and
  not metadata-only; under their branch-0 template id inside a parallel) and the two
  sentinels of every reachable loop and parallel.
\<close>

theorem build_nodes:
  assumes "build parse w trig None allBlocks = Inr d"
  shows "\<exists>R. path_execute w trig allBlocks = Inr R \<and>
    (\<forall>i. has_node d i \<longleftrightarrow>
     (\<exists>b \<in> set (wf_blocks w). shouldProcessBlock b R \<and> i = block_node_id (initializeConfigs w) b) \<or>
     (\<exists>c \<in> set R. mhas (wf_loops w) c \<and> (i = buildSentinelStartId c \<or> i = buildSentinelEndId c)) \<or>
     (\<exists>c \<in> set R. mhas (wf_parallels w) c \<and>
        (i = buildParallelSentinelStartId c \<or> i = buildParallelSentinelEndId c)))"
proof -
  obtain R where R: "path_execute w trig allBlocks = Inr R" "d = build_passes parse w R"
    using build_unfold [OF assms] by blast
  have "has_node d i = has_node (before_edges w R) i" for i
    using adds_edges_frame [OF adds_build_passes] R(2) by blast
  then show ?thesis
    using R(1) has_node_before_edges by blast
qed

lemma first_error_None: "first_error es = None \<longleftrightarrow> (\<forall>e \<in> set es. e = None)"
  by (induction es rule: first_error.induct) auto

text \<open>
  C7: in a built DAG no container is left unconnected: when a loop or a parallel has its
  start sentinel and a non-empty body, some edge of the sentinel leads into the body.
\<close>

theorem build_connected:
  assumes "build parse w trig saved allBlocks = Inr d"
  shows "(\<forall>(i, cfg) \<in> set (loopConfigs d). loop_nodes cfg \<noteq> [] \<longrightarrow>
      (\<forall>n. dnode d (buildSentinelStartId i) = Some n \<longrightarrow>
        (\<exists>e \<in> set (out_edges n). normalizeNodeId (edge_target e) \<in> set (loop_nodes cfg)))) \<and>
    (\<forall>(i, cfg) \<in> set (parallelConfigs d). par_nodes cfg \<noteq> [] \<longrightarrow>
      (\<forall>n. dnode d (buildParallelSentinelStartId i) = Some n \<longrightarrow>
        (\<exists>e \<in> set (out_edges n). normalizeNodeId (edge_target e) \<in> set (par_nodes cfg))))"
proof -
  have "validateSubflowStructure d = None"
    using assms by (auto simp: build_def Let_def split: sum.splits option.splits)
  then have "validateSubflow d i (loop_nodes cfg) SubLoop = None" if "(i, cfg) \<in> set (loopConfigs d)" for i cfg
    using that by (force simp: validateSubflowStructure_def first_error_None)
  moreover have "validateSubflow d i (par_nodes cfg) SubParallel = None" if "(i, cfg) \<in> set (parallelConfigs d)" for i cfg
    using that \<open>validateSubflowStructure d = None\<close>
    by (force simp: validateSubflowStructure_def first_error_None)
  ultimately show ?thesis
    by (fastforce simp: validateSubflow_def split: option.splits if_splits)
qed

section \<open>A workflow with a loop\<close>

definition loop_flow :: sworkflow where
  "loop_flow = \<lparr>wf_blocks = [demo_block ''s'' ''starter'' True, demo_block ''L'' ''loop'' True,
      demo_block ''a'' ''agent'' True, demo_block ''b'' ''agent'' True, demo_block ''z'' ''response'' True],
     wf_connections = [demo_con ''s'' ''L'' None, demo_con ''L'' ''a'' None, demo_con ''a'' ''b'' None,
      demo_con ''L'' ''z'' None],
     wf_loops = [(''L'', demo_loop [''a'', ''b''])], wf_parallels = []\<rparr>"

definition loop_dag :: dag where
  "loop_dag = (case build (\<lambda>_. None) loop_flow None None False of Inr d \<Rightarrow> d | Inl _ \<Rightarrow> initializeConfigs loop_flow)"

lemma loop_flow_facts:
  "case build (\<lambda>_. None) loop_flow None None False of
     Inr d \<Rightarrow> dash_free d \<and> \<not> has_node d ''L'' \<and> has_node d (buildSentinelStartId ''L'') \<and>
              map fst (loopConfigs d) = [''L''] \<and> map (loop_nodes \<circ> snd) (loopConfigs d) = [[''a'', ''b'']]
   | Inl _ \<Rightarrow> False"
  by code_simp

lemma build_loop_flow: "build (\<lambda>_. None) loop_flow None None False = Inr loop_dag"
  using loop_flow_facts by (simp add: loop_dag_def split: sum.splits)

lemma loop_dag_facts:
  "dash_free loop_dag" "\<not> has_node loop_dag ''L''" "has_node loop_dag (buildSentinelStartId ''L'')"
  "map fst (loopConfigs loop_dag) = [''L'']" "map (loop_nodes \<circ> snd) (loopConfigs loop_dag) = [[''a'', ''b'']]"
  using loop_flow_facts by (simp_all add: build_loop_flow)

theorem build_wf_dag_witness: "wf_dag loop_dag \<and> dash_free loop_dag \<and> backed loop_dag"
  using build_wf_dag [OF build_loop_flow] loop_dag_facts(1) by simp

theorem build_nodes_witness: "has_node loop_dag (buildSentinelEndId ''L'') \<and> \<not> has_node loop_dag ''L''"
proof -
  obtain R where R: "path_execute loop_flow None False = Inr R" and
    n: "\<And>i. has_node loop_dag i \<longleftrightarrow>
     (\<exists>b \<in> set (wf_blocks loop_flow). shouldProcessBlock b R \<and> i = block_node_id (initializeConfigs loop_flow) b) \<or>
     (\<exists>c \<in> set R. mhas (wf_loops loop_flow) c \<and> (i = buildSentinelStartId c \<or> i = buildSentinelEndId c)) \<or>
     (\<exists>c \<in> set R. mhas (wf_parallels loop_flow) c \<and>
        (i = buildParallelSentinelStartId c \<or> i = buildParallelSentinelEndId c))"
    using build_nodes [OF build_loop_flow] by blast
  have "path_execute loop_flow None False = Inr [''s'', ''L'', ''a'', ''z'', ''b'']"
    by code_simp
  then have "''L'' \<in> set R" using R by simp
  moreover have "mhas (wf_loops loop_flow) ''L''" by code_simp
  ultimately show ?thesis using n loop_dag_facts(2) by blast
qed

theorem build_connected_witness:
  "\<exists>n e. dnode loop_dag (buildSentinelStartId ''L'') = Some n \<and> e \<in> set (out_edges n) \<and>
     normalizeNodeId (edge_target e) \<in> {''a'', ''b''}"
proof -
  obtain n where n: "dnode loop_dag (buildSentinelStartId ''L'') = Some n"
    using loop_dag_facts(3) by (auto simp: has_node_iff)
  obtain cfg where cfg: "loopConfigs loop_dag = [(''L'', cfg)]" "loop_nodes cfg = [''a'', ''b'']"
    using loop_dag_facts(4,5) by auto
  then show ?thesis
    using build_connected [OF build_loop_flow] n by auto
qed

end
