(* ===== verification/EdgeManager.thy ===== *)
theory EdgeManager
  imports Builder
begin

text \<open>
  \<open>EdgeManager\<close> (\<open>executor/execution/edge-manager.ts\<close>): which edges a finished node
  activates, which branches die, and which nodes become ready. The manager's state is the
  DAG it mutates, the set of deactivated edge keys and the set of nodes that have received
  an activated edge.

  An edge key is \<open>JSON.stringify([source, target, handle])\<close>, which is injective and
  parsed back to the same triple, so it is modelled by the constructor \<open>EdgeKey\<close>; a text
  that is not such a JSON triple (a key of an old snapshot) is \<open>RawKey\<close>.

  The recursion of \<open>deactivateEdgeAndDescendants\<close> shares its state between the branches,
  so it is modelled with the explicit stack of pending calls (\<open>deact_run\<close>); that this is
  the recursion of the code is a theorem below.
\<close>

datatype edge_key = EdgeKey string string string | RawKey string

record edge_manager =
  em_dag :: dag
  deactivatedEdges :: "edge_key list"
  nodesWithActivatedEdge :: "string list"

definition createEdgeKey :: "string \<Rightarrow> string \<Rightarrow> string option \<Rightarrow> edge_key" where
  "createEdgeKey s t h = EdgeKey s t (case h of None \<Rightarrow> DEFAULT | Some x \<Rightarrow> x)"

fun parseEdgeKey :: "edge_key \<Rightarrow> (string \<times> string \<times> string) option" where
  "parseEdgeKey (EdgeKey s t h) = Some (s, t, h)"
| "parseEdgeKey (RawKey _) = None"

section \<open>Edge classification\<close>

definition SIDE_ANCHORED_SOURCE_HANDLE_IDS :: "string list" where
  "SIDE_ANCHORED_SOURCE_HANDLE_IDS = [''source-top'', ''source-right'', ''source-bottom'', ''source-left'']"

definition normalizeWorkflowEdgeSourceHandle :: "string option \<Rightarrow> string option" where
  "normalizeWorkflowEdgeSourceHandle h =
     (if falsy_str h then None
      else if the h \<in> set SIDE_ANCHORED_SOURCE_HANDLE_IDS then Some SOURCE else h)"

definition isSubflowControlEdge :: "string option \<Rightarrow> bool" where
  "isSubflowControlEdge h \<longleftrightarrow> (case h of None \<Rightarrow> False | Some x \<Rightarrow> x \<in> set SUBFLOW_CONTROL_EDGE_HANDLES)"

definition isBackwardsEdge :: "string option \<Rightarrow> bool" where
  "isBackwardsEdge h \<longleftrightarrow> (case h of None \<Rightarrow> False | Some x \<Rightarrow> x \<in> set CONTROL_BACK_EDGE_HANDLES)"

definition shouldActivateEdge :: "dag_edge \<Rightarrow> jobj \<Rightarrow> bool" where
  "shouldActivateEdge e output =
     (let handle = normalizeWorkflowEdgeSourceHandle (edge_sourceHandle e);
          route = get_prop output ''selectedRoute''
      in if route = JStr LOOP_EXIT then handle = Some LOOP_EXIT
         else if route = JStr LOOP_CONTINUE then handle = Some LOOP_CONTINUE \<or> handle = Some LOOP_CONTINUE_ALT
         else if route = JStr PARALLEL_EXIT then handle = Some PARALLEL_EXIT
         else if route = JStr PARALLEL_CONTINUE then handle = Some PARALLEL_CONTINUE
         else if isSubflowControlEdge handle then False
         else (case handle of
                 None \<Rightarrow> True
               | Some h \<Rightarrow>
                   if starts_with h CONDITION_PREFIX
                   then get_prop output ''selectedOption'' = JStr (drop (length CONDITION_PREFIX) h)
                   else if starts_with h ROUTER_PREFIX
                   then route = JStr (drop (length ROUTER_PREFIX) h)
                   else if h = ERROR then truthy (get_prop output ''error'')
                   else if h = SOURCE then \<not> truthy (get_prop output ''error'')
                   else True))"

definition isTerminalControlNode :: "dag \<Rightarrow> string \<Rightarrow> bool" where
  "isTerminalControlNode d i =
     (case dnode d i of
        None \<Rightarrow> False
      | Some n \<Rightarrow> outgoingEdges n \<noteq> [] \<and> (\<forall>e \<in> set (out_edges n). isSubflowControlEdge (edge_sourceHandle e)))"

definition isEnclosingSentinel :: "dag \<Rightarrow> dag_node \<Rightarrow> string \<Rightarrow> bool" where
  "isEnclosingSentinel d sourceNode sentinelId =
     (case dnode d sentinelId of
        None \<Rightarrow> False
      | Some sen \<Rightarrow>
          m_isSentinel (metadata sen) \<and>
          m_subflowType (metadata sourceNode) \<noteq> None \<and>
          m_subflowType (metadata sourceNode) = m_subflowType (metadata sen) \<and>
          \<not> falsy_str (m_subflowId (metadata sourceNode)) \<and>
          m_subflowId (metadata sourceNode) = m_subflowId (metadata sen))"

section \<open>Readiness\<close>

definition edge_active :: "edge_key list \<Rightarrow> string \<Rightarrow> dag_edge \<Rightarrow> bool" where
  "edge_active K s e \<longleftrightarrow> createEdgeKey s (edge_target e) (edge_sourceHandle e) \<notin> set K"

definition hasActiveIncomingEdges :: "dag \<Rightarrow> edge_key list \<Rightarrow> dag_node \<Rightarrow> edge_key \<Rightarrow> bool" where
  "hasActiveIncomingEdges d K n excludeKey =
     (\<exists>s \<in> set (incomingEdges n).
        (case dnode d s of
           None \<Rightarrow> False
         | Some m \<Rightarrow> \<exists>e \<in> set (out_edges m).
             edge_target e = node_id n \<and>
             createEdgeKey s (node_id n) (edge_sourceHandle e) \<noteq> excludeKey \<and>
             createEdgeKey s (node_id n) (edge_sourceHandle e) \<notin> set K))"

definition countActiveIncomingEdges :: "dag \<Rightarrow> edge_key list \<Rightarrow> dag_node \<Rightarrow> nat" where
  "countActiveIncomingEdges d K n =
     length (filter (\<lambda>s. case dnode d s of
                 None \<Rightarrow> False
               | Some m \<Rightarrow> \<exists>e \<in> set (out_edges m). edge_target e = node_id n \<and> edge_active K s e)
               (incomingEdges n))"

definition isNodeReady :: "edge_manager \<Rightarrow> dag_node \<Rightarrow> bool" where
  "isNodeReady em n \<longleftrightarrow>
     incomingEdges n = [] \<or> countActiveIncomingEdges (em_dag em) (deactivatedEdges em) n = 0"

definition isTargetReady :: "edge_manager \<Rightarrow> string \<Rightarrow> bool" where
  "isTargetReady em i = (case dnode (em_dag em) i of None \<Rightarrow> False | Some n \<Rightarrow> isNodeReady em n)"

section \<open>Deactivation\<close>

type_synonym frame = "string \<times> string \<times> string option \<times> bool"

definition frame_key :: "frame \<Rightarrow> edge_key" where
  "frame_key f = (case f of (s, t, h, _) \<Rightarrow> createEdgeKey s t h)"

definition child_frames :: "string \<Rightarrow> dag_node \<Rightarrow> frame list" where
  "child_frames t n =
     map (\<lambda>e. (t, edge_target e, edge_sourceHandle e, True))
       (filter (\<lambda>e. \<not> isBackwardsEdge (edge_sourceHandle e)) (out_edges n))"

definition dag_keys :: "dag \<Rightarrow> edge_key set" where
  "dag_keys d = set (concat (map (\<lambda>(i, n). map frame_key (child_frames i n)) (dag_nodes d)))"

definition add_cascade :: "dag \<Rightarrow> string list \<Rightarrow> bool \<Rightarrow> string \<Rightarrow> string list \<Rightarrow> string list" where
  "add_cascade d act isCascade t C =
     (if isCascade \<and> (isTerminalControlNode d t \<or> t \<in> set act) then sadd t C else C)"

text \<open>Whether the cascade stops at the target, judged with the edge itself deactivated.\<close>

definition cascade_stops :: "dag \<Rightarrow> string list \<Rightarrow> string \<Rightarrow> edge_key list \<Rightarrow> string \<Rightarrow> dag_node \<Rightarrow> edge_key \<Rightarrow> bool" where
  "cascade_stops d act src K t n k \<longleftrightarrow>
     m_sentinelType (metadata n) = Some SentinelEnd \<and>
       (case dnode d src of None \<Rightarrow> False | Some m \<Rightarrow> isEnclosingSentinel d m t) \<or>
     hasActiveIncomingEdges d K n k \<or> t \<in> set act"

lemma finite_dag_keys [simp]: "finite (dag_keys d)"
  unfolding dag_keys_def by (rule finite_set)

lemma child_frames_keys: "dnode d t = Some n \<Longrightarrow> frame_key ` set (child_frames t n) \<subseteq> dag_keys d"
  by (force simp: dag_keys_def dnode_def dest: mget_in_set)

definition pending_keys :: "dag \<Rightarrow> frame list \<Rightarrow> edge_key list \<Rightarrow> edge_key set" where
  "pending_keys d fs K = (frame_key ` set fs \<union> dag_keys d) - set K"

lemma finite_pending [simp]: "finite (pending_keys d fs K)"
  by (simp add: pending_keys_def)

function deact_run ::
  "dag \<Rightarrow> string list \<Rightarrow> string \<Rightarrow> frame list \<Rightarrow> edge_key list \<times> string list \<Rightarrow> edge_key list \<times> string list" where
  "deact_run d act src [] st = st"
| "deact_run d act src ((s, t, h, isC) # fs) (K, C) =
     (let k = createEdgeKey s t h
      in if k \<in> set K then deact_run d act src fs (K, C)
         else (case dnode d t of
                 None \<Rightarrow> deact_run d act src fs (K @ [k], C)
               | Some n \<Rightarrow>
                   (let C' = add_cascade d act isC t C
                    in if cascade_stops d act src (K @ [k]) t n k
                       then deact_run d act src fs (K @ [k], C')
                       else deact_run d act src (child_frames t n @ fs) (K @ [k], C'))))"
  by pat_completeness auto
termination
proof (relation "inv_image (less_than <*lex*> less_than)
    (\<lambda>(d, act, src, fs, K, C). (card (pending_keys d fs K), length fs))")
  fix d :: dag and act :: "string list" and src s t h isC fs K C k
  have step: "card (pending_keys d gs (K @ [k])) < card (pending_keys d ((s, t, h, isC) # fs) K)"
    if "k = createEdgeKey s t h" "k \<notin> set K" "frame_key ` set gs \<subseteq> dag_keys d \<union> frame_key ` set fs" for gs
  proof (rule psubset_card_mono)
    have "k \<in> pending_keys d ((s, t, h, isC) # fs) K"
      using that(1,2) by (simp add: pending_keys_def frame_key_def)
    moreover have "k \<notin> pending_keys d gs (K @ [k])"
      by (simp add: pending_keys_def)
    moreover have "pending_keys d gs (K @ [k]) \<subseteq> pending_keys d ((s, t, h, isC) # fs) K"
      using that(3) by (auto simp: pending_keys_def)
    ultimately show "pending_keys d gs (K @ [k]) \<subset> pending_keys d ((s, t, h, isC) # fs) K"
      by blast
  qed simp
  let ?r = "inv_image (less_than <*lex*> less_than)
    (\<lambda>(d, act, src, fs, K, C). (card (pending_keys d fs K), length fs))"
  show "((d, act, src, fs, K, C), (d, act, src, (s, t, h, isC) # fs, K, C)) \<in> ?r"
    if "k = createEdgeKey s t h" "k \<in> set K"
  proof -
    have "card (pending_keys d fs K) \<le> card (pending_keys d ((s, t, h, isC) # fs) K)"
      by (rule card_mono) (auto simp: pending_keys_def)
    then show ?thesis by auto
  qed
  show "((d, act, src, fs, K @ [k], C), (d, act, src, (s, t, h, isC) # fs, K, C)) \<in> ?r"
    if "k = createEdgeKey s t h" "k \<notin> set K"
    using step [of fs] that by simp
  fix n C'
  show "((d, act, src, fs, K @ [k], C'), (d, act, src, (s, t, h, isC) # fs, K, C)) \<in> ?r"
    if "k = createEdgeKey s t h" "k \<notin> set K"
    using step [of fs] that by simp
  show "((d, act, src, child_frames t n @ fs, K @ [k], C'), (d, act, src, (s, t, h, isC) # fs, K, C)) \<in> ?r"
    if "k = createEdgeKey s t h" "k \<notin> set K" "dnode d t = Some n"
    using step [of "child_frames t n @ fs"] that child_frames_keys [OF that(3)] by auto
qed auto

definition deactivateEdgeAndDescendants ::
  "dag \<Rightarrow> string list \<Rightarrow> string \<Rightarrow> string \<Rightarrow> string \<Rightarrow> string option \<Rightarrow> bool \<Rightarrow>
   edge_key list \<times> string list \<Rightarrow> edge_key list \<times> string list" where
  "deactivateEdgeAndDescendants d act cascadeSourceId s t h isCascade st =
     deact_run d act cascadeSourceId [(s, t, h, isCascade)] st"

section \<open>Operations\<close>

definition classify :: "bool \<Rightarrow> jobj \<Rightarrow> dag_edge list \<Rightarrow> string list \<times> (string \<times> string option) list" where
  "classify skipBackwardsEdge output es =
     (let es' = filter (\<lambda>e. \<not> (skipBackwardsEdge \<and> isBackwardsEdge (edge_sourceHandle e))) es
      in (map edge_target (filter (\<lambda>e. shouldActivateEdge e output) es'),
          map (\<lambda>e. (edge_target e, edge_sourceHandle e))
            (filter (\<lambda>e. \<not> shouldActivateEdge e output \<and> \<not> isSubflowControlEdge (edge_sourceHandle e)) es')))"

definition isSubflowExit :: "jobj \<Rightarrow> bool" where
  "isSubflowExit output \<longleftrightarrow>
     get_prop output ''selectedRoute'' = JStr LOOP_EXIT \<or> get_prop output ''selectedRoute'' = JStr PARALLEL_EXIT"

definition isRouted :: "jobj \<Rightarrow> bool" where
  "isRouted output \<longleftrightarrow> truthy (get_prop output ''selectedOption'') \<or> truthy (get_prop output ''selectedRoute'')"

definition cascade_ready :: "edge_manager \<Rightarrow> dag_node \<Rightarrow> jobj \<Rightarrow> string list \<Rightarrow> string \<Rightarrow> string list \<Rightarrow> string list" where
  "cascade_ready em n output activated t ready =
     (if t \<in> set ready \<or> t \<in> set activated \<or> \<not> isTargetReady em t then ready
      else if \<not> isSubflowExit output \<and> t \<in> set (nodesWithActivatedEdge em) then ready @ [t]
      else if activated \<noteq> [] then ready
      else if isRouted output then (if isEnclosingSentinel (em_dag em) n t then ready @ [t] else ready)
      else ready @ [t])"

definition join_ready :: "edge_manager \<Rightarrow> string list \<Rightarrow> string \<Rightarrow> string list \<Rightarrow> string list" where
  "join_ready em activated t ready =
     (if t \<notin> set ready \<and> t \<notin> set activated \<and> t \<in> set (nodesWithActivatedEdge em) \<and> isTargetReady em t
      then ready @ [t] else ready)"

text \<open>The mutation phase: marks, deactivations, and delivery to the activated targets.\<close>

definition propagate ::
  "edge_manager \<Rightarrow> dag_node \<Rightarrow> string list \<Rightarrow> (string \<times> string option) list \<Rightarrow> edge_manager \<times> string list" where
  "propagate em n activated toDeactivate =
     (let act = sadds activated (nodesWithActivatedEdge em);
          (K, C) = fold (\<lambda>(t, h). deactivateEdgeAndDescendants (em_dag em) act (node_id n) (node_id n) t h False)
                     toDeactivate (deactivatedEdges em, []);
          C' = (if activated = []
                then sadds (filter (isTerminalControlNode (em_dag em)) (map fst toDeactivate)) C else C);
          d' = fold (\<lambda>t. upd_node t (\<lambda>m. m\<lparr>incomingEdges := sdel (node_id n) (incomingEdges m)\<rparr>))
                 activated (em_dag em)
      in (\<lparr>em_dag = d', deactivatedEdges = K, nodesWithActivatedEdge = act\<rparr>, C'))"

definition collect_ready ::
  "edge_manager \<Rightarrow> dag_node \<Rightarrow> jobj \<Rightarrow> string list \<Rightarrow> (string \<times> string option) list \<Rightarrow> string list \<Rightarrow> string list" where
  "collect_ready em n output activated toDeactivate cascadeTargets =
     (let r1 = filter (isTargetReady em) activated;
          r2 = fold (cascade_ready em n output activated) cascadeTargets r1
      in if isSubflowExit output then r2 else fold (join_ready em activated) (map fst toDeactivate) r2)"

definition processOutgoingEdges ::
  "edge_manager \<Rightarrow> dag_node \<Rightarrow> jobj \<Rightarrow> bool \<Rightarrow> edge_manager \<times> string list" where
  "processOutgoingEdges em n output skipBackwardsEdge =
     (let (activated, toDeactivate) = classify skipBackwardsEdge output (out_edges n);
          (em', cascadeTargets) = propagate em n activated toDeactivate
      in (em', collect_ready em' n output activated toDeactivate cascadeTargets))"

definition restoreIncomingEdge :: "string \<Rightarrow> string \<Rightarrow> edge_manager \<Rightarrow> edge_manager" where
  "restoreIncomingEdge t s em =
     em\<lparr>em_dag := upd_node t (\<lambda>m. m\<lparr>incomingEdges := sadd s (incomingEdges m)\<rparr>) (em_dag em)\<rparr>"

definition clearDeactivatedEdges :: "edge_manager \<Rightarrow> edge_manager" where
  "clearDeactivatedEdges em = em\<lparr>deactivatedEdges := [], nodesWithActivatedEdge := []\<rparr>"

definition hasActivatedEdge :: "edge_manager \<Rightarrow> string \<Rightarrow> bool" where
  "hasActivatedEdge em i \<longleftrightarrow> i \<in> set (nodesWithActivatedEdge em)"

definition markNodeWithActivatedEdge :: "string \<Rightarrow> edge_manager \<Rightarrow> edge_manager" where
  "markNodeWithActivatedEdge i em = em\<lparr>nodesWithActivatedEdge := sadd i (nodesWithActivatedEdge em)\<rparr>"

definition legacy_edges :: "dag \<Rightarrow> (string \<times> dag_edge) list" where
  "legacy_edges d = concat (map (\<lambda>(s, n). map (\<lambda>e. (s, e)) (out_edges n)) (dag_nodes d))"

definition legacy_text :: "string \<Rightarrow> dag_edge \<Rightarrow> string" where
  "legacy_text s e =
     s @ ''-'' @ edge_target e @ ''-'' @ (case edge_sourceHandle e of None \<Rightarrow> DEFAULT | Some h \<Rightarrow> h)"

fun normalizeSerializedEdgeKey :: "dag \<Rightarrow> edge_key \<Rightarrow> edge_key" where
  "normalizeSerializedEdgeKey d (EdgeKey s t h) = EdgeKey s t h"
| "normalizeSerializedEdgeKey d (RawKey r) =
     (case List.find (\<lambda>(s, e). legacy_text s e = r) (legacy_edges d) of
        Some (s, e) \<Rightarrow> createEdgeKey s (edge_target e) (edge_sourceHandle e)
      | None \<Rightarrow> RawKey r)"

definition restoreDeactivatedEdges :: "edge_key list \<Rightarrow> string list \<Rightarrow> edge_manager \<Rightarrow> edge_manager" where
  "restoreDeactivatedEdges keys activated em =
     em\<lparr>deactivatedEdges := set_of_array (map (normalizeSerializedEdgeKey (em_dag em)) keys),
        nodesWithActivatedEdge := set_of_array activated\<rparr>"

definition deactivateResumedEdge :: "string \<Rightarrow> string \<Rightarrow> string option \<Rightarrow> edge_manager \<Rightarrow> edge_manager" where
  "deactivateResumedEdge s t h em =
     em\<lparr>deactivatedEdges := fst (deactivateEdgeAndDescendants (em_dag em) (nodesWithActivatedEdge em) s s t h False
                                   (deactivatedEdges em, []))\<rparr>"

definition key_source_in :: "string list \<Rightarrow> edge_key \<Rightarrow> bool" where
  "key_source_in ids k = (case parseEdgeKey k of None \<Rightarrow> False | Some (s, _, _) \<Rightarrow> s \<noteq> [] \<and> s \<in> set ids)"

definition clearDeactivatedEdgesForNodes :: "string list \<Rightarrow> edge_manager \<Rightarrow> edge_manager" where
  "clearDeactivatedEdgesForNodes ids em =
     em\<lparr>deactivatedEdges := filter (\<lambda>k. \<not> key_source_in ids k) (deactivatedEdges em),
        nodesWithActivatedEdge := filter (\<lambda>i. i \<notin> set ids) (nodesWithActivatedEdge em)\<rparr>"

section \<open>The stack is the recursion of the code\<close>

lemma deact_run_append:
  "deact_run d act src (fs @ gs) st = deact_run d act src gs (deact_run d act src fs st)"
proof (induction d act src fs st rule: deact_run.induct)
  case (2 d act src s t h isC fs K C)
  then show ?case
    by (simp add: Let_def split: option.split)
qed simp

lemma deact_run_children:
  "deact_run d act src
     (map (\<lambda>e. (t, edge_target e, edge_sourceHandle e, True))
        (filter (\<lambda>e. \<not> isBackwardsEdge (edge_sourceHandle e)) es)) st =
   fold (\<lambda>e st. if isBackwardsEdge (edge_sourceHandle e) then st
          else deactivateEdgeAndDescendants d act src t (edge_target e) (edge_sourceHandle e) True st) es st"
proof (induction es arbitrary: st)
  case (Cons e es)
  let ?f = "(t, edge_target e, edge_sourceHandle e, True)"
  let ?fs = "map (\<lambda>e. (t, edge_target e, edge_sourceHandle e, True))
    (filter (\<lambda>e. \<not> isBackwardsEdge (edge_sourceHandle e)) es)"
  have "deact_run d act src (?f # ?fs) st = deact_run d act src ?fs (deact_run d act src [?f] st)"
    using deact_run_append [of d act src "[?f]" ?fs st] by (simp del: deact_run.simps)
  with Cons.IH show ?case
    by (cases "isBackwardsEdge (edge_sourceHandle e)")
       (simp_all add: deactivateEdgeAndDescendants_def del: deact_run.simps)
qed simp

text \<open>
  \<open>deactivateEdgeAndDescendants\<close> satisfies the recursive equation of the code: an
  edge that is already deactivated changes nothing; otherwise the edge is deactivated, the
  target is recorded as a cascade target if it qualifies, and unless the cascade stops
  there the function calls itself, in order, for every forward edge of the target.
\<close>

theorem deactivate_recursion:
  "deactivateEdgeAndDescendants d act src s t h isC (K, C) =
     (let k = createEdgeKey s t h
      in if k \<in> set K then (K, C)
         else (case dnode d t of
                 None \<Rightarrow> (K @ [k], C)
               | Some n \<Rightarrow>
                   (let C' = add_cascade d act isC t C
                    in if cascade_stops d act src (K @ [k]) t n k then (K @ [k], C')
                       else fold (\<lambda>e st. if isBackwardsEdge (edge_sourceHandle e) then st
                                  else deactivateEdgeAndDescendants d act src t (edge_target e)
                                         (edge_sourceHandle e) True st)
                              (out_edges n) (K @ [k], C'))))"
  by (simp add: deactivateEdgeAndDescendants_def [of d act src s t h isC "(K, C)"] Let_def
      child_frames_def deact_run_children split: option.split)

section \<open>Cascades only travel through dead nodes\<close>

lemma deact_run_mono: "set (fst st) \<subseteq> set (fst (deact_run d act src fs st))"
proof (induction d act src fs st rule: deact_run.induct)
  case (2 d act src s t h isC fs K C)
  then show ?case
    by (cases "createEdgeKey s t h \<in> set K"; cases "dnode d t") (auto simp: Let_def split: if_splits)
qed simp

lemma deact_run_distinct: "distinct (fst st) \<Longrightarrow> distinct (fst (deact_run d act src fs st))"
proof (induction d act src fs st rule: deact_run.induct)
  case (2 d act src s t h isC fs K C)
  then show ?case
    by (cases "createEdgeKey s t h \<in> set K"; cases "dnode d t") (auto simp: Let_def split: if_splits)
qed simp

text \<open>A node is dead for a set of keys when it never received an activated edge and every
  edge of a registered incoming source into it is deactivated.\<close>

definition dead_node :: "dag \<Rightarrow> string list \<Rightarrow> edge_key list \<Rightarrow> string \<Rightarrow> bool" where
  "dead_node d act K i \<longleftrightarrow>
     (\<exists>n. dnode d i = Some n \<and> i \<notin> set act \<and> countActiveIncomingEdges d K n = 0)"

lemma count_active_zero:
  "countActiveIncomingEdges d K n = 0 \<longleftrightarrow>
     (\<forall>s \<in> set (incomingEdges n). \<forall>m. dnode d s = Some m \<longrightarrow>
        (\<forall>e \<in> set (out_edges m). edge_target e = node_id n \<longrightarrow> \<not> edge_active K s e))"
  by (auto simp: countActiveIncomingEdges_def filter_empty_conv split: option.splits)

lemma count_active_mono:
  "set K \<subseteq> set K' \<Longrightarrow> countActiveIncomingEdges d K n = 0 \<Longrightarrow> countActiveIncomingEdges d K' n = 0"
  by (auto simp: count_active_zero edge_active_def)

lemma not_hasActive_zero:
  "\<not> hasActiveIncomingEdges d K n k \<Longrightarrow> k \<in> set K \<Longrightarrow> countActiveIncomingEdges d K n = 0"
  by (auto simp: hasActiveIncomingEdges_def count_active_zero edge_active_def split: option.splits)

lemma dead_node_mono: "dead_node d act K i \<Longrightarrow> set K \<subseteq> set K' \<Longrightarrow> dead_node d act K' i"
  by (auto simp: dead_node_def intro: count_active_mono)

definition cascaded_from_dead :: "dag \<Rightarrow> string list \<Rightarrow> edge_key list \<Rightarrow> edge_key \<Rightarrow> bool" where
  "cascaded_from_dead d act K k \<longleftrightarrow> (\<exists>s t h. k = createEdgeKey s t h \<and> dead_node d act K s)"

lemma cascaded_mono: "cascaded_from_dead d act K k \<Longrightarrow> set K \<subseteq> set K' \<Longrightarrow> cascaded_from_dead d act K' k"
  by (auto simp: cascaded_from_dead_def intro: dead_node_mono)

lemma deact_run_cascade:
  assumes "\<forall>f \<in> set fs. frame_key f \<in> R \<or> dead_node d act (fst st) (fst f)"
  shows "\<forall>k \<in> set (fst (deact_run d act src fs st)).
     k \<in> set (fst st) \<or> k \<in> R \<or> cascaded_from_dead d act (fst (deact_run d act src fs st)) k"
  using assms
proof (induction d act src fs st rule: deact_run.induct)
  case (2 d act src s t h isC fs K C)
  let ?k = "createEdgeKey s t h"
  show ?case
  proof (cases "?k \<in> set K")
    case True
    then show ?thesis using 2(1) 2(5) by (simp add: Let_def)
  next
    case False
    have fs: "\<forall>f \<in> set fs. frame_key f \<in> R \<or> dead_node d act (K @ [?k]) (fst f)"
      using 2(5) by (auto intro: dead_node_mono)
    have root: "?k \<in> R \<or> cascaded_from_dead d act K' ?k" if "set K \<subseteq> set K'" for K'
      using 2(5) dead_node_mono [OF _ that, of d act s] by (auto simp: frame_key_def cascaded_from_dead_def)
    have fin: "\<forall>k \<in> set (fst st'). k \<in> set K \<or> k \<in> R \<or> cascaded_from_dead d act (fst st') k"
      if "\<forall>k \<in> set (fst st'). k \<in> set (K @ [?k]) \<or> k \<in> R \<or> cascaded_from_dead d act (fst st') k"
        and "set (K @ [?k]) \<subseteq> set (fst st')" for st' :: "edge_key list \<times> string list"
      using that root [of "fst st'"] by auto
    show ?thesis
    proof (cases "dnode d t")
      case None
      have "deact_run d act src ((s, t, h, isC) # fs) (K, C) = deact_run d act src fs (K @ [?k], C)"
        using False None by (simp add: Let_def)
      then show ?thesis
        using fin [of "deact_run d act src fs (K @ [?k], C)"] 2(2) [OF refl False None] fs
          deact_run_mono [of "(K @ [?k], C)" d act src fs] by simp
    next
      case (Some n)
      let ?C = "add_cascade d act isC t C"
      show ?thesis
      proof (cases "cascade_stops d act src (K @ [?k]) t n ?k")
        case True
        have "deact_run d act src ((s, t, h, isC) # fs) (K, C) = deact_run d act src fs (K @ [?k], ?C)"
          using False Some True by (simp add: Let_def)
        then show ?thesis
          using fin [of "deact_run d act src fs (K @ [?k], ?C)"] 2(3) [OF refl False Some refl True] fs
            deact_run_mono [of "(K @ [?k], ?C)" d act src fs] by simp
      next
        case go: False
        have dead: "dead_node d act (K @ [?k]) t"
          using go Some not_hasActive_zero [of d "K @ [?k]" n ?k]
          by (auto simp: dead_node_def cascade_stops_def)
        have "\<forall>f \<in> set (child_frames t n @ fs). frame_key f \<in> R \<or> dead_node d act (K @ [?k]) (fst f)"
          using fs dead by (auto simp: child_frames_def)
        then show ?thesis
          using fin [of "deact_run d act src (child_frames t n @ fs) (K @ [?k], ?C)"]
            2(4) [OF refl False Some refl go] False Some go
            deact_run_mono [of "(K @ [?k], ?C)" d act src "child_frames t n @ fs"] by (simp add: Let_def)
      qed
    qed
  qed
qed simp

lemma deact_run_requested: "createEdgeKey s t h \<in> set (fst (deact_run d act src [(s, t, h, isC)] (K, C)))"
proof (cases "createEdgeKey s t h \<in> set K")
  case False
  have "createEdgeKey s t h \<in> set (fst (deact_run d act src fs (K @ [createEdgeKey s t h], D)))" for fs D
    using deact_run_mono [of "(K @ [createEdgeKey s t h], D)" d act src fs] by auto
  with False show ?thesis by (auto simp: Let_def split: option.split)
qed (simp add: Let_def)

text \<open>
  C2: pruning is sound. Deactivation keeps every key it had, adds the requested edge, and
  every further key it adds belongs to an edge whose source is dead: it never received an
  activated edge, and no registered incoming edge of it is still live in the final state.
\<close>

theorem deactivate_sound:
  assumes "deactivateEdgeAndDescendants d act src s t h isC (K, C) = (K', C')"
  shows "set K \<subseteq> set K' \<and> createEdgeKey s t h \<in> set K' \<and>
    (\<forall>k \<in> set K' - set K. k = createEdgeKey s t h \<or> cascaded_from_dead d act K' k)"
proof -
  have run: "deact_run d act src [(s, t, h, isC)] (K, C) = (K', C')"
    using assms by (simp add: deactivateEdgeAndDescendants_def)
  have "createEdgeKey s t h \<in> set K'"
    using deact_run_requested [of s t h d act src isC K C] run by simp
  moreover have "set K \<subseteq> set K'"
    using deact_run_mono [of "(K, C)" d act src "[(s, t, h, isC)]"] run by simp
  moreover have "\<forall>k \<in> set K'. k \<in> set K \<or> k \<in> {createEdgeKey s t h} \<or> cascaded_from_dead d act K' k"
    using deact_run_cascade [of "[(s, t, h, isC)]" "{createEdgeKey s t h}" d act "(K, C)" src] run
    by (simp add: frame_key_def)
  ultimately show ?thesis by blast
qed

section \<open>Delivery and readiness\<close>

lemma sdel_idem [simp]: "sdel x (sdel x xs) = sdel x xs"
  by (simp add: sdel_def)

definition deliver :: "string \<Rightarrow> dag_node \<Rightarrow> dag_node" where
  "deliver s m = m\<lparr>incomingEdges := sdel s (incomingEdges m)\<rparr>"

lemma deliver_idem [simp]: "deliver s (deliver s m) = deliver s m"
  by (simp add: deliver_def)

lemma dnode_deliver:
  "dnode (fold (\<lambda>t. upd_node t (deliver s)) ts d) i =
     (if i \<in> set ts then map_option (deliver s) (dnode d i) else dnode d i)"
  by (induction ts arbitrary: d) (auto simp: option.map_comp comp_def)

lemma propagate_dag:
  "em_dag (fst (propagate em n activated tds)) = fold (\<lambda>t. upd_node t (deliver (node_id n))) activated (em_dag em)"
  by (simp add: propagate_def Let_def deliver_def [abs_def] split: prod.split)

lemma propagate_marks:
  "nodesWithActivatedEdge (fst (propagate em n activated tds)) = sadds activated (nodesWithActivatedEdge em)"
  by (simp add: propagate_def Let_def split: prod.split)

lemma fold_keeps: "(\<And>x y. P y \<Longrightarrow> P (f x y)) \<Longrightarrow> P y \<Longrightarrow> P (fold f xs y)"
  by (induction xs arbitrary: y) auto

lemma cascade_fold_subset: "set ready \<subseteq> set (fold (cascade_ready em n output act) cs ready)"
  by (rule fold_keeps [where P = "\<lambda>r. set ready \<subseteq> set r"]) (auto simp: cascade_ready_def)

lemma join_fold_subset: "set ready \<subseteq> set (fold (join_ready em act) cs ready)"
  by (rule fold_keeps [where P = "\<lambda>r. set ready \<subseteq> set r"]) (auto simp: join_ready_def)

lemma process_split:
  assumes "processOutgoingEdges em n output skip = (em', ready)"
  obtains activated tds C where "classify skip output (out_edges n) = (activated, tds)"
    and "propagate em n activated tds = (em', C)"
    and "ready = collect_ready em' n output activated tds C"
proof -
  obtain activated tds where c: "classify skip output (out_edges n) = (activated, tds)" by fastforce
  obtain em1 C where p: "propagate em n activated tds = (em1, C)" by fastforce
  have pair: "(em1, collect_ready em1 n output activated tds C) = (em', ready)"
    using assms by (simp only: processOutgoingEdges_def c p Let_def prod.case)
  then have e: "em1 = em'" and r: "collect_ready em1 n output activated tds C = ready" by (auto simp only: prod.inject)
  show thesis by (rule that [OF c p [unfolded e] r [unfolded e, symmetric]])
qed

lemma collect_ready_activated:
  "t \<in> set activated \<Longrightarrow> isTargetReady em t \<Longrightarrow> t \<in> set (collect_ready em n output activated tds C)"
  by (simp add: collect_ready_def Let_def subsetD [OF join_fold_subset] subsetD [OF cascade_fold_subset])

lemma collect_ready_keeps:
  assumes base: "\<And>t. t \<in> set activated \<Longrightarrow> isTargetReady em t \<Longrightarrow> P t"
    and cas: "\<And>c r. c \<in> set C \<Longrightarrow> \<forall>t \<in> set r. P t \<Longrightarrow> \<forall>t \<in> set (cascade_ready em n output activated c r). P t"
    and join: "\<And>c r. \<forall>t \<in> set r. P t \<Longrightarrow> \<forall>t \<in> set (join_ready em activated c r). P t"
  shows "\<forall>t \<in> set (collect_ready em n output activated tds C). P t"
proof -
  have c: "\<forall>t \<in> set (fold (cascade_ready em n output activated) cs r). P t"
    if "set cs \<subseteq> set C" "\<forall>t \<in> set r. P t" for cs r
    using that
  proof (induction cs arbitrary: r)
    case (Cons x cs)
    have "\<forall>t \<in> set (cascade_ready em n output activated x r). P t"
      by (rule cas) (use Cons.prems in auto)
    with Cons show ?case by simp
  qed simp
  have "\<forall>t \<in> set (fold (cascade_ready em n output activated) C (filter (isTargetReady em) activated)). P t"
    by (rule c) (use base in auto)
  moreover have "\<forall>t \<in> set (fold (join_ready em activated) xs r). P t" if "\<forall>t \<in> set r. P t" for xs r
    by (rule fold_keeps [where P = "\<lambda>r. \<forall>t \<in> set r. P t"]) (fact join, fact that)
  ultimately show ?thesis
    by (simp add: collect_ready_def Let_def)
qed

lemma process_ready:
  assumes "processOutgoingEdges em n output skip = (em', ready)"
  shows "\<forall>t \<in> set ready. isTargetReady em' t"
proof -
  obtain activated tds C where r: "ready = collect_ready em' n output activated tds C"
    using assms by (rule process_split)
  show ?thesis unfolding r by (rule collect_ready_keeps) (auto simp: cascade_ready_def join_ready_def)
qed

text \<open>
  C1: everything \<open>processOutgoingEdges\<close> hands to the queue is ready in the state it
  leaves; every target of an activated edge is marked and no longer waits for the finished
  node; and such a target is handed over exactly when it is ready, so no activated
  successor is forgotten.
\<close>

theorem processOutgoingEdges_delivers:
  assumes "processOutgoingEdges em n output skip = (em', ready)"
  shows "(\<forall>t \<in> set ready. isTargetReady em' t) \<and>
    (\<forall>t \<in> set (fst (classify skip output (out_edges n))).
       t \<in> set (nodesWithActivatedEdge em') \<and>
       (\<forall>m. dnode (em_dag em') t = Some m \<longrightarrow> node_id n \<notin> set (incomingEdges m)) \<and>
       (t \<in> set ready \<longleftrightarrow> isTargetReady em' t))"
proof -
  obtain activated tds C where c: "classify skip output (out_edges n) = (activated, tds)"
    and p: "propagate em n activated tds = (em', C)"
    and r: "ready = collect_ready em' n output activated tds C"
    using assms by (rule process_split)
  have ok: "\<forall>t \<in> set ready. isTargetReady em' t" using assms by (rule process_ready)
  have sub: "t \<in> set ready" if "t \<in> set activated" "isTargetReady em' t" for t
    unfolding r using that by (rule collect_ready_activated)
  have marks: "nodesWithActivatedEdge em' = sadds activated (nodesWithActivatedEdge em)"
    using propagate_marks [of em n activated tds] p by simp
  have "node_id n \<notin> set (incomingEdges m)" if "t \<in> set activated" "dnode (em_dag em') t = Some m" for t m
    using propagate_dag [of em n activated tds] p that by (auto simp: dnode_deliver deliver_def)
  with ok sub marks show ?thesis
    by (auto simp: c)
qed

lemma add_cascade_set:
  "set (add_cascade d act isC t C) \<subseteq> set C \<union> {t. isTerminalControlNode d t \<or> t \<in> set act}"
  by (auto simp: add_cascade_def)

lemma deact_run_cascade_set:
  "set (snd (deact_run d act src fs st)) \<subseteq> set (snd st) \<union> {t. isTerminalControlNode d t \<or> t \<in> set act}"
proof (induction d act src fs st rule: deact_run.induct)
  case (2 d act src s t h isC fs K C)
  let ?k = "createEdgeKey s t h"
  show ?case
  proof (cases "?k \<in> set K")
    case True
    with 2(1) show ?thesis by (simp add: Let_def)
  next
    case False
    note nk = this
    show ?thesis
    proof (cases "dnode d t")
      case None
      with 2(2) nk show ?thesis by (simp add: Let_def)
    next
      case (Some n)
      show ?thesis
        using 2(3) [OF refl nk Some refl] 2(4) [OF refl nk Some refl] nk Some add_cascade_set [of d act isC t C]
        by (cases "cascade_stops d act src (K @ [?k]) t n ?k") (simp_all add: Let_def, blast+)
    qed
  qed
qed simp

lemma deactivate_cascade_set:
  assumes "set (snd st) \<subseteq> {t. isTerminalControlNode d t \<or> t \<in> set act}"
  shows "set (snd (deactivateEdgeAndDescendants d act src s t h isC st)) \<subseteq> {t. isTerminalControlNode d t \<or> t \<in> set act}"
  using deact_run_cascade_set [of d act src "[(s, t, h, isC)]" st] assms
  unfolding deactivateEdgeAndDescendants_def by blast

lemma propagate_cascade_set:
  "set (snd (propagate em n activated tds)) \<subseteq>
     {t. isTerminalControlNode (em_dag em) t \<or> t \<in> set (sadds activated (nodesWithActivatedEdge em))}"
proof -
  let ?act = "sadds activated (nodesWithActivatedEdge em)"
  let ?ok = "\<lambda>st :: edge_key list \<times> string list. set (snd st) \<subseteq>
     {t. isTerminalControlNode (em_dag em) t \<or> t \<in> set ?act}"
  let ?step = "\<lambda>(t, h). deactivateEdgeAndDescendants (em_dag em) ?act (node_id n) (node_id n) t h False"
  obtain K C where KC: "fold ?step tds (deactivatedEdges em, []) = (K, C)" by fastforce
  have "?ok (fold ?step tds (deactivatedEdges em, []))"
  proof (rule fold_keeps [where P = ?ok])
    fix x and y :: "edge_key list \<times> string list"
    assume "?ok y"
    then show "?ok (?step x y)"
      by (cases x) (simp only: prod.case, rule deactivate_cascade_set)
  qed simp
  with KC have "set C \<subseteq> {t. isTerminalControlNode (em_dag em) t \<or> t \<in> set ?act}" by simp
  moreover have "snd (propagate em n activated tds) =
     (if activated = [] then sadds (filter (isTerminalControlNode (em_dag em)) (map fst tds)) C else C)"
    using KC by (simp add: propagate_def Let_def)
  ultimately show ?thesis by auto
qed

text \<open>
  C3: a node that never received an activated edge is handed to the queue only as the
  control sentinel of a dead end: no edge was activated, and all its outgoing edges are
  subflow control edges. Skipped blocks never run.
\<close>

theorem processOutgoingEdges_no_skipped_block:
  assumes "processOutgoingEdges em n output skip = (em', ready)"
    and "t \<in> set ready" and "t \<notin> set (nodesWithActivatedEdge em')"
  shows "fst (classify skip output (out_edges n)) = [] \<and> isTerminalControlNode (em_dag em) t"
proof -
  obtain activated tds C where c: "classify skip output (out_edges n) = (activated, tds)"
    and p: "propagate em n activated tds = (em', C)"
    and r: "ready = collect_ready em' n output activated tds C"
    using assms(1) by (rule process_split)
  have marks: "nodesWithActivatedEdge em' = sadds activated (nodesWithActivatedEdge em)"
    using propagate_marks [of em n activated tds] p by simp
  let ?ok = "\<lambda>t. t \<in> set (nodesWithActivatedEdge em') \<or> activated = [] \<and> isTerminalControlNode (em_dag em) t"
  have C: "\<forall>t \<in> set C. isTerminalControlNode (em_dag em) t \<or> t \<in> set (nodesWithActivatedEdge em')"
    using propagate_cascade_set [of em n activated tds] p marks by auto
  have "\<forall>t \<in> set ready. ?ok t"
    unfolding r by (rule collect_ready_keeps) (use C in \<open>auto simp: cascade_ready_def join_ready_def marks\<close>)
  with assms(2,3) c show ?thesis by auto
qed

lemma join_fold_hits:
  "t \<in> set xs \<Longrightarrow> t \<in> set (nodesWithActivatedEdge em) \<Longrightarrow> isTargetReady em t \<Longrightarrow> t \<notin> set act \<Longrightarrow>
   t \<in> set (fold (join_ready em act) xs r)"
proof (induction xs arbitrary: r)
  case (Cons x xs)
  show ?case
  proof (cases "t = x")
    case True
    then have "t \<in> set (join_ready em act x r)"
      using Cons.prems by (auto simp: join_ready_def)
    then show ?thesis
      using join_fold_subset [of "join_ready em act x r" em act xs] by auto
  next
    case False
    with Cons show ?thesis by simp
  qed
qed simp


section \<open>Exclusive routing\<close>

datatype handle_group = ConditionBranch | RouterBranch | Outcome | Control | Plain

definition handle_group :: "string \<Rightarrow> handle_group" where
  "handle_group h =
     (if h \<in> set SUBFLOW_CONTROL_EDGE_HANDLES then Control
      else if starts_with h CONDITION_PREFIX then ConditionBranch
      else if starts_with h ROUTER_PREFIX then RouterBranch
      else if h = ERROR \<or> h = SOURCE then Outcome
      else Plain)"

definition same_way :: "string \<Rightarrow> string \<Rightarrow> bool" where
  "same_way h h' \<longleftrightarrow> h = h' \<or> {h, h'} \<subseteq> {LOOP_CONTINUE, LOOP_CONTINUE_ALT}"

definition control_route :: "jobj \<Rightarrow> bool" where
  "control_route output \<longleftrightarrow>
     get_prop output ''selectedRoute'' \<in> JStr ` {LOOP_EXIT, LOOP_CONTINUE, PARALLEL_EXIT, PARALLEL_CONTINUE}"

lemma strip_prefix: "starts_with h p \<Longrightarrow> h = p @ drop (length p) h"
  by (auto simp: starts_with_def prefix_def)

lemma control_routes_differ:
  "LOOP_EXIT \<noteq> LOOP_CONTINUE" "LOOP_EXIT \<noteq> PARALLEL_EXIT" "LOOP_EXIT \<noteq> PARALLEL_CONTINUE"
  "LOOP_CONTINUE \<noteq> PARALLEL_EXIT" "LOOP_CONTINUE \<noteq> PARALLEL_CONTINUE" "PARALLEL_EXIT \<noteq> PARALLEL_CONTINUE"
  by (simp_all add: edge_handle_defs)

lemma activate_control_route:
  assumes "control_route output" and "shouldActivateEdge e output"
    and "normalizeWorkflowEdgeSourceHandle (edge_sourceHandle e) = Some h"
  shows "get_prop output ''selectedRoute'' = JStr h \<or>
    get_prop output ''selectedRoute'' = JStr LOOP_CONTINUE \<and> h \<in> {LOOP_CONTINUE, LOOP_CONTINUE_ALT}"
    and "h \<in> set SUBFLOW_CONTROL_EDGE_HANDLES"
proof -
  consider "get_prop output ''selectedRoute'' = JStr LOOP_EXIT" | "get_prop output ''selectedRoute'' = JStr LOOP_CONTINUE"
    | "get_prop output ''selectedRoute'' = JStr PARALLEL_EXIT" | "get_prop output ''selectedRoute'' = JStr PARALLEL_CONTINUE"
    using assms(1) by (auto simp: control_route_def)
  then have "(get_prop output ''selectedRoute'' = JStr h \<or>
    get_prop output ''selectedRoute'' = JStr LOOP_CONTINUE \<and> h \<in> {LOOP_CONTINUE, LOOP_CONTINUE_ALT})
    \<and> h \<in> set SUBFLOW_CONTROL_EDGE_HANDLES"
    by cases (use assms(2,3) control_routes_differ in
      \<open>simp_all add: shouldActivateEdge_def SUBFLOW_CONTROL_EDGE_HANDLES_def, blast\<close>)
  then show "get_prop output ''selectedRoute'' = JStr h \<or>
    get_prop output ''selectedRoute'' = JStr LOOP_CONTINUE \<and> h \<in> {LOOP_CONTINUE, LOOP_CONTINUE_ALT}"
    and "h \<in> set SUBFLOW_CONTROL_EDGE_HANDLES" by blast+
qed

lemma activate_block_output:
  assumes "\<not> control_route output" and "shouldActivateEdge e output"
    and "normalizeWorkflowEdgeSourceHandle (edge_sourceHandle e) = Some h"
  shows "handle_group h \<noteq> Control \<and>
    (handle_group h = ConditionBranch \<longrightarrow> (\<exists>v. h = CONDITION_PREFIX @ v \<and> get_prop output ''selectedOption'' = JStr v)) \<and>
    (handle_group h = RouterBranch \<longrightarrow> (\<exists>v. h = ROUTER_PREFIX @ v \<and> get_prop output ''selectedRoute'' = JStr v)) \<and>
    (handle_group h = Outcome \<longrightarrow> h = (if truthy (get_prop output ''error'') then ERROR else SOURCE))"
proof -
  have nc: "get_prop output ''selectedRoute'' \<noteq> JStr LOOP_EXIT" "get_prop output ''selectedRoute'' \<noteq> JStr LOOP_CONTINUE"
    "get_prop output ''selectedRoute'' \<noteq> JStr PARALLEL_EXIT" "get_prop output ''selectedRoute'' \<noteq> JStr PARALLEL_CONTINUE"
    using assms(1) by (auto simp: control_route_def)
  have ctl: "h \<notin> set SUBFLOW_CONTROL_EDGE_HANDLES"
    using assms(2,3) nc by (auto simp: shouldActivateEdge_def isSubflowControlEdge_def Let_def)
  then have act: "if starts_with h CONDITION_PREFIX
       then get_prop output ''selectedOption'' = JStr (drop (length CONDITION_PREFIX) h)
       else if starts_with h ROUTER_PREFIX
       then get_prop output ''selectedRoute'' = JStr (drop (length ROUTER_PREFIX) h)
       else if h = ERROR then truthy (get_prop output ''error'')
       else if h = SOURCE then \<not> truthy (get_prop output ''error'') else True"
    using assms(2,3) nc by (simp add: shouldActivateEdge_def isSubflowControlEdge_def Let_def)
  show ?thesis
  proof (cases "starts_with h CONDITION_PREFIX")
    case True
    with act ctl strip_prefix [of h CONDITION_PREFIX] show ?thesis by (auto simp: handle_group_def)
  next
    case nc: False
    show ?thesis
    proof (cases "starts_with h ROUTER_PREFIX")
      case True
      with nc act ctl strip_prefix [of h ROUTER_PREFIX] show ?thesis by (auto simp: handle_group_def)
    next
      case False
      with nc act ctl show ?thesis by (cases "h = ERROR") (simp_all add: handle_group_def)
    qed
  qed
qed

text \<open>
  routing is exclusive. Two edges that one output activates never take two different
  branches of the same kind: not two options of a condition, not two routes of a router,
  not both the error and the success outcome, and not two different control routes of a
  sentinel (the two spellings of \<open>loop_continue\<close> are one way).
\<close>

theorem shouldActivateEdge_exclusive:
  assumes "shouldActivateEdge e output" and "shouldActivateEdge e' output"
    and "normalizeWorkflowEdgeSourceHandle (edge_sourceHandle e) = Some h"
    and "normalizeWorkflowEdgeSourceHandle (edge_sourceHandle e') = Some h'"
    and "handle_group h = handle_group h'"
  shows "same_way h h' \<or> handle_group h = Plain"
proof (cases "control_route output")
  case True
  from activate_control_route [OF this assms(1,3)] activate_control_route [OF this assms(2,4)] show ?thesis
    by (auto simp: same_way_def)
next
  case False
  from activate_block_output [OF this assms(1,3)] activate_block_output [OF False assms(2,4)] assms(5)
  show ?thesis
    by (cases "handle_group h") (auto simp: same_way_def)
qed

section \<open>Invariant and snapshots\<close>

definition em_wf :: "edge_manager \<Rightarrow> bool" where
  "em_wf em \<longleftrightarrow> wf_dag (em_dag em) \<and> distinct (deactivatedEdges em) \<and> distinct (nodesWithActivatedEdge em)"

lemma deactivate_distinct:
  "distinct (fst st) \<Longrightarrow> distinct (fst (deactivateEdgeAndDescendants d act src s t h isC st))"
  by (simp add: deactivateEdgeAndDescendants_def deact_run_distinct del: deact_run.simps)

lemma wf_dag_deliver: "wf_dag d \<Longrightarrow> wf_dag (fold (\<lambda>t. upd_node t (deliver s)) ts d)"
proof (induction ts arbitrary: d)
  case (Cons t ts)
  have "wf_dag (upd_node t (deliver s) d)"
    by (rule wf_dag_upd [OF Cons.prems]) (auto simp: wf_node_def deliver_def out_edges_def)
  with Cons.IH show ?case by simp
qed simp

lemma propagate_keys_distinct:
  assumes "distinct (deactivatedEdges em)"
  shows "distinct (deactivatedEdges (fst (propagate em n activated tds)))"
proof -
  let ?step = "\<lambda>(t, h). deactivateEdgeAndDescendants (em_dag em)
    (sadds activated (nodesWithActivatedEdge em)) (node_id n) (node_id n) t h False"
  obtain K C where KC: "fold ?step tds (deactivatedEdges em, []) = (K, C)" by fastforce
  have "distinct (fst (fold ?step tds (deactivatedEdges em, [])))"
  proof (rule fold_keeps [where P = "\<lambda>st. distinct (fst st)"])
    fix x and y :: "edge_key list \<times> string list"
    assume "distinct (fst y)"
    then show "distinct (fst (?step x y))"
      by (cases x) (simp only: prod.case, rule deactivate_distinct)
  qed (simp add: assms)
  with KC show ?thesis by (simp add: propagate_def Let_def)
qed

lemma process_wf:
  assumes "em_wf em"
  shows "em_wf (fst (processOutgoingEdges em n output skip))"
proof -
  obtain em' ready where e: "processOutgoingEdges em n output skip = (em', ready)" by fastforce
  then obtain activated tds C where p: "propagate em n activated tds = (em', C)"
    by (rule process_split)
  from propagate_dag [of em n activated tds] propagate_marks [of em n activated tds]
    propagate_keys_distinct [of em n activated tds] p e assms
  show ?thesis by (simp add: em_wf_def wf_dag_deliver)
qed

lemma restore_incoming_wf:
  assumes "em_wf em" and "has_node (em_dag em) s"
  shows "em_wf (restoreIncomingEdge t s em)"
proof -
  have "wf_dag (upd_node t (\<lambda>m. m\<lparr>incomingEdges := sadd s (incomingEdges m)\<rparr>) (em_dag em))"
    by (rule wf_dag_upd) (use assms in \<open>auto simp: em_wf_def wf_node_def out_edges_def\<close>)
  with assms(1) show ?thesis by (simp add: em_wf_def restoreIncomingEdge_def)
qed

text \<open>
  every operation of the edge manager keeps its invariant: the DAG stays well formed
  (no dangling incoming source, no duplicate one) and both sets stay sets.
\<close>

theorem edge_manager_invariant:
  assumes "em_wf em"
  shows "em_wf (fst (processOutgoingEdges em n output skip)) \<and>
    (has_node (em_dag em) s \<longrightarrow> em_wf (restoreIncomingEdge t s em)) \<and>
    em_wf (clearDeactivatedEdges em) \<and> em_wf (markNodeWithActivatedEdge i em) \<and>
    em_wf (restoreDeactivatedEdges keys marks em) \<and> em_wf (deactivateResumedEdge s t h em) \<and>
    em_wf (clearDeactivatedEdgesForNodes ids em)"
  using assms process_wf [OF assms] restore_incoming_wf [OF assms]
  by (auto simp: em_wf_def clearDeactivatedEdges_def markNodeWithActivatedEdge_def
      restoreDeactivatedEdges_def deactivateResumedEdge_def clearDeactivatedEdgesForNodes_def
      intro: deactivate_distinct)

lemma sadds_distinct: "distinct (ys @ xs) \<Longrightarrow> sadds xs ys = ys @ xs"
proof (induction xs arbitrary: ys)
  case (Cons x xs)
  then have "sadd x ys = ys @ [x]" by (simp add: sadd_def)
  with Cons show ?case by simp
qed simp

lemma set_of_array_distinct: "distinct xs \<Longrightarrow> set_of_array xs = xs"
  using sadds_distinct [of "[]" xs] by (simp add: set_of_array_def)

lemma normalize_idem [simp]:
  "normalizeSerializedEdgeKey d (normalizeSerializedEdgeKey d k) = normalizeSerializedEdgeKey d k"
  by (cases k) (auto simp: createEdgeKey_def split: option.split)

definition snapshot_keys :: "edge_manager \<Rightarrow> bool" where
  "snapshot_keys em \<longleftrightarrow> (\<forall>k \<in> set (deactivatedEdges em). normalizeSerializedEdgeKey (em_dag em) k = k)"

text \<open>
  a pause and a resume restore the routing state. Reading the two sets and restoring
  them into an edge manager over the same DAG gives back the same sets, in the same order,
  whatever that manager held; keys written in the legacy text form are translated once and
  are stable afterwards.
\<close>

theorem snapshot_roundtrip:
  assumes "em_wf em" and "snapshot_keys em" and "em_dag em' = em_dag em"
  shows "restoreDeactivatedEdges (deactivatedEdges em) (nodesWithActivatedEdge em) em' = em \<and>
    snapshot_keys (restoreDeactivatedEdges keys marks em')"
proof -
  have "map (normalizeSerializedEdgeKey (em_dag em)) (deactivatedEdges em) = deactivatedEdges em"
    using assms(2) by (simp add: snapshot_keys_def map_idI)
  with assms(1,3) show ?thesis
    by (auto simp: restoreDeactivatedEdges_def em_wf_def set_of_array_distinct snapshot_keys_def)
qed

lemma clear_active:
  "edge_active (deactivatedEdges (clearDeactivatedEdgesForNodes ids em)) s e \<longleftrightarrow>
     edge_active (deactivatedEdges em) s e \<or> s \<noteq> [] \<and> s \<in> set ids"
  by (auto simp: edge_active_def clearDeactivatedEdgesForNodes_def key_source_in_def createEdgeKey_def)

definition linked :: "dag \<Rightarrow> string \<Rightarrow> string \<Rightarrow> bool" where
  "linked d s t \<longleftrightarrow> (case dnode d s of None \<Rightarrow> False | Some m \<Rightarrow> t \<in> set (map edge_target (out_edges m)))"

definition live_link :: "edge_manager \<Rightarrow> string \<Rightarrow> string \<Rightarrow> bool" where
  "live_link em s t \<longleftrightarrow>
     (case dnode (em_dag em) s of
        None \<Rightarrow> False
      | Some m \<Rightarrow> \<exists>e \<in> set (out_edges m). edge_target e = t \<and> edge_active (deactivatedEdges em) s e)"

lemma isNodeReady_iff: "isNodeReady em n \<longleftrightarrow> filter (\<lambda>s. live_link em s (node_id n)) (incomingEdges n) = []"
  by (auto simp: isNodeReady_def countActiveIncomingEdges_def live_link_def)

lemma live_link_clear:
  "live_link (clearDeactivatedEdgesForNodes ids em) s t \<longleftrightarrow>
     live_link em s t \<or> (s \<noteq> [] \<and> s \<in> set ids \<and> linked (em_dag em) s t)"
proof -
  have "em_dag (clearDeactivatedEdgesForNodes ids em) = em_dag em"
    by (simp add: clearDeactivatedEdgesForNodes_def)
  then show ?thesis
    by (cases "dnode (em_dag em) s") (auto simp: live_link_def linked_def clear_active)
qed

text \<open>
  clearing the deactivated edges of a set of nodes (the body of a loop before its next
  iteration) revives exactly the edges that leave these nodes: afterwards a node waits for
  a registered incoming source iff that source is in the set and has an edge to the node,
  or still had a live edge to it before. An edge from outside that was pruned stays pruned.
\<close>

theorem clear_revives_exactly:
  "(isNodeReady (clearDeactivatedEdgesForNodes ids em) n \<longleftrightarrow>
      filter (\<lambda>s. live_link em s (node_id n) \<or> (s \<noteq> [] \<and> s \<in> set ids \<and> linked (em_dag em) s (node_id n)))
        (incomingEdges n) = []) \<and>
   (hasActivatedEdge (clearDeactivatedEdgesForNodes ids em) i \<longleftrightarrow> hasActivatedEdge em i \<and> i \<notin> set ids)"
proof
  show "isNodeReady (clearDeactivatedEdgesForNodes ids em) n \<longleftrightarrow>
      filter (\<lambda>s. live_link em s (node_id n) \<or> (s \<noteq> [] \<and> s \<in> set ids \<and> linked (em_dag em) s (node_id n)))
        (incomingEdges n) = []"
    by (simp only: isNodeReady_iff live_link_clear)
qed (auto simp: hasActivatedEdge_def clearDeactivatedEdgesForNodes_def)

section \<open>Concrete runs\<close>

definition demo_edge :: "string \<Rightarrow> string \<Rightarrow> string \<times> dag_edge" where
  "demo_edge t h = (t @ h, \<lparr>edge_target = t, edge_sourceHandle = Some h, edge_targetHandle = None\<rparr>)"

definition demo_node :: "string \<Rightarrow> string list \<Rightarrow> (string \<times> string) list \<Rightarrow> node_meta \<Rightarrow> string \<times> dag_node" where
  "demo_node i ins outs m = (i, \<lparr>node_id = i, node_block = demo_block i ''agent'' True, incomingEdges = ins,
     outgoingEdges = map (\<lambda>(t, h). demo_edge t h) outs, metadata = m\<rparr>)"

text \<open>A condition \<open>a\<close> with the branches \<open>b\<close> and (through \<open>c\<close>) \<open>k\<close>; \<open>j\<close> joins \<open>x\<close> and \<open>a\<close>.\<close>

definition branch_dag :: dag where
  "branch_dag = \<lparr>dag_nodes = [
      demo_node ''a'' [] [(''b'', ''condition-1''), (''c'', ''condition-2''), (''j'', ''condition-2'')] no_meta,
      demo_node ''b'' [''a''] [] no_meta, demo_node ''c'' [''a''] [(''k'', ''source'')] no_meta,
      demo_node ''k'' [''c''] [] no_meta, demo_node ''x'' [] [(''j'', ''source'')] no_meta,
      demo_node ''j'' [''a''] [] no_meta],
     loopConfigs = [], parallelConfigs = []\<rparr>"

definition branch_em :: edge_manager where
  "branch_em = \<lparr>em_dag = branch_dag, deactivatedEdges = [], nodesWithActivatedEdge = [''j'']\<rparr>"

definition branch_output :: jobj where
  "branch_output = [(''selectedOption'', JStr ''1'')]"

text \<open>A condition inside loop \<open>L\<close> that selects a dead end; only the loop's end sentinel is left.\<close>

definition loop_meta :: "sentinel option \<Rightarrow> node_meta" where
  "loop_meta sen = no_meta\<lparr>m_isSentinel := sen \<noteq> None, m_sentinelType := sen, m_subflowType := Some SubLoop,
     m_subflowId := Some ''L''\<rparr>"

definition dead_end_em :: edge_manager where
  "dead_end_em = \<lparr>em_dag = \<lparr>dag_nodes = [
      demo_node ''a'' [] [(''E'', ''condition-2'')] (loop_meta None),
      demo_node ''E'' [''a''] [(''z'', ''loop_exit'')] (loop_meta (Some SentinelEnd)),
      demo_node ''z'' [''E''] [] no_meta], loopConfigs = [], parallelConfigs = []\<rparr>,
     deactivatedEdges = [], nodesWithActivatedEdge = []\<rparr>"

definition branch_node :: dag_node where
  "branch_node = snd (demo_node ''a'' [] [(''b'', ''condition-1''), (''c'', ''condition-2''), (''j'', ''condition-2'')] no_meta)"

definition dead_end_node :: dag_node where
  "dead_end_node = snd (demo_node ''a'' [] [(''E'', ''condition-2'')] (loop_meta None))"

lemma deact_fact:
  "deactivateEdgeAndDescendants branch_dag [''j'', ''b''] ''a'' ''a'' ''c'' (Some ''condition-2'') False ([], []) =
     ([EdgeKey ''a'' ''c'' ''condition-2'', EdgeKey ''c'' ''k'' ''source''], [])"
  by code_simp

theorem deactivate_sound_witness:
  "cascaded_from_dead branch_dag [''j'', ''b''] [EdgeKey ''a'' ''c'' ''condition-2'', EdgeKey ''c'' ''k'' ''source'']
     (EdgeKey ''c'' ''k'' ''source'')"
  using deactivate_sound [OF deact_fact] by (simp add: createEdgeKey_def)

lemma branch_facts:
  "dnode branch_dag ''a'' = Some branch_node \<and>
   snd (processOutgoingEdges branch_em branch_node branch_output False) = [''b'', ''j''] \<and>
   isTargetReady (fst (processOutgoingEdges branch_em branch_node branch_output False)) ''j'' \<and>
   classify False branch_output (out_edges branch_node) =
     ([''b''], [(''c'', Some ''condition-2''), (''j'', Some ''condition-2'')]) \<and>
   \<not> isSubflowExit branch_output \<and>
   nodesWithActivatedEdge (fst (processOutgoingEdges branch_em branch_node branch_output False)) = [''j'', ''b'']"
  by code_simp

lemma branch_run:
  "processOutgoingEdges branch_em branch_node branch_output False =
     (fst (processOutgoingEdges branch_em branch_node branch_output False), [''b'', ''j''])"
  using branch_facts by (metis prod.collapse)

theorem processOutgoingEdges_delivers_witness:
  "isTargetReady (fst (processOutgoingEdges branch_em branch_node branch_output False)) ''b''"
  using processOutgoingEdges_delivers [OF branch_run] by simp


lemma dead_end_facts:
  "snd (processOutgoingEdges dead_end_em dead_end_node branch_output False) = [''E''] \<and>
   nodesWithActivatedEdge (fst (processOutgoingEdges dead_end_em dead_end_node branch_output False)) = []"
  by code_simp

lemma dead_end_run:
  "processOutgoingEdges dead_end_em dead_end_node branch_output False =
     (fst (processOutgoingEdges dead_end_em dead_end_node branch_output False), [''E''])"
  using dead_end_facts by (metis prod.collapse)

theorem processOutgoingEdges_no_skipped_block_witness:
  "fst (classify False branch_output (out_edges dead_end_node)) = [] \<and> isTerminalControlNode (em_dag dead_end_em) ''E''"
  by (rule processOutgoingEdges_no_skipped_block [OF dead_end_run, of "''E''"]) (simp_all add: dead_end_facts)

theorem shouldActivateEdge_exclusive_witness:
  "same_way ''condition-1'' ''condition-1'' \<or> handle_group ''condition-1'' = Plain"
  by (rule shouldActivateEdge_exclusive [of "snd (demo_edge ''b'' ''condition-1'')" branch_output
        "snd (demo_edge ''c'' ''condition-1'')"]) code_simp+

text \<open>A bounded check of well-formedness, for concrete DAGs.\<close>

lemma wf_dag_check:
  assumes "mproper (dag_nodes d)"
    and "list_all (\<lambda>(i, n). node_id n = i \<and> distinct (incomingEdges n) \<and> mproper (outgoingEdges n) \<and>
           list_all (\<lambda>e. has_node d (edge_target e)) (out_edges n) \<and>
           list_all (has_node d) (incomingEdges n)) (dag_nodes d)"
  shows "wf_dag d"
  using assms by (auto simp: wf_dag_def wf_node_def dnode_def list_all_iff dest!: mget_in_set)

lemma branch_em_wf: "em_wf branch_em"
proof -
  have "wf_dag branch_dag" by (rule wf_dag_check; code_simp)
  then show ?thesis by (simp add: em_wf_def branch_em_def)
qed

theorem edge_manager_invariant_witness:
  "em_wf (fst (processOutgoingEdges branch_em branch_node branch_output False)) \<and>
   em_wf (restoreIncomingEdge ''j'' ''x'' branch_em)"
proof -
  have "has_node (em_dag branch_em) ''x''" by code_simp
  then show ?thesis using edge_manager_invariant [OF branch_em_wf] by blast
qed

theorem snapshot_roundtrip_witness:
  "restoreDeactivatedEdges [] [''j''] (clearDeactivatedEdges branch_em) = branch_em"
proof -
  have "snapshot_keys branch_em" by (simp add: snapshot_keys_def branch_em_def)
  from snapshot_roundtrip [OF branch_em_wf this, of "clearDeactivatedEdges branch_em"] show ?thesis
    by (simp add: branch_em_def clearDeactivatedEdges_def)
qed

end
