(* ===== verification/RunFrom.thy ===== *)
theory RunFrom
  imports EdgeManager
begin

text \<open>
  Run-from-block (\<open>executor/utils/run-from-block.ts\<close>): the sets of nodes to re-execute and
  to keep when a run restarts at a block, and the validation of the start block.

  The two plain searches are the shared breadth-first loop. The third one, which collects
  the nodes upstream of any dirty node, tests a node when it leaves the queue and stops at
  dirty nodes; it is the loop \<open>drain\<close>, whose result is again a closure.
\<close>

definition resolveContainerToSentinelStart :: "string \<Rightarrow> dag \<Rightarrow> string option" where
  "resolveContainerToSentinelStart i d =
     (if mhas (loopConfigs d) i then Some (buildSentinelStartId i)
      else if mhas (parallelConfigs d) i then Some (buildParallelSentinelStartId i) else None)"

section \<open>The draining search\<close>

function drain :: "adjacency \<Rightarrow> string list \<Rightarrow> string list \<Rightarrow> string list \<Rightarrow> string list" where
  "drain adj stop seen [] = seen"
| "drain adj stop seen (x # q) =
     (if x \<in> set seen \<or> x \<in> set stop then drain adj stop seen q
      else drain adj stop (seen @ [x]) (q @ succs adj x))"
  by pat_completeness auto
termination
proof (relation "inv_image (less_than <*lex*> less_than)
    (\<lambda>(adj, stop, seen, q). (card ((universe adj \<union> set q) - set seen), length q))")
  fix adj :: adjacency and stop seen :: "string list" and x q
  let ?r = "inv_image (less_than <*lex*> less_than)
    (\<lambda>(adj, stop, seen, q). (card ((universe adj \<union> set q) - set seen), length q))"
  show "((adj, stop, seen, q), (adj, stop, seen, x # q)) \<in> ?r"
  proof -
    have "card ((universe adj \<union> set q) - set seen) \<le> card ((universe adj \<union> set (x # q)) - set seen)"
      by (rule card_mono) auto
    then show ?thesis by auto
  qed
  assume new: "\<not> (x \<in> set seen \<or> x \<in> set stop)"
  have "(universe adj \<union> set (q @ succs adj x)) - set (seen @ [x]) \<subset> (universe adj \<union> set (x # q)) - set seen"
    using new succs_universe [of adj x] by auto
  then have "card ((universe adj \<union> set (q @ succs adj x)) - set (seen @ [x]))
      < card ((universe adj \<union> set (x # q)) - set seen)"
    by (rule psubset_card_mono [rotated]) simp
  then show "((adj, stop, seen @ [x], q @ succs adj x), (adj, stop, seen, x # q)) \<in> ?r"
    by simp
qed auto

definition forward :: "adjacency \<Rightarrow> string list \<Rightarrow> string \<Rightarrow> string \<Rightarrow> bool" where
  "forward adj stop a b \<longleftrightarrow> b \<in> set (succs adj a) \<and> b \<notin> set stop"

lemma drain_seen: "set seen \<subseteq> set (drain adj stop seen q)"
  by (induction adj stop seen q rule: drain.induct) (auto split: if_splits)

lemma drain_distinct: "distinct seen \<Longrightarrow> distinct (drain adj stop seen q)"
  by (induction adj stop seen q rule: drain.induct) (auto split: if_splits)

lemma drain_sound:
  "y \<in> set (drain adj stop seen q) \<Longrightarrow>
   y \<in> set seen \<or> (\<exists>x \<in> set q. x \<notin> set stop \<and> (forward adj stop)\<^sup>*\<^sup>* x y)"
proof (induction adj stop seen q rule: drain.induct)
  case (2 adj stop seen x q)
  show ?case
  proof (cases "x \<in> set seen \<or> x \<in> set stop")
    case True
    with 2(1,3) show ?thesis by auto
  next
    case False
    have "y \<in> set (seen @ [x]) \<or> (\<exists>z \<in> set (q @ succs adj x). z \<notin> set stop \<and> (forward adj stop)\<^sup>*\<^sup>* z y)"
      using False 2(2,3) by simp
    moreover have "(forward adj stop)\<^sup>*\<^sup>* x y"
      if "z \<in> set (succs adj x)" "z \<notin> set stop" "(forward adj stop)\<^sup>*\<^sup>* z y" for z
      using that by (auto simp: forward_def intro: converse_rtranclp_into_rtranclp)
    ultimately show ?thesis
      using False by auto
  qed
qed simp

lemma drain_closed:
  assumes "\<forall>x \<in> set seen. \<forall>y. forward adj stop x y \<longrightarrow> y \<in> set seen \<union> set q"
  shows "(\<forall>x \<in> set (drain adj stop seen q). \<forall>y. forward adj stop x y \<longrightarrow> y \<in> set (drain adj stop seen q)) \<and>
    (\<forall>x \<in> set q. x \<notin> set stop \<longrightarrow> x \<in> set (drain adj stop seen q))"
  using assms
proof (induction adj stop seen q rule: drain.induct)
  case (2 adj stop seen x q)
  show ?case
  proof (cases "x \<in> set seen \<or> x \<in> set stop")
    case True
    have "\<forall>z \<in> set seen. \<forall>y. forward adj stop z y \<longrightarrow> y \<in> set seen \<union> set q"
      using 2(3) True by (auto simp: forward_def)
    with 2(1) True drain_seen [of seen adj stop q] show ?thesis by auto
  next
    case False
    have "\<forall>z \<in> set (seen @ [x]). \<forall>y. forward adj stop z y \<longrightarrow> y \<in> set (seen @ [x]) \<union> set (q @ succs adj x)"
      using 2(3) by (auto simp: forward_def)
    with 2(2) False drain_seen [of "seen @ [x]" adj stop "q @ succs adj x"] show ?thesis by auto
  qed
qed simp

lemma closed_forward:
  assumes "(forward adj stop)\<^sup>*\<^sup>* x y" and "x \<in> S" and "\<forall>x \<in> S. \<forall>y. forward adj stop x y \<longrightarrow> y \<in> S"
  shows "y \<in> S"
  using assms(1,2) by (induction rule: rtranclp_induct) (use assms(3) in auto)

lemma drain_set:
  assumes "\<forall>x \<in> set seen. \<forall>y. forward adj stop x y \<longrightarrow> y \<in> set seen"
  shows "set (drain adj stop seen q) =
    set seen \<union> {y. \<exists>x \<in> set q. x \<notin> set stop \<and> (forward adj stop)\<^sup>*\<^sup>* x y}"
proof -
  let ?D = "set (drain adj stop seen q)"
  have c: "\<forall>x \<in> ?D. \<forall>y. forward adj stop x y \<longrightarrow> y \<in> ?D" "\<forall>x \<in> set q. x \<notin> set stop \<longrightarrow> x \<in> ?D"
    using drain_closed [of seen adj stop q] assms by auto
  have "?D \<subseteq> set seen \<union> {y. \<exists>x \<in> set q. x \<notin> set stop \<and> (forward adj stop)\<^sup>*\<^sup>* x y}"
    using drain_sound by blast
  moreover have "y \<in> ?D" if "x \<in> set q" "x \<notin> set stop" "(forward adj stop)\<^sup>*\<^sup>* x y" for x y
    using closed_forward [OF that(3)] c that by blast
  ultimately show ?thesis
    using drain_seen [of seen adj stop q] by auto
qed

section \<open>Execution sets\<close>

record execution_sets =
  dirtySet :: "string list"
  upstreamSet :: "string list"
  reachableUpstreamSet :: "string list"

definition traversal_start :: "dag \<Rightarrow> string \<Rightarrow> string" where
  "traversal_start d b = (case resolveContainerToSentinelStart b d of None \<Rightarrow> b | Some s \<Rightarrow> s)"

definition dirty_set :: "dag \<Rightarrow> string \<Rightarrow> string list" where
  "dirty_set d b =
     (let t = traversal_start d b in bfs (\<lambda>_. False) (out_adj d) (if t = b then [b] else [b, t]) [t])"

definition upstream_of_dirty :: "dag \<Rightarrow> string list \<Rightarrow> string list" where
  "upstream_of_dirty d dirty =
     fold (\<lambda>x seen. drain (in_adj d) dirty seen (succs (in_adj d) x)) dirty []"

definition computeExecutionSets :: "dag \<Rightarrow> string \<Rightarrow> execution_sets" where
  "computeExecutionSets d b =
     (let dirty = dirty_set d b
      in \<lparr>dirtySet = dirty,
          upstreamSet = bfs (\<lambda>_. False) (in_adj d) [] [traversal_start d b],
          reachableUpstreamSet = upstream_of_dirty d dirty\<rparr>)"

section \<open>Validation\<close>

datatype run_from_error =
    BlockNotFound string
  | InsideLoop "string option"
  | InsideParallel "string option"
  | ContainerSentinelMissing string
  | IsSentinelNode
  | UpstreamNotExecuted string

definition findParentLoop :: "string \<Rightarrow> dag \<Rightarrow> string option" where
  "findParentLoop b d =
     map_option fst (List.find (\<lambda>(i, cfg). i \<noteq> b \<and> b \<in> set (loop_nodes cfg)) (loopConfigs d))"

definition findParentParallel :: "string \<Rightarrow> dag \<Rightarrow> string option" where
  "findParentParallel b d =
     map_option fst (List.find (\<lambda>(i, cfg). i \<noteq> b \<and> b \<in> set (par_nodes cfg)) (parallelConfigs d))"

definition needs_prior_run :: "dag \<Rightarrow> string list \<Rightarrow> string \<Rightarrow> bool" where
  "needs_prior_run d executed s \<longleftrightarrow>
     (case dnode d s of
        None \<Rightarrow> True
      | Some n \<Rightarrow> \<not> m_isSentinel (metadata n) \<and> incomingEdges n \<noteq> []) \<and> s \<notin> set executed"

definition check_container :: "dag \<Rightarrow> string \<Rightarrow> run_from_error option" where
  "check_container d b =
     (if \<not> falsy_str (findParentLoop b d) then Some (InsideLoop (findParentLoop b d))
      else if \<not> falsy_str (findParentParallel b d) then Some (InsideParallel (findParentParallel b d))
      else case resolveContainerToSentinelStart b d of
             None \<Rightarrow> Some (ContainerSentinelMissing b)
           | Some s \<Rightarrow> if has_node d s then None else Some (ContainerSentinelMissing b))"

definition check_node :: "dag_node \<Rightarrow> run_from_error option" where
  "check_node n =
     (if m_isLoopNode (metadata n) then Some (InsideLoop (m_subflowId (metadata n)))
      else if m_isParallelBranch (metadata n) then Some (InsideParallel (m_subflowId (metadata n)))
      else if m_isSentinel (metadata n) then Some IsSentinelNode else None)"

definition check_upstream :: "dag \<Rightarrow> string list \<Rightarrow> dag_node option \<Rightarrow> run_from_error option" where
  "check_upstream d executed nopt =
     (case nopt of
        None \<Rightarrow> None
      | Some n \<Rightarrow> map_option UpstreamNotExecuted (List.find (needs_prior_run d executed) (incomingEdges n)))"

definition validateRunFromBlock :: "string \<Rightarrow> dag \<Rightarrow> string list \<Rightarrow> run_from_error option" where
  "validateRunFromBlock b d executed =
     (let isContainer = mhas (loopConfigs d) b \<or> mhas (parallelConfigs d) b;
          validationNode = dnode d (if isContainer then traversal_start d b else b)
      in if dnode d b = None \<and> \<not> isContainer then Some (BlockNotFound b)
         else first_error
           [if isContainer then check_container d b else None,
            case dnode d b of None \<Rightarrow> None | Some n \<Rightarrow> check_node n,
            check_upstream d executed validationNode])"

section \<open>The execution sets are closures\<close>

definition virtual_container :: "dag \<Rightarrow> string \<Rightarrow> bool" where
  "virtual_container d b \<longleftrightarrow> traversal_start d b = b \<or> dnode d b = None"

lemma dirty_set_correct:
  assumes "virtual_container d b"
  shows "set (dirty_set d b) = insert b {y. (dag_edge_rel d)\<^sup>*\<^sup>* (traversal_start d b) y}"
proof -
  let ?t = "traversal_start d b"
  have "set (bfs (\<lambda>_. False) (out_adj d) (if ?t = b then [b] else [b, ?t]) [?t]) =
      set (if ?t = b then [b] else [b, ?t]) \<union> {y. \<exists>x \<in> set [?t]. (dag_edge_rel d)\<^sup>+\<^sup>+ x y}"
    by (rule downstream.search_below)
      (use assms in \<open>auto simp: virtual_container_def dag_edge_rel_def\<close>)
  then show ?thesis
    by (auto simp: dirty_set_def Let_def dest: rtranclpD intro: tranclp_into_rtranclp split: if_splits)
qed

lemma upstream_correct:
  "set (bfs (\<lambda>_. False) (in_adj d) [] [t]) = {y. (dag_incoming_rel d)\<^sup>+\<^sup>+ t y}"
proof -
  have "set (bfs (\<lambda>_. False) (in_adj d) [] [t]) = set [] \<union> {y. \<exists>x \<in> set [t]. (dag_incoming_rel d)\<^sup>+\<^sup>+ x y}"
    by (rule incoming.search_below) auto
  then show ?thesis by simp
qed

lemma forward_in_adj: "forward (in_adj d) stop a b \<longleftrightarrow> dag_incoming_rel d a b \<and> b \<notin> set stop"
  using incoming.succs_edge by (auto simp: forward_def)

lemma clean_path:
  assumes "(dag_incoming_rel d)\<^sup>+\<^sup>+ x y" and "x \<in> set dirty" and "y \<notin> set dirty"
  shows "\<exists>x0 z. x0 \<in> set dirty \<and> dag_incoming_rel d x0 z \<and> z \<notin> set dirty \<and> (forward (in_adj d) dirty)\<^sup>*\<^sup>* z y"
  using assms(1,3)
proof (induction rule: tranclp_induct)
  case (base y)
  then show ?case using assms(2) by blast
next
  case (step y z)
  show ?case
  proof (cases "y \<in> set dirty")
    case True
    with step.hyps(2) step.prems show ?thesis by blast
  next
    case False
    from step.IH [OF this] obtain x0 w where "x0 \<in> set dirty" "dag_incoming_rel d x0 w" "w \<notin> set dirty"
      "(forward (in_adj d) dirty)\<^sup>*\<^sup>* w y" by blast
    moreover have "forward (in_adj d) dirty y z"
      using step by (simp add: forward_in_adj)
    ultimately show ?thesis by (meson rtranclp.rtrancl_into_rtrancl)
  qed
qed

lemma forward_path:
  "(forward (in_adj d) stop)\<^sup>*\<^sup>* z y \<Longrightarrow> z \<notin> set stop \<Longrightarrow> y \<notin> set stop \<and> (dag_incoming_rel d)\<^sup>*\<^sup>* z y"
proof (induction rule: rtranclp_induct)
  case (step y w)
  then show ?case by (auto simp: forward_in_adj intro: rtranclp.rtrancl_into_rtrancl)
qed simp

lemma drain_fold:
  assumes "\<forall>x \<in> set seen. \<forall>y. forward adj stop x y \<longrightarrow> y \<in> set seen"
  shows "set (fold (\<lambda>x seen. drain adj stop seen (succs adj x)) xs seen) =
    set seen \<union> {y. \<exists>x \<in> set xs. \<exists>z. z \<in> set (succs adj x) \<and> z \<notin> set stop \<and> (forward adj stop)\<^sup>*\<^sup>* z y}"
  using assms
proof (induction xs arbitrary: seen)
  case (Cons x xs)
  let ?s = "drain adj stop seen (succs adj x)"
  have s: "set ?s = set seen \<union> {y. \<exists>z \<in> set (succs adj x). z \<notin> set stop \<and> (forward adj stop)\<^sup>*\<^sup>* z y}"
    by (rule drain_set [OF Cons.prems])
  have "\<forall>x \<in> set ?s. \<forall>y. forward adj stop x y \<longrightarrow> y \<in> set ?s"
    unfolding s using Cons.prems by (auto intro: rtranclp.rtrancl_into_rtrancl)
  from Cons.IH [OF this] show ?case
    unfolding fold_Cons comp_def s by auto
qed simp

lemma upstream_of_dirty_correct:
  "set (upstream_of_dirty d dirty) = {y. y \<notin> set dirty \<and> (\<exists>x \<in> set dirty. (dag_incoming_rel d)\<^sup>+\<^sup>+ x y)}"
proof -
  have eq: "set (upstream_of_dirty d dirty) =
    {y. \<exists>x \<in> set dirty. \<exists>z. dag_incoming_rel d x z \<and> z \<notin> set dirty \<and> (forward (in_adj d) dirty)\<^sup>*\<^sup>* z y}"
    using drain_fold [of "[]" "in_adj d" dirty dirty] by (simp add: upstream_of_dirty_def incoming.succs_edge)
  show ?thesis
  proof (intro equalityI subsetI)
    fix y assume "y \<in> set (upstream_of_dirty d dirty)"
    then obtain x z where "x \<in> set dirty" "dag_incoming_rel d x z" "z \<notin> set dirty"
      "(forward (in_adj d) dirty)\<^sup>*\<^sup>* z y"
      using eq by auto
    then show "y \<in> {y. y \<notin> set dirty \<and> (\<exists>x \<in> set dirty. (dag_incoming_rel d)\<^sup>+\<^sup>+ x y)}"
      using forward_path [of d dirty z y] rtranclp_into_tranclp2 [of "dag_incoming_rel d" x z y] by blast
  next
    fix y assume "y \<in> {y. y \<notin> set dirty \<and> (\<exists>x \<in> set dirty. (dag_incoming_rel d)\<^sup>+\<^sup>+ x y)}"
    then show "y \<in> set (upstream_of_dirty d dirty)"
      using clean_path [of d _ y dirty] eq by blast
  qed
qed

text \<open>
  the execution sets of a restart are the closures the documentation promises. The
  dirty set is the start block with everything downstream of the traversal start (the start
  sentinel, for a container); the upstream set is everything upstream of it; and the
  preserved set is exactly the nodes upstream of some dirty node that are not dirty
  themselves, so no node is both re-executed and preserved.
\<close>

theorem computeExecutionSets_correct:
  assumes "virtual_container d b"
  shows "set (dirtySet (computeExecutionSets d b)) = insert b {y. (dag_edge_rel d)\<^sup>*\<^sup>* (traversal_start d b) y} \<and>
    set (upstreamSet (computeExecutionSets d b)) = {y. (dag_incoming_rel d)\<^sup>+\<^sup>+ (traversal_start d b) y} \<and>
    set (reachableUpstreamSet (computeExecutionSets d b)) =
      {y. y \<notin> set (dirtySet (computeExecutionSets d b)) \<and>
          (\<exists>x \<in> set (dirtySet (computeExecutionSets d b)). (dag_incoming_rel d)\<^sup>+\<^sup>+ x y)}"
  by (simp only: computeExecutionSets_def Let_def execution_sets.simps dirty_set_correct [OF assms]
      upstream_correct upstream_of_dirty_correct simp_thms)

theorem computeExecutionSets_correct_witness:
  "set (dirtySet (computeExecutionSets branch_dag ''x'')) = insert ''x'' {y. (dag_edge_rel branch_dag)\<^sup>*\<^sup>* ''x'' y}"
proof -
  have t: "traversal_start branch_dag ''x'' = ''x''" by code_simp
  then have "virtual_container branch_dag ''x''" by (simp add: virtual_container_def)
  from computeExecutionSets_correct [OF this] t show ?thesis by simp
qed

section \<open>What validation guarantees\<close>

lemma find_None: "List.find P xs = None \<longleftrightarrow> (\<forall>x \<in> set xs. \<not> P x)"
  by (auto simp: find_None_iff)

text \<open>
  a start block that passes validation is a node or a container of the DAG whose start
  node exists, it is not a sentinel and, as far as the DAG records it, not inside a loop or
  a parallel; and every incoming source of its start node has run in the source execution,
  or is a sentinel or an entry point.
\<close>

theorem validateRunFromBlock_sound:
  assumes "validateRunFromBlock b d executed = None"
  shows "\<exists>n. dnode d (traversal_start d b) = Some n \<and>
    (\<forall>s \<in> set (incomingEdges n). s \<in> set executed \<or>
       (\<exists>m. dnode d s = Some m \<and> (m_isSentinel (metadata m) \<or> incomingEdges m = []))) \<and>
    (traversal_start d b = b \<longrightarrow> \<not> m_isSentinel (metadata n) \<and> \<not> m_isLoopNode (metadata n) \<and>
       \<not> m_isParallelBranch (metadata n)) \<and>
    (traversal_start d b \<noteq> b \<longrightarrow> falsy_str (findParentLoop b d) \<and> falsy_str (findParentParallel b d))"
proof -
  let ?con = "mhas (loopConfigs d) b \<or> mhas (parallelConfigs d) b"
  have t: "?con \<longleftrightarrow> resolveContainerToSentinelStart b d \<noteq> None"
    by (auto simp: resolveContainerToSentinelStart_def)
  have ok: "?con \<Longrightarrow> check_container d b = None" "dnode d b = Some n \<Longrightarrow> check_node n = None"
    "check_upstream d executed (dnode d (if ?con then traversal_start d b else b)) = None"
    "\<not> ?con \<Longrightarrow> dnode d b \<noteq> None" for n
    using assms by (auto simp: validateRunFromBlock_def Let_def first_error_None split: if_splits)
  have up: "s \<in> set executed \<or> (\<exists>m. dnode d s = Some m \<and> (m_isSentinel (metadata m) \<or> incomingEdges m = []))"
    if "check_upstream d executed (Some n) = None" "s \<in> set (incomingEdges n)" for n s
    using that by (auto simp: check_upstream_def find_None needs_prior_run_def split: option.splits)
  show ?thesis
  proof (cases ?con)
    case True
    then obtain s where s: "resolveContainerToSentinelStart b d = Some s" using t by auto
    with ok(1) [OF True] have par: "falsy_str (findParentLoop b d)" "falsy_str (findParentParallel b d)"
      and "has_node d s"
      by (auto simp: check_container_def split: if_splits)
    then obtain n where n: "dnode d s = Some n" by (auto simp: has_node_iff)
    have ts: "traversal_start d b = s" using s by (simp add: traversal_start_def)
    have "s \<noteq> b"
      using s by (auto simp: resolveContainerToSentinelStart_def buildSentinelStartId_def
          buildParallelSentinelStartId_def id_template_defs split: if_splits dest: arg_cong [of _ _ length])
    with n ts par up ok(3) True show ?thesis by auto
  next
    case False
    then have ts: "traversal_start d b = b" using t by (simp add: traversal_start_def)
    from ok(4) [OF False] obtain n where n: "dnode d b = Some n" by auto
    with ok(2) [OF n] ok(3) False up ts show ?thesis
      by (auto simp: check_node_def split: if_splits)
  qed
qed

theorem validateRunFromBlock_sound_witness:
  "\<exists>n. dnode branch_dag ''k'' = Some n \<and>
    (\<forall>s \<in> set (incomingEdges n). s \<in> set [''c''] \<or>
       (\<exists>m. dnode branch_dag s = Some m \<and> (m_isSentinel (metadata m) \<or> incomingEdges m = [])))"
proof -
  have "validateRunFromBlock ''k'' branch_dag [''c''] = None" by code_simp
  moreover have "traversal_start branch_dag ''k'' = ''k''" by code_simp
  ultimately show ?thesis using validateRunFromBlock_sound [of "''k''" branch_dag "[''c'']"] by auto
qed

end
