(* ===== verification/State.thy ===== *)
theory State
  imports EdgeManager
begin

text \<open>
  \<open>ExecutionState\<close> (\<open>executor/execution/state.ts\<close>): the outputs of the blocks by node id,
  the set of executed blocks, and the scoped lookup by which a node inside a parallel
  branch or a loop reads the output of another block. The type variable \<open>'p\<close> stands for
  the secret provenance, which the state stores and returns unread.
\<close>

record 'p block_state =
  bs_output :: jobj
  bs_executed :: bool
  bs_time :: nat
  bs_provenance :: "'p option"

record 'p execution_state =
  blockStates :: "(string, 'p block_state) jsmap"
  executedBlocks :: "string list"

definition stored :: "'p execution_state \<Rightarrow> string \<Rightarrow> 'p block_state option" where
  "stored st i = mget (blockStates st) i"

section \<open>Scoped lookup\<close>

definition in_same_scope :: "string \<Rightarrow> nat \<Rightarrow> string \<Rightarrow> string \<Rightarrow> string \<Rightarrow> bool" where
  "in_same_scope blockId n branchSuffix loopSuffix k \<longleftrightarrow>
     stripCloneSuffixes k = blockId \<and> extractOuterBranchIndex k = Some n \<and>
     extractBranchSuffix k = branchSuffix \<and> extractLoopSuffix k = loopSuffix"

definition getScopedBlockState :: "'p execution_state \<Rightarrow> string \<Rightarrow> string \<Rightarrow> 'p block_state option" where
  "getScopedBlockState st blockId cur =
     (let branch = extractBranchSuffix cur; loop = extractLoopSuffix cur
      in case extractOuterBranchIndex cur of
           Some n \<Rightarrow>
             (case List.find (\<lambda>(k, s). in_same_scope blockId n branch loop k) (blockStates st) of
                Some (k, s) \<Rightarrow> Some s
              | None \<Rightarrow> stored st (buildBranchNodeId blockId n))
         | None \<Rightarrow> stored st (blockId @ branch @ loop))"

definition branch_zero_state :: "'p execution_state \<Rightarrow> string \<Rightarrow> string \<Rightarrow> 'p block_state option" where
  "branch_zero_state st blockId cur =
     (case stored st (buildOuterBranchScopedId blockId 0) of
        Some s \<Rightarrow> Some s
      | None \<Rightarrow> stored st (buildBranchNodeId blockId 0 @ extractLoopSuffix cur))"

definition any_scope_state :: "'p execution_state \<Rightarrow> string \<Rightarrow> 'p block_state option" where
  "any_scope_state st blockId =
     map_option snd (List.find (\<lambda>(k, s). normalizeLookupId k = blockId) (blockStates st))"

definition unscoped_state :: "'p execution_state \<Rightarrow> string \<Rightarrow> string option \<Rightarrow> 'p block_state option" where
  "unscoped_state st blockId cur =
     (case stored st blockId of
        Some s \<Rightarrow> Some s
      | None \<Rightarrow>
          (case (if \<not> falsy_str cur \<and> extractBranchSuffix (the cur) = []
                 then branch_zero_state st blockId (the cur) else None) of
             Some s \<Rightarrow> Some s
           | None \<Rightarrow> any_scope_state st blockId))"

definition getBlockState :: "'p execution_state \<Rightarrow> string \<Rightarrow> string option \<Rightarrow> 'p block_state option" where
  "getBlockState st blockId cur =
     (if normalizeLookupId blockId \<noteq> blockId then stored st blockId
      else if falsy_str cur then unscoped_state st blockId cur
      else (case getScopedBlockState st blockId (the cur) of
              Some s \<Rightarrow> Some s
            | None \<Rightarrow> if extractOuterBranchIndex (the cur) \<noteq> None then None
                      else unscoped_state st blockId cur))"

definition getBlockOutput :: "'p execution_state \<Rightarrow> string \<Rightarrow> string option \<Rightarrow> jobj option" where
  "getBlockOutput st blockId cur = map_option bs_output (getBlockState st blockId cur)"

section \<open>Updates\<close>

text \<open>
  \<open>setBlockOutput\<close> keeps the stored provenance when it is called with the very output
  object that is stored; object identity is not visible in the values, so it is the
  argument \<open>sameObject\<close>.
\<close>

definition setBlockOutput ::
  "bool \<Rightarrow> string \<Rightarrow> jobj \<Rightarrow> nat \<Rightarrow> 'p option \<Rightarrow> 'p execution_state \<Rightarrow> 'p execution_state" where
  "setBlockOutput sameObject i out time prov st =
     (let kept = (case stored st i of None \<Rightarrow> None | Some s \<Rightarrow> if sameObject then bs_provenance s else None);
          prov' = (case prov of Some p \<Rightarrow> Some p | None \<Rightarrow> kept)
      in st\<lparr>blockStates := mput i \<lparr>bs_output = out, bs_executed = True, bs_time = time, bs_provenance = prov'\<rparr>
                            (blockStates st),
            executedBlocks := sadd i (executedBlocks st)\<rparr>)"

definition setBlockState :: "string \<Rightarrow> 'p block_state \<Rightarrow> 'p execution_state \<Rightarrow> 'p execution_state" where
  "setBlockState i s st =
     st\<lparr>blockStates := mput i s (blockStates st),
        executedBlocks := (if bs_executed s then sadd i else sdel i) (executedBlocks st)\<rparr>"

definition deleteBlockState :: "string \<Rightarrow> 'p execution_state \<Rightarrow> 'p execution_state" where
  "deleteBlockState i st =
     st\<lparr>blockStates := mdel i (blockStates st), executedBlocks := sdel i (executedBlocks st)\<rparr>"

definition unmarkExecuted :: "string \<Rightarrow> 'p execution_state \<Rightarrow> 'p execution_state" where
  "unmarkExecuted i st = st\<lparr>executedBlocks := sdel i (executedBlocks st)\<rparr>"

definition hasExecuted :: "'p execution_state \<Rightarrow> string \<Rightarrow> bool" where
  "hasExecuted st i \<longleftrightarrow> i \<in> set (executedBlocks st)"

lemma stored_set [simp]:
  "stored (setBlockState i s st) j = (if j = i then Some s else stored st j)"
  "stored (deleteBlockState i st) j = (if j = i then None else stored st j)"
  "stored (unmarkExecuted i st) j = stored st j"
  by (simp_all add: stored_def setBlockState_def deleteBlockState_def unmarkExecuted_def)

text \<open>The state is a keyed store in the sense of the prelude.\<close>

interpretation state_store: keyed_store stored setBlockState deleteBlockState
  by unfold_locales simp_all

section \<open>Invariant\<close>

definition state_wf :: "'p execution_state \<Rightarrow> bool" where
  "state_wf st \<longleftrightarrow> mproper (blockStates st) \<and> distinct (executedBlocks st) \<and>
     (\<forall>i \<in> set (executedBlocks st). \<exists>s. stored st i = Some s \<and> bs_executed s)"

lemma executedBlocks_set [simp]:
  "executedBlocks (setBlockState i s st) = (if bs_executed s then sadd i else sdel i) (executedBlocks st)"
  "executedBlocks (deleteBlockState i st) = sdel i (executedBlocks st)"
  "executedBlocks (unmarkExecuted i st) = sdel i (executedBlocks st)"
  by (simp_all add: setBlockState_def deleteBlockState_def unmarkExecuted_def)

lemma blockStates_set [simp]:
  "blockStates (setBlockState i s st) = mput i s (blockStates st)"
  "blockStates (deleteBlockState i st) = mdel i (blockStates st)"
  "blockStates (unmarkExecuted i st) = blockStates st"
  by (simp_all add: setBlockState_def deleteBlockState_def unmarkExecuted_def)

text \<open>\<open>setBlockOutput\<close> is \<open>setBlockState\<close> with an executed state that holds the output.\<close>

lemma setBlockOutput_as_state:
  obtains s where "setBlockOutput same i out t p st = setBlockState i s st" "bs_executed s" "bs_output s = out"
proof
  let ?s = "\<lparr>bs_output = out, bs_executed = True, bs_time = t, bs_provenance =
    (case p of Some q \<Rightarrow> Some q | None \<Rightarrow>
       (case stored st i of None \<Rightarrow> None | Some s \<Rightarrow> if same then bs_provenance s else None))\<rparr>"
  show "setBlockOutput same i out t p st = setBlockState i ?s st"
    by (simp add: setBlockOutput_def setBlockState_def Let_def)
qed simp_all

lemma wf_setBlockState: "state_wf st \<Longrightarrow> state_wf (setBlockState i s st)"
  by (simp add: state_wf_def)

lemma wf_setBlockOutput: "state_wf st \<Longrightarrow> state_wf (setBlockOutput same i out t p st)"
  by (rule setBlockOutput_as_state [of same i out t p st]) (simp add: wf_setBlockState)

lemma wf_deleteBlockState: "state_wf st \<Longrightarrow> state_wf (deleteBlockState i st)"
  by (simp add: state_wf_def)

lemma wf_unmarkExecuted: "state_wf st \<Longrightarrow> state_wf (unmarkExecuted i st)"
  by (simp add: state_wf_def)

text \<open>
  every update of the execution state keeps its invariant (each node has one state, and
  an executed node has a stored output), a stored output is what a read of that node id
  returns, whatever the id, and no other node id is affected by the write.
\<close>

theorem state_invariant:
  assumes "state_wf st"
  shows "state_wf (setBlockOutput same i out t p st) \<and> state_wf (setBlockState i s st) \<and>
    state_wf (deleteBlockState i st) \<and> state_wf (unmarkExecuted i st) \<and>
    getBlockOutput (setBlockOutput same i out t p st) i None = Some out \<and>
    hasExecuted (setBlockOutput same i out t p st) i \<and>
    \<not> hasExecuted (deleteBlockState i st) i \<and>
    (j = i \<or> stored (setBlockOutput same i out t p st) j = stored st j)"
proof -
  obtain s' where s': "setBlockOutput same i out t p st = setBlockState i s' st" "bs_executed s'" "bs_output s' = out"
    by (rule setBlockOutput_as_state)
  have "getBlockOutput (setBlockState i s' st) i None = Some out"
    by (simp add: getBlockOutput_def getBlockState_def unscoped_state_def s'(3))
  with s' assms show ?thesis
    by (simp add: wf_setBlockState wf_deleteBlockState wf_unmarkExecuted hasExecuted_def)
qed

section \<open>Scoped reads stay in scope\<close>

lemma find_stored:
  assumes "state_wf st" and "List.find (\<lambda>(k, s). P k) (blockStates st) = Some (k, s)"
  shows "stored st k = Some s \<and> P k"
proof -
  have "(k, s) \<in> set (blockStates st)" "P k"
    using assms(2) by (auto simp: find_Some_iff) (metis nth_mem)
  with assms(1) show ?thesis
    by (simp add: state_wf_def stored_def mget_iff_in_set)
qed

lemma scoped_outer:
  assumes "state_wf st" and "extractOuterBranchIndex cur = Some n" and "getScopedBlockState st b cur = Some s"
  shows "\<exists>k. stored st k = Some s \<and>
    (in_same_scope b n (extractBranchSuffix cur) (extractLoopSuffix cur) k \<or> k = buildBranchNodeId b n)"
proof (cases "List.find (\<lambda>(k, s). in_same_scope b n (extractBranchSuffix cur) (extractLoopSuffix cur) k) (blockStates st)")
  case None
  with assms(2,3) have "stored st (buildBranchNodeId b n) = Some s"
    by (simp add: getScopedBlockState_def Let_def)
  then show ?thesis by blast
next
  case (Some ks)
  obtain k s' where ks: "ks = (k, s')" by fastforce
  from find_stored [OF assms(1) Some [unfolded ks]] Some ks assms(2,3) show ?thesis
    by (auto simp: getScopedBlockState_def Let_def)
qed

text \<open>
  branches are isolated. A node that runs inside a clone of an outer parallel branch
  and reads a plain block id gets the state of that block in the same outer branch, with
  the same branch and loop scope, or of the branch instance with the same index; it never
  gets the output of another branch, and nothing when its own branch has none.
\<close>

theorem outer_branch_isolation:
  assumes "state_wf st" and "normalizeLookupId b = b" and "cur \<noteq> []"
    and "extractOuterBranchIndex cur = Some n" and "getBlockState st b (Some cur) = Some s"
  shows "\<exists>k. stored st k = Some s \<and>
    (stripCloneSuffixes k = b \<and> extractOuterBranchIndex k = Some n \<and>
     extractBranchSuffix k = extractBranchSuffix cur \<and> extractLoopSuffix k = extractLoopSuffix cur
     \<or> k = buildBranchNodeId b n)"
proof -
  have "getScopedBlockState st b cur = Some s"
    using assms(2-5) by (auto simp: getBlockState_def split: option.splits)
  from scoped_outer [OF assms(1,4) this] show ?thesis
    by (auto simp: in_same_scope_def)
qed

definition same_block :: "string \<Rightarrow> string \<Rightarrow> bool" where
  "same_block b k \<longleftrightarrow> prefix b k \<or> stripCloneSuffixes k = b \<or> normalizeLookupId k = b"

lemma unscoped_family:
  assumes "state_wf st" and "unscoped_state st b cur = Some s"
  shows "\<exists>k. stored st k = Some s \<and> same_block b k"
proof -
  consider "stored st b = Some s" | "stored st (buildOuterBranchScopedId b 0) = Some s"
    | "stored st (buildBranchNodeId b 0 @ extractLoopSuffix (the cur)) = Some s" | "any_scope_state st b = Some s"
    using assms(2) by (auto simp: unscoped_state_def branch_zero_state_def split: option.splits if_splits)
  then show ?thesis
  proof cases
    case 1
    then show ?thesis by (auto simp: same_block_def)
  next
    case 2
    then show ?thesis by (auto simp: same_block_def buildOuterBranchScopedId_def)
  next
    case 3
    then show ?thesis by (auto simp: same_block_def buildBranchNodeId_def)
  next
    case 4
    then obtain k where "List.find (\<lambda>(k, s). normalizeLookupId k = b) (blockStates st) = Some (k, s)"
      by (auto simp: any_scope_state_def)
    from find_stored [OF assms(1) this] show ?thesis by (auto simp: same_block_def)
  qed
qed

text \<open>
  a lookup only ever returns a state stored for the requested block: under the id
  itself, or under an id that is the requested one with branch, loop or clone suffixes.
\<close>

theorem getBlockState_in_family:
  assumes "state_wf st" and "getBlockState st b cur = Some s"
  shows "\<exists>k. stored st k = Some s \<and> same_block b k"
proof -
  consider "stored st b = Some s" | "unscoped_state st b cur = Some s"
    | c where "cur = Some c" "getScopedBlockState st b c = Some s"
    using assms(2) by (cases cur) (auto simp: getBlockState_def split: option.splits if_splits)
  then show ?thesis
  proof cases
    case 1
    then show ?thesis by (auto simp: same_block_def)
  next
    case 2
    from unscoped_family [OF assms(1) this] show ?thesis .
  next
    case 3
    show ?thesis
    proof (cases "extractOuterBranchIndex c")
      case None
      with 3(2) have "stored st (b @ extractBranchSuffix c @ extractLoopSuffix c) = Some s"
        by (simp add: getScopedBlockState_def Let_def)
      then show ?thesis by (auto simp: same_block_def)
    next
      case (Some n)
      from scoped_outer [OF assms(1) this 3(2)] show ?thesis
        by (auto simp: same_block_def in_same_scope_def buildBranchNodeId_def)
    qed
  qed
qed

section \<open>Concrete states\<close>

definition demo_state :: "nat execution_state" where
  "demo_state = setBlockOutput False ''b__obranch-1'' [(''v'', JNum 1)] 0 None
     (setBlockOutput False ''b__obranch-2'' [(''v'', JNum 2)] 0 None \<lparr>blockStates = [], executedBlocks = []\<rparr>)"

lemma demo_state_wf: "state_wf demo_state"
  unfolding demo_state_def by (intro wf_setBlockOutput) (simp add: state_wf_def)

lemma demo_state_reads:
  "normalizeLookupId ''b'' = ''b'' \<and> extractOuterBranchIndex ''a__obranch-2'' = Some 2 \<and>
   map_option bs_output (getBlockState demo_state ''b'' (Some ''a__obranch-2'')) = Some [(''v'', JNum 2)]"
  by code_simp

theorem state_invariant_witness:
  "getBlockOutput (setBlockOutput False ''x'' [] 0 None demo_state) ''x'' None = Some []"
  using state_invariant [OF demo_state_wf] by blast

theorem outer_branch_isolation_witness:
  "\<exists>k s. stored demo_state k = Some s \<and> bs_output s = [(''v'', JNum 2)] \<and>
    (extractOuterBranchIndex k = Some 2 \<or> k = buildBranchNodeId ''b'' 2)"
proof -
  obtain s where "getBlockState demo_state ''b'' (Some ''a__obranch-2'') = Some s" "bs_output s = [(''v'', JNum 2)]"
    using demo_state_reads by auto
  with outer_branch_isolation [OF demo_state_wf _ _ _ this(1), of 2] demo_state_reads show ?thesis by auto
qed

theorem getBlockState_in_family_witness: "\<exists>k s. stored demo_state k = Some s \<and> same_block ''b'' k"
proof -
  obtain s where "getBlockState demo_state ''b'' (Some ''a__obranch-2'') = Some s"
    using demo_state_reads by auto
  from getBlockState_in_family [OF demo_state_wf this] show ?thesis by blast
qed

end
