(* ===== verification/World.thy ===== *)
theory World
  imports RunFrom State
begin

text \<open>
  The mutable state that the orchestrators and the engine share: the part of
  \<open>ExecutionContext\<close> (\<open>executor/types.ts\<close>) they read and write, the \<open>ExecutionState\<close>, and the
  edge manager with the DAG. \<open>LoopScope\<close> and \<open>ParallelScope\<close> are those of
  \<open>executor/execution/state.ts\<close>. The maps of the context are always present
  (\<open>DAGExecutor.createExecutionContext\<close> creates them). Secret provenance and block logs are
  not part of the model.

  What the executor obtains from outside its own logic is an argument, the record
  \<open>exec_env\<close>: the storage that replaces large values, the resolution of a collection
  expression, the isolated VM that evaluates a loop condition, and SHA-256.
\<close>

section \<open>Scopes\<close>

record loop_scope =
  ls_iteration :: nat
  ls_current :: "(string, jobj) jsmap"
  ls_all :: "jval list"
  ls_maxIterations :: "int option"
  ls_item :: "jval option"
  ls_items :: "jval list option"
  ls_condition :: "string option"
  ls_loopType :: "string option"
  ls_skippedAtStart :: bool
  ls_validationError :: "string option"

record parallel_scope =
  ps_totalBranches :: int
  ps_batchSize :: "int option"
  ps_currentBatchStart :: "int option"
  ps_currentBatchSize :: "int option"
  ps_accumulated :: "(int, jval) jsmap"
  ps_branchOutputs :: "(int, jval list) jsmap"
  ps_items :: "jval list option"
  ps_validationError :: "string option"
  ps_isEmpty :: bool

record parent_entry =
  pe_parentId :: string
  pe_parentType :: subflow
  pe_branchIndex :: "int option"

record branch_mapping =
  bm_originalBlockId :: string
  bm_parallelId :: string
  bm_iterationIndex :: int

record world =
  w_em :: edge_manager
  w_state :: "unit execution_state"
  w_loops :: "(string, loop_scope) jsmap"
  w_parallels :: "(string, parallel_scope) jsmap"
  w_parents :: "(string, parent_entry) jsmap"
  w_mapping :: "(string, branch_mapping) jsmap"
  w_dirty :: "string list option"

definition w_dag :: "world \<Rightarrow> dag" where
  "w_dag w = em_dag (w_em w)"

definition upd_dag :: "(dag \<Rightarrow> dag) \<Rightarrow> world \<Rightarrow> world" where
  "upd_dag f w = w\<lparr>w_em := (w_em w)\<lparr>em_dag := f (em_dag (w_em w))\<rparr>\<rparr>"

definition upd_state :: "(unit execution_state \<Rightarrow> unit execution_state) \<Rightarrow> world \<Rightarrow> world" where
  "upd_state f w = w\<lparr>w_state := f (w_state w)\<rparr>"

definition put_loop :: "string \<Rightarrow> loop_scope \<Rightarrow> world \<Rightarrow> world" where
  "put_loop i s w = w\<lparr>w_loops := mput i s (w_loops w)\<rparr>"

definition put_parallel :: "string \<Rightarrow> parallel_scope \<Rightarrow> world \<Rightarrow> world" where
  "put_parallel i s w = w\<lparr>w_parallels := mput i s (w_parallels w)\<rparr>"

section \<open>Errors and environment\<close>

datatype run_error =
    NodeNotFound string
  | LoopConfigMissing string
  | LoopHasNoBlocks string
  | ForEachEmpty string
  | ForEachUnresolved string
  | UnknownLoopType "string option"
  | ParallelConfigMissing string
  | ParallelHasNoBlocks string
  | ParallelUnresolved string
  | StackOverflow
  | BlockError string

record exec_env =
  storeEntry :: "jval \<Rightarrow> jval"
  fitsThreshold :: "jval list \<Rightarrow> bool"
  forceStore :: "jval \<Rightarrow> jval"
  resolveArray :: "world \<Rightarrow> jval \<Rightarrow> string \<Rightarrow> string + jval list"
  conditionVM :: "world \<Rightarrow> string \<Rightarrow> loop_scope \<Rightarrow> bool option"
  sha256Hex :: "string \<Rightarrow> string"

text \<open>\<open>compactSubflowResults\<close> (\<open>lib/execution/payloads/serializer.ts\<close>): each entry is stored
  on its own; when the aggregate is still too large, every entry is forced into storage.\<close>

definition compactSubflowResults :: "exec_env \<Rightarrow> jval list \<Rightarrow> jval list" where
  "compactSubflowResults env vs =
     (let cs = map (storeEntry env) vs in if fitsThreshold env cs then cs else map (forceStore env) cs)"

lemma length_compact [simp]: "length (compactSubflowResults env vs) = length vs"
  by (simp add: compactSubflowResults_def Let_def)

section \<open>Numbers in text\<close>

definition show_int :: "int \<Rightarrow> string" where
  "show_int n = (if n < 0 then ''-'' @ show_nat (nat (- n)) else show_nat (nat n))"

lemma show_nat_no_minus: "show_nat n \<noteq> ''-'' @ s"
proof
  assume "show_nat n = ''-'' @ s"
  then have "CHR ''-'' \<in> set (show_nat n)" by simp
  then have "is_digit (CHR ''-'')" using show_nat_digits by blast
  then show False by (simp add: is_digit_def)
qed

lemma show_int_inj [simp]: "show_int m = show_int n \<longleftrightarrow> m = n"
  using show_nat_no_minus by (auto simp: show_int_def split: if_splits) (metis append_Cons append_Nil)+

definition buildLoopIndexCondition :: "int \<Rightarrow> string" where
  "buildLoopIndexCondition n = ''<loop.index> < '' @ show_int n"

section \<open>Projections\<close>

lemma w_dag_simps [simp]:
  "w_dag (upd_state f w) = w_dag w" "w_dag (put_loop i s w) = w_dag w"
  "w_dag (put_parallel i p w) = w_dag w" "w_dag (upd_dag g w) = g (w_dag w)"
  by (simp_all add: w_dag_def upd_state_def put_loop_def put_parallel_def upd_dag_def)

lemma w_loops_simps [simp]:
  "w_loops (upd_state f w) = w_loops w" "w_loops (upd_dag g w) = w_loops w"
  "w_loops (put_parallel i p w) = w_loops w" "w_loops (put_loop i s w) = mput i s (w_loops w)"
  by (simp_all add: upd_state_def upd_dag_def put_parallel_def put_loop_def)

lemma w_state_simps [simp]:
  "w_state (upd_state f w) = f (w_state w)" "w_state (upd_dag g w) = w_state w"
  "w_state (put_parallel i p w) = w_state w" "w_state (put_loop i s w) = w_state w"
  by (simp_all add: upd_state_def upd_dag_def put_parallel_def put_loop_def)

lemma w_parallels_simps [simp]:
  "w_parallels (upd_state f w) = w_parallels w" "w_parallels (upd_dag g w) = w_parallels w"
  "w_parallels (put_parallel i p w) = mput i p (w_parallels w)" "w_parallels (put_loop i s w) = w_parallels w"
  by (simp_all add: upd_state_def upd_dag_def put_parallel_def put_loop_def)

lemma w_em_simps [simp]:
  "w_em (upd_state f w) = w_em w" "w_em (put_loop i s w) = w_em w" "w_em (put_parallel i p w) = w_em w"
  by (simp_all add: upd_state_def put_parallel_def put_loop_def)

text \<open>The scope tables are keyed stores.\<close>

interpretation loop_scopes: keyed_store "\<lambda>w i. mget (w_loops w) i" put_loop "\<lambda>i w. w\<lparr>w_loops := mdel i (w_loops w)\<rparr>"
  by unfold_locales simp_all

interpretation parallel_scopes: keyed_store "\<lambda>w i. mget (w_parallels w) i" put_parallel
  "\<lambda>i w. w\<lparr>w_parallels := mdel i (w_parallels w)\<rparr>"
  by unfold_locales simp_all

text \<open>The invariant of the world: the edge manager and the execution state are well formed.\<close>

definition world_wf :: "world \<Rightarrow> bool" where
  "world_wf w \<longleftrightarrow> em_wf (w_em w) \<and> state_wf (w_state w)"

end
