(* ===== verification/LoopOrch.thy ===== *)
theory LoopOrch
  imports World
begin

text \<open>
  \<open>LoopOrchestrator\<close> (\<open>executor/orchestrators/loop.ts\<close>): the scope of a running loop, the
  decision at its two sentinels, and the reset of its body between two iterations. An
  operation that can throw returns a sum next to the world it leaves. The recursion of the
  scope resets has no visited set in the code; its stack depth is the argument \<open>depth\<close>, and
  a nesting deeper than that is the error \<open>StackOverflow\<close>.
\<close>

section \<open>Starting a loop\<close>

definition new_scope :: loop_scope where
  "new_scope = \<lparr>ls_iteration = 0, ls_current = [], ls_all = [], ls_maxIterations = None, ls_item = None,
     ls_items = None, ls_condition = None, ls_loopType = None, ls_skippedAtStart = False,
     ls_validationError = None\<rparr>"

definition requested_iterations :: "sloop \<Rightarrow> int" where
  "requested_iterations cfg =
     (if loop_iterations cfg = 0 then int DEFAULT_LOOP_ITERATIONS else loop_iterations cfg)"

definition counted :: "int \<Rightarrow> loop_scope \<Rightarrow> loop_scope" where
  "counted n s = s\<lparr>ls_maxIterations := Some n, ls_condition := Some (buildLoopIndexCondition n)\<rparr>"

definition no_items :: "jval \<Rightarrow> bool" where
  "no_items v \<longleftrightarrow> v = JUndef \<or> v = JNull \<or> v = JStr []"

definition forEach_error :: "string \<Rightarrow> string \<Rightarrow> world \<Rightarrow> world" where
  "forEach_error loopId msg w =
     put_loop loopId ((counted 0 new_scope)\<lparr>ls_loopType := Some ''forEach'', ls_items := Some [],
                        ls_validationError := Some msg\<rparr>) w"

definition empty_collection_message :: string where
  "empty_collection_message =
     ''ForEach loop collection is empty. Provide an array or a reference that resolves to a collection.''"

definition no_blocks_message :: string where
  "no_blocks_message =
     ''Loop has no executable blocks inside. Add or enable at least one block in the loop.''"

definition initializeLoopScope :: "exec_env \<Rightarrow> string \<Rightarrow> world \<Rightarrow> (run_error + loop_scope) \<times> world" where
  "initializeLoopScope env loopId w =
     (case mget (loopConfigs (w_dag w)) loopId of
        None \<Rightarrow> (Inl (LoopConfigMissing loopId), w)
      | Some cfg \<Rightarrow>
          if loop_nodes cfg = [] then
            (Inl (LoopHasNoBlocks loopId),
             put_loop loopId (new_scope\<lparr>ls_maxIterations := Some 0, ls_condition := Some ''false'',
               ls_loopType := (if falsy_str (loop_type cfg) then Some ''for'' else loop_type cfg),
               ls_validationError := Some no_blocks_message\<rparr>) w)
          else if loop_type cfg = Some ''for'' then
            (let s = (counted (requested_iterations cfg) new_scope)\<lparr>ls_loopType := Some ''for''\<rparr>
             in (Inr s, put_loop loopId s w))
          else if loop_type cfg = Some ''forEach'' then
            (if no_items (loop_forEachItems cfg)
             then (Inl (ForEachEmpty loopId), forEach_error loopId empty_collection_message w)
             else (case resolveArray env w (loop_forEachItems cfg) (buildSentinelStartId loopId) of
                     Inl e \<Rightarrow> (Inl (ForEachUnresolved loopId),
                               forEach_error loopId (''ForEach loop resolution failed: '' @ e) w)
                   | Inr items \<Rightarrow>
                       (let s = (counted (int (length items)) new_scope)\<lparr>ls_loopType := Some ''forEach'',
                                  ls_items := Some items,
                                  ls_item := (case items of [] \<Rightarrow> None | x # _ \<Rightarrow> Some x)\<rparr>
                        in (Inr s, put_loop loopId s w))))
          else if loop_type cfg = Some ''while'' then
            (let s = new_scope\<lparr>ls_loopType := Some ''while'', ls_condition := loop_whileCondition cfg\<rparr>
             in (Inr s, put_loop loopId s w))
          else if loop_type cfg = Some ''doWhile'' then
            (let s0 = new_scope\<lparr>ls_loopType := Some ''doWhile''\<rparr>;
                 s = (if falsy_str (loop_doWhileCondition cfg) then counted (requested_iterations cfg) s0
                      else s0\<lparr>ls_condition := loop_doWhileCondition cfg\<rparr>)
             in (Inr s, put_loop loopId s w))
          else (Inl (UnknownLoopType (loop_type cfg)), w))"

definition getLoopScope :: "world \<Rightarrow> string \<Rightarrow> loop_scope option" where
  "getLoopScope w i = mget (w_loops w) i"

definition storeLoopNodeOutput :: "string \<Rightarrow> string \<Rightarrow> jobj \<Rightarrow> world \<Rightarrow> world" where
  "storeLoopNodeOutput loopId nodeId out w =
     (case getLoopScope w loopId of
        None \<Rightarrow> w
      | Some s \<Rightarrow> put_loop loopId (s\<lparr>ls_current := mput (extractBaseBlockId nodeId) out (ls_current s)\<rparr>) w)"

section \<open>Deciding at the sentinels\<close>

record loop_continuation =
  lc_shouldContinue :: bool
  lc_selectedRoute :: string
  lc_results :: "jval list option"
  lc_totalIterations :: "nat option"

text \<open>A VM error and an exception during the evaluation both count as false.\<close>

definition evaluateWhileCondition :: "exec_env \<Rightarrow> string \<Rightarrow> loop_scope \<Rightarrow> world \<Rightarrow> bool" where
  "evaluateWhileCondition env cond s w =
     (if cond = [] then False else (case conditionVM env w cond s of None \<Rightarrow> False | Some b \<Rightarrow> b))"

definition evaluateCondition :: "exec_env \<Rightarrow> string \<Rightarrow> loop_scope \<Rightarrow> nat \<Rightarrow> world \<Rightarrow> bool" where
  "evaluateCondition env loopId s iteration w =
     (if falsy_str (ls_condition s) then False
      else let s' = s\<lparr>ls_iteration := iteration\<rparr>
           in evaluateWhileCondition env (the (ls_condition s)) s' (put_loop loopId s' w))"

definition hasReachedConfiguredIterationLimit :: "loop_scope \<Rightarrow> nat \<Rightarrow> bool" where
  "hasReachedConfiguredIterationLimit s nextIteration \<longleftrightarrow>
     ls_loopType s = Some ''doWhile'' \<and>
     (case ls_maxIterations s of None \<Rightarrow> False | Some m \<Rightarrow> m \<le> int nextIteration)"

definition createExitResult :: "exec_env \<Rightarrow> string \<Rightarrow> loop_scope \<Rightarrow> world \<Rightarrow> loop_continuation \<times> world" where
  "createExitResult env loopId s w =
     (let results = compactSubflowResults env (ls_all s)
      in (\<lparr>lc_shouldContinue = False, lc_selectedRoute = LOOP_EXIT, lc_results = Some results,
           lc_totalIterations = Some (length (ls_all s))\<rparr>,
          put_loop loopId (s\<lparr>ls_all := []\<rparr>)
            (upd_state (setBlockOutput False loopId [(''results'', JArr results)] 0 None) w)))"

text \<open>The outputs of the finished iteration move to the history; an iteration without any
  output leaves no entry.\<close>

definition close_iteration :: "exec_env \<Rightarrow> loop_scope \<Rightarrow> loop_scope" where
  "close_iteration env s =
     (let outs = map JObj (mvalues (ls_current s))
      in s\<lparr>ls_current := [],
           ls_all := (if outs = [] then ls_all s else ls_all s @ [JArr (compactSubflowResults env outs)])\<rparr>)"

definition next_iteration :: "loop_scope \<Rightarrow> loop_scope" where
  "next_iteration s =
     (let k = Suc (ls_iteration s)
      in s\<lparr>ls_iteration := k,
           ls_item := (case ls_items s of
                         Some xs \<Rightarrow> if k < length xs then Some (xs ! k) else ls_item s
                       | None \<Rightarrow> ls_item s)\<rparr>)"

definition evaluateLoopContinuation ::
  "exec_env \<Rightarrow> bool \<Rightarrow> string \<Rightarrow> world \<Rightarrow> loop_continuation \<times> world" where
  "evaluateLoopContinuation env aborted loopId w =
     (case getLoopScope w loopId of
        None \<Rightarrow> (\<lparr>lc_shouldContinue = False, lc_selectedRoute = LOOP_EXIT, lc_results = None,
                  lc_totalIterations = None\<rparr>, w)
      | Some s \<Rightarrow>
          if aborted then createExitResult env loopId s w
          else if ls_skippedAtStart s then createExitResult env loopId (s\<lparr>ls_skippedAtStart := False\<rparr>) w
          else (let s1 = close_iteration env s; w1 = put_loop loopId s1 w
                in if hasReachedConfiguredIterationLimit s1 (Suc (ls_iteration s1))
                   then createExitResult env loopId s1 w1
                   else if \<not> evaluateCondition env loopId s1 (Suc (ls_iteration s1)) w1
                   then createExitResult env loopId s1 w1
                   else (\<lparr>lc_shouldContinue = True, lc_selectedRoute = LOOP_CONTINUE, lc_results = None,
                          lc_totalIterations = None\<rparr>, put_loop loopId (next_iteration s1) w1)))"

definition skip_loop :: "string \<Rightarrow> loop_scope \<Rightarrow> world \<Rightarrow> world" where
  "skip_loop loopId s w = put_loop loopId (s\<lparr>ls_skippedAtStart := True\<rparr>) w"

definition evaluateInitialCondition :: "exec_env \<Rightarrow> string \<Rightarrow> world \<Rightarrow> bool \<times> world" where
  "evaluateInitialCondition env loopId w =
     (case getLoopScope w loopId of
        None \<Rightarrow> (True, w)
      | Some s \<Rightarrow>
          if ls_loopType s = Some ''forEach'' then
            (if ls_items s = None \<or> ls_items s = Some [] then (False, skip_loop loopId s w) else (True, w))
          else if ls_loopType s = Some ''for'' then
            (if ls_maxIterations s = Some 0 then (False, skip_loop loopId s w) else (True, w))
          else if ls_loopType s = Some ''doWhile'' then (True, w)
          else if ls_loopType s = Some ''while'' then
            (if falsy_str (ls_condition s) then (False, skip_loop loopId s w)
             else if evaluateWhileCondition env (the (ls_condition s)) s w then (True, w)
             else (False, skip_loop loopId s w))
          else (True, w))"

section \<open>The nodes of a loop\<close>

definition clone_of :: "string \<Rightarrow> string \<Rightarrow> bool" where
  "clone_of i k \<longleftrightarrow> starts_with k (i @ ''__obranch-'') \<or> starts_with k (i @ ''__clone'')"

text \<open>
  \<open>collectAllLoopNodeIds\<close> and \<open>collectAllParallelNodeIds\<close> call each other and share the set
  of visited containers. The pending calls are a stack of tasks; the ids are collected in
  the order of the code, since a nested result is appended when it is complete and a
  repeated id keeps its first place.
\<close>

datatype collect_task = LoopTask string | ParallelTask string | NodeTask string | BranchTask string

definition clone_tasks :: "dag \<Rightarrow> string \<Rightarrow> collect_task list" where
  "clone_tasks d i =
     map LoopTask (filter (clone_of i) (mkeys (loopConfigs d))) @
     map ParallelTask (filter (clone_of i) (mkeys (parallelConfigs d)))"

definition loop_child_tasks :: "dag \<Rightarrow> string \<Rightarrow> collect_task list" where
  "loop_child_tasks d n =
     (if mhas (loopConfigs d) n then LoopTask n # clone_tasks d n
      else if mhas (parallelConfigs d) n then ParallelTask n # clone_tasks d n
      else [NodeTask n])"

definition parallel_child_tasks :: "dag \<Rightarrow> string \<Rightarrow> collect_task list" where
  "parallel_child_tasks d n =
     (if mhas (loopConfigs d) n then LoopTask n # clone_tasks d n
      else if mhas (parallelConfigs d) n then ParallelTask n # clone_tasks d n
      else [NodeTask n, BranchTask n])"

definition branch_nodes :: "dag \<Rightarrow> string \<Rightarrow> string list" where
  "branch_nodes d n = filter (\<lambda>i. starts_with i (n @ BRANCH_PREFIX)) (mkeys (dag_nodes d))"

fun task_containers :: "collect_task \<Rightarrow> string list" where
  "task_containers (LoopTask i) = [i]"
| "task_containers (ParallelTask i) = [i]"
| "task_containers _ = []"

definition container_ids :: "dag \<Rightarrow> string set" where
  "container_ids d = set (mkeys (loopConfigs d)) \<union> set (mkeys (parallelConfigs d))"

lemma finite_container_ids [simp]: "finite (container_ids d)"
  unfolding container_ids_def by (intro finite_UnI finite_set)

lemma child_task_containers:
  "set (concat (map task_containers (concat (map (loop_child_tasks d) ns)))) \<subseteq> container_ids d"
  "set (concat (map task_containers (concat (map (parallel_child_tasks d) ns)))) \<subseteq> container_ids d"
  by (auto simp: loop_child_tasks_def parallel_child_tasks_def clone_tasks_def container_ids_def split: if_splits)

definition pending_containers :: "dag \<Rightarrow> collect_task list \<Rightarrow> string list \<Rightarrow> string set" where
  "pending_containers d ts V = (container_ids d \<union> set (concat (map task_containers ts))) - set V"

lemma finite_pending_containers [simp]: "finite (pending_containers d ts V)"
  by (simp add: pending_containers_def)

function collect_run :: "dag \<Rightarrow> collect_task list \<Rightarrow> string list \<times> string list \<Rightarrow> string list \<times> string list" where
  "collect_run d [] st = st"
| "collect_run d (LoopTask i # ts) (V, R) =
     (if i \<in> set V then collect_run d ts (V, R)
      else case mget (loopConfigs d) i of
             None \<Rightarrow> collect_run d ts (V @ [i], R)
           | Some cfg \<Rightarrow> collect_run d (concat (map (loop_child_tasks d) (loop_nodes cfg)) @ ts)
                           (V @ [i], sadds [buildSentinelStartId i, buildSentinelEndId i] R))"
| "collect_run d (ParallelTask i # ts) (V, R) =
     (if i \<in> set V then collect_run d ts (V, R)
      else case mget (parallelConfigs d) i of
             None \<Rightarrow> collect_run d ts (V @ [i], R)
           | Some cfg \<Rightarrow> collect_run d (concat (map (parallel_child_tasks d) (par_nodes cfg)) @ ts)
                           (V @ [i], sadds [buildParallelSentinelStartId i, buildParallelSentinelEndId i] R))"
| "collect_run d (NodeTask n # ts) (V, R) = collect_run d ts (V, sadd n R)"
| "collect_run d (BranchTask n # ts) (V, R) = collect_run d ts (V, sadds (branch_nodes d n) R)"
  by pat_completeness auto
termination
proof (relation "inv_image (less_than <*lex*> less_than)
    (\<lambda>(d, ts, V, R). (card (pending_containers d ts V), length ts))")
  let ?r = "inv_image (less_than <*lex*> less_than)
    (\<lambda>(d :: dag, ts, V, R :: string list). (card (pending_containers d ts V), length ts))"
  have skip: "((d, ts, V, R'), (d, t # ts, V, R)) \<in> ?r" for d t ts V R R'
  proof -
    have "card (pending_containers d ts V) \<le> card (pending_containers d (t # ts) V)"
      by (rule card_mono) (auto simp: pending_containers_def)
    then show ?thesis by auto
  qed
  have enter: "((d, cs @ ts, V @ [i], R'), (d, t # ts, V, R)) \<in> ?r"
    if "task_containers t = [i]" "i \<notin> set V" "set (concat (map task_containers cs)) \<subseteq> container_ids d"
    for d t ts V R R' i cs
  proof -
    have "pending_containers d (cs @ ts) (V @ [i]) \<subset> pending_containers d (t # ts) V"
      using that by (auto simp: pending_containers_def)
    then have "card (pending_containers d (cs @ ts) (V @ [i])) < card (pending_containers d (t # ts) V)"
      by (rule psubset_card_mono [rotated]) simp
    then show ?thesis by simp
  qed
  fix d i ts V R and cfg :: sloop and pcfg :: sparallel and n
  show "((d, ts, V, R), (d, LoopTask i # ts, V, R)) \<in> ?r" by (rule skip)
  show "((d, ts, V, R), (d, ParallelTask i # ts, V, R)) \<in> ?r" by (rule skip)
  show "((d, ts, V, sadd n R), (d, NodeTask n # ts, V, R)) \<in> ?r" by (rule skip)
  show "((d, ts, V, sadds (branch_nodes d n) R), (d, BranchTask n # ts, V, R)) \<in> ?r" by (rule skip)
  assume i: "i \<notin> set V"
  show "((d, ts, V @ [i], R), (d, LoopTask i # ts, V, R)) \<in> ?r"
    using enter [of "LoopTask i" i V "[]" d ts R R] i by simp
  show "((d, ts, V @ [i], R), (d, ParallelTask i # ts, V, R)) \<in> ?r"
    using enter [of "ParallelTask i" i V "[]" d ts R R] i by simp
  show "((d, concat (map (loop_child_tasks d) (loop_nodes cfg)) @ ts, V @ [i],
      sadds [buildSentinelStartId i, buildSentinelEndId i] R), (d, LoopTask i # ts, V, R)) \<in> ?r"
    by (rule enter) (use i child_task_containers in auto)
  show "((d, concat (map (parallel_child_tasks d) (par_nodes pcfg)) @ ts, V @ [i],
      sadds [buildParallelSentinelStartId i, buildParallelSentinelEndId i] R), (d, ParallelTask i # ts, V, R)) \<in> ?r"
    by (rule enter) (use i child_task_containers in auto)
qed auto

definition collectAllLoopNodeIds :: "dag \<Rightarrow> string \<Rightarrow> string list" where
  "collectAllLoopNodeIds d loopId = snd (collect_run d [LoopTask loopId] ([], []))"

section \<open>Resetting the scopes of nested containers\<close>

text \<open>\<open>ctx.loopExecutions\<close> and \<open>ctx.parallelExecutions\<close> lose the container and its clones;
  only the clones also leave the parent map.\<close>

definition drop_loop_scopes :: "string \<Rightarrow> world \<Rightarrow> world" where
  "drop_loop_scopes n w =
     (let clones = filter (clone_of n) (mkeys (mdel n (w_loops w)))
      in w\<lparr>w_loops := filter (\<lambda>(k, _). k \<noteq> n \<and> \<not> clone_of n k) (w_loops w),
           w_parents := filter (\<lambda>(k, _). k \<notin> set clones) (w_parents w)\<rparr>)"

definition drop_parallel_scopes :: "string \<Rightarrow> world \<Rightarrow> world" where
  "drop_parallel_scopes n w =
     (let clones = filter (clone_of n) (mkeys (mdel n (w_parallels w)))
      in w\<lparr>w_parallels := filter (\<lambda>(k, _). k \<noteq> n \<and> \<not> clone_of n k) (w_parallels w),
           w_parents := filter (\<lambda>(k, _). k \<notin> set clones) (w_parents w)\<rparr>)"

fun fold_opt :: "('a \<Rightarrow> 'b \<Rightarrow> 'b option) \<Rightarrow> 'a list \<Rightarrow> 'b \<Rightarrow> 'b option" where
  "fold_opt f [] y = Some y"
| "fold_opt f (x # xs) y = (case f x y of None \<Rightarrow> None | Some y' \<Rightarrow> fold_opt f xs y')"

fun resetNestedLoopScopes :: "nat \<Rightarrow> dag \<Rightarrow> string \<Rightarrow> world \<Rightarrow> world option" where
  "resetNestedLoopScopes 0 d i w = None"
| "resetNestedLoopScopes (Suc depth) d i w =
     (case mget (loopConfigs d) i of
        None \<Rightarrow> Some w
      | Some cfg \<Rightarrow>
          fold_opt (\<lambda>n w. if mhas (loopConfigs d) n
                          then resetNestedLoopScopes depth d n (drop_loop_scopes n w) else Some w)
            (loop_nodes cfg) w)"

fun resetNestedParallelScopes :: "nat \<Rightarrow> dag \<Rightarrow> string \<Rightarrow> world \<Rightarrow> world option"
  and deleteParallelScopeAndClones :: "nat \<Rightarrow> dag \<Rightarrow> string \<Rightarrow> world \<Rightarrow> world option" where
  "resetNestedParallelScopes 0 d i w = None"
| "resetNestedParallelScopes (Suc depth) d i w =
     (case mget (loopConfigs d) i of
        None \<Rightarrow> Some w
      | Some cfg \<Rightarrow>
          fold_opt (\<lambda>n w. if mhas (parallelConfigs d) n then deleteParallelScopeAndClones depth d n w
                          else if mhas (loopConfigs d) n then resetNestedParallelScopes depth d n w
                          else Some w)
            (loop_nodes cfg) w)"
| "deleteParallelScopeAndClones 0 d i w = None"
| "deleteParallelScopeAndClones (Suc depth) d i w =
     (let w1 = drop_parallel_scopes i w
      in case mget (parallelConfigs d) i of
           None \<Rightarrow> Some w1
         | Some cfg \<Rightarrow>
             fold_opt (\<lambda>n w. if mhas (parallelConfigs d) n then deleteParallelScopeAndClones depth d n w
                             else if mhas (loopConfigs d) n
                             then resetNestedParallelScopes depth d n (drop_loop_scopes n w)
                             else Some w)
               (par_nodes cfg) w1)"

definition clearLoopExecutionState :: "nat \<Rightarrow> string \<Rightarrow> world \<Rightarrow> (run_error + unit) \<times> world" where
  "clearLoopExecutionState depth loopId w =
     (let w1 = upd_state (fold unmarkExecuted (collectAllLoopNodeIds (w_dag w) loopId)) w
      in case resetNestedLoopScopes depth (w_dag w) loopId w1 of
           None \<Rightarrow> (Inl StackOverflow, w1)
         | Some w2 \<Rightarrow>
             (case resetNestedParallelScopes depth (w_dag w) loopId w2 of
                None \<Rightarrow> (Inl StackOverflow, w2)
              | Some w3 \<Rightarrow> (Inr (), w3)))"

section \<open>Restoring the edges of the body\<close>

definition isSubflowStartExitBypassEdge :: "string \<Rightarrow> string \<Rightarrow> string option \<Rightarrow> bool" where
  "isSubflowStartExitBypassEdge s t h \<longleftrightarrow>
     (if h = Some LOOP_EXIT then
        (case extractLoopIdFromSentinel s of
           None \<Rightarrow> False
         | Some i \<Rightarrow> i \<noteq> [] \<and> s = buildSentinelStartId i \<and> t = buildSentinelEndId i)
      else if h = Some PARALLEL_EXIT then
        (case extractParallelIdFromSentinel s of
           None \<Rightarrow> False
         | Some i \<Rightarrow> i \<noteq> [] \<and> s = buildParallelSentinelStartId i \<and> t = buildParallelSentinelEndId i)
      else False)"

definition restorable :: "dag \<Rightarrow> string \<Rightarrow> string \<Rightarrow> bool" where
  "restorable d s t \<longleftrightarrow>
     (case dnode d s of
        None \<Rightarrow> False
      | Some n \<Rightarrow> \<exists>e \<in> set (out_edges n). edge_target e = t \<and>
          \<not> isSubflowStartExitBypassEdge s t (edge_sourceHandle e) \<and>
          \<not> isControlBackEdge (edge_sourceHandle e))"

definition restore_incoming_edges :: "string list \<Rightarrow> dag \<Rightarrow> dag" where
  "restore_incoming_edges ids d =
     fold (\<lambda>t. upd_node t (\<lambda>m. m\<lparr>incomingEdges := sadds (filter (\<lambda>s. restorable d s t) ids) (incomingEdges m)\<rparr>))
       ids d"

definition restoreLoopEdges :: "string \<Rightarrow> edge_manager \<Rightarrow> edge_manager" where
  "restoreLoopEdges loopId em =
     (if \<not> mhas (loopConfigs (em_dag em)) loopId then em
      else let ids = collectAllLoopNodeIds (em_dag em) loopId;
               em1 = clearDeactivatedEdgesForNodes ids em
           in em1\<lparr>em_dag := restore_incoming_edges ids (em_dag em1)\<rparr>)"

section \<open>What a restored body looks like\<close>

lemma dnode_restore:
  assumes "set ts \<subseteq> set ids"
  shows "dnode (fold (\<lambda>t. upd_node t (\<lambda>m. m\<lparr>incomingEdges := sadds (filter (\<lambda>s. R s t) ids) (incomingEdges m)\<rparr>)) ts d) i =
    (case dnode d i of None \<Rightarrow> None
     | Some m \<Rightarrow> Some (m\<lparr>incomingEdges := (if i \<in> set ts then sadds (filter (\<lambda>s. R s i) ids) (incomingEdges m)
                                          else incomingEdges m)\<rparr>))"
proof -
  have idem: "sadds xs (sadds xs ys) = sadds xs ys" for xs ys :: "string list"
  proof -
    have "set xs \<subseteq> set zs \<Longrightarrow> sadds xs zs = zs" for zs
      by (induction xs) (auto simp: sadd_def)
    then show ?thesis by simp
  qed
  show ?thesis
    by (induction ts arbitrary: d) (auto simp: idem split: option.split)
qed

lemma dnode_restore_incoming:
  "dnode (restore_incoming_edges ids d) t =
    (case dnode d t of None \<Rightarrow> None
     | Some m \<Rightarrow> Some (m\<lparr>incomingEdges := (if t \<in> set ids then sadds (filter (\<lambda>s. restorable d s t) ids) (incomingEdges m)
                                          else incomingEdges m)\<rparr>))"
  unfolding restore_incoming_edges_def by (rule dnode_restore) simp

lemma restorable_node: "restorable d s t \<Longrightarrow> has_node d s"
  by (auto simp: restorable_def has_node_iff split: option.splits)

lemma has_node_restore: "has_node (restore_incoming_edges ids d) i = has_node d i"
  by (auto simp: has_node_iff dnode_restore_incoming split: option.split)

lemma mproper_upd_node: "mproper (dag_nodes d) \<Longrightarrow> mproper (dag_nodes (upd_node i f d))"
  by (auto simp: upd_node_def split: option.split)

lemma mproper_fold_upd:
  "mproper (dag_nodes d) \<Longrightarrow> mproper (dag_nodes (fold (\<lambda>t. upd_node t (f t)) ts d))"
  by (induction ts arbitrary: d) (auto simp: mproper_upd_node)

lemma wf_restore_incoming:
  assumes "wf_dag d"
  shows "wf_dag (restore_incoming_edges ids d)"
proof -
  have "mproper (dag_nodes (restore_incoming_edges ids d))"
    using assms by (simp add: restore_incoming_edges_def mproper_fold_upd wf_dag_def)
  moreover have "wf_node (restore_incoming_edges ids d) i n" if "dnode (restore_incoming_edges ids d) i = Some n" for i n
  proof -
    from that obtain m where m: "dnode d i = Some m"
      and n: "n = m\<lparr>incomingEdges := (if i \<in> set ids then sadds (filter (\<lambda>s. restorable d s i) ids) (incomingEdges m)
                                     else incomingEdges m)\<rparr>"
      by (auto simp: dnode_restore_incoming split: option.splits)
    from wf_dagD [OF assms m] show ?thesis
      by (auto simp: wf_node_def n out_edges_def has_node_restore dest: restorable_node)
  qed
  ultimately show ?thesis by (simp add: wf_dag_def)
qed

text \<open>
  between two iterations the body of a loop is wired as before its first one. Every
  node of the loop (nested containers and clones included) waits again for every other node
  of the loop that has an edge to it which is neither a back edge nor the bypass of an
  empty container; nothing else is added, no node outside the loop changes, and no edge
  that leaves a node of the loop stays deactivated.
\<close>

theorem restoreLoopEdges_correct:
  assumes "em_wf em" and "mhas (loopConfigs (em_dag em)) loopId" and "dnode (em_dag em) t = Some m"
  shows "em_wf (restoreLoopEdges loopId em) \<and>
    (\<exists>m'. dnode (em_dag (restoreLoopEdges loopId em)) t = Some m' \<and> outgoingEdges m' = outgoingEdges m \<and>
       set (incomingEdges m') = set (incomingEdges m) \<union>
         {s \<in> set (collectAllLoopNodeIds (em_dag em) loopId).
            t \<in> set (collectAllLoopNodeIds (em_dag em) loopId) \<and> restorable (em_dag em) s t}) \<and>
    (\<forall>k \<in> set (deactivatedEdges (restoreLoopEdges loopId em)).
       \<not> key_source_in (collectAllLoopNodeIds (em_dag em) loopId) k)"
proof -
  let ?ids = "collectAllLoopNodeIds (em_dag em) loopId"
  have dag: "em_dag (clearDeactivatedEdgesForNodes ?ids em) = em_dag em"
    and keys: "\<forall>k \<in> set (deactivatedEdges (clearDeactivatedEdgesForNodes ?ids em)). \<not> key_source_in ?ids k"
    and wf: "em_wf (clearDeactivatedEdgesForNodes ?ids em)"
    using assms(1) by (auto simp: clearDeactivatedEdgesForNodes_def em_wf_def)
  have eq: "restoreLoopEdges loopId em =
      (clearDeactivatedEdgesForNodes ?ids em)\<lparr>em_dag := restore_incoming_edges ?ids (em_dag em)\<rparr>"
    using assms(2) by (simp add: restoreLoopEdges_def Let_def dag)
  have "em_wf (restoreLoopEdges loopId em)"
    using wf assms(1) by (simp add: eq em_wf_def wf_restore_incoming)
  then show ?thesis
    using keys assms(3) by (simp add: eq dnode_restore_incoming) blast
qed

section \<open>The collected ids are the nested nodes\<close>

fun child_tasks :: "dag \<Rightarrow> collect_task \<Rightarrow> collect_task list" where
  "child_tasks d (LoopTask i) =
     (case mget (loopConfigs d) i of None \<Rightarrow> [] | Some cfg \<Rightarrow> concat (map (loop_child_tasks d) (loop_nodes cfg)))"
| "child_tasks d (ParallelTask i) =
     (case mget (parallelConfigs d) i of None \<Rightarrow> [] | Some cfg \<Rightarrow> concat (map (parallel_child_tasks d) (par_nodes cfg)))"
| "child_tasks d _ = []"

fun own_ids :: "dag \<Rightarrow> collect_task \<Rightarrow> string list" where
  "own_ids d (LoopTask i) =
     (if mhas (loopConfigs d) i then [buildSentinelStartId i, buildSentinelEndId i] else [])"
| "own_ids d (ParallelTask i) =
     (if mhas (parallelConfigs d) i then [buildParallelSentinelStartId i, buildParallelSentinelEndId i] else [])"
| "own_ids d (NodeTask n) = [n]"
| "own_ids d (BranchTask n) = branch_nodes d n"

definition nested_task :: "dag \<Rightarrow> collect_task \<Rightarrow> collect_task \<Rightarrow> bool" where
  "nested_task d t t' \<longleftrightarrow> t' \<in> set (child_tasks d t)"

fun handled :: "dag \<Rightarrow> string list \<times> string list \<Rightarrow> collect_task \<Rightarrow> bool" where
  "handled d (V, R) t = (if task_containers t = [] then set (own_ids d t) \<subseteq> set R else set (task_containers t) \<subseteq> set V)"

declare handled.simps [simp del]

text \<open>One step of the run: the head task is skipped or expanded.\<close>

lemma collect_step:
  "collect_run d (t # ts) (V, R) =
     (if task_containers t \<noteq> [] \<and> set (task_containers t) \<subseteq> set V then collect_run d ts (V, R)
      else collect_run d (child_tasks d t @ ts) (V @ task_containers t, sadds (own_ids d t) R))"
  by (cases t) (auto simp: mhas_def split: option.split)

lemma collect_induct [case_names empty skip expand]:
  assumes "\<And>st. P [] st"
    and "\<And>t ts V R. task_containers t \<noteq> [] \<Longrightarrow> set (task_containers t) \<subseteq> set V \<Longrightarrow> P ts (V, R) \<Longrightarrow> P (t # ts) (V, R)"
    and "\<And>t ts V R. \<not> (task_containers t \<noteq> [] \<and> set (task_containers t) \<subseteq> set V) \<Longrightarrow>
           P (child_tasks d t @ ts) (V @ task_containers t, sadds (own_ids d t) R) \<Longrightarrow> P (t # ts) (V, R)"
  shows "P ts st"
  using assms
proof (induction d ts st rule: collect_run.induct)
  case (2 d i ts V R)
  show ?case
  proof (cases "i \<in> set V")
    case True
    with 2 show ?thesis by simp
  next
    case False
    show ?thesis
      by (rule 2(6)) (use False 2 in \<open>cases "mget (loopConfigs d) i"; simp add: mhas_def\<close>)+
  qed
next
  case (3 d i ts V R)
  show ?case
  proof (cases "i \<in> set V")
    case True
    with 3 show ?thesis by simp
  next
    case False
    show ?thesis
      by (rule 3(6)) (use False 3 in \<open>cases "mget (parallelConfigs d) i"; simp add: mhas_def\<close>)+
  qed
next
  case (4 d n ts V R)
  show ?case by (rule 4(4)) (use 4 in simp_all)
next
  case (5 d n ts V R)
  show ?case by (rule 5(4)) (use 5 in simp_all)
qed simp

lemma collect_mono:
  "set (fst st) \<subseteq> set (fst (collect_run d ts st)) \<and> set (snd st) \<subseteq> set (snd (collect_run d ts st))"
  by (induction ts st rule: collect_induct [where d = d]) (auto simp: collect_step)

lemma collect_sound:
  "x \<in> set (snd (collect_run d ts st)) \<Longrightarrow>
   x \<in> set (snd st) \<or> (\<exists>t \<in> set ts. \<exists>t'. (nested_task d)\<^sup>*\<^sup>* t t' \<and> x \<in> set (own_ids d t'))"
proof (induction ts st rule: collect_induct [where d = d])
  case (skip t ts V R)
  then show ?case by (auto simp: collect_step)
next
  case (expand t ts V R)
  then have "x \<in> set (sadds (own_ids d t) R) \<or>
    (\<exists>u \<in> set (child_tasks d t @ ts). \<exists>t'. (nested_task d)\<^sup>*\<^sup>* u t' \<and> x \<in> set (own_ids d t'))"
    by (simp only: collect_step if_False snd_conv)
  moreover have "(nested_task d)\<^sup>*\<^sup>* t t'" if "u \<in> set (child_tasks d t)" "(nested_task d)\<^sup>*\<^sup>* u t'" for u t'
    using that by (auto simp: nested_task_def intro: converse_rtranclp_into_rtranclp)
  ultimately show ?case by auto
qed simp

definition closed_under :: "dag \<Rightarrow> string list \<times> string list \<Rightarrow> collect_task list \<Rightarrow> bool" where
  "closed_under d st ts \<longleftrightarrow>
     (\<forall>t. handled d st t \<longrightarrow> set (own_ids d t) \<subseteq> set (snd st) \<and>
        (\<forall>t' \<in> set (child_tasks d t). handled d st t' \<or> t' \<in> set ts))"

lemma handled_mono:
  "handled d (V, R) t \<Longrightarrow> set V \<subseteq> set V' \<Longrightarrow> set R \<subseteq> set R' \<Longrightarrow> handled d (V', R') t"
  by (auto simp: handled.simps split: if_splits)

definition disjoint_configs :: "dag \<Rightarrow> bool" where
  "disjoint_configs d \<longleftrightarrow> list_all (\<lambda>i. \<not> mhas (parallelConfigs d) i) (mkeys (loopConfigs d))"

lemma disjoint_configsD: "disjoint_configs d \<Longrightarrow> mhas (loopConfigs d) i \<Longrightarrow> \<not> mhas (parallelConfigs d) i"
  by (simp add: disjoint_configs_def list_all_iff)

fun known_task :: "dag \<Rightarrow> collect_task \<Rightarrow> bool" where
  "known_task d (LoopTask i) = mhas (loopConfigs d) i"
| "known_task d (ParallelTask i) = mhas (parallelConfigs d) i"
| "known_task d _ = True"

lemma known_children: "u \<in> set (child_tasks d t) \<Longrightarrow> known_task d u"
  by (cases t)
    (auto simp: loop_child_tasks_def parallel_child_tasks_def clone_tasks_def split: option.splits if_splits)

lemma other_kind:
  assumes "disjoint_configs d" and "task_containers u = task_containers t" and "task_containers t \<noteq> []"
    and "u \<noteq> t" and "known_task d t"
  shows "own_ids d u = [] \<and> child_tasks d u = []"
proof -
  have l: "mget (loopConfigs d) i = Some y \<Longrightarrow> mget (parallelConfigs d) i = None" for i y
    using disjoint_configsD [OF assms(1), of i] by (cases "mget (parallelConfigs d) i") (auto simp: mhas_def)
  then have p: "mget (parallelConfigs d) i = Some y \<Longrightarrow> mget (loopConfigs d) i = None" for i y
    by (cases "mget (loopConfigs d) i") auto
  show ?thesis
    using assms(2-5) by (cases u; cases t) (auto simp: mhas_def l p split: option.splits)
qed

lemma closed_expand:
  assumes dis: "disjoint_configs d" and t: "known_task d t" and cl: "closed_under d (V, R) (t # ts)"
  shows "closed_under d (V @ task_containers t, sadds (own_ids d t) R) (child_tasks d t @ ts)"
  unfolding closed_under_def
proof (intro allI impI)
  let ?st = "(V @ task_containers t, sadds (own_ids d t) R)"
  fix u assume u: "handled d ?st u"
  have t': "handled d ?st t" by (simp add: handled.simps)
  consider (old) "handled d (V, R) u" | (self) "u = t" | (leaf) "task_containers u = []"
    | (other) "u \<noteq> t" "task_containers u = task_containers t" "task_containers t \<noteq> []"
    using u by (cases u; cases t) (auto simp: handled.simps)
  then show "set (own_ids d u) \<subseteq> set (snd ?st) \<and>
    (\<forall>t' \<in> set (child_tasks d u). handled d ?st t' \<or> t' \<in> set (child_tasks d t @ ts))"
  proof cases
    case old
    with cl have "set (own_ids d u) \<subseteq> set R" and "\<forall>t' \<in> set (child_tasks d u). handled d (V, R) t' \<or> t' \<in> set (t # ts)"
      by (simp_all add: closed_under_def)
    moreover have "handled d (V, R) x \<Longrightarrow> handled d ?st x" for x
      by (rule handled_mono) auto
    ultimately show ?thesis
      using t' by auto
  next
    case self
    then show ?thesis by auto
  next
    case leaf
    with u show ?thesis by (cases u) (auto simp: handled.simps)
  next
    case other
    with other_kind [OF dis _ _ _ t] show ?thesis by simp
  qed
qed

lemma collect_closed:
  assumes "disjoint_configs d" and "\<forall>t \<in> set ts. known_task d t" and "closed_under d st ts"
  shows "closed_under d (collect_run d ts st) [] \<and> (\<forall>t \<in> set ts. handled d (collect_run d ts st) t)"
  using assms(2,3)
proof (induction ts st rule: collect_induct [where d = d])
  case (skip t ts V R)
  have run: "collect_run d (t # ts) (V, R) = collect_run d ts (V, R)"
    using skip.hyps by (simp only: collect_step if_True simp_thms)
  have h: "handled d (V, R) t" using skip.hyps by (simp add: handled.simps)
  have "closed_under d (V, R) ts"
    using skip.prems(2) h by (auto simp: closed_under_def)
  with skip have IH: "closed_under d (collect_run d ts (V, R)) []" "\<forall>t \<in> set ts. handled d (collect_run d ts (V, R)) t"
    by auto
  have "handled d (collect_run d ts (V, R)) t"
    using handled_mono [OF h] collect_mono [of "(V, R)" d ts] by (metis fst_conv prod.collapse snd_conv)
  with IH run show ?case by simp
next
  case (expand t ts V R)
  let ?st = "(V @ task_containers t, sadds (own_ids d t) R)"
  have run: "collect_run d (t # ts) (V, R) = collect_run d (child_tasks d t @ ts) ?st"
    using expand.hyps(1) by (simp only: collect_step if_False)
  have "closed_under d ?st (child_tasks d t @ ts)"
    by (rule closed_expand [OF assms(1) _ expand.prems(2)]) (use expand.prems(1) in simp)
  moreover have "\<forall>u \<in> set (child_tasks d t @ ts). known_task d u"
    using expand.prems(1) known_children by auto
  ultimately have IH: "closed_under d (collect_run d (child_tasks d t @ ts) ?st) []"
    "\<forall>u \<in> set (child_tasks d t @ ts). handled d (collect_run d (child_tasks d t @ ts) ?st) u"
    using expand.IH by blast+
  have "handled d ?st t" by (simp add: handled.simps)
  then have "handled d (collect_run d (child_tasks d t @ ts) ?st) t"
    using handled_mono [of d "fst ?st" "snd ?st"] collect_mono [of ?st d "child_tasks d t @ ts"]
    by (metis fst_conv prod.collapse snd_conv)
  with IH run show ?case by simp
qed (simp add: closed_under_def)

text \<open>
  the nodes reset and rewired between two iterations are exactly those of the
  containers nested in the loop: the two sentinels of the loop and of every loop or
  parallel below it, their regular blocks, every branch instance of a block inside a
  parallel, and the same for every clone of a nested container.
\<close>

theorem collectAllLoopNodeIds_correct:
  assumes "disjoint_configs d" and "mhas (loopConfigs d) loopId"
  shows "set (collectAllLoopNodeIds d loopId) =
    {x. \<exists>t. (nested_task d)\<^sup>*\<^sup>* (LoopTask loopId) t \<and> x \<in> set (own_ids d t)}"
proof -
  let ?st = "collect_run d [LoopTask loopId] ([], [])"
  have "closed_under d ([], []) [LoopTask loopId]"
  proof -
    have "set (own_ids d t) \<subseteq> {} \<and> child_tasks d t = []" if "handled d ([], []) t" for t
      using that by (cases t) (auto simp: handled.simps)
    then show ?thesis by (simp add: closed_under_def)
  qed
  then have c: "closed_under d ?st []" "handled d ?st (LoopTask loopId)"
    using collect_closed [OF assms(1), of "[LoopTask loopId]" "([], [])"] assms(2) by auto
  have "handled d ?st t" if "(nested_task d)\<^sup>*\<^sup>* (LoopTask loopId) t" for t
    using that by (induction rule: rtranclp_induct) (use c in \<open>auto simp: closed_under_def nested_task_def\<close>)
  with c(1) have "set (own_ids d t) \<subseteq> set (snd ?st)" if "(nested_task d)\<^sup>*\<^sup>* (LoopTask loopId) t" for t
    using that by (auto simp: closed_under_def)
  moreover have "\<exists>t. (nested_task d)\<^sup>*\<^sup>* (LoopTask loopId) t \<and> x \<in> set (own_ids d t)"
    if "x \<in> set (snd ?st)" for x
    using collect_sound [OF that] by auto
  ultimately show ?thesis
    unfolding collectAllLoopNodeIds_def by blast
qed

end
