(* ===== verification/LoopProps.thy ===== *)
theory LoopProps
  imports LoopOrch
begin

text \<open>
  Properties of the loop orchestrator: how often a loop runs, which item an iteration of a
  forEach loop sees, what a finished loop leaves behind, and that the reset between two
  iterations returns and forgets the nested scopes.
\<close>

section \<open>Counted loops\<close>

text \<open>What the code relies on: the VM evaluates \<open><loop.index> < n\<close> to that comparison.\<close>

definition compares_index :: "exec_env \<Rightarrow> bool" where
  "compares_index env \<longleftrightarrow>
     (\<forall>w n s. conditionVM env w (buildLoopIndexCondition n) s = Some (int (ls_iteration s) < n))"

definition counted_scope :: "int \<Rightarrow> loop_scope \<Rightarrow> bool" where
  "counted_scope n s \<longleftrightarrow> ls_maxIterations s = Some n \<and>
     ls_condition s = Some (buildLoopIndexCondition n) \<and> \<not> ls_skippedAtStart s"

text \<open>The body of the loop touches the scope only through \<open>storeLoopNodeOutput\<close>.\<close>

definition keeps_scope :: "string \<Rightarrow> (world \<Rightarrow> world) \<Rightarrow> bool" where
  "keeps_scope i b \<longleftrightarrow> (\<forall>w s. getLoopScope w i = Some s \<longrightarrow>
     (\<exists>cur. getLoopScope (b w) i = Some (s\<lparr>ls_current := cur\<rparr>)))"

fun run_loop :: "exec_env \<Rightarrow> string \<Rightarrow> (world \<Rightarrow> world) list \<Rightarrow> world \<Rightarrow> nat option" where
  "run_loop env i [] w = None"
| "run_loop env i (b # bs) w =
     (let (c, w') = evaluateLoopContinuation env False i (b w)
      in if lc_shouldContinue c then map_option Suc (run_loop env i bs w') else Some 1)"

lemma keeps_scope_store: "keeps_scope i (storeLoopNodeOutput i n out)"
  by (auto simp: keeps_scope_def storeLoopNodeOutput_def getLoopScope_def)

lemma close_iteration_fields [simp]:
  "ls_iteration (close_iteration env s) = ls_iteration s" "ls_maxIterations (close_iteration env s) = ls_maxIterations s"
  "ls_condition (close_iteration env s) = ls_condition s" "ls_loopType (close_iteration env s) = ls_loopType s"
  "ls_skippedAtStart (close_iteration env s) = ls_skippedAtStart s" "ls_items (close_iteration env s) = ls_items s"
  "ls_item (close_iteration env s) = ls_item s" "ls_current (close_iteration env s) = []"
  by (simp_all add: close_iteration_def Let_def)

lemma next_iteration_fields [simp]:
  "ls_iteration (next_iteration s) = Suc (ls_iteration s)" "ls_maxIterations (next_iteration s) = ls_maxIterations s"
  "ls_condition (next_iteration s) = ls_condition s" "ls_loopType (next_iteration s) = ls_loopType s"
  "ls_skippedAtStart (next_iteration s) = ls_skippedAtStart s" "ls_items (next_iteration s) = ls_items s"
  "ls_all (next_iteration s) = ls_all s"
  by (simp_all add: next_iteration_def Let_def)

lemma exit_stops [simp]: "\<not> lc_shouldContinue (fst (createExitResult env i s w))"
  by (simp add: createExitResult_def Let_def)

text \<open>The decision at the end sentinel of a running loop.\<close>

lemma continuation_cases:
  assumes "getLoopScope w i = Some s" and "\<not> ls_skippedAtStart s"
  obtains (exit) "evaluateLoopContinuation env False i w = createExitResult env i (close_iteration env s)
      (put_loop i (close_iteration env s) w)"
    "hasReachedConfiguredIterationLimit s (Suc (ls_iteration s)) \<or>
     \<not> evaluateCondition env i (close_iteration env s) (Suc (ls_iteration s)) (put_loop i (close_iteration env s) w)"
  | (continue) c where "evaluateLoopContinuation env False i w =
      (c, put_loop i (next_iteration (close_iteration env s)) (put_loop i (close_iteration env s) w))"
    "lc_shouldContinue c" "\<not> hasReachedConfiguredIterationLimit s (Suc (ls_iteration s))"
    "evaluateCondition env i (close_iteration env s) (Suc (ls_iteration s)) (put_loop i (close_iteration env s) w)"
proof -
  have lim: "hasReachedConfiguredIterationLimit (close_iteration env s) k = hasReachedConfiguredIterationLimit s k" for k
    by (simp add: hasReachedConfiguredIterationLimit_def)
  have e: "evaluateLoopContinuation env False i w =
    (if hasReachedConfiguredIterationLimit s (Suc (ls_iteration s)) \<or>
        \<not> evaluateCondition env i (close_iteration env s) (Suc (ls_iteration s)) (put_loop i (close_iteration env s) w)
     then createExitResult env i (close_iteration env s) (put_loop i (close_iteration env s) w)
     else (\<lparr>lc_shouldContinue = True, lc_selectedRoute = LOOP_CONTINUE, lc_results = None, lc_totalIterations = None\<rparr>,
           put_loop i (next_iteration (close_iteration env s)) (put_loop i (close_iteration env s) w)))"
    using assms by (simp add: evaluateLoopContinuation_def Let_def lim)
  show thesis
  proof (cases "hasReachedConfiguredIterationLimit s (Suc (ls_iteration s)) \<or>
        \<not> evaluateCondition env i (close_iteration env s) (Suc (ls_iteration s)) (put_loop i (close_iteration env s) w)")
    case True
    show thesis by (rule exit) (use e True in \<open>simp_all only: if_True\<close>)
  next
    case False
    show thesis by (rule continue [OF trans [OF e if_not_P [OF False]]]) (use False in simp_all)
  qed
qed

lemma counted_condition:
  assumes "compares_index env" and "counted_scope n s"
  shows "evaluateCondition env i s k w \<longleftrightarrow> int k < n"
proof -
  have "buildLoopIndexCondition n \<noteq> []" by (simp add: buildLoopIndexCondition_def)
  with assms show ?thesis
    by (simp add: evaluateCondition_def evaluateWhileCondition_def counted_scope_def compares_index_def Let_def)
qed

lemma counted_step:
  assumes "compares_index env" and "getLoopScope w i = Some s" and "counted_scope n s"
    and "evaluateLoopContinuation env False i w = (c, w')"
  shows "lc_shouldContinue c \<longleftrightarrow> int (Suc (ls_iteration s)) < n"
    and "lc_shouldContinue c \<Longrightarrow> \<exists>s'. getLoopScope w' i = Some s' \<and> counted_scope n s' \<and>
      ls_iteration s' = Suc (ls_iteration s)"
proof -
  have ns: "\<not> ls_skippedAtStart s" and cs: "counted_scope n (close_iteration env s)"
    using assms(3) by (auto simp: counted_scope_def)
  have "(lc_shouldContinue c \<longleftrightarrow> int (Suc (ls_iteration s)) < n) \<and>
    (lc_shouldContinue c \<longrightarrow> (\<exists>s'. getLoopScope w' i = Some s' \<and> counted_scope n s' \<and>
      ls_iteration s' = Suc (ls_iteration s)))"
  proof (cases rule: continuation_cases [OF assms(2) ns, of env])
    case 1
    have "\<not> lc_shouldContinue c"
      using 1(1) assms(4) exit_stops [of env i] by (metis fst_conv)
    moreover have "\<not> int (Suc (ls_iteration s)) < n"
      using 1(2) counted_condition [OF assms(1) cs] assms(3)
      by (auto simp: hasReachedConfiguredIterationLimit_def counted_scope_def)
    ultimately show ?thesis by simp
  next
    case (2 c')
    then have "int (Suc (ls_iteration s)) < n"
      using counted_condition [OF assms(1) cs] by blast
    moreover have "getLoopScope w' i = Some (next_iteration (close_iteration env s))" "lc_shouldContinue c"
      using 2(1,2) assms(4) by (auto simp: getLoopScope_def)
    moreover have "counted_scope n (next_iteration (close_iteration env s))"
      using cs by (simp add: counted_scope_def)
    ultimately show ?thesis by auto
  qed
  then show "lc_shouldContinue c \<longleftrightarrow> int (Suc (ls_iteration s)) < n"
    and "lc_shouldContinue c \<Longrightarrow> \<exists>s'. getLoopScope w' i = Some s' \<and> counted_scope n s' \<and>
      ls_iteration s' = Suc (ls_iteration s)" by blast+
qed

lemma run_counted:
  assumes "compares_index env" and "getLoopScope w i = Some s" and "counted_scope n s"
    and "\<forall>b \<in> set bs. keeps_scope i b" and "length bs = Suc (nat (n - 1 - int (ls_iteration s)))"
  shows "run_loop env i (bs @ rest) w = Some (Suc (nat (n - 1 - int (ls_iteration s))))"
  using assms(2-5)
proof (induction bs arbitrary: w s)
  case (Cons b bs)
  obtain cur where s: "getLoopScope (b w) i = Some (s\<lparr>ls_current := cur\<rparr>)"
    using Cons.prems(1,3) unfolding keeps_scope_def by fastforce
  have cs: "counted_scope n (s\<lparr>ls_current := cur\<rparr>)"
    using Cons.prems(2) by (simp add: counted_scope_def)
  obtain c w' where e: "evaluateLoopContinuation env False i (b w) = (c, w')" by fastforce
  note step = counted_step [OF assms(1) s cs e]
  show ?case
  proof (cases "int (Suc (ls_iteration s)) < n")
    case True
    then have "lc_shouldContinue c" using step(1) by simp
    then obtain s' where s': "getLoopScope w' i = Some s'" "counted_scope n s'"
      "ls_iteration s' = Suc (ls_iteration s)" using step(2) by auto
    have "length bs = Suc (nat (n - 1 - int (ls_iteration s')))"
      using Cons.prems(4) True s'(3) by auto
    from Cons.IH [OF s'(1,2) _ this] Cons.prems(3)
    have "run_loop env i (bs @ rest) w' = Some (Suc (nat (n - 1 - int (ls_iteration s'))))" by simp
    with e \<open>lc_shouldContinue c\<close> s'(3) True show ?thesis by simp
  next
    case False
    then have "\<not> lc_shouldContinue c" using step(1) by simp
    with e False show ?thesis by simp
  qed
qed simp

text \<open>The iteration count a configuration asks for.\<close>

definition loop_bound :: "exec_env \<Rightarrow> world \<Rightarrow> string \<Rightarrow> sloop \<Rightarrow> int option" where
  "loop_bound env w i cfg =
     (if loop_type cfg = Some ''for'' then Some (requested_iterations cfg)
      else if loop_type cfg = Some ''forEach'' then
        (case resolveArray env w (loop_forEachItems cfg) (buildSentinelStartId i) of
           Inl e \<Rightarrow> None | Inr items \<Rightarrow> Some (int (length items)))
      else if loop_type cfg = Some ''doWhile'' \<and> falsy_str (loop_doWhileCondition cfg)
      then Some (requested_iterations cfg) else None)"

lemma counted_simps [simp]:
  "ls_iteration (counted n s) = ls_iteration s" "ls_maxIterations (counted n s) = Some n"
  "ls_condition (counted n s) = Some (buildLoopIndexCondition n)"
  "ls_skippedAtStart (counted n s) = ls_skippedAtStart s" "ls_items (counted n s) = ls_items s"
  "ls_item (counted n s) = ls_item s"
  by (simp_all add: counted_def)

lemma new_scope_simps [simp]:
  "ls_iteration new_scope = 0" "\<not> ls_skippedAtStart new_scope" "ls_items new_scope = None"
  "ls_item new_scope = None" "ls_maxIterations new_scope = None" "ls_all new_scope = []"
  by (simp_all add: new_scope_def)

lemma initialize_counted:
  assumes "initializeLoopScope env i w = (Inr s, w')" and "mget (loopConfigs (w_dag w)) i = Some cfg"
    and "loop_bound env w i cfg = Some n"
  shows "getLoopScope w' i = Some s \<and> counted_scope n s \<and> ls_iteration s = 0"
proof -
  have "loop_nodes cfg \<noteq> []" using assms(1,2) by (auto simp: initializeLoopScope_def)
  then show ?thesis
    using assms
    by (auto simp: initializeLoopScope_def Let_def getLoopScope_def counted_scope_def loop_bound_def
        split: if_splits sum.splits)
qed


definition doWhile_scope :: "int \<Rightarrow> loop_scope \<Rightarrow> bool" where
  "doWhile_scope n s \<longleftrightarrow> ls_loopType s = Some ''doWhile'' \<and> ls_maxIterations s = Some n \<and> \<not> ls_skippedAtStart s"

lemma doWhile_step:
  assumes "getLoopScope w i = Some s" and "doWhile_scope n s" and "evaluateLoopContinuation env False i w = (c, w')"
    and "lc_shouldContinue c"
  shows "int (Suc (ls_iteration s)) < n \<and>
    (\<exists>s'. getLoopScope w' i = Some s' \<and> doWhile_scope n s' \<and> ls_iteration s' = Suc (ls_iteration s))"
proof -
  have ns: "\<not> ls_skippedAtStart s" using assms(2) by (simp add: doWhile_scope_def)
  show ?thesis
  proof (cases rule: continuation_cases [OF assms(1) ns, of env])
    case 1
    with assms(3,4) exit_stops [of env i] show ?thesis by (metis fst_conv)
  next
    case (2 c')
    have "getLoopScope w' i = Some (next_iteration (close_iteration env s))"
      using 2(1) assms(3) by (auto simp: getLoopScope_def)
    with 2(3) assms(2) show ?thesis
      by (auto simp: hasReachedConfiguredIterationLimit_def doWhile_scope_def)
  qed
qed

text \<open>
  the configured bound holds whatever the condition VM answers, errors included: a
  \<open>doWhile\<close> loop without a condition of its own that is given enough rounds exits, after at
  most the configured number of iterations.
\<close>

theorem doWhile_bounded:
  assumes "getLoopScope w i = Some s" and "doWhile_scope n s"
    and "\<forall>b \<in> set bodies. keeps_scope i b" and "max 1 (nat (n - int (ls_iteration s))) \<le> length bodies"
  shows "\<exists>k. run_loop env i bodies w = Some k \<and> k \<le> max 1 (nat (n - int (ls_iteration s)))"
  using assms
proof (induction bodies arbitrary: w s)
  case (Cons b bs)
  obtain cur where s: "getLoopScope (b w) i = Some (s\<lparr>ls_current := cur\<rparr>)"
    using Cons.prems(1,3) unfolding keeps_scope_def by fastforce
  have d: "doWhile_scope n (s\<lparr>ls_current := cur\<rparr>)"
    using Cons.prems(2) by (simp add: doWhile_scope_def)
  obtain c w' where e: "evaluateLoopContinuation env False i (b w) = (c, w')" by fastforce
  show ?case
  proof (cases "lc_shouldContinue c")
    case False
    with e show ?thesis by simp
  next
    case True
    from doWhile_step [OF s d e True] obtain s' where s': "int (Suc (ls_iteration s)) < n"
      "getLoopScope w' i = Some s'" "doWhile_scope n s'" "ls_iteration s' = Suc (ls_iteration s)" by auto
    then have "\<exists>k. run_loop env i bs w' = Some k \<and> k \<le> max 1 (nat (n - int (ls_iteration s')))"
      using Cons.prems(3,4) by (intro Cons.IH) auto
    with e True s' show ?thesis by auto
  qed
qed simp

section \<open>Items and results\<close>

definition item_ok :: "loop_scope \<Rightarrow> bool" where
  "item_ok s \<longleftrightarrow> (case ls_items s of None \<Rightarrow> True
     | Some xs \<Rightarrow> ls_iteration s < length xs \<longrightarrow> ls_item s = Some (xs ! ls_iteration s))"

lemma item_ok_next: "item_ok s \<Longrightarrow> item_ok (next_iteration s)"
  by (auto simp: item_ok_def next_iteration_def Let_def split: option.split)

lemma item_ok_cong:
  "ls_items s' = ls_items s \<Longrightarrow> ls_iteration s' = ls_iteration s \<Longrightarrow> ls_item s' = ls_item s \<Longrightarrow> item_ok s' = item_ok s"
  by (simp add: item_ok_def split: option.split)

definition loop_items_ok :: "string \<Rightarrow> world \<Rightarrow> bool" where
  "loop_items_ok i w \<longleftrightarrow> (case getLoopScope w i of None \<Rightarrow> True | Some s \<Rightarrow> item_ok s)"

lemma exit_scope:
  "getLoopScope (snd (createExitResult env i s w)) i = Some (s\<lparr>ls_all := []\<rparr>)"
  by (simp add: createExitResult_def Let_def getLoopScope_def)

lemma items_continuation:
  assumes "loop_items_ok i w"
  shows "loop_items_ok i (snd (evaluateLoopContinuation env aborted i w))"
proof (cases "getLoopScope w i")
  case None
  with assms show ?thesis by (simp add: evaluateLoopContinuation_def)
next
  case (Some s)
  with assms have s: "item_ok s" by (simp add: loop_items_ok_def)
  have out: "loop_items_ok i (snd (createExitResult env i s' w'))"
    if "ls_items s' = ls_items s" "ls_iteration s' = ls_iteration s" "ls_item s' = ls_item s" for s' w'
    using s that exit_scope [of env i s' w'] by (auto simp: loop_items_ok_def item_ok_def split: option.splits)
  have go: "item_ok (next_iteration (close_iteration env s))"
    by (rule item_ok_next) (use s in \<open>auto simp: item_ok_def split: option.splits\<close>)
  show ?thesis
  proof (cases "aborted \<or> ls_skippedAtStart s")
    case True
    with Some show ?thesis
      by (auto simp: evaluateLoopContinuation_def intro!: out)
  next
    case False
    then have ns: "\<not> ls_skippedAtStart s" and na: "\<not> aborted" by simp_all
    show ?thesis
    proof (cases rule: continuation_cases [OF Some ns, of env])
      case 1
      with na show ?thesis by (simp add: out)
    next
      case (2 c)
      with na go show ?thesis by (simp add: loop_items_ok_def getLoopScope_def)
    qed
  qed
qed

lemma items_initialize:
  "initializeLoopScope env i w = (r, w') \<Longrightarrow> loop_items_ok i w \<Longrightarrow> loop_items_ok i w'"
  by (auto simp: initializeLoopScope_def loop_items_ok_def getLoopScope_def forEach_error_def Let_def item_ok_def
      split: option.splits sum.splits if_splits list.splits)

lemma items_initial: "loop_items_ok i w \<Longrightarrow> loop_items_ok i (snd (evaluateInitialCondition env i w))"
  by (auto simp: evaluateInitialCondition_def loop_items_ok_def skip_loop_def getLoopScope_def item_ok_def
      split: option.splits)

lemma items_store: "loop_items_ok i w \<Longrightarrow> loop_items_ok i (storeLoopNodeOutput j n out w)"
  by (auto simp: storeLoopNodeOutput_def loop_items_ok_def getLoopScope_def item_ok_def split: option.splits)

text \<open>
  an iteration of a forEach loop sees its own item: whenever the loop has an iteration
  left, the current item is the element of the collection at the iteration index. Every
  operation on the scope keeps this, failed initialisations, skipped and aborted loops
  included.
\<close>

theorem loop_item_invariant:
  assumes "loop_items_ok i w"
  shows "loop_items_ok i (snd (initializeLoopScope env i w)) \<and>
    loop_items_ok i (snd (evaluateInitialCondition env i w)) \<and>
    loop_items_ok i (snd (evaluateLoopContinuation env aborted i w)) \<and>
    loop_items_ok i (storeLoopNodeOutput j n out w)"
  using items_initialize [of env i w] assms
  by (simp add: items_continuation items_initial items_store) (metis prod.collapse)

text \<open>
  what a finished loop leaves behind. When the end sentinel decides to exit (normally,
  after a skip, or because the run is aborted), the collected results are stored as the
  output of the loop itself, so later blocks read them under the loop's id; the reported
  number of iterations is their number, and the scope is emptied.
\<close>

theorem loop_exit_stores_results:
  assumes "getLoopScope w i = Some s" and "evaluateLoopContinuation env aborted i w = (c, w')"
    and "\<not> lc_shouldContinue c"
  shows "lc_selectedRoute c = LOOP_EXIT \<and>
    (\<exists>rs s'. lc_results c = Some rs \<and> lc_totalIterations c = Some (length rs) \<and>
       getBlockOutput (w_state w') i None = Some [(''results'', JArr rs)] \<and>
       getLoopScope w' i = Some s' \<and> ls_all s' = [] \<and> \<not> (aborted = False \<and> ls_skippedAtStart s'))"
proof -
  have out: "getBlockOutput (setBlockOutput False i x 0 None st) i None = Some x" for x and st :: "unit execution_state"
    by (rule setBlockOutput_as_state [of False i x 0 None st])
      (simp add: getBlockOutput_def getBlockState_def unscoped_state_def)
  have fin: "lc_selectedRoute c' = LOOP_EXIT \<and>
    (\<exists>rs s'. lc_results c' = Some rs \<and> lc_totalIterations c' = Some (length rs) \<and>
       getBlockOutput (w_state v') i None = Some [(''results'', JArr rs)] \<and>
       getLoopScope v' i = Some s' \<and> ls_all s' = [] \<and> ls_skippedAtStart s' = ls_skippedAtStart s1)"
    if "createExitResult env i s1 v = (c', v')" for s1 v c' v'
    using that by (auto simp: createExitResult_def Let_def getLoopScope_def out)
  show ?thesis
  proof (cases "aborted \<or> ls_skippedAtStart s")
    case True
    with assms(1,2) fin show ?thesis
      by (auto simp: evaluateLoopContinuation_def split: if_splits) fastforce+
  next
    case False
    then have ns: "\<not> ls_skippedAtStart s" and na: "\<not> aborted" by simp_all
    show ?thesis
    proof (cases rule: continuation_cases [OF assms(1) ns, of env])
      case 1
      with na assms(2) have "createExitResult env i (close_iteration env s) (put_loop i (close_iteration env s) w) = (c, w')"
        by simp
      from fin [OF this] ns show ?thesis by auto
    next
      case (2 c')
      with na assms(2,3) show ?thesis by simp
    qed
  qed
qed

text \<open>
  a \<open>for\<close> loop is never skipped at its start sentinel: the initialisation replaces a
  count of 0 by the default, so the test for 0 iterations there cannot succeed.
\<close>

theorem for_loop_never_skipped:
  assumes "mget (loopConfigs (w_dag w)) i = Some cfg" and "loop_type cfg = Some ''for''"
    and "initializeLoopScope env i w = (Inr s, w')"
  shows "fst (evaluateInitialCondition env i w') = True \<and> ls_maxIterations s \<noteq> Some 0"
  using assms
  by (auto simp: initializeLoopScope_def evaluateInitialCondition_def getLoopScope_def Let_def
      requested_iterations_def DEFAULT_LOOP_ITERATIONS_def split: if_splits)

section \<open>The reset between iterations\<close>

text \<open>A rank for the nesting: it decreases from a container to the containers it lists.\<close>

definition ranked :: "dag \<Rightarrow> (string \<Rightarrow> nat) \<Rightarrow> bool" where
  "ranked d rk \<longleftrightarrow>
     list_all (\<lambda>(i, cfg). list_all (\<lambda>n. mhas (loopConfigs d) n \<or> mhas (parallelConfigs d) n \<longrightarrow> rk n < rk i)
                            (loop_nodes cfg)) (loopConfigs d) \<and>
     list_all (\<lambda>(i, cfg). list_all (\<lambda>n. mhas (loopConfigs d) n \<or> mhas (parallelConfigs d) n \<longrightarrow> rk n < rk i)
                            (par_nodes cfg)) (parallelConfigs d)"

lemma rankedD:
  assumes "ranked d rk" and "mhas (loopConfigs d) n \<or> mhas (parallelConfigs d) n"
  shows "mget (loopConfigs d) i = Some cfg \<Longrightarrow> n \<in> set (loop_nodes cfg) \<Longrightarrow> rk n < rk i"
    and "mget (parallelConfigs d) i = Some pcfg \<Longrightarrow> n \<in> set (par_nodes pcfg) \<Longrightarrow> rk n < rk i"
  using assms by (auto simp: ranked_def list_all_iff dest!: mget_in_set)

lemma fold_opt_total: "(\<And>x y. x \<in> set xs \<Longrightarrow> f x y \<noteq> None) \<Longrightarrow> fold_opt f xs y \<noteq> None"
  by (induction xs arbitrary: y) (auto split: option.split)

lemma fold_opt_keeps:
  "fold_opt f xs y = Some y' \<Longrightarrow> P y \<Longrightarrow> (\<And>x y y'. x \<in> set xs \<Longrightarrow> f x y = Some y' \<Longrightarrow> P y \<Longrightarrow> P y') \<Longrightarrow> P y'"
proof (induction xs arbitrary: y)
  case (Cons x xs)
  from Cons.prems(1) obtain z where z: "f x y = Some z" "fold_opt f xs z = Some y'"
    by (auto split: option.splits)
  have "P z" using Cons.prems(2,3) z(1) by auto
  with Cons.IH [OF z(2)] Cons.prems(3) show ?case by auto
qed simp

lemma loops_reset_total:
  assumes "ranked d rk"
  shows "rk i < k \<Longrightarrow> resetNestedLoopScopes k d i w \<noteq> None"
proof (induction k arbitrary: i w)
  case (Suc k)
  show ?case
  proof (cases "mget (loopConfigs d) i")
    case (Some cfg)
    have "fold_opt (\<lambda>n w. if mhas (loopConfigs d) n then resetNestedLoopScopes k d n (drop_loop_scopes n w) else Some w)
        (loop_nodes cfg) w \<noteq> None"
    proof (rule fold_opt_total)
      fix n w assume n: "n \<in> set (loop_nodes cfg)"
      show "(if mhas (loopConfigs d) n then resetNestedLoopScopes k d n (drop_loop_scopes n w) else Some w) \<noteq> None"
        using Suc.IH [of n] rankedD(1) [OF assms _ Some n] Suc.prems by auto
    qed
    with Some show ?thesis by simp
  qed simp
qed simp

lemma parallels_reset_total:
  assumes "ranked d rk"
  shows "rk i < k \<Longrightarrow> resetNestedParallelScopes k d i w \<noteq> None \<and> deleteParallelScopeAndClones k d i w \<noteq> None"
proof (induction k arbitrary: i w)
  case (Suc k)
  have r: "resetNestedParallelScopes (Suc k) d i w \<noteq> None"
  proof (cases "mget (loopConfigs d) i")
    case (Some cfg)
    have "fold_opt (\<lambda>n w. if mhas (parallelConfigs d) n then deleteParallelScopeAndClones k d n w
        else if mhas (loopConfigs d) n then resetNestedParallelScopes k d n w else Some w) (loop_nodes cfg) w \<noteq> None"
    proof (rule fold_opt_total)
      fix n w assume n: "n \<in> set (loop_nodes cfg)"
      show "(if mhas (parallelConfigs d) n then deleteParallelScopeAndClones k d n w
        else if mhas (loopConfigs d) n then resetNestedParallelScopes k d n w else Some w) \<noteq> None"
        using Suc.IH [of n] rankedD(1) [OF assms _ Some n] Suc.prems by auto
    qed
    with Some show ?thesis by simp
  qed simp
  have "deleteParallelScopeAndClones (Suc k) d i w \<noteq> None"
  proof (cases "mget (parallelConfigs d) i")
    case (Some cfg)
    have "fold_opt (\<lambda>n w. if mhas (parallelConfigs d) n then deleteParallelScopeAndClones k d n w
        else if mhas (loopConfigs d) n then resetNestedParallelScopes k d n (drop_loop_scopes n w) else Some w)
        (par_nodes cfg) v \<noteq> None" for v
    proof (rule fold_opt_total)
      fix n w assume n: "n \<in> set (par_nodes cfg)"
      show "(if mhas (parallelConfigs d) n then deleteParallelScopeAndClones k d n w
        else if mhas (loopConfigs d) n then resetNestedParallelScopes k d n (drop_loop_scopes n w) else Some w) \<noteq> None"
        using Suc.IH [of n] rankedD(2) [OF assms _ Some n] Suc.prems by auto
    qed
    with Some show ?thesis by (simp add: Let_def)
  qed (simp add: Let_def)
  with r show ?case by blast
qed simp

definition forgotten :: "string \<Rightarrow> world \<Rightarrow> bool" where
  "forgotten n w \<longleftrightarrow> list_all (\<lambda>k. k \<noteq> n \<and> \<not> clone_of n k) (mkeys (w_loops w))"

definition only_drops :: "world \<Rightarrow> world \<Rightarrow> bool" where
  "only_drops w w' \<longleftrightarrow> set (mkeys (w_loops w')) \<subseteq> set (mkeys (w_loops w)) \<and>
     set (mkeys (w_parallels w')) \<subseteq> set (mkeys (w_parallels w)) \<and>
     w_state w' = w_state w \<and> w_em w' = w_em w"

lemma only_drops_refl [simp]: "only_drops w w"
  by (simp add: only_drops_def)

lemma only_drops_trans: "only_drops u v \<Longrightarrow> only_drops v w \<Longrightarrow> only_drops u w"
  by (auto simp: only_drops_def)

lemma mkeys_filter: "mkeys (filter (\<lambda>(k, _). P k) m) = filter P (mkeys m)"
  by (induction m) (auto simp: mkeys_def)

lemma only_drops_loop [simp]: "only_drops w (drop_loop_scopes n w)"
  by (auto simp: only_drops_def drop_loop_scopes_def Let_def mkeys_filter simp del: set_mkeys)

lemma only_drops_parallel [simp]: "only_drops w (drop_parallel_scopes n w)"
  by (auto simp: only_drops_def drop_parallel_scopes_def Let_def mkeys_filter simp del: set_mkeys)

lemma only_drops_after: "only_drops (drop_loop_scopes n w) w' \<Longrightarrow> only_drops w w'"
  by (rule only_drops_trans [OF only_drops_loop])

lemma forgotten_drop: "forgotten n (drop_loop_scopes n w)"
  by (simp add: forgotten_def drop_loop_scopes_def Let_def mkeys_filter list_all_iff)

lemma forgotten_mono: "only_drops w w' \<Longrightarrow> forgotten n w \<Longrightarrow> forgotten n w'"
  by (auto simp: only_drops_def forgotten_def list_all_iff simp del: set_mkeys)

lemma fold_opt_drops:
  assumes "fold_opt f xs w = Some w'" and "\<And>x u v. f x u = Some v \<Longrightarrow> only_drops u v"
  shows "only_drops w w'"
  by (rule fold_opt_keeps [where P = "only_drops w", OF assms(1)]) (auto intro: only_drops_trans assms(2))

lemma loops_reset_drops: "resetNestedLoopScopes k d i w = Some w' \<Longrightarrow> only_drops w w'"
proof (induction k arbitrary: i w w')
  case (Suc k)
  show ?case
  proof (cases "mget (loopConfigs d) i")
    case (Some cfg)
    with Suc.prems have f: "fold_opt (\<lambda>n w. if mhas (loopConfigs d) n then resetNestedLoopScopes k d n (drop_loop_scopes n w) else Some w)
        (loop_nodes cfg) w = Some w'" by simp
    show ?thesis
      by (rule fold_opt_drops [OF f]) (use Suc.IH in \<open>auto split: if_splits intro: only_drops_after\<close>)
  qed (use Suc.prems in simp)
qed simp

lemma parallels_reset_drops:
  "(resetNestedParallelScopes k d i w = Some w' \<longrightarrow> only_drops w w') \<and>
   (deleteParallelScopeAndClones k d i w = Some w' \<longrightarrow> only_drops w w')"
proof (induction k arbitrary: i w w')
  case (Suc k)
  have r: "only_drops w w'" if a: "resetNestedParallelScopes (Suc k) d i w = Some w'"
  proof (cases "mget (loopConfigs d) i")
    case (Some cfg)
    with a have f: "fold_opt (\<lambda>n w. if mhas (parallelConfigs d) n then deleteParallelScopeAndClones k d n w
        else if mhas (loopConfigs d) n then resetNestedParallelScopes k d n w else Some w) (loop_nodes cfg) w = Some w'"
      by simp
    show ?thesis
      by (rule fold_opt_drops [OF f]) (use Suc.IH in \<open>auto split: if_splits\<close>)
  qed (use a in simp)
  have "only_drops w w'" if a: "deleteParallelScopeAndClones (Suc k) d i w = Some w'"
  proof (cases "mget (parallelConfigs d) i")
    case (Some cfg)
    with a have f: "fold_opt (\<lambda>n w. if mhas (parallelConfigs d) n then deleteParallelScopeAndClones k d n w
        else if mhas (loopConfigs d) n then resetNestedParallelScopes k d n (drop_loop_scopes n w) else Some w)
        (par_nodes cfg) (drop_parallel_scopes i w) = Some w'"
      by (simp add: Let_def)
    have "only_drops (drop_parallel_scopes i w) w'"
      by (rule fold_opt_drops [OF f]) (use Suc.IH in \<open>auto split: if_splits intro: only_drops_after\<close>)
    with only_drops_parallel only_drops_trans show ?thesis by blast
  qed (use a in \<open>auto simp: Let_def\<close>)
  with r show ?case by blast
qed simp

lemma fold_opt_hits:
  assumes "fold_opt f xs w = Some w'" and "\<And>x u v. f x u = Some v \<Longrightarrow> only_drops u v"
    and "n \<in> set xs" and "\<And>u v. f n u = Some v \<Longrightarrow> forgotten n v"
  shows "forgotten n w'"
  using assms(1,3)
proof (induction xs arbitrary: w)
  case (Cons x xs)
  from Cons.prems(1) obtain z where z: "f x w = Some z" "fold_opt f xs z = Some w'"
    by (auto split: option.splits)
  show ?case
  proof (cases "n \<in> set xs")
    case True
    with Cons.IH z(2) show ?thesis by blast
  next
    case False
    with Cons.prems(2) z(1) assms(4) have "forgotten n z" by auto
    have "only_drops z w'" by (rule fold_opt_drops [OF z(2)]) (rule assms(2))
    then show ?thesis by (rule forgotten_mono) fact
  qed
qed simp

text \<open>
  the reset between two iterations returns when the containers are nested without a
  cycle, with a stack depth above the rank of the loop; it unmarks exactly the nodes of the
  loop, forgets the scope (and the clones) of every loop listed in it, so that it starts
  again from its first iteration, and touches neither the DAG nor a stored output.
\<close>

theorem clearLoopExecutionState_resets:
  assumes "ranked (w_dag w) rk" and "rk i < k"
  shows "\<exists>w'. clearLoopExecutionState k i w = (Inr (), w') \<and> w_em w' = w_em w \<and>
    blockStates (w_state w') = blockStates (w_state w) \<and>
    set (executedBlocks (w_state w')) = set (executedBlocks (w_state w)) - set (collectAllLoopNodeIds (w_dag w) i) \<and>
    (\<forall>cfg n. mget (loopConfigs (w_dag w)) i = Some cfg \<longrightarrow> n \<in> set (loop_nodes cfg) \<longrightarrow>
       mhas (loopConfigs (w_dag w)) n \<longrightarrow> forgotten n w')"
proof -
  let ?d = "w_dag w"
  let ?w1 = "upd_state (fold unmarkExecuted (collectAllLoopNodeIds ?d i)) w"
  obtain w2 where w2: "resetNestedLoopScopes k ?d i ?w1 = Some w2"
    using loops_reset_total [OF assms] by blast
  obtain w3 where w3: "resetNestedParallelScopes k ?d i w2 = Some w3"
    using parallels_reset_total [OF assms] by blast
  have drops: "only_drops ?w1 w2" "only_drops w2 w3"
    using loops_reset_drops [OF w2] parallels_reset_drops [of k ?d i w2 w3] w3 by auto
  have run: "clearLoopExecutionState k i w = (Inr (), w3)"
    by (simp add: clearLoopExecutionState_def Let_def w2 w3)
  have un: "blockStates (fold unmarkExecuted xs st) = blockStates st"
    "set (executedBlocks (fold unmarkExecuted xs st)) = set (executedBlocks st) - set xs"
    for xs and st :: "unit execution_state"
    by (induction xs arbitrary: st) auto
  have "forgotten n w3" if cfg: "mget (loopConfigs ?d) i = Some cfg" "n \<in> set (loop_nodes cfg)" "mhas (loopConfigs ?d) n" for cfg n
  proof -
    obtain k' where k': "k = Suc k'" using assms(2) by (cases k) auto
    have f: "fold_opt (\<lambda>n w. if mhas (loopConfigs ?d) n then resetNestedLoopScopes k' ?d n (drop_loop_scopes n w) else Some w)
        (loop_nodes cfg) ?w1 = Some w2"
      using w2 cfg(1) by (simp add: k')
    have "forgotten n w2"
    proof (rule fold_opt_hits [OF f _ cfg(2)])
      fix x u v
      assume "(if mhas (loopConfigs ?d) x then resetNestedLoopScopes k' ?d x (drop_loop_scopes x u) else Some u) = Some v"
      then show "only_drops u v"
        using loops_reset_drops [of k' ?d x "drop_loop_scopes x u" v]
        by (auto split: if_splits intro: only_drops_after)
    next
      fix u v
      assume "(if mhas (loopConfigs ?d) n then resetNestedLoopScopes k' ?d n (drop_loop_scopes n u) else Some u) = Some v"
      then show "forgotten n v"
        using loops_reset_drops [of k' ?d n "drop_loop_scopes n u" v] forgotten_mono forgotten_drop cfg(3) by auto
    qed
    with drops(2) forgotten_mono show ?thesis by blast
  qed
  then show ?thesis
    using run drops by (auto simp: only_drops_def un)
qed

section \<open>A concrete loop\<close>

definition parse_int :: "string \<Rightarrow> int" where
  "parse_int s = (if starts_with s ''-'' then - int (parse_nat (tl s)) else int (parse_nat s))"

lemma parse_show_int: "parse_int (show_int n) = n"
proof (cases "n < 0")
  case True
  then show ?thesis by (simp add: parse_int_def show_int_def starts_with_def)
next
  case False
  have "\<not> starts_with (show_nat (nat n)) ''-''"
    using show_nat_no_minus by (auto simp: starts_with_def prefix_def)
  with False show ?thesis by (simp add: parse_int_def show_int_def)
qed

text \<open>An environment with plain storage, literal collections and a VM that understands index
  conditions only.\<close>

definition index_prefix :: string where
  "index_prefix = ''<loop.index> < ''"

definition demo_env :: exec_env where
  "demo_env = \<lparr>storeEntry = (\<lambda>v. v), fitsThreshold = (\<lambda>_. True), forceStore = (\<lambda>v. v),
     resolveArray = (\<lambda>w v n. case v of JArr vs \<Rightarrow> Inr vs | _ \<Rightarrow> Inl ''not an array''),
     conditionVM = (\<lambda>w c s. if starts_with c index_prefix
                            then Some (int (ls_iteration s) < parse_int (drop (length index_prefix) c)) else None),
     sha256Hex = (\<lambda>s. s)\<rparr>"

lemma demo_env_compares: "compares_index demo_env"
proof -
  have "buildLoopIndexCondition n = index_prefix @ show_int n" for n
    by (simp add: buildLoopIndexCondition_def index_prefix_def)
  then show ?thesis
    by (simp add: compares_index_def demo_env_def parse_show_int starts_with_def)
qed

definition body_dag :: dag where
  "body_dag = \<lparr>dag_nodes = [
      demo_node ''loop-L-sentinel-start'' [] [(''a'', ''source'')] (loop_meta (Some SentinelStart)),
      demo_node ''a'' [] [(''b'', ''source'')] (loop_meta None),
      demo_node ''b'' [] [(''loop-L-sentinel-end'', ''source'')] (loop_meta None),
      demo_node ''loop-L-sentinel-end'' [] [(''loop-L-sentinel-start'', ''loop_continue''), (''z'', ''loop_exit'')]
        (loop_meta (Some SentinelEnd)),
      demo_node ''z'' [] [] no_meta],
     loopConfigs = [(''L'', demo_loop [''a'', ''b'', ''M'']), (''M'', demo_loop [''c''])], parallelConfigs = []\<rparr>"

definition body_em :: edge_manager where
  "body_em = \<lparr>em_dag = body_dag, deactivatedEdges = [EdgeKey ''a'' ''b'' ''source''], nodesWithActivatedEdge = []\<rparr>"

definition body_world :: world where
  "body_world = \<lparr>w_em = body_em, w_state = \<lparr>blockStates = [], executedBlocks = [''a'', ''x'']\<rparr>,
     w_loops = [(''M'', new_scope), (''M__obranch-1'', new_scope)], w_parallels = [], w_parents = [],
     w_mapping = [], w_dirty = None\<rparr>"

lemma body_em_wf: "em_wf body_em"
proof -
  have "wf_dag body_dag" by (rule wf_dag_check; code_simp)
  then show ?thesis by (simp add: em_wf_def body_em_def)
qed

lemma body_facts:
  "mhas (loopConfigs body_dag) ''L'' \<and> disjoint_configs body_dag \<and>
   collectAllLoopNodeIds body_dag ''L'' = [''loop-L-sentinel-start'', ''loop-L-sentinel-end'', ''a'', ''b'',
     ''loop-M-sentinel-start'', ''loop-M-sentinel-end'', ''c''] \<and>
   restorable body_dag ''a'' ''b'' \<and>
   ranked body_dag (\<lambda>i. if i = ''L'' then 1 else 0) \<and>
   mget (loopConfigs body_dag) ''L'' = Some (demo_loop [''a'', ''b'', ''M''])"
  by code_simp

lemma body_world_dag [simp]: "w_dag body_world = body_dag" "em_dag body_em = body_dag"
  by (simp_all add: w_dag_def body_world_def body_em_def)

theorem restoreLoopEdges_correct_witness:
  "\<exists>m'. dnode (em_dag (restoreLoopEdges ''L'' body_em)) ''b'' = Some m' \<and> ''a'' \<in> set (incomingEdges m')"
proof -
  obtain m where m: "dnode (em_dag body_em) ''b'' = Some m"
    by (auto simp: body_dag_def demo_node_def dnode_def)
  have "mhas (loopConfigs (em_dag body_em)) ''L''" using body_facts by simp
  from restoreLoopEdges_correct [OF body_em_wf this m] show ?thesis
    using body_facts by auto
qed

theorem collectAllLoopNodeIds_correct_witness:
  "\<exists>t. (nested_task body_dag)\<^sup>*\<^sup>* (LoopTask ''L'') t \<and> ''c'' \<in> set (own_ids body_dag t)"
proof -
  have "set (collectAllLoopNodeIds body_dag ''L'') =
    {x. \<exists>t. (nested_task body_dag)\<^sup>*\<^sup>* (LoopTask ''L'') t \<and> x \<in> set (own_ids body_dag t)}"
    by (rule collectAllLoopNodeIds_correct) (use body_facts in blast)+
  moreover have "''c'' \<in> set (collectAllLoopNodeIds body_dag ''L'')"
    using body_facts by simp
  ultimately show ?thesis by blast
qed

definition demo_body :: "world \<Rightarrow> world" where
  "demo_body = storeLoopNodeOutput ''L'' ''a'' [(''v'', JNum 7)]"

lemma demo_start:
  "initializeLoopScope demo_env ''L'' body_world =
     (Inr ((counted 3 new_scope)\<lparr>ls_loopType := Some ''for''\<rparr>),
      put_loop ''L'' ((counted 3 new_scope)\<lparr>ls_loopType := Some ''for''\<rparr>) body_world)"
  using body_facts by (simp add: initializeLoopScope_def demo_loop_def requested_iterations_def Let_def)


theorem doWhile_bounded_witness:
  "\<exists>k. run_loop demo_env ''L'' [demo_body, demo_body]
     (put_loop ''L'' ((counted 2 new_scope)\<lparr>ls_loopType := Some ''doWhile''\<rparr>) body_world) = Some k \<and> k \<le> 2"
  using doWhile_bounded [of "put_loop ''L'' ((counted 2 new_scope)\<lparr>ls_loopType := Some ''doWhile''\<rparr>) body_world" "''L''"
      "(counted 2 new_scope)\<lparr>ls_loopType := Some ''doWhile''\<rparr>" 2 "[demo_body, demo_body]" demo_env]
  by (simp add: getLoopScope_def doWhile_scope_def demo_body_def keeps_scope_store numeral_2_eq_2
      del: run_loop.simps)

theorem loop_item_invariant_witness:
  "loop_items_ok ''M'' (snd (evaluateLoopContinuation demo_env False ''M'' body_world))"
proof -
  have "loop_items_ok ''M'' body_world"
    by (simp add: loop_items_ok_def getLoopScope_def body_world_def item_ok_def)
  from loop_item_invariant [OF this] show ?thesis by blast
qed

theorem loop_exit_stores_results_witness:
  "\<exists>rs. getBlockOutput (w_state (snd (evaluateLoopContinuation demo_env False ''M'' body_world))) ''M'' None =
     Some [(''results'', JArr rs)]"
proof -
  obtain c w' where e: "evaluateLoopContinuation demo_env False ''M'' body_world = (c, w')" by fastforce
  have s: "getLoopScope body_world ''M'' = Some new_scope"
    by (simp add: getLoopScope_def body_world_def)
  have "\<not> lc_shouldContinue (fst (evaluateLoopContinuation demo_env False ''M'' body_world))"
    by (simp add: evaluateLoopContinuation_def s Let_def evaluateCondition_def) (simp add: new_scope_def close_iteration_def)
  with loop_exit_stores_results [OF s e] e show ?thesis by auto
qed

theorem for_loop_never_skipped_witness:
  "fst (evaluateInitialCondition demo_env ''L''
     (put_loop ''L'' ((counted 3 new_scope)\<lparr>ls_loopType := Some ''for''\<rparr>) body_world)) = True"
  using for_loop_never_skipped [OF _ _ demo_start, of "demo_loop [''a'', ''b'', ''M'']"] body_facts
  by (simp add: demo_loop_def)

theorem clearLoopExecutionState_resets_witness:
  "\<exists>w'. clearLoopExecutionState 2 ''L'' body_world = (Inr (), w') \<and> forgotten ''M'' w' \<and>
     set (executedBlocks (w_state w')) = {''x''}"
proof -
  have "mhas (loopConfigs body_dag) ''M''" by code_simp
  moreover have "executedBlocks (w_state body_world) = [''a'', ''x'']" by (simp add: body_world_def)
  ultimately show ?thesis
    using clearLoopExecutionState_resets [of body_world "\<lambda>i. if i = ''L'' then 1 else 0" "''L''" 2] body_facts
    by (auto simp: demo_loop_def)
qed

end
