(* ===== verification/Expansion.thy ===== *)
theory Expansion
  imports LoopProps
begin

text \<open>
  \<open>ParallelExpander\<close> (\<open>executor/utils/parallel-expansion.ts\<close>): the expansion of a parallel
  container for a batch of branches. Regular blocks get one node per branch, cloned from
  the template node; nested loops and parallels are cloned as whole graphs for every outer
  branch except branch 0. The items of the distribution, which only the variable resolver
  reads, are not part of the node metadata of the model. SHA-256 is the argument \<open>sha\<close>;
  the recursion over nested containers has its stack depth as an argument, as in the loop
  orchestrator.
\<close>

record cloned_info =
  ci_clonedId :: string
  ci_originalId :: string
  ci_outerBranchIndex :: nat

record expansion =
  ex_entryNodes :: "string list"
  ex_terminalNodes :: "string list"
  ex_allBranchNodes :: "string list"
  ex_clonedSubflows :: "cloned_info list"

section \<open>Branch nodes of regular blocks\<close>

definition updateBranchMetadata :: "nat \<Rightarrow> nat \<Rightarrow> dag_node \<Rightarrow> dag_node" where
  "updateBranchMetadata branchIndex branchTotal n =
     n\<lparr>metadata := (metadata n)\<lparr>m_branchIndex := Some branchIndex, m_branchTotal := Some branchTotal\<rparr>\<rparr>"

definition cloneTemplateNode :: "dag_node \<Rightarrow> string \<Rightarrow> nat \<Rightarrow> nat \<Rightarrow> nat \<Rightarrow> dag_node" where
  "cloneTemplateNode template originalBlockId localBranchIndex branchIndex branchTotal =
     \<lparr>node_id = buildBranchNodeId originalBlockId localBranchIndex,
      node_block = (node_block template)\<lparr>blk_id := buildBranchNodeId originalBlockId localBranchIndex\<rparr>,
      incomingEdges = [], outgoingEdges = [],
      metadata = (metadata template)\<lparr>m_branchIndex := Some branchIndex, m_branchTotal := Some branchTotal,
                   m_originalBlockId := Some originalBlockId\<rparr>\<rparr>"

definition place_branch :: "dag_node \<Rightarrow> string \<Rightarrow> nat \<Rightarrow> nat \<Rightarrow> nat \<Rightarrow> dag \<Rightarrow> dag" where
  "place_branch template blockId offset branchTotal i d =
     (if i = 0 then upd_node (buildBranchNodeId blockId 0) (updateBranchMetadata offset branchTotal) d
      else put_node (cloneTemplateNode template blockId i (offset + i) branchTotal) d)"

definition expand_block :: "nat \<Rightarrow> nat \<Rightarrow> nat \<Rightarrow> string \<Rightarrow> dag \<times> string list \<Rightarrow> dag \<times> string list" where
  "expand_block branchCount offset branchTotal blockId = (\<lambda>(d, allNodes).
     case dnode d (buildBranchNodeId blockId 0) of
       None \<Rightarrow> (d, allNodes)
     | Some template \<Rightarrow>
         (fold (place_branch template blockId offset branchTotal) [0..<branchCount] d,
          allNodes @ map (buildBranchNodeId blockId) [0..<branchCount]))"

section \<open>Boundaries\<close>

definition resolveOriginalChildBoundaryId :: "dag \<Rightarrow> string \<Rightarrow> sentinel \<Rightarrow> string" where
  "resolveOriginalChildBoundaryId d blockId side =
     (if mhas (parallelConfigs d) blockId then
        (case side of SentinelStart \<Rightarrow> buildParallelSentinelStartId blockId
                    | SentinelEnd \<Rightarrow> buildParallelSentinelEndId blockId)
      else if mhas (loopConfigs d) blockId then
        (case side of SentinelStart \<Rightarrow> buildSentinelStartId blockId | SentinelEnd \<Rightarrow> buildSentinelEndId blockId)
      else buildBranchNodeId blockId 0)"

definition resolveBranchChildBoundaryId :: "dag \<Rightarrow> string \<Rightarrow> nat \<Rightarrow> nat \<Rightarrow> sentinel \<Rightarrow> string" where
  "resolveBranchChildBoundaryId d blockId localBranchIndex globalBranchIndex side =
     (if \<not> mhas (parallelConfigs d) blockId \<and> \<not> mhas (loopConfigs d) blockId
      then buildBranchNodeId blockId localBranchIndex
      else let effective = (if globalBranchIndex = 0 then blockId
                            else buildOuterBranchScopedId blockId globalBranchIndex)
           in if mhas (parallelConfigs d) blockId then
                (case side of SentinelStart \<Rightarrow> buildParallelSentinelStartId effective
                            | SentinelEnd \<Rightarrow> buildParallelSentinelEndId effective)
              else (case side of SentinelStart \<Rightarrow> buildSentinelStartId effective
                               | SentinelEnd \<Rightarrow> buildSentinelEndId effective))"

section \<open>Internal edges\<close>

record topology_edge =
  te_source :: string
  te_target :: string
  te_sourceHandle :: "string option"
  te_targetHandle :: "string option"

definition topology_target :: "string list \<Rightarrow> string \<Rightarrow> string option" where
  "topology_target blocks target =
     (let boundary = extractBaseBlockId (normalizeNodeId target);
          b = (if boundary \<in> set blocks then boundary else stripOuterBranchSuffix boundary)
      in if b \<in> set blocks then Some b else None)"

definition topology_of_edge :: "string list \<Rightarrow> string \<Rightarrow> dag_edge \<Rightarrow> topology_edge list" where
  "topology_of_edge blocks blockId e =
     (if isControlBackEdge (edge_sourceHandle e) then []
      else case topology_target blocks (edge_target e) of
             None \<Rightarrow> []
           | Some b \<Rightarrow> [\<lparr>te_source = blockId, te_target = b, te_sourceHandle = edge_sourceHandle e,
                         te_targetHandle = edge_targetHandle e\<rparr>])"

definition collectInternalEdgeTopology :: "dag \<Rightarrow> string list \<Rightarrow> topology_edge list" where
  "collectInternalEdgeTopology d blocks =
     concat (map (\<lambda>b. case dnode d (resolveOriginalChildBoundaryId d b SentinelEnd) of
                        None \<Rightarrow> []
                      | Some n \<Rightarrow> concat (map (topology_of_edge blocks b) (out_edges n))) blocks)"

definition stale_edge :: "string list \<Rightarrow> dag_edge \<Rightarrow> bool" where
  "stale_edge blocks e \<longleftrightarrow> stripOuterBranchSuffix (normalizeNodeId (edge_target e)) \<in> set blocks"

definition clearStaleInternalEdges :: "string \<Rightarrow> string list \<Rightarrow> dag \<Rightarrow> dag" where
  "clearStaleInternalEdges s blocks d =
     (case dnode d s of
        None \<Rightarrow> d
      | Some n \<Rightarrow>
          fold (\<lambda>(k, e). if stale_edge blocks e
                  then upd_node (edge_target e) (\<lambda>m. m\<lparr>incomingEdges := sdel s (incomingEdges m)\<rparr>) \<circ>
                       upd_node s (\<lambda>m. m\<lparr>outgoingEdges := mdel k (outgoingEdges m)\<rparr>)
                  else id)
            (outgoingEdges n) d)"

text \<open>\<open>set_edge\<close> is the pair of statements that stores an edge and registers its source.\<close>

definition set_edge :: "string \<Rightarrow> string \<Rightarrow> string option \<Rightarrow> string option \<Rightarrow> dag \<Rightarrow> dag" where
  "set_edge s t sh th d =
     upd_node t (\<lambda>m. m\<lparr>incomingEdges := sadd s (incomingEdges m)\<rparr>)
       (upd_node s (\<lambda>m. m\<lparr>outgoingEdges := mput (edge_id s t sh)
           \<lparr>edge_target = t, edge_sourceHandle = sh, edge_targetHandle = th\<rparr> (outgoingEdges m)\<rparr>) d)"

definition wire_internal ::
  "string list \<Rightarrow> nat \<Rightarrow> topology_edge \<times> nat \<Rightarrow> dag \<times> string list \<Rightarrow> dag \<times> string list" where
  "wire_internal blocks offset = (\<lambda>(te, i) (d, cleaned).
     let s = resolveBranchChildBoundaryId d (te_source te) i (offset + i) SentinelEnd;
         t = resolveBranchChildBoundaryId d (te_target te) i (offset + i) SentinelStart
     in if \<not> has_node d s \<or> \<not> has_node d t then (d, cleaned)
        else let (d1, cleaned1) = (if s \<in> set cleaned then (d, cleaned)
                                   else (clearStaleInternalEdges s blocks d, sadd s cleaned))
             in (set_edge s t (te_sourceHandle te) (te_targetHandle te) d1, cleaned1))"

definition wireInternalEdges :: "string list \<Rightarrow> nat \<Rightarrow> nat \<Rightarrow> dag \<Rightarrow> dag" where
  "wireInternalEdges blocks branchCount offset d =
     fst (fold (wire_internal blocks offset)
            (concat (map (\<lambda>te. map (\<lambda>i. (te, i)) [0..<branchCount]) (collectInternalEdgeTopology d blocks))) (d, []))"

definition boundary_ids :: "dag \<Rightarrow> string list \<Rightarrow> nat \<Rightarrow> nat \<Rightarrow> sentinel \<Rightarrow> string list \<Rightarrow> string list" where
  "boundary_ids d blocks branchCount offset side inner =
     concat (map (\<lambda>b. if b \<in> set inner then []
                      else map (\<lambda>i. resolveBranchChildBoundaryId d b i (offset + i) side) [0..<branchCount]) blocks)"

definition identifyBoundaryNodes :: "dag \<Rightarrow> string list \<Rightarrow> nat \<Rightarrow> nat \<Rightarrow> string list \<times> string list" where
  "identifyBoundaryNodes d blocks branchCount offset =
     (let topology = collectInternalEdgeTopology d blocks
      in (boundary_ids d blocks branchCount offset SentinelStart (map te_target topology),
          boundary_ids d blocks branchCount offset SentinelEnd (map te_source topology)))"

definition terminal_handle :: "string \<Rightarrow> string option" where
  "terminal_handle i =
     (if isLoopSentinelNodeId i then Some LOOP_EXIT
      else if isParallelSentinelNodeId i then Some PARALLEL_EXIT else None)"

definition wireSentinelEdges :: "string \<Rightarrow> string list \<Rightarrow> string list \<Rightarrow> dag \<Rightarrow> dag" where
  "wireSentinelEdges parallelId entries terminals d =
     (let sid = buildParallelSentinelStartId parallelId; eid = buildParallelSentinelEndId parallelId
      in if \<not> has_node d sid \<or> \<not> has_node d eid then d
         else let d1 = upd_node eid (\<lambda>m. m\<lparr>incomingEdges := []\<rparr>)
                         (upd_node sid (\<lambda>m. m\<lparr>outgoingEdges := []\<rparr>) d);
                  d2 = fold (\<lambda>t d. if has_node d t then set_edge sid t None None d else d) entries d1
              in fold (\<lambda>s d. if has_node d s then set_edge s eid (terminal_handle s) None d else d) terminals d2)"

section \<open>Cloning a nested container\<close>

definition buildPreCloneIdForParent :: "(string \<Rightarrow> string) \<Rightarrow> string \<Rightarrow> nat \<Rightarrow> string \<Rightarrow> string" where
  "buildPreCloneIdForParent sha originalId outer parentCloneId =
     originalId @ ''__clone'' @ take 24 (sha (parentCloneId @ '':'' @ originalId @ '':'' @ show_nat outer)) @
     OBRANCH_LIT @ show_nat outer"

definition start_id :: "bool \<Rightarrow> string \<Rightarrow> string" where
  "start_id isParallel i = (if isParallel then buildParallelSentinelStartId i else buildSentinelStartId i)"

definition end_id :: "bool \<Rightarrow> string \<Rightarrow> string" where
  "end_id isParallel i = (if isParallel then buildParallelSentinelEndId i else buildSentinelEndId i)"

definition is_container :: "dag \<Rightarrow> string \<Rightarrow> bool" where
  "is_container d i \<longleftrightarrow> mhas (parallelConfigs d) i \<or> mhas (loopConfigs d) i"

definition container_nodes :: "dag \<Rightarrow> string \<Rightarrow> string list option" where
  "container_nodes d i =
     (if mhas (parallelConfigs d) i then map_option par_nodes (mget (parallelConfigs d) i)
      else map_option loop_nodes (mget (loopConfigs d) i))"

definition register_config :: "bool \<Rightarrow> string \<Rightarrow> string \<Rightarrow> string list \<Rightarrow> dag \<Rightarrow> dag" where
  "register_config isParallel originalId clonedId nodes d =
     (if isParallel then
        (case mget (parallelConfigs d) originalId of
           None \<Rightarrow> d
         | Some cfg \<Rightarrow> d\<lparr>parallelConfigs := mput clonedId (cfg\<lparr>par_nodes := nodes\<rparr>) (parallelConfigs d)\<rparr>)
      else
        (case mget (loopConfigs d) originalId of
           None \<Rightarrow> d
         | Some cfg \<Rightarrow> d\<lparr>loopConfigs := mput clonedId (cfg\<lparr>loop_nodes := nodes\<rparr>) (loopConfigs d)\<rparr>))"

definition cloneDAGNode :: "dag_node \<Rightarrow> string \<Rightarrow> string \<Rightarrow> bool \<Rightarrow> dag_node" where
  "cloneDAGNode origNode clonedNodeId parentClonedId parentIsParallel =
     \<lparr>node_id = clonedNodeId, node_block = (node_block origNode)\<lparr>blk_id := clonedNodeId\<rparr>,
      incomingEdges = [], outgoingEdges = [],
      metadata = (metadata origNode)\<lparr>m_subflowId := Some parentClonedId,
                   m_subflowType := Some (if parentIsParallel then SubParallel else SubLoop)\<rparr>\<rparr>"

definition remap_outgoing :: "(string, string) jsmap \<Rightarrow> string \<Rightarrow> dag_node \<Rightarrow> (string, dag_edge) jsmap" where
  "remap_outgoing idMap clonedNodeId orig =
     fold (\<lambda>e m. case mget idMap (edge_target e) of
                   None \<Rightarrow> m
                 | Some t \<Rightarrow> if t = [] then m
                             else mput (edge_id clonedNodeId t (edge_sourceHandle e))
                                    \<lparr>edge_target = t, edge_sourceHandle = edge_sourceHandle e,
                                     edge_targetHandle = edge_targetHandle e\<rparr> m)
       (out_edges orig) []"

definition remap_incoming :: "(string, string) jsmap \<Rightarrow> dag_node \<Rightarrow> string list" where
  "remap_incoming idMap orig =
     set_of_array (concat (map (\<lambda>s. case mget idMap s of None \<Rightarrow> [] | Some t \<Rightarrow> if t = [] then [] else [t])
       (incomingEdges orig)))"

definition remap_node :: "(string, string) jsmap \<Rightarrow> string \<times> string \<Rightarrow> dag \<Rightarrow> dag" where
  "remap_node idMap = (\<lambda>(origId, clonedNodeId) d.
     case dnode d origId of
       None \<Rightarrow> d
     | Some orig \<Rightarrow>
         if \<not> has_node d clonedNodeId then d
         else upd_node clonedNodeId (\<lambda>n. n\<lparr>outgoingEdges := remap_outgoing idMap clonedNodeId orig,
                                            incomingEdges := remap_incoming idMap orig\<rparr>) d)"

definition remapClonedEdges :: "(string, string) jsmap \<Rightarrow> dag \<Rightarrow> dag" where
  "remapClonedEdges idMap d = fold (remap_node idMap) idMap d"

definition clone_nodes :: "(string, string) jsmap \<Rightarrow> string list \<Rightarrow> string \<Rightarrow> bool \<Rightarrow> dag \<Rightarrow> dag" where
  "clone_nodes idMap origNodeIds clonedId isParallel d =
     fold (\<lambda>i d. case (dnode d i, mget idMap i) of
                   (Some n, Some c) \<Rightarrow> put_node (cloneDAGNode n c clonedId isParallel) d
                 | _ \<Rightarrow> d) origNodeIds d"

record clone_state =
  cs_dag :: dag
  cs_idMap :: "(string, string) jsmap"
  cs_blocks :: "string list"
  cs_infos :: "cloned_info list"

definition add_info :: "string \<Rightarrow> string \<Rightarrow> nat \<Rightarrow> cloned_info list \<Rightarrow> cloned_info list" where
  "add_info clonedId originalId outer infos =
     infos @ [\<lparr>ci_clonedId = clonedId, ci_originalId = originalId, ci_outerBranchIndex = outer\<rparr>]"

text \<open>One child of the container: a nested container is cloned by the recursive call \<open>rec\<close>,
  a regular block only gets its id.\<close>

definition clone_child ::
  "(dag \<Rightarrow> string \<Rightarrow> string \<Rightarrow> cloned_info list \<Rightarrow> (dag \<times> (string, string) jsmap \<times> cloned_info list) option) \<Rightarrow>
   (string \<Rightarrow> string) \<Rightarrow> bool \<Rightarrow> nat \<Rightarrow> string \<Rightarrow> string \<Rightarrow> clone_state \<Rightarrow> clone_state option" where
  "clone_child rec sha isParallel outer clonedId blockId cs =
     (let c = buildPreCloneIdForParent sha blockId outer clonedId;
          cs1 = cs\<lparr>cs_blocks := cs_blocks cs @ [c]\<rparr>
      in if is_container (cs_dag cs) blockId then
           (case rec (cs_dag cs) blockId c (cs_infos cs) of
              None \<Rightarrow> None
            | Some (d', inner, infos) \<Rightarrow>
                Some (cs1\<lparr>cs_dag := d', cs_idMap := fold (\<lambda>(k, v). mput k v) inner (cs_idMap cs),
                          cs_infos := add_info c blockId outer infos\<rparr>))
         else Some (cs1\<lparr>cs_idMap := (if isParallel then mput (buildBranchNodeId blockId 0) (buildBranchNodeId c 0)
                                     else mput blockId c) (cs_idMap cs)\<rparr>))"

definition finish_clone :: "bool \<Rightarrow> string \<Rightarrow> string \<Rightarrow> string list \<Rightarrow> clone_state \<Rightarrow> dag \<times> (string, string) jsmap \<times> cloned_info list" where
  "finish_clone isParallel originalId clonedId blockIds cs =
     (let d1 = register_config isParallel originalId clonedId (cs_blocks cs) (cs_dag cs);
          origNodeIds = [start_id isParallel originalId, end_id isParallel originalId] @
            map (\<lambda>b. if isParallel then buildBranchNodeId b 0 else b) (filter (\<lambda>b. \<not> is_container d1 b) blockIds);
          d2 = clone_nodes (cs_idMap cs) origNodeIds clonedId isParallel d1
      in (remapClonedEdges (cs_idMap cs) d2, cs_idMap cs, cs_infos cs))"

fun cloneSubflowGraph ::
  "nat \<Rightarrow> (string \<Rightarrow> string) \<Rightarrow> nat \<Rightarrow> dag \<Rightarrow> string \<Rightarrow> string \<Rightarrow> cloned_info list \<Rightarrow>
   (dag \<times> (string, string) jsmap \<times> cloned_info list) option" where
  "cloneSubflowGraph 0 sha outer d originalId clonedId infos = None"
| "cloneSubflowGraph (Suc depth) sha outer d originalId clonedId infos =
     (case container_nodes d originalId of
        None \<Rightarrow> None
      | Some blockIds \<Rightarrow>
          (let isParallel = mhas (parallelConfigs d) originalId;
               init = \<lparr>cs_dag = d,
                       cs_idMap = mput (end_id isParallel originalId) (end_id isParallel clonedId)
                         (mput (start_id isParallel originalId) (start_id isParallel clonedId) []),
                       cs_blocks = [], cs_infos = infos\<rparr>
           in map_option (finish_clone isParallel originalId clonedId blockIds)
                (fold_opt (clone_child (cloneSubflowGraph depth sha outer) sha isParallel outer clonedId)
                   blockIds init)))"

definition cloneNestedSubflow ::
  "nat \<Rightarrow> (string \<Rightarrow> string) \<Rightarrow> string \<times> nat \<Rightarrow> dag \<times> cloned_info list \<Rightarrow> (dag \<times> cloned_info list) option" where
  "cloneNestedSubflow depth sha = (\<lambda>(subflowId, outer) (d, infos).
     let clonedId = buildOuterBranchScopedId subflowId outer
     in case cloneSubflowGraph depth sha outer d subflowId clonedId infos of
          None \<Rightarrow> None
        | Some (d', _, infos') \<Rightarrow> Some (d', add_info clonedId subflowId outer infos'))"

section \<open>Expansion of a batch\<close>

definition expandParallel ::
  "nat \<Rightarrow> (string \<Rightarrow> string) \<Rightarrow> string \<Rightarrow> nat \<Rightarrow> nat \<Rightarrow> nat \<Rightarrow> dag \<Rightarrow> run_error + dag \<times> expansion" where
  "expandParallel depth sha parallelId branchCount offset branchTotal d =
     (case mget (parallelConfigs d) parallelId of
        None \<Rightarrow> Inl (ParallelConfigMissing parallelId)
      | Some cfg \<Rightarrow>
          if par_nodes cfg = [] then
            Inr (d, \<lparr>ex_entryNodes = [], ex_terminalNodes = [], ex_allBranchNodes = [], ex_clonedSubflows = []\<rparr>)
          else
            (let blocks = par_nodes cfg;
                 regular = filter (\<lambda>b. \<not> is_container d b) blocks;
                 nested = filter (is_container d) blocks;
                 (d1, allNodes) = fold (expand_block branchCount offset branchTotal) regular (d, []);
                 clones = concat (map (\<lambda>s. map (\<lambda>i. (s, offset + i)) (filter (\<lambda>i. offset + i \<noteq> 0) [0..<branchCount])) nested)
             in case fold_opt (cloneNestedSubflow depth sha) clones (d1, []) of
                  None \<Rightarrow> Inl StackOverflow
                | Some (d2, infos) \<Rightarrow>
                    (let d3 = wireInternalEdges blocks branchCount offset d2;
                         (entries, terminals) = identifyBoundaryNodes d3 blocks branchCount offset
                     in Inr (wireSentinelEdges parallelId entries terminals d3,
                             \<lparr>ex_entryNodes = entries, ex_terminalNodes = terminals,
                              ex_allBranchNodes = allNodes, ex_clonedSubflows = infos\<rparr>))))"

section \<open>Well-formedness\<close>

lemma wf_upd_metadata: "wf_dag d \<Longrightarrow> wf_dag (upd_node i (\<lambda>n. n\<lparr>metadata := f n\<rparr>) d)"
  by (rule wf_dag_upd) (auto simp: wf_node_def out_edges_def)

lemma wf_place_branch: "wf_dag d \<Longrightarrow> wf_dag (place_branch t b off tot i d)"
  by (simp add: place_branch_def updateBranchMetadata_def [abs_def] wf_upd_metadata wf_dag_put_fresh
      cloneTemplateNode_def)

lemma wf_fold: "(\<And>x d. wf_dag d \<Longrightarrow> wf_dag (f x d)) \<Longrightarrow> wf_dag d \<Longrightarrow> wf_dag (fold f xs d)"
  by (induction xs arbitrary: d) auto

lemma wf_expand_block: "wf_dag d \<Longrightarrow> wf_dag (fst (expand_block n off tot b (d, xs)))"
  by (auto simp: expand_block_def split: option.split intro: wf_fold wf_place_branch)

lemma wf_expand_blocks: "wf_dag d \<Longrightarrow> wf_dag (fst (fold (expand_block n off tot) bs (d, xs)))"
proof (induction bs arbitrary: d xs)
  case (Cons b bs)
  obtain d1 ys where e: "expand_block n off tot b (d, xs) = (d1, ys)" by fastforce
  then have "wf_dag d1" using wf_expand_block [OF Cons.prems, of n off tot b xs] by simp
  with Cons.IH e show ?case by simp
qed simp

lemma has_node_set_edge [simp]: "has_node (set_edge s t sh th d) i = has_node d i"
  by (simp add: set_edge_def)

lemma wf_set_edge:
  assumes "wf_dag d" and "has_node d s" and "has_node d t"
  shows "wf_dag (set_edge s t sh th d)"
proof -
  let ?e = "\<lparr>edge_target = t, edge_sourceHandle = sh, edge_targetHandle = th\<rparr>"
  have "wf_dag (upd_node s (\<lambda>m. m\<lparr>outgoingEdges := mput (edge_id s t sh) ?e (outgoingEdges m)\<rparr>) d)"
  proof (rule wf_dag_upd [OF assms(1)])
    fix n assume n: "wf_node d s n"
    have "has_node d (edge_target e)" if "e \<in> set (mvalues (mput (edge_id s t sh) ?e (outgoingEdges n)))" for e
      using that n assms(3) set_mput_subset [of "edge_id s t sh" ?e "outgoingEdges n"]
      by (force simp: mvalues_def wf_node_def out_edges_def)
    with n show "wf_node d s (n\<lparr>outgoingEdges := mput (edge_id s t sh) ?e (outgoingEdges n)\<rparr>)"
      by (simp add: wf_node_def out_edges_def)
  qed
  then show ?thesis
    unfolding set_edge_def by (rule wf_dag_upd) (use assms(2) in \<open>auto simp: wf_node_def out_edges_def\<close>)
qed

lemma wf_drop_incoming: "wf_dag d \<Longrightarrow> wf_dag (upd_node i (\<lambda>m. m\<lparr>incomingEdges := sdel s (incomingEdges m)\<rparr>) d)"
  by (rule wf_dag_upd) (auto simp: wf_node_def out_edges_def)

lemma mvalues_mdel: "set (mvalues (mdel k m)) \<subseteq> set (mvalues m)"
  by (auto simp: mvalues_def mdel_def)

lemma mvalues_mdel_D: "e \<in> set (mvalues (mdel k m)) \<Longrightarrow> e \<in> set (mvalues m)"
  by (rule subsetD [OF mvalues_mdel])

lemma wf_node_mdel: "wf_node d i n \<Longrightarrow> wf_node d i (n\<lparr>outgoingEdges := mdel k (outgoingEdges n)\<rparr>)"
  by (auto simp: wf_node_def out_edges_def dest: mvalues_mdel_D)

lemma wf_drop_outgoing: "wf_dag d \<Longrightarrow> wf_dag (upd_node i (\<lambda>m. m\<lparr>outgoingEdges := mdel k (outgoingEdges m)\<rparr>) d)"
  by (rule wf_dag_upd) (auto intro: wf_node_mdel)

lemma has_node_fold: "(\<And>x d. has_node (f x d) i = has_node d i) \<Longrightarrow> has_node (fold f xs d) i = has_node d i"
  by (induction xs arbitrary: d) auto

lemma has_node_clear [simp]: "has_node (clearStaleInternalEdges s blocks d) i = has_node d i"
proof (cases "dnode d s")
  case (Some n)
  show ?thesis
    unfolding clearStaleInternalEdges_def Some option.simps
    by (rule has_node_fold) (simp split: prod.split)
qed (simp add: clearStaleInternalEdges_def)

lemma wf_clear: "wf_dag d \<Longrightarrow> wf_dag (clearStaleInternalEdges s blocks d)"
  by (auto simp: clearStaleInternalEdges_def wf_drop_incoming wf_drop_outgoing split: option.split intro!: wf_fold)

lemma wf_wire_internal: "wf_dag d \<Longrightarrow> wf_dag (fst (wire_internal blocks off x (d, cl)))"
  by (auto simp: wire_internal_def Let_def wf_clear intro!: wf_set_edge split: prod.splits if_splits)

lemma wf_wireInternalEdges:
  assumes "wf_dag d"
  shows "wf_dag (wireInternalEdges blocks n off d)"
proof -
  have "wf_dag (fst (fold (wire_internal blocks off) xs (d, cl)))" if "wf_dag d" for xs d cl
    using that
  proof (induction xs arbitrary: d cl)
    case (Cons x xs)
    obtain d1 cl1 where e: "wire_internal blocks off x (d, cl) = (d1, cl1)" by fastforce
    then have "wf_dag d1" using wf_wire_internal [OF Cons.prems, of blocks off x cl] by simp
    with Cons.IH e show ?case by simp
  qed simp
  with assms show ?thesis by (simp add: wireInternalEdges_def)
qed

lemma wf_fold_node:
  assumes "\<And>x d. wf_dag d \<Longrightarrow> (\<And>i. has_node d i = has_node d0 i) \<Longrightarrow>
      wf_dag (f x d) \<and> (\<forall>i. has_node (f x d) i = has_node d i)"
    and "wf_dag d" and "\<And>i. has_node d i = has_node d0 i"
  shows "wf_dag (fold f xs d)"
  using assms(2,3)
proof (induction xs arbitrary: d)
  case (Cons x xs)
  have f: "wf_dag (f x d)" "\<And>i. has_node (f x d) i = has_node d i"
    using assms(1) [OF Cons.prems] by auto
  show ?case
    using Cons.IH [OF f(1)] f(2) Cons.prems(2) by simp
qed simp

lemma wf_fold_set_from:
  assumes "wf_dag d" and "has_node d s"
  shows "wf_dag (fold (\<lambda>t d. if has_node d t then set_edge s t (h t) None d else d) ts d)"
  by (rule wf_fold_node [where ?d0.0 = d]) (use assms in \<open>auto intro: wf_set_edge\<close>)

lemma wf_fold_set_to:
  assumes "wf_dag d" and "has_node d t"
  shows "wf_dag (fold (\<lambda>s d. if has_node d s then set_edge s t (h s) None d else d) ss d)"
  by (rule wf_fold_node [where ?d0.0 = d]) (use assms in \<open>auto intro: wf_set_edge\<close>)

lemma wf_wireSentinelEdges:
  assumes "wf_dag d"
  shows "wf_dag (wireSentinelEdges p entries terminals d)"
proof (cases "has_node d (buildParallelSentinelStartId p) \<and> has_node d (buildParallelSentinelEndId p)")
  case True
  let ?sid = "buildParallelSentinelStartId p" and ?eid = "buildParallelSentinelEndId p"
  let ?d1 = "upd_node ?eid (\<lambda>m. m\<lparr>incomingEdges := []\<rparr>) (upd_node ?sid (\<lambda>m. m\<lparr>outgoingEdges := []\<rparr>) d)"
  let ?d2 = "fold (\<lambda>t d. if has_node d t then set_edge ?sid t None None d else d) entries ?d1"
  have "wf_dag (upd_node ?sid (\<lambda>m. m\<lparr>outgoingEdges := []\<rparr>) d)"
    by (rule wf_dag_upd [OF assms]) (auto simp: wf_node_def out_edges_def mvalues_def)
  then have d1: "wf_dag ?d1"
    by (rule wf_dag_upd) (auto simp: wf_node_def out_edges_def)
  have d2: "wf_dag ?d2"
    by (rule wf_fold_set_from [OF d1]) (use True in simp)
  have "has_node ?d2 i = has_node d i" for i
    by (subst has_node_fold) auto
  with True have "wf_dag (fold (\<lambda>s d. if has_node d s then set_edge s ?eid (terminal_handle s) None d else d) terminals ?d2)"
    by (intro wf_fold_set_to [OF d2]) simp
  with True show ?thesis by (simp add: wireSentinelEdges_def Let_def)
qed (use assms in \<open>simp add: wireSentinelEdges_def Let_def\<close>)

definition flat_parallel :: "dag \<Rightarrow> string \<Rightarrow> bool" where
  "flat_parallel d p \<longleftrightarrow>
     (case mget (parallelConfigs d) p of None \<Rightarrow> False | Some cfg \<Rightarrow> list_all (\<lambda>b. \<not> is_container d b) (par_nodes cfg))"

lemma flat_expand:
  assumes "flat_parallel d p" and "mget (parallelConfigs d) p = Some cfg" and "par_nodes cfg \<noteq> []"
    and "expandParallel depth sha p n off tot d = Inr (d', ex)"
  obtains d1 d3 where "fold (expand_block n off tot) (par_nodes cfg) (d, []) = (d1, ex_allBranchNodes ex)"
    and "d3 = wireInternalEdges (par_nodes cfg) n off d1"
    and "(ex_entryNodes ex, ex_terminalNodes ex) = identifyBoundaryNodes d3 (par_nodes cfg) n off"
    and "d' = wireSentinelEdges p (ex_entryNodes ex) (ex_terminalNodes ex) d3"
    and "ex_clonedSubflows ex = []"
proof -
  have f: "filter (\<lambda>b. \<not> is_container d b) (par_nodes cfg) = par_nodes cfg"
    "filter (is_container d) (par_nodes cfg) = []"
    using assms(1,2) by (auto simp: flat_parallel_def list_all_iff filter_empty_conv filter_id_conv)
  obtain d1 xs where x: "fold (expand_block n off tot) (par_nodes cfg) (d, []) = (d1, xs)" by fastforce
  obtain en te where i: "identifyBoundaryNodes (wireInternalEdges (par_nodes cfg) n off d1) (par_nodes cfg) n off = (en, te)"
    by fastforce
  have e: "d' = wireSentinelEdges p en te (wireInternalEdges (par_nodes cfg) n off d1)"
    "ex = \<lparr>ex_entryNodes = en, ex_terminalNodes = te, ex_allBranchNodes = xs, ex_clonedSubflows = []\<rparr>"
    using assms(2-4) by (auto simp: expandParallel_def f x i Let_def)
  show thesis
    by (rule that) (use x i e in simp_all)
qed

section \<open>What wiring leaves alone\<close>

text \<open>
  \<open>skeleton\<close> is a node without its edges, \<open>out_targets\<close> the targets of a node's edges.
  Wiring changes no skeleton, and adds only the edges it is asked for.
\<close>

definition skeleton :: "dag_node \<Rightarrow> dag_node" where
  "skeleton n = n\<lparr>incomingEdges := [], outgoingEdges := []\<rparr>"

definition skel :: "dag \<Rightarrow> string \<Rightarrow> dag_node option" where
  "skel d i = map_option skeleton (dnode d i)"

definition out_targets :: "dag \<Rightarrow> string \<Rightarrow> string set" where
  "out_targets d i = (case dnode d i of None \<Rightarrow> {} | Some n \<Rightarrow> edge_target ` set (out_edges n))"

definition in_sources :: "dag \<Rightarrow> string \<Rightarrow> string set" where
  "in_sources d i = (case dnode d i of None \<Rightarrow> {} | Some n \<Rightarrow> set (incomingEdges n))"

lemma skel_upd [simp]: "(\<And>n. skeleton (f n) = skeleton n) \<Longrightarrow> skel (upd_node i f d) j = skel d j"
  by (auto simp: skel_def option.map_comp comp_def)

lemma skeleton_edges [simp]:
  "skeleton (n\<lparr>incomingEdges := xs\<rparr>) = skeleton n" "skeleton (n\<lparr>outgoingEdges := es\<rparr>) = skeleton n"
  by (simp_all add: skeleton_def)

lemma skel_fold: "(\<And>x d. skel (f x d) i = skel d i) \<Longrightarrow> skel (fold f xs d) i = skel d i"
  by (induction xs arbitrary: d) auto

lemma skel_set_edge [simp]: "skel (set_edge s t sh th d) i = skel d i"
  by (simp add: set_edge_def)

lemma skel_clear [simp]: "skel (clearStaleInternalEdges s blocks d) i = skel d i"
proof (cases "dnode d s")
  case (Some n)
  show ?thesis
    unfolding clearStaleInternalEdges_def Some option.simps
    by (rule skel_fold) (simp split: prod.split)
qed (simp add: clearStaleInternalEdges_def)

lemma fold_fst_invariant:
  assumes "\<And>x s. P (fst s) \<Longrightarrow> P (fst (f x s))" and "P (fst s)"
  shows "P (fst (fold f xs s))"
  using assms(2)
proof (induction xs arbitrary: s)
  case (Cons x xs)
  show ?case using Cons.IH [OF assms(1) [OF Cons.prems]] by simp
qed simp

lemma skel_wireInternalEdges [simp]: "skel (wireInternalEdges blocks n off d) i = skel d i"
proof -
  have "skel (fst (wire_internal blocks off x s)) i = skel (fst s) i" for x s
    by (auto simp: wire_internal_def Let_def split: prod.split)
  then show ?thesis
    unfolding wireInternalEdges_def
    by (intro fold_fst_invariant [where P = "\<lambda>d'. skel d' i = skel d i"]) auto
qed

lemma skel_wireSentinelEdges [simp]: "skel (wireSentinelEdges p en te d) i = skel d i"
  by (simp add: wireSentinelEdges_def Let_def skel_fold)

lemma mvalues_mput_D: "e \<in> set (mvalues (mput k v m)) \<Longrightarrow> e = v \<or> e \<in> set (mvalues m)"
  using set_mput_subset [of k v m] by (auto simp: mvalues_def)

lemma out_targets_set_edge:
  "out_targets (set_edge s t sh th d) i \<subseteq> out_targets d i \<union> (if i = s then {t} else {})"
  by (cases "dnode d i") (auto simp: out_targets_def set_edge_def out_edges_def dest!: mvalues_mput_D)

lemma out_targets_clear: "out_targets (clearStaleInternalEdges s blocks d) i \<subseteq> out_targets d i"
proof (cases "dnode d s")
  case (Some n)
  have "out_targets (fold (\<lambda>(k, e). if stale_edge blocks e
           then upd_node (edge_target e) (\<lambda>m. m\<lparr>incomingEdges := sdel s (incomingEdges m)\<rparr>) \<circ>
                upd_node s (\<lambda>m. m\<lparr>outgoingEdges := mdel k (outgoingEdges m)\<rparr>) else id) es d') i \<subseteq> out_targets d' i" for es d'
  proof (induction es arbitrary: d')
    case (Cons x es)
    have "out_targets ((case x of (k, e) \<Rightarrow> if stale_edge blocks e
           then upd_node (edge_target e) (\<lambda>m. m\<lparr>incomingEdges := sdel s (incomingEdges m)\<rparr>) \<circ>
                upd_node s (\<lambda>m. m\<lparr>outgoingEdges := mdel k (outgoingEdges m)\<rparr>) else id) d') i \<subseteq> out_targets d' i"
      by (cases "dnode d' i") (auto simp: out_targets_def out_edges_def intro!: imageI dest!: mvalues_mdel_D split: prod.split)
    with Cons.IH show ?case by (metis (no_types, lifting) fold_simps(2) order_trans)
  qed simp
  then show ?thesis by (simp add: clearStaleInternalEdges_def Some)
qed (simp add: clearStaleInternalEdges_def)

text \<open>An internal edge of branch \<open>i\<close> leads from a boundary of branch \<open>i\<close> to one of branch \<open>i\<close>.\<close>

lemma wire_internal_targets:
  "out_targets (fst (wire_internal blocks off (te, i) (d, cl))) k \<subseteq> out_targets d k \<union>
     (if k = resolveBranchChildBoundaryId d (te_source te) i (off + i) SentinelEnd
      then {resolveBranchChildBoundaryId d (te_target te) i (off + i) SentinelStart} else {})"
proof -
  let ?s = "resolveBranchChildBoundaryId d (te_source te) i (off + i) SentinelEnd"
  let ?t = "resolveBranchChildBoundaryId d (te_target te) i (off + i) SentinelStart"
  have "fst (wire_internal blocks off (te, i) (d, cl)) \<in>
      {d, set_edge ?s ?t (te_sourceHandle te) (te_targetHandle te) d,
       set_edge ?s ?t (te_sourceHandle te) (te_targetHandle te) (clearStaleInternalEdges ?s blocks d)}"
    by (simp add: wire_internal_def Let_def)
  then show ?thesis
    using out_targets_set_edge [of ?s ?t "te_sourceHandle te" "te_targetHandle te" d k]
      out_targets_set_edge [of ?s ?t "te_sourceHandle te" "te_targetHandle te" "clearStaleInternalEdges ?s blocks d" k]
      out_targets_clear [of ?s blocks d k]
    by (elim insertE) auto
qed

section \<open>The nodes of the branches\<close>

lemma branch_id_inj [simp]: "buildBranchNodeId b i = buildBranchNodeId c j \<longleftrightarrow> b = c \<and> i = j"
  by (metis extractBaseBlockId_build extractBranchIndex_build option.inject)

text \<open>\<open>branch_copy\<close> is the node a branch is to have: the template itself with the index of
  the branch for local branch 0, a copy of it under its own id for the others.\<close>

definition branch_copy :: "dag_node \<Rightarrow> string \<Rightarrow> nat \<Rightarrow> nat \<Rightarrow> nat \<Rightarrow> dag_node" where
  "branch_copy template b offset branchTotal i =
     (if i = 0 then updateBranchMetadata offset branchTotal template
      else cloneTemplateNode template b i (offset + i) branchTotal)"

lemma dnode_place_branch:
  "dnode (place_branch T b off tot i d) k =
     (if k = buildBranchNodeId b i
      then (if i = 0 then map_option (updateBranchMetadata off tot) (dnode d k)
            else Some (cloneTemplateNode T b i (off + i) tot))
      else dnode d k)"
  by (simp add: place_branch_def cloneTemplateNode_def)

lemma dnode_place_branches:
  assumes "dnode d (buildBranchNodeId b 0) = Some T"
  shows "dnode (fold (place_branch T b off tot) [0..<n] d) k =
     (if \<exists>i < n. k = buildBranchNodeId b i then Some (branch_copy T b off tot (the (extractBranchIndex k)))
      else dnode d k)"
proof (induction n)
  case (Suc n)
  show ?case
    using Suc.IH assms by (auto simp: dnode_place_branch branch_copy_def less_Suc_eq)
qed simp

lemma dnode_expand_block_other:
  assumes "\<And>i. k \<noteq> buildBranchNodeId b i"
  shows "dnode (fst (expand_block n off tot b (d, xs))) k = dnode d k"
  using assms by (auto simp: expand_block_def dnode_place_branches split: option.split)

lemma dnode_expand_blocks_other:
  assumes "\<And>b i. b \<in> set bs \<Longrightarrow> k \<noteq> buildBranchNodeId b i"
  shows "dnode (fst (fold (expand_block n off tot) bs s)) k = dnode (fst s) k"
  using assms
proof (induction bs arbitrary: s)
  case (Cons b bs)
  have "dnode (fst (expand_block n off tot b (fst s, snd s))) k = dnode (fst s) k"
    using Cons.prems by (intro dnode_expand_block_other) auto
  then show ?case using Cons.IH [of "expand_block n off tot b s"] Cons.prems by simp
qed simp

lemma dnode_expand_blocks:
  assumes "distinct bs" and "b \<in> set bs" and "dnode d (buildBranchNodeId b 0) = Some T" and "i < n"
  shows "dnode (fst (fold (expand_block n off tot) bs (d, xs))) (buildBranchNodeId b i) =
     Some (branch_copy T b off tot i)"
  using assms(1-3)
proof (induction bs arbitrary: d xs)
  case (Cons c bs)
  obtain d1 ys where e: "expand_block n off tot c (d, xs) = (d1, ys)" by fastforce
  show ?case
  proof (cases "b = c")
    case True
    then have d1: "d1 = fold (place_branch T b off tot) [0..<n] d"
      using e Cons.prems(3) by (simp add: expand_block_def)
    have "dnode (fst (fold (expand_block n off tot) bs (d1, ys))) (buildBranchNodeId b i) = dnode d1 (buildBranchNodeId b i)"
      using dnode_expand_blocks_other [of bs "buildBranchNodeId b i" n off tot "(d1, ys)"] Cons.prems(1) True by auto
    with e True show ?thesis
      using dnode_place_branches [OF Cons.prems(3)] assms(4) by (auto simp: d1)
  next
    case False
    then have "dnode d1 (buildBranchNodeId b 0) = Some T"
      using dnode_expand_block_other [of "buildBranchNodeId b 0" c n off tot d xs] e Cons.prems(3) by simp
    with Cons.IH False Cons.prems e show ?thesis by simp
  qed
qed simp

lemma snd_expand_blocks:
  assumes "distinct bs" and "\<And>b. b \<in> set bs \<Longrightarrow> has_node d (buildBranchNodeId b 0)"
  shows "snd (fold (expand_block n off tot) bs (d, xs)) = xs @ concat (map (\<lambda>b. map (buildBranchNodeId b) [0..<n]) bs)"
  using assms
proof (induction bs arbitrary: d xs)
  case (Cons c bs)
  obtain T where T: "dnode d (buildBranchNodeId c 0) = Some T"
    using Cons.prems(2) [of c] by (auto simp: has_node_iff)
  have e: "expand_block n off tot c (d, xs) =
      (fold (place_branch T c off tot) [0..<n] d, xs @ map (buildBranchNodeId c) [0..<n])"
    using T by (simp add: expand_block_def)
  have "has_node (fold (place_branch T c off tot) [0..<n] d) (buildBranchNodeId b 0)" if "b \<in> set bs" for b
    using that Cons.prems dnode_place_branches [OF T] by (auto simp: has_node_iff)
  with Cons.IH Cons.prems e show ?case by simp
qed simp

lemma skeleton_skeleton [simp]: "skeleton (skeleton n) = skeleton n"
  by (simp add: skeleton_def)

section \<open>The edges of the branches\<close>

lemma configs_set_edge [simp]:
  "loopConfigs (set_edge s t sh th d) = loopConfigs d" "parallelConfigs (set_edge s t sh th d) = parallelConfigs d"
  by (simp_all add: set_edge_def)

lemma configs_fold:
  assumes "\<And>x d. loopConfigs (f x d) = loopConfigs d \<and> parallelConfigs (f x d) = parallelConfigs d"
  shows "loopConfigs (fold f xs d) = loopConfigs d \<and> parallelConfigs (fold f xs d) = parallelConfigs d"
  using assms by (induction xs arbitrary: d) auto

lemma configs_clear [simp]:
  "loopConfigs (clearStaleInternalEdges s blocks d) = loopConfigs d"
  "parallelConfigs (clearStaleInternalEdges s blocks d) = parallelConfigs d"
proof -
  have "loopConfigs (clearStaleInternalEdges s blocks d) = loopConfigs d \<and>
      parallelConfigs (clearStaleInternalEdges s blocks d) = parallelConfigs d"
  proof (cases "dnode d s")
    case (Some n)
    show ?thesis
      unfolding clearStaleInternalEdges_def Some option.simps
      by (rule configs_fold) (simp split: prod.split)
  qed (simp add: clearStaleInternalEdges_def)
  then show "loopConfigs (clearStaleInternalEdges s blocks d) = loopConfigs d"
    "parallelConfigs (clearStaleInternalEdges s blocks d) = parallelConfigs d" by simp_all
qed

lemma configs_expand_block [simp]:
  "loopConfigs (fst (expand_block n off tot b s)) = loopConfigs (fst s)"
  "parallelConfigs (fst (expand_block n off tot b s)) = parallelConfigs (fst s)"
proof -
  have "loopConfigs (fold (place_branch T b off tot) xs d) = loopConfigs d \<and>
      parallelConfigs (fold (place_branch T b off tot) xs d) = parallelConfigs d" for T xs d
    by (rule configs_fold) (simp add: place_branch_def)
  then show "loopConfigs (fst (expand_block n off tot b s)) = loopConfigs (fst s)"
    "parallelConfigs (fst (expand_block n off tot b s)) = parallelConfigs (fst s)"
    by (auto simp: expand_block_def split: prod.split option.split)
qed

lemma is_container_expand [simp]: "is_container (fst (fold (expand_block n off tot) bs s)) b = is_container (fst s) b"
  by (rule fold_fst_invariant [where P = "\<lambda>d. is_container d b = is_container (fst s) b"]) (simp_all add: is_container_def)

lemma branch_boundary [simp]:
  "\<not> is_container d b \<Longrightarrow> resolveBranchChildBoundaryId d b i g side = buildBranchNodeId b i"
  by (simp add: is_container_def resolveBranchChildBoundaryId_def)

lemma topology_blocks:
  assumes "te \<in> set (collectInternalEdgeTopology d blocks)"
  shows "te_source te \<in> set blocks" and "te_target te \<in> set blocks"
  using assms
  by (auto simp: collectInternalEdgeTopology_def topology_of_edge_def topology_target_def Let_def
      split: option.splits if_splits)

lemma is_container_wire_internal [simp]: "is_container (fst (wire_internal blocks off x s)) b = is_container (fst s) b"
  by (auto simp: is_container_def wire_internal_def Let_def split: prod.split)

lemma wireInternalEdges_targets:
  assumes "\<And>b. b \<in> set blocks \<Longrightarrow> \<not> is_container d b"
  shows "out_targets (wireInternalEdges blocks n off d) (buildBranchNodeId b i) \<subseteq>
    out_targets d (buildBranchNodeId b i) \<union> (\<lambda>c. buildBranchNodeId c i) ` set blocks"
proof -
  let ?work = "concat (map (\<lambda>te. map (Pair te) [0..<n]) (collectInternalEdgeTopology d blocks))"
  let ?S = "out_targets d (buildBranchNodeId b i) \<union> (\<lambda>c. buildBranchNodeId c i) ` set blocks"
  have "out_targets (fst (fold (wire_internal blocks off) xs s)) (buildBranchNodeId b i) \<subseteq> ?S"
    if "set xs \<subseteq> set ?work" and "out_targets (fst s) (buildBranchNodeId b i) \<subseteq> ?S"
      and "\<And>b. b \<in> set blocks \<Longrightarrow> \<not> is_container (fst s) b" for xs s
    using that
  proof (induction xs arbitrary: s)
    case (Cons x xs)
    obtain te j d1 cl where x: "x = (te, j)" "s = (d1, cl)" by fastforce
    from Cons.prems(1) x have te: "te_source te \<in> set blocks" "te_target te \<in> set blocks"
      using topology_blocks [of te d blocks] by auto
    have "out_targets (fst (wire_internal blocks off x s)) (buildBranchNodeId b i) \<subseteq> ?S"
      using wire_internal_targets [of blocks off te j d1 cl "buildBranchNodeId b i"] Cons.prems(2,3) te
      by (auto simp: x split: if_splits)
    with Cons show ?case by simp
  qed simp
  with assms show ?thesis by (simp add: wireInternalEdges_def comp_def)
qed

lemma out_targets_fold_set:
  assumes "\<And>x d. x \<in> set xs \<Longrightarrow> out_targets (f x d) k \<subseteq> out_targets d k \<union> S"
  shows "out_targets (fold f xs d) k \<subseteq> out_targets d k \<union> S"
  using assms
proof (induction xs arbitrary: d)
  case (Cons x xs)
  have "out_targets (fold f xs (f x d)) k \<subseteq> out_targets (f x d) k \<union> S"
    by (rule Cons.IH) (use Cons.prems in auto)
  with Cons.prems [of x d] show ?case by auto
qed simp

lemma out_targets_upd [simp]:
  "(\<And>n. outgoingEdges (f n) = outgoingEdges n) \<Longrightarrow> out_targets (upd_node i f d) k = out_targets d k"
  by (auto simp: out_targets_def out_edges_def split: option.split)

lemma wireSentinelEdges_targets:
  assumes "k \<noteq> buildParallelSentinelStartId p"
  shows "out_targets (wireSentinelEdges p en te d) k \<subseteq> out_targets d k \<union> {buildParallelSentinelEndId p}"
proof -
  let ?sid = "buildParallelSentinelStartId p" and ?eid = "buildParallelSentinelEndId p"
  let ?d1 = "upd_node ?eid (\<lambda>m. m\<lparr>incomingEdges := []\<rparr>) (upd_node ?sid (\<lambda>m. m\<lparr>outgoingEdges := []\<rparr>) d)"
  let ?d2 = "fold (\<lambda>t d. if has_node d t then set_edge ?sid t None None d else d) en ?d1"
  have "out_targets ?d1 k = out_targets d k"
    using assms by (simp add: out_targets_def out_edges_def split: option.split)
  moreover have "out_targets ?d2 k \<subseteq> out_targets ?d1 k \<union> {}"
    by (rule out_targets_fold_set) (auto dest!: subsetD [OF out_targets_set_edge] simp: assms split: if_splits)
  moreover have "out_targets (fold (\<lambda>s d. if has_node d s then set_edge s ?eid (terminal_handle s) None d else d) te ?d2) k
      \<subseteq> out_targets ?d2 k \<union> {?eid}"
    by (rule out_targets_fold_set) (auto dest!: subsetD [OF out_targets_set_edge] split: if_splits)
  ultimately show ?thesis by (auto simp: wireSentinelEdges_def Let_def)
qed

lemma edge_id_plain_inj [simp]: "edge_id s t None = edge_id s u None \<longleftrightarrow> t = u"
  by (simp add: edge_id_def)

definition plain_edge :: "string \<Rightarrow> dag_edge" where
  "plain_edge t = \<lparr>edge_target = t, edge_sourceHandle = None, edge_targetHandle = None\<rparr>"

lemma plain_fold_get:
  "mget (fold (\<lambda>t. mput (edge_id s t None) (plain_edge t)) ts m) (edge_id s u None) =
     (if u \<in> set ts then Some (plain_edge u) else mget m (edge_id s u None))"
  by (induction ts arbitrary: m) auto

lemma plain_fold_values:
  "edge_target ` set (mvalues (fold (\<lambda>t. mput (edge_id s t None) (plain_edge t)) ts [])) = set ts"
proof -
  have "set (mvalues (fold (\<lambda>t. mput (edge_id s t None) (plain_edge t)) ts m)) \<subseteq> set (mvalues m) \<union> plain_edge ` set ts" for m
  proof (induction ts arbitrary: m)
    case (Cons t ts)
    show ?case using Cons.IH [of "mput (edge_id s t None) (plain_edge t) m"]
      by (auto dest!: mvalues_mput_D)
  qed simp
  then have "edge_target ` set (mvalues (fold (\<lambda>t. mput (edge_id s t None) (plain_edge t)) ts [])) \<subseteq> set ts"
    by (fastforce simp: mvalues_def plain_edge_def)
  moreover have "u \<in> edge_target ` set (mvalues (fold (\<lambda>t. mput (edge_id s t None) (plain_edge t)) ts []))" if "u \<in> set ts" for u
  proof -
    have "plain_edge u \<in> set (mvalues (fold (\<lambda>t. mput (edge_id s t None) (plain_edge t)) ts []))"
      using plain_fold_get [of s ts "[]" u] that by (force simp: mvalues_def dest: mget_in_set)
    then show ?thesis by (force simp: plain_edge_def)
  qed
  ultimately show ?thesis by blast
qed

definition set_all_from :: "string \<Rightarrow> string list \<Rightarrow> dag \<Rightarrow> dag" where
  "set_all_from s ts d = fold (\<lambda>t d. if has_node d t then set_edge s t None None d else d) ts d"

definition set_all_to :: "string \<Rightarrow> string list \<Rightarrow> dag \<Rightarrow> dag" where
  "set_all_to t ss d = fold (\<lambda>s d. if has_node d s then set_edge s t (terminal_handle s) None d else d) ss d"

lemma has_node_set_all [simp]:
  "has_node (set_all_from s ts d) i = has_node d i" "has_node (set_all_to t ss d) i = has_node d i"
  by (simp_all add: set_all_from_def set_all_to_def has_node_fold)

lemma set_all_from_outgoing:
  assumes "dnode d s = Some n"
  shows "map_option outgoingEdges (dnode (set_all_from s ts d) s) =
     Some (fold (\<lambda>t. mput (edge_id s t None) (plain_edge t)) (filter (has_node d) ts) (outgoingEdges n))"
  using assms
proof (induction ts arbitrary: d n)
  case (Cons t ts)
  show ?case
  proof (cases "has_node d t")
    case True
    obtain n' where n': "dnode (set_edge s t None None d) s = Some n'"
      "outgoingEdges n' = mput (edge_id s t None) (plain_edge t) (outgoingEdges n)"
      using Cons.prems by (cases "s = t") (auto simp: set_edge_def plain_edge_def)
    have "has_node (set_edge s t None None d) = has_node d" by (rule ext) simp
    with Cons.IH [OF n'(1)] n' True show ?thesis by (simp add: set_all_from_def)
  qed (use Cons in \<open>simp add: set_all_from_def\<close>)
qed (simp add: set_all_from_def)

lemma set_all_to_outgoing:
  assumes "s \<notin> set ss"
  shows "map_option outgoingEdges (dnode (set_all_to t ss d) s) = map_option outgoingEdges (dnode d s)"
  using assms
proof (induction ss arbitrary: d)
  case (Cons x ss)
  have "map_option outgoingEdges (dnode (set_edge x t h th d) s) = map_option outgoingEdges (dnode d s)" for h th
    using Cons.prems by (cases "dnode d s") (auto simp: set_edge_def)
  with Cons show ?case by (simp add: set_all_to_def)
qed (simp add: set_all_to_def)

lemma set_all_to_incoming:
  assumes "has_node d t"
  shows "in_sources (set_all_to t ss d) t = in_sources d t \<union> {s \<in> set ss. has_node d s}"
  using assms
proof (induction ss arbitrary: d)
  case (Cons x ss)
  have "in_sources (set_edge x t h th d) t = insert x (in_sources d t)" for h th
    using Cons.prems by (auto simp: has_node_iff set_edge_def in_sources_def)
  with Cons show ?case by (auto simp: set_all_to_def)
qed (simp add: set_all_to_def)

lemma set_all_from_incoming:
  assumes "t \<notin> set ts"
  shows "in_sources (set_all_from s ts d) t = in_sources d t"
  using assms
proof (induction ts arbitrary: d)
  case (Cons x ts)
  have "in_sources (set_edge s x h th d) t = in_sources d t" for h th
    using Cons.prems by (cases "dnode d t") (auto simp: set_edge_def in_sources_def)
  with Cons show ?case by (simp add: set_all_from_def)
qed (simp add: set_all_from_def)

lemma wireSentinelEdges_exact:
  assumes "has_node d (buildParallelSentinelStartId p)" and "has_node d (buildParallelSentinelEndId p)"
    and "buildParallelSentinelStartId p \<notin> set te" and "buildParallelSentinelEndId p \<notin> set en"
    and "buildParallelSentinelStartId p \<noteq> buildParallelSentinelEndId p"
  shows "out_targets (wireSentinelEdges p en te d) (buildParallelSentinelStartId p) = {t \<in> set en. has_node d t}"
    and "in_sources (wireSentinelEdges p en te d) (buildParallelSentinelEndId p) = {s \<in> set te. has_node d s}"
proof -
  let ?sid = "buildParallelSentinelStartId p" and ?eid = "buildParallelSentinelEndId p"
  let ?d1 = "upd_node ?eid (\<lambda>m. m\<lparr>incomingEdges := []\<rparr>) (upd_node ?sid (\<lambda>m. m\<lparr>outgoingEdges := []\<rparr>) d)"
  have w: "wireSentinelEdges p en te d = set_all_to ?eid te (set_all_from ?sid en ?d1)"
    using assms(1,2) by (simp add: wireSentinelEdges_def set_all_from_def set_all_to_def Let_def)
  have h: "has_node ?d1 = has_node d" by (rule ext) simp
  obtain n where n: "dnode ?d1 ?sid = Some n" "outgoingEdges n = []"
    using assms(1,5) by (auto simp: has_node_iff)
  have "map_option outgoingEdges (dnode (wireSentinelEdges p en te d) ?sid) =
      Some (fold (\<lambda>t. mput (edge_id ?sid t None) (plain_edge t)) (filter (has_node d) en) [])"
    unfolding w set_all_to_outgoing [OF assms(3)] using set_all_from_outgoing [OF n(1), of en] n(2) by (simp only: h)
  then show "out_targets (wireSentinelEdges p en te d) ?sid = {t \<in> set en. has_node d t}"
    using plain_fold_values [of ?sid "filter (has_node d) en"] by (auto simp: out_targets_def out_edges_def)
  have "in_sources ?d1 ?eid = {}" by (simp add: in_sources_def split: option.split)
  then have "in_sources (set_all_from ?sid en ?d1) ?eid = {}" using set_all_from_incoming [OF assms(4)] by simp
  then show "in_sources (wireSentinelEdges p en te d) ?eid = {s \<in> set te. has_node d s}"
    unfolding w using assms(2) by (subst set_all_to_incoming) (simp_all add: h)
qed

section \<open>What an expansion promises\<close>

lemma dnode_expand_blocks_frame:
  assumes "k \<notin> set (concat (map (\<lambda>b. map (buildBranchNodeId b) [0..<n]) bs))"
  shows "dnode (fst (fold (expand_block n off tot) bs (d, xs))) k = dnode d k"
  using assms
proof (induction bs arbitrary: d xs)
  case (Cons b bs)
  have "dnode (fst (expand_block n off tot b (d, xs))) k = dnode d k"
    using Cons.prems by (auto simp: expand_block_def dnode_place_branches split: option.split)
  with Cons show ?case by (cases "expand_block n off tot b (d, xs)") auto
qed simp

lemma branch_not_sentinel:
  "buildBranchNodeId b i \<noteq> buildParallelSentinelStartId p" "buildBranchNodeId b i \<noteq> buildParallelSentinelEndId p"
proof -
  have "last (buildBranchNodeId b i) = last BRANCH_SUFFIX" "last (buildParallelSentinelStartId p) = CHR ''t''"
    "last (buildParallelSentinelEndId p) = CHR ''d''"
    by (simp_all add: buildBranchNodeId_def buildParallelSentinelStartId_def buildParallelSentinelEndId_def START_SUFFIX_def
        END_SUFFIX_def BRANCH_SUFFIX_def)
  then show "buildBranchNodeId b i \<noteq> buildParallelSentinelStartId p" "buildBranchNodeId b i \<noteq> buildParallelSentinelEndId p"
    by (auto simp: BRANCH_SUFFIX_def)
qed

lemmas sentinel_not_branch = branch_not_sentinel [THEN not_sym]

lemma sentinel_start_not_end [simp]: "buildParallelSentinelStartId p \<noteq> buildParallelSentinelEndId p"
  by (simp add: buildParallelSentinelStartId_def buildParallelSentinelEndId_def START_SUFFIX_def END_SUFFIX_def)

lemma is_container_wireInternal [simp]: "is_container (wireInternalEdges blocks n off d) b = is_container d b"
  unfolding wireInternalEdges_def
  by (rule fold_fst_invariant [where P = "\<lambda>d'. is_container d' b = is_container d b"]) simp_all

lemma expansion_nodes:
  assumes "expandParallel depth sha p n off tot d = Inr (d', ex)" and "flat_parallel d p"
    and "mget (parallelConfigs d) p = Some cfg" and "par_nodes cfg \<noteq> []" and "distinct (par_nodes cfg)"
    and "\<forall>b \<in> set (par_nodes cfg). has_node d (buildBranchNodeId b 0)"
  shows "(\<forall>b \<in> set (par_nodes cfg). \<forall>T i. dnode d (buildBranchNodeId b 0) = Some T \<and> i < n \<longrightarrow>
        skel d' (buildBranchNodeId b i) = Some (skeleton (branch_copy T b off tot i)))
    \<and> ex_allBranchNodes ex = concat (map (\<lambda>b. map (buildBranchNodeId b) [0..<n]) (par_nodes cfg))
    \<and> (\<forall>k. k \<notin> set (ex_allBranchNodes ex) \<longrightarrow> skel d' k = skel d k)"
proof -
  obtain d1 d3 where x: "fold (expand_block n off tot) (par_nodes cfg) (d, []) = (d1, ex_allBranchNodes ex)"
    "d3 = wireInternalEdges (par_nodes cfg) n off d1"
    "d' = wireSentinelEdges p (ex_entryNodes ex) (ex_terminalNodes ex) d3"
    using flat_expand [OF assms(2-4,1)] by metis
  then have s: "skel d' k = skel d1 k" for k by simp
  have all: "ex_allBranchNodes ex = concat (map (\<lambda>b. map (buildBranchNodeId b) [0..<n]) (par_nodes cfg))"
    using snd_expand_blocks [OF assms(5), of d n off tot "[]"] assms(6) x(1) by simp
  moreover have "skel d' (buildBranchNodeId b i) = Some (skeleton (branch_copy T b off tot i))"
    if "b \<in> set (par_nodes cfg)" "dnode d (buildBranchNodeId b 0) = Some T" "i < n" for b T i
  proof -
    have "dnode d1 (buildBranchNodeId b i) = Some (branch_copy T b off tot i)"
      using dnode_expand_blocks [OF assms(5) that, of off tot "[]"] x(1) by simp
    then show ?thesis unfolding s by (simp add: skel_def)
  qed
  moreover have "skel d' k = skel d k" if "k \<notin> set (ex_allBranchNodes ex)" for k
  proof -
    have "dnode d1 k = dnode d k"
      using dnode_expand_blocks_frame [of k n "par_nodes cfg" off tot d "[]"] that x(1) unfolding all by simp
    then show ?thesis unfolding s by (simp add: skel_def)
  qed
  ultimately show ?thesis by auto
qed

text \<open>
  expanding a parallel whose children are regular blocks gives every branch of the
  batch its own node: a copy of the block's template under the branch's id that knows its
  global branch index and the total. Exactly these nodes are reported, and the expansion
  touches no other node apart from its edges.
\<close>

theorem expandParallel_branch_nodes:
  assumes "expandParallel depth sha p n off tot d = Inr (d', ex)" and "flat_parallel d p"
    and "mget (parallelConfigs d) p = Some cfg" and "par_nodes cfg \<noteq> []" and "distinct (par_nodes cfg)"
    and "\<forall>b \<in> set (par_nodes cfg). has_node d (buildBranchNodeId b 0)"
  shows "(\<forall>b \<in> set (par_nodes cfg). \<forall>T i. dnode d (buildBranchNodeId b 0) = Some T \<and> i < n \<longrightarrow>
        skel d' (buildBranchNodeId b i) = Some (skeleton (branch_copy T b off tot i)))
    \<and> ex_allBranchNodes ex = concat (map (\<lambda>b. map (buildBranchNodeId b) [0..<n]) (par_nodes cfg))
    \<and> (\<forall>k. k \<notin> set (ex_allBranchNodes ex) \<longrightarrow> skel d' k = skel d k)"
  by (rule expansion_nodes [OF assms])

lemma expansion_isolated:
  assumes "expandParallel depth sha p n off tot d = Inr (d', ex)" and "flat_parallel d p"
    and "mget (parallelConfigs d) p = Some cfg" and "par_nodes cfg \<noteq> []" and "distinct (par_nodes cfg)"
    and "\<forall>b \<in> set (par_nodes cfg). has_node d (buildBranchNodeId b 0)" and "wf_dag d"
  shows "wf_dag d' \<and> (\<forall>b \<in> set (par_nodes cfg). \<forall>i < n. out_targets d' (buildBranchNodeId b i) \<subseteq>
      (if i = 0 then out_targets d (buildBranchNodeId b 0) else {}) \<union>
      (\<lambda>c. buildBranchNodeId c i) ` set (par_nodes cfg) \<union> {buildParallelSentinelEndId p})"
proof -
  obtain d1 d3 where x: "fold (expand_block n off tot) (par_nodes cfg) (d, []) = (d1, ex_allBranchNodes ex)"
    "d3 = wireInternalEdges (par_nodes cfg) n off d1"
    "d' = wireSentinelEdges p (ex_entryNodes ex) (ex_terminalNodes ex) d3"
    using flat_expand [OF assms(2-4,1)] by metis
  have "wf_dag d1" using wf_expand_blocks [OF assms(7), of n off tot "par_nodes cfg" "[]"] x(1) by simp
  then have wf: "wf_dag d'" by (simp add: x wf_wireInternalEdges wf_wireSentinelEdges)
  have flat: "\<not> is_container d1 b" if "b \<in> set (par_nodes cfg)" for b
    using that assms(2,3) is_container_expand [of n off tot "par_nodes cfg" "(d, [])" b] x(1)
    by (auto simp: flat_parallel_def list_all_iff)
  have "out_targets d' (buildBranchNodeId b i) \<subseteq>
      (if i = 0 then out_targets d (buildBranchNodeId b 0) else {}) \<union>
      (\<lambda>c. buildBranchNodeId c i) ` set (par_nodes cfg) \<union> {buildParallelSentinelEndId p}"
    if b: "b \<in> set (par_nodes cfg)" "i < n" for b i
  proof -
    obtain T where T: "dnode d (buildBranchNodeId b 0) = Some T" using assms(6) b by (auto simp: has_node_iff)
    have "out_targets d1 (buildBranchNodeId b i) = (if i = 0 then out_targets d (buildBranchNodeId b 0) else {})"
      using dnode_expand_blocks [OF assms(5) b(1) T b(2), of off tot "[]"] x(1) T
      by (simp add: out_targets_def branch_copy_def updateBranchMetadata_def cloneTemplateNode_def out_edges_def mvalues_def)
    then show ?thesis
      using wireSentinelEdges_targets [where d = d3 and p = p and en = "ex_entryNodes ex" and te = "ex_terminalNodes ex", OF branch_not_sentinel(1) [of b i p]]
        wireInternalEdges_targets [where blocks = "par_nodes cfg" and d = d1 and n = n and off = off and b = b and i = i, OF flat] x(2,3) by auto
  qed
  with wf show ?thesis by blast
qed


text \<open>
  after an expansion the start sentinel leads exactly to the entries of the branches and
  the end sentinel waits for exactly their exits; both are nodes of branches of this batch.
\<close>

theorem expandParallel_sentinels:
  assumes "expandParallel depth sha p n off tot d = Inr (d', ex)" and "flat_parallel d p"
    and "mget (parallelConfigs d) p = Some cfg" and "par_nodes cfg \<noteq> []" and "distinct (par_nodes cfg)"
    and "\<forall>b \<in> set (par_nodes cfg). has_node d (buildBranchNodeId b 0)"
    and "has_node d (buildParallelSentinelStartId p)" and "has_node d (buildParallelSentinelEndId p)"
  shows "out_targets d' (buildParallelSentinelStartId p) = set (ex_entryNodes ex)
    \<and> in_sources d' (buildParallelSentinelEndId p) = set (ex_terminalNodes ex)
    \<and> set (ex_entryNodes ex) \<union> set (ex_terminalNodes ex) \<subseteq> set (ex_allBranchNodes ex)"
proof -
  obtain d1 d3 where x: "fold (expand_block n off tot) (par_nodes cfg) (d, []) = (d1, ex_allBranchNodes ex)"
    "d3 = wireInternalEdges (par_nodes cfg) n off d1"
    "(ex_entryNodes ex, ex_terminalNodes ex) = identifyBoundaryNodes d3 (par_nodes cfg) n off"
    "d' = wireSentinelEdges p (ex_entryNodes ex) (ex_terminalNodes ex) d3"
    using flat_expand [OF assms(2-4,1)] by metis
  have all: "ex_allBranchNodes ex = concat (map (\<lambda>b. map (buildBranchNodeId b) [0..<n]) (par_nodes cfg))"
    using snd_expand_blocks [OF assms(5), of d n off tot "[]"] assms(6) x(1) by simp
  have flat: "\<not> is_container d3 b" if "b \<in> set (par_nodes cfg)" for b
    using that assms(2,3) is_container_expand [of n off tot "par_nodes cfg" "(d, [])" b] x(1)
    by (auto simp: flat_parallel_def list_all_iff x(2) is_container_wireInternal)
  have sub: "set (ex_entryNodes ex) \<union> set (ex_terminalNodes ex) \<subseteq> set (ex_allBranchNodes ex)"
    using x(3) flat by (auto simp: identifyBoundaryNodes_def boundary_ids_def Let_def all split: if_splits)
  have h: "has_node d3 k" if "has_node d k \<or> k \<in> set (ex_allBranchNodes ex)" for k
  proof -
    have "dnode d1 k \<noteq> None"
    proof (cases "k \<in> set (ex_allBranchNodes ex)")
      case True
      then obtain b i where b: "b \<in> set (par_nodes cfg)" "i < n" "k = buildBranchNodeId b i" by (auto simp: all)
      obtain T where "dnode d (buildBranchNodeId b 0) = Some T" using assms(6) b(1) by (auto simp: has_node_iff)
      with dnode_expand_blocks [OF assms(5) b(1) _ b(2)] x(1) b(3) show ?thesis by (metis fst_conv option.distinct(1))
    next
      case False
      with dnode_expand_blocks_frame [of k n "par_nodes cfg" off tot d "[]"] that x(1) show ?thesis
        unfolding all by (simp add: has_node_iff)
    qed
    then have "skel d1 k \<noteq> None" by (simp add: skel_def)
    then have "skel d3 k \<noteq> None" by (simp add: x(2))
    then show ?thesis by (auto simp: skel_def has_node_iff)
  qed
  have no: "buildParallelSentinelStartId p \<notin> set (ex_allBranchNodes ex)" "buildParallelSentinelEndId p \<notin> set (ex_allBranchNodes ex)"
    by (auto simp: all sentinel_not_branch)
  have prem: "has_node d3 (buildParallelSentinelStartId p)" "has_node d3 (buildParallelSentinelEndId p)"
    "buildParallelSentinelStartId p \<notin> set (ex_terminalNodes ex)" "buildParallelSentinelEndId p \<notin> set (ex_entryNodes ex)"
    using h assms(7,8) sub no by auto
  have "out_targets d' (buildParallelSentinelStartId p) = {t \<in> set (ex_entryNodes ex). has_node d3 t}"
    "in_sources d' (buildParallelSentinelEndId p) = {s \<in> set (ex_terminalNodes ex). has_node d3 s}"
    unfolding x(4) by (rule wireSentinelEdges_exact [OF prem sentinel_start_not_end])+
  then show ?thesis using sub h by auto
qed

lemma skel_node:
  assumes "skel d k = Some n"
  obtains m where "dnode d k = Some m" "metadata m = metadata n" "node_block m = node_block n"
proof -
  from assms obtain m where m: "dnode d k = Some m" "n = skeleton m" by (auto simp: skel_def)
  show thesis by (rule that [OF m(1)]) (simp_all add: m(2) skeleton_def)
qed

section \<open>Witnesses\<close>

text \<open>A parallel \<open>P\<close> around \<open>a \<rightarrow> b\<close>, expanded for two branches (the global branches 4 and 5 of 6).\<close>

definition demo_parallel :: "string list \<Rightarrow> sparallel" where
  "demo_parallel nodes = \<lparr>par_nodes = nodes, par_distribution = JUndef, par_count = Some 6,
     par_type = Some ''count'', par_batchSize = None\<rparr>"

definition fan_dag :: dag where
  "fan_dag = \<lparr>dag_nodes = [
      demo_node (buildParallelSentinelStartId ''P'') [] [(buildBranchNodeId ''a'' 0, ''s'')] no_meta,
      demo_node (buildBranchNodeId ''a'' 0) [] [(buildBranchNodeId ''b'' 0, ''s'')] no_meta,
      demo_node (buildBranchNodeId ''b'' 0) [] [(buildParallelSentinelEndId ''P'', ''s'')] no_meta,
      demo_node (buildParallelSentinelEndId ''P'') [] [] no_meta],
     loopConfigs = [], parallelConfigs = [(''P'', demo_parallel [''a'', ''b''])]\<rparr>"

definition fan_result :: "dag \<times> expansion" where
  "fan_result = (case expandParallel 1 id ''P'' 2 4 6 fan_dag of Inr r \<Rightarrow> r | Inl _ \<Rightarrow> (fan_dag, \<lparr>ex_entryNodes = [],
     ex_terminalNodes = [], ex_allBranchNodes = [], ex_clonedSubflows = []\<rparr>))"

lemma fan_ok: "\<not> isl (expandParallel 1 id ''P'' 2 4 6 fan_dag)"
  by code_simp

lemma fan_values: "par_nodes (demo_parallel [''a'', ''b'']) = [''a'', ''b'']"
  by (simp add: demo_parallel_def)

lemma fan_has:
  "has_node fan_dag (buildBranchNodeId ''a'' 0)" "has_node fan_dag (buildBranchNodeId ''b'' 0)"
  "has_node fan_dag (buildParallelSentinelStartId ''P'')" "has_node fan_dag (buildParallelSentinelEndId ''P'')"
  by code_simp+

lemma fan_configs: "loopConfigs fan_dag = []" "parallelConfigs fan_dag = [(''P'', demo_parallel [''a'', ''b''])]"
  by (simp_all add: fan_dag_def)

lemma fan_facts:
  "expandParallel 1 id ''P'' 2 4 6 fan_dag = Inr (fst fan_result, snd fan_result)"
  "flat_parallel fan_dag ''P''"
  "mget (parallelConfigs fan_dag) ''P'' = Some (demo_parallel [''a'', ''b''])"
  "par_nodes (demo_parallel [''a'', ''b'']) \<noteq> []" "distinct (par_nodes (demo_parallel [''a'', ''b'']))"
  "\<forall>b \<in> set (par_nodes (demo_parallel [''a'', ''b''])). has_node fan_dag (buildBranchNodeId b 0)"
  "has_node fan_dag (buildParallelSentinelStartId ''P'')" "has_node fan_dag (buildParallelSentinelEndId ''P'')"
  using fan_ok fan_has
  by (auto simp: fan_result_def fan_values fan_configs flat_parallel_def is_container_def isl_def split: sum.split)

lemma fan_wf: "wf_dag fan_dag"
  by (rule wf_dag_check; code_simp)

theorem expandParallel_branch_nodes_witness:
  "ex_allBranchNodes (snd fan_result) =
     [buildBranchNodeId ''a'' 0, buildBranchNodeId ''a'' 1, buildBranchNodeId ''b'' 0, buildBranchNodeId ''b'' 1]"
  using expandParallel_branch_nodes [OF fan_facts(1-6)] by (simp add: fan_values upt_rec)


theorem expandParallel_sentinels_witness:
  "out_targets (fst fan_result) (buildParallelSentinelStartId ''P'') = {buildBranchNodeId ''a'' 0, buildBranchNodeId ''a'' 1}"
proof -
  have "ex_entryNodes (snd fan_result) = [buildBranchNodeId ''a'' 0, buildBranchNodeId ''a'' 1]" by code_simp
  with expandParallel_sentinels [OF fan_facts] show ?thesis by simp
qed

end
