(* ===== verification/ParallelOrch.thy ===== *)
theory ParallelOrch
  imports Expansion
begin

text \<open>
  \<open>ParallelOrchestrator\<close> (\<open>executor/orchestrators/parallel.ts\<close>): the scope of a running
  parallel, the preparation of a batch of branches, the collection of their outputs and the
  step from one batch to the next. The \<open>id\<close> field of a parallel's configuration is its key in
  the configuration table. Batch sizes and counts are integers; the error log and the
  success events are not part of the model.
\<close>

definition DEFAULT_PARALLEL_BATCH_SIZE :: int where "DEFAULT_PARALLEL_BATCH_SIZE = 20"

definition MAX_PARALLEL_BRANCHES :: int where "MAX_PARALLEL_BRANCHES = 20"

section \<open>Starting a parallel\<close>

record branch_plan =
  bp_branchCount :: int
  bp_items :: "jval list option"
  bp_isEmpty :: bool

definition empty_distribution_message :: string where
  "empty_distribution_message = ''Parallel collection distribution is empty. '' @
     ''Provide an array or a reference that resolves to a collection.''"

definition parallel_no_blocks_message :: string where
  "parallel_no_blocks_message = ''Parallel has no executable blocks inside. '' @
     ''Add or enable at least one block in the parallel.''"

definition new_parallel_scope :: "int \<Rightarrow> parallel_scope" where
  "new_parallel_scope n = \<lparr>ps_totalBranches = n, ps_batchSize = None, ps_currentBatchStart = None,
     ps_currentBatchSize = None, ps_accumulated = [], ps_branchOutputs = [], ps_items = None,
     ps_validationError = None, ps_isEmpty = False\<rparr>"

definition setErrorScope :: "string \<Rightarrow> string \<Rightarrow> world \<Rightarrow> world" where
  "setErrorScope parallelId msg w =
     put_parallel parallelId ((new_parallel_scope 0)\<lparr>ps_items := Some [], ps_validationError := Some msg\<rparr>) w"

definition resolveDistributionItems :: "exec_env \<Rightarrow> world \<Rightarrow> string \<Rightarrow> sparallel \<Rightarrow> string + jval list" where
  "resolveDistributionItems env w parallelId cfg =
     (if no_items (par_distribution cfg) then Inl empty_distribution_message
      else resolveArray env w (par_distribution cfg) (buildParallelSentinelStartId parallelId))"

definition resolveBranchCount :: "exec_env \<Rightarrow> world \<Rightarrow> string \<Rightarrow> sparallel \<Rightarrow> string + branch_plan" where
  "resolveBranchCount env w parallelId cfg =
     (if par_type cfg = Some ''count'' then
        Inr \<lparr>bp_branchCount = (case par_count cfg of None \<Rightarrow> 1 | Some n \<Rightarrow> n), bp_items = None, bp_isEmpty = False\<rparr>
      else case resolveDistributionItems env w parallelId cfg of
             Inl e \<Rightarrow> Inl e
           | Inr items \<Rightarrow>
               if items = [] then Inr \<lparr>bp_branchCount = 0, bp_items = Some [], bp_isEmpty = True\<rparr>
               else Inr \<lparr>bp_branchCount = int (length items), bp_items = Some items, bp_isEmpty = False\<rparr>)"

text \<open>An absent batch size is printed and parsed as a number, which gives \<open>NaN\<close>.\<close>

definition resolveBatchSize :: "int option \<Rightarrow> int" where
  "resolveBatchSize b =
     (case b of None \<Rightarrow> DEFAULT_PARALLEL_BATCH_SIZE | Some n \<Rightarrow> max 1 (min MAX_PARALLEL_BRANCHES n))"

definition distribution_error_message :: "string \<Rightarrow> string" where
  "distribution_error_message e =
     (if starts_with e ''Parallel collection distribution is empty'' then e
      else ''Parallel Items did not resolve: '' @ e)"

definition batch_scope :: "sparallel \<Rightarrow> branch_plan \<Rightarrow> parallel_scope" where
  "batch_scope cfg pl =
     (let batchSize = resolveBatchSize (par_batchSize cfg)
      in (new_parallel_scope (bp_branchCount pl))\<lparr>ps_batchSize := Some batchSize, ps_currentBatchStart := Some 0,
           ps_currentBatchSize := Some (min batchSize (bp_branchCount pl)), ps_items := bp_items pl\<rparr>)"

definition initializeParallelScope ::
  "exec_env \<Rightarrow> string \<Rightarrow> world \<Rightarrow> (run_error + parallel_scope) \<times> world" where
  "initializeParallelScope env parallelId w =
     (case mget (parallelConfigs (w_dag w)) parallelId of
        None \<Rightarrow> (Inl (ParallelConfigMissing parallelId), w)
      | Some cfg \<Rightarrow>
          if par_nodes cfg = [] then
            (Inl (ParallelHasNoBlocks parallelId), setErrorScope parallelId parallel_no_blocks_message w)
          else case resolveBranchCount env w parallelId cfg of
                 Inl e \<Rightarrow> (Inl (ParallelUnresolved parallelId), setErrorScope parallelId (distribution_error_message e) w)
               | Inr pl \<Rightarrow>
                   (let s = (if bp_isEmpty pl \<or> bp_branchCount pl = 0
                             then (new_parallel_scope 0)\<lparr>ps_items := Some [], ps_isEmpty := True\<rparr>
                             else batch_scope cfg pl)
                    in (Inr s, put_parallel parallelId s w)))"

definition getParallelScope :: "world \<Rightarrow> string \<Rightarrow> parallel_scope option" where
  "getParallelScope w i = mget (w_parallels w) i"

section \<open>The nodes of a nested container\<close>

text \<open>\<open>collectSubflowNodeIds\<close> adds the ids of a container to a set: the recursion over the
  children, which shares a set of visited containers, is a stack of tasks.\<close>

datatype subflow_task = Container string | Leaf string

definition subflow_children :: "dag \<Rightarrow> string \<Rightarrow> subflow_task list" where
  "subflow_children d i =
     (if mhas (parallelConfigs d) i then
        (case mget (parallelConfigs d) i of None \<Rightarrow> [] | Some cfg \<Rightarrow>
           map (\<lambda>c. if is_container d c then Container c else Leaf (buildBranchNodeId c 0)) (par_nodes cfg))
      else (case mget (loopConfigs d) i of None \<Rightarrow> [] | Some cfg \<Rightarrow>
           map (\<lambda>c. if is_container d c then Container c else Leaf c) (loop_nodes cfg)))"

definition subflow_sentinels :: "dag \<Rightarrow> string \<Rightarrow> string list" where
  "subflow_sentinels d i =
     (if mhas (parallelConfigs d) i then [buildParallelSentinelStartId i, buildParallelSentinelEndId i]
      else if mhas (loopConfigs d) i then [buildSentinelStartId i, buildSentinelEndId i] else [])"

definition pending_subflows :: "dag \<Rightarrow> subflow_task list \<Rightarrow> string list \<Rightarrow> string set" where
  "pending_subflows d ts V = (container_ids d \<union> {i. Container i \<in> set ts}) - set V"

lemma finite_pending_subflows [simp]: "finite (pending_subflows d ts V)"
proof -
  have "{i. Container i \<in> set ts} = (\<lambda>t. case t of Container i \<Rightarrow> i | Leaf i \<Rightarrow> i) ` {t \<in> set ts. \<exists>i. t = Container i}"
    by force
  then show ?thesis by (simp add: pending_subflows_def)
qed

lemma children_are_containers: "Container c \<in> set (subflow_children d i) \<Longrightarrow> c \<in> container_ids d"
  by (auto simp: subflow_children_def container_ids_def is_container_def split: if_splits option.splits)

function subflow_run :: "dag \<Rightarrow> subflow_task list \<Rightarrow> string list \<Rightarrow> string list \<Rightarrow> string list" where
  "subflow_run d [] V R = R"
| "subflow_run d (Leaf i # ts) V R = subflow_run d ts V (sadd i R)"
| "subflow_run d (Container i # ts) V R =
     (if i \<in> set V then subflow_run d ts V R
      else subflow_run d (subflow_children d i @ ts) (V @ [i]) (sadds (subflow_sentinels d i) R))"
  by pat_completeness auto
termination
proof (relation "inv_image (less_than <*lex*> less_than) (\<lambda>(d, ts, V, R). (card (pending_subflows d ts V), length ts))",
    goal_cases)
  case (2 d i ts V R)
  have "pending_subflows d ts V = pending_subflows d (Leaf i # ts) V" by (auto simp: pending_subflows_def)
  then show ?case by simp
next
  case (3 d i ts V R)
  have "pending_subflows d (Container i # ts) V = pending_subflows d ts V"
    using 3 by (auto simp: pending_subflows_def)
  then show ?case by simp
next
  case (4 d i ts V R)
  have "pending_subflows d (subflow_children d i @ ts) (V @ [i]) \<subset> pending_subflows d (Container i # ts) V"
    using 4 children_are_containers by (auto simp: pending_subflows_def)
  then have "card (pending_subflows d (subflow_children d i @ ts) (V @ [i])) < card (pending_subflows d (Container i # ts) V)"
    by (rule psubset_card_mono [rotated]) simp
  then show ?case by simp
qed auto

definition collectSubflowNodeIds :: "dag \<Rightarrow> string \<Rightarrow> string list \<Rightarrow> string list" where
  "collectSubflowNodeIds d subflowId nodeIds = subflow_run d [Container subflowId] [] nodeIds"

section \<open>Preparing a batch\<close>

definition markRunFromBlockBatchDirty :: "string \<Rightarrow> expansion \<Rightarrow> world \<Rightarrow> world" where
  "markRunFromBlockBatchDirty parallelId ex w =
     (case w_dirty w of
        None \<Rightarrow> w
      | Some dirty \<Rightarrow>
          if parallelId \<notin> set dirty \<and> buildParallelSentinelStartId parallelId \<notin> set dirty \<and>
             buildParallelSentinelEndId parallelId \<notin> set dirty then w
          else
            (let d = w_dag w;
                 children = (case mget (parallelConfigs d) parallelId of None \<Rightarrow> [] | Some cfg \<Rightarrow> par_nodes cfg);
                 d1 = sadds (ex_allBranchNodes ex @ ex_entryNodes ex @ ex_terminalNodes ex) dirty;
                 d2 = fold (collectSubflowNodeIds d) (filter (is_container d) children) d1;
                 d3 = fold (\<lambda>c ids. collectSubflowNodeIds d (ci_clonedId c) (sadd (ci_clonedId c) ids))
                        (ex_clonedSubflows ex) d2
             in w\<lparr>w_dirty := Some d3\<rparr>))"

definition branch_clone_map :: "cloned_info list \<Rightarrow> nat \<Rightarrow> (string, string) jsmap" where
  "branch_clone_map clones outer =
     fold (\<lambda>c m. if ci_outerBranchIndex c = outer then mput (ci_originalId c) (ci_clonedId c) m else m) clones []"

definition clone_parent :: "string \<Rightarrow> cloned_info list \<Rightarrow> (string, parent_entry) jsmap \<Rightarrow> cloned_info \<Rightarrow> parent_entry" where
  "clone_parent parallelId clones parents c =
     (let outer = \<lparr>pe_parentId = parallelId, pe_parentType = SubParallel,
                   pe_branchIndex = Some (int (ci_outerBranchIndex c))\<rparr>
      in case mget parents (ci_originalId c) of
           None \<Rightarrow> outer
         | Some e \<Rightarrow>
             (case mget (branch_clone_map clones (ci_outerBranchIndex c)) (pe_parentId e) of
                None \<Rightarrow> outer
              | Some i \<Rightarrow> if i = [] then outer
                          else \<lparr>pe_parentId = i, pe_parentType = pe_parentType e, pe_branchIndex = Some 0\<rparr>))"

definition registerClonedSubflows :: "string \<Rightarrow> cloned_info list \<Rightarrow> world \<Rightarrow> world" where
  "registerClonedSubflows parallelId clones w =
     w\<lparr>w_parents := fold (\<lambda>c parents. mput (ci_clonedId c) (clone_parent parallelId clones parents c) parents)
                      clones (w_parents w)\<rparr>"

text \<open>The index of a branch node: its metadata, or else the number in its id.\<close>

definition node_branch_index :: "dag \<Rightarrow> string \<Rightarrow> int option" where
  "node_branch_index d nodeId =
     (case (case dnode d nodeId of None \<Rightarrow> None | Some n \<Rightarrow> m_branchIndex (metadata n)) of
        Some i \<Rightarrow> Some (int i)
      | None \<Rightarrow> map_option int (extractBranchIndex nodeId))"

definition branch_entry :: "dag \<Rightarrow> string \<Rightarrow> string \<Rightarrow> int \<Rightarrow> branch_mapping" where
  "branch_entry d parallelId nodeId i =
     \<lparr>bm_originalBlockId = (case (case dnode d nodeId of None \<Rightarrow> None | Some n \<Rightarrow> m_originalBlockId (metadata n)) of
                             Some b \<Rightarrow> b | None \<Rightarrow> extractBaseBlockId nodeId),
      bm_parallelId = parallelId, bm_iterationIndex = i\<rparr>"

definition registerBranchMappings :: "string \<Rightarrow> string list \<Rightarrow> world \<Rightarrow> world" where
  "registerBranchMappings parallelId nodeIds w =
     w\<lparr>w_mapping := fold (\<lambda>n m. case node_branch_index (w_dag w) n of
                                 None \<Rightarrow> m
                               | Some i \<Rightarrow> mput n (branch_entry (w_dag w) parallelId n i) m)
                      nodeIds (w_mapping w)\<rparr>"

definition is_branch_node :: "dag \<Rightarrow> string \<Rightarrow> bool" where
  "is_branch_node d nodeId =
     (case dnode d nodeId of None \<Rightarrow> False | Some n \<Rightarrow> m_isParallelBranch (metadata n))"

definition resetBatchExecutionState :: "string list \<Rightarrow> world \<Rightarrow> world" where
  "resetBatchExecutionState nodeIds w =
     upd_state (fold (\<lambda>i st. deleteBlockState i (unmarkExecuted i st)) (filter (is_branch_node (w_dag w)) nodeIds)) w"

definition current_batch_start :: "parallel_scope \<Rightarrow> int" where
  "current_batch_start s = (case ps_currentBatchStart s of None \<Rightarrow> 0 | Some i \<Rightarrow> i)"

definition batch_size :: "parallel_scope \<Rightarrow> int" where
  "batch_size s = (case ps_batchSize s of None \<Rightarrow> DEFAULT_PARALLEL_BATCH_SIZE | Some b \<Rightarrow> b)"

definition prepared_batch_size :: "parallel_scope \<Rightarrow> int" where
  "prepared_batch_size s =
     (case ps_currentBatchSize s of Some n \<Rightarrow> n | None \<Rightarrow> min (batch_size s) (ps_totalBranches s))"

definition adopt_expansion :: "string \<Rightarrow> dag \<Rightarrow> expansion \<Rightarrow> world \<Rightarrow> world" where
  "adopt_expansion parallelId d ex w =
     (let w1 = markRunFromBlockBatchDirty parallelId ex (upd_dag (\<lambda>_. d) w);
          w2 = registerClonedSubflows parallelId (ex_clonedSubflows ex) w1;
          w3 = registerBranchMappings parallelId (ex_allBranchNodes ex) w2;
          w4 = resetBatchExecutionState (ex_allBranchNodes ex) w3
      in w4\<lparr>w_em := clearDeactivatedEdgesForNodes (ex_allBranchNodes ex) (w_em w4)\<rparr>)"

definition prepareCurrentBatch :: "nat \<Rightarrow> exec_env \<Rightarrow> string \<Rightarrow> world \<Rightarrow> (run_error + unit) \<times> world" where
  "prepareCurrentBatch depth env parallelId w =
     (case getParallelScope w parallelId of
        None \<Rightarrow> (Inr (), w)
      | Some s \<Rightarrow>
          if ps_isEmpty s \<or> prepared_batch_size s \<le> 0 then (Inr (), w)
          else case expandParallel depth (sha256Hex env) parallelId (nat (prepared_batch_size s))
                      (nat (current_batch_start s)) (nat (ps_totalBranches s)) (w_dag w) of
                 Inl e \<Rightarrow> (Inl e, w)
               | Inr (d, ex) \<Rightarrow> (Inr (), adopt_expansion parallelId d ex w))"

section \<open>Collecting the outputs\<close>

definition completed_branch :: "string \<Rightarrow> string \<Rightarrow> int option \<Rightarrow> world \<Rightarrow> int option" where
  "completed_branch parallelId nodeId override w =
     (case override of
        Some i \<Rightarrow> Some i
      | None \<Rightarrow>
          (case mget (w_mapping w) nodeId of
             Some m \<Rightarrow> if bm_parallelId m = parallelId then Some (bm_iterationIndex m)
                       else node_branch_index (w_dag w) nodeId
           | None \<Rightarrow> node_branch_index (w_dag w) nodeId))"

definition push_output :: "int \<Rightarrow> jval \<Rightarrow> (int, jval list) jsmap \<Rightarrow> (int, jval list) jsmap" where
  "push_output i out m = mput i ((case mget m i of None \<Rightarrow> [] | Some outs \<Rightarrow> outs) @ [out]) m"

definition handleParallelBranchCompletion ::
  "string \<Rightarrow> string \<Rightarrow> jobj \<Rightarrow> int option \<Rightarrow> world \<Rightarrow> world" where
  "handleParallelBranchCompletion parallelId nodeId out override w =
     (case getParallelScope w parallelId of
        None \<Rightarrow> w
      | Some s \<Rightarrow>
          (case completed_branch parallelId nodeId override w of
             None \<Rightarrow> w
           | Some i \<Rightarrow> put_parallel parallelId (s\<lparr>ps_branchOutputs := push_output i (JObj out) (ps_branchOutputs s)\<rparr>) w))"

record parallel_aggregation =
  pa_allBranchesComplete :: bool
  pa_results :: "jval list option"
  pa_completedBranches :: "int option"
  pa_totalBranches :: "int option"

definition advanceToNextBatch :: "int \<Rightarrow> parallel_scope \<Rightarrow> parallel_scope" where
  "advanceToNextBatch nextBatchStart s =
     s\<lparr>ps_currentBatchStart := Some nextBatchStart,
       ps_currentBatchSize := Some (min (batch_size s) (ps_totalBranches s - nextBatchStart))\<rparr>"

definition accumulate :: "parallel_scope \<Rightarrow> parallel_scope" where
  "accumulate s =
     s\<lparr>ps_accumulated := fold (\<lambda>(i, outs). mput i (JArr outs)) (ps_branchOutputs s) (ps_accumulated s),
       ps_branchOutputs := []\<rparr>"

definition or_empty :: "jval option \<Rightarrow> jval" where
  "or_empty v = (case v of None \<Rightarrow> JArr [] | Some x \<Rightarrow> if x = JUndef \<or> x = JNull then JArr [] else x)"

definition compact_accumulated :: "exec_env \<Rightarrow> (int, jval) jsmap \<Rightarrow> (int, jval) jsmap" where
  "compact_accumulated env acc =
     (let ks = sort (mkeys acc)
      in fold (\<lambda>(k, v). mput k v) (zip ks (compactSubflowResults env (map (\<lambda>k. or_empty (mget acc k)) ks))) acc)"

definition next_batch_start :: "parallel_scope \<Rightarrow> int" where
  "next_batch_start s = current_batch_start s +
     (case ps_currentBatchSize s of None \<Rightarrow> ps_totalBranches s | Some n \<Rightarrow> n)"

definition branch_results :: "exec_env \<Rightarrow> parallel_scope \<Rightarrow> jval list" where
  "branch_results env s =
     compactSubflowResults env (map (\<lambda>i. or_empty (mget (ps_accumulated s) i)) [0..ps_totalBranches s - 1])"

definition aggregateParallelResults :: "exec_env \<Rightarrow> string \<Rightarrow> world \<Rightarrow> parallel_aggregation \<times> world" where
  "aggregateParallelResults env parallelId w =
     (case getParallelScope w parallelId of
        None \<Rightarrow> (\<lparr>pa_allBranchesComplete = False, pa_results = None, pa_completedBranches = None,
                  pa_totalBranches = None\<rparr>, w)
      | Some s0 \<Rightarrow>
          (let s = accumulate s0
           in if next_batch_start s < ps_totalBranches s then
                (let acc = (if ps_accumulated s = [] then [] else compact_accumulated env (ps_accumulated s))
                 in (\<lparr>pa_allBranchesComplete = False, pa_results = None,
                      pa_completedBranches = Some (int (length acc)), pa_totalBranches = Some (ps_totalBranches s)\<rparr>,
                     put_parallel parallelId (advanceToNextBatch (next_batch_start s) (s\<lparr>ps_accumulated := acc\<rparr>)) w))
              else
                (let results = branch_results env s
                 in (\<lparr>pa_allBranchesComplete = True, pa_results = Some results,
                      pa_completedBranches = Some (ps_totalBranches s), pa_totalBranches = Some (ps_totalBranches s)\<rparr>,
                     put_parallel parallelId (s\<lparr>ps_accumulated := []\<rparr>)
                       (upd_state (setBlockOutput False parallelId [(''results'', JArr results)] 0 None) w)))))"

definition prepareForBatchContinuation :: "string \<Rightarrow> world \<Rightarrow> world" where
  "prepareForBatchContinuation parallelId w =
     upd_state (deleteBlockState (buildParallelSentinelEndId parallelId) \<circ>
                unmarkExecuted (buildParallelSentinelEndId parallelId) \<circ>
                unmarkExecuted (buildParallelSentinelStartId parallelId)) w"

record branch_metadata =
  br_branchIndex :: int
  br_branchTotal :: nat
  br_parallelId :: string

definition extractBranchMetadata :: "world \<Rightarrow> string \<Rightarrow> branch_metadata option" where
  "extractBranchMetadata w nodeId =
     (case dnode (w_dag w) nodeId of
        None \<Rightarrow> None
      | Some n \<Rightarrow>
          if \<not> m_isParallelBranch (metadata n) then None
          else (case node_branch_index (w_dag w) nodeId of
                  None \<Rightarrow> None
                | Some i \<Rightarrow>
                    (case (if m_subflowType (metadata n) = Some SubParallel then m_subflowId (metadata n) else None) of
                       None \<Rightarrow> None
                     | Some p \<Rightarrow> if p = [] then None
                                 else Some \<lparr>br_branchIndex = i, br_branchTotal = (case m_branchTotal (metadata n) of
                                               None \<Rightarrow> 1 | Some t \<Rightarrow> t), br_parallelId = p\<rparr>)))"

section \<open>The batches of a run\<close>

text \<open>
  A run of a parallel alternates between a body, which prepares the batch and executes its
  branches, and the aggregation at the end sentinel. \<open>delivers\<close> is all a body has to do with
  the scope: it appends the outputs \<open>xs\<close> (pairs of a branch index and an output).
\<close>

definition push_all :: "(int \<times> jval) list \<Rightarrow> (int, jval list) jsmap \<Rightarrow> (int, jval list) jsmap" where
  "push_all xs = fold (\<lambda>(i, v). push_output i v) xs"

definition delivers :: "string \<Rightarrow> (world \<Rightarrow> world) \<Rightarrow> (int \<times> jval) list \<Rightarrow> bool" where
  "delivers p f xs \<longleftrightarrow> (\<forall>w s. getParallelScope w p = Some s \<longrightarrow>
     getParallelScope (f w) p = Some (s\<lparr>ps_branchOutputs := push_all xs (ps_branchOutputs s)\<rparr>))"

lemma delivers_comp: "delivers p f xs \<Longrightarrow> delivers p g ys \<Longrightarrow> delivers p (g \<circ> f) (xs @ ys)"
  by (fastforce simp: delivers_def push_all_def)

lemma delivers_id: "delivers p id []"
  by (simp add: delivers_def push_all_def)

lemma delivers_completion: "delivers p (handleParallelBranchCompletion p n out (Some i)) [(i, JObj out)]"
  by (simp add: delivers_def push_all_def handleParallelBranchCompletion_def completed_branch_def getParallelScope_def)

lemma w_parallels_adopt [simp]: "w_parallels (adopt_expansion p d ex w) = w_parallels w"
  by (simp add: adopt_expansion_def Let_def resetBatchExecutionState_def registerBranchMappings_def
      registerClonedSubflows_def markRunFromBlockBatchDirty_def upd_dag_def upd_state_def split: option.split)

lemma delivers_prepare: "delivers p (\<lambda>w. snd (prepareCurrentBatch depth env p w)) []"
  by (auto simp: delivers_def push_all_def prepareCurrentBatch_def getParallelScope_def split: option.split sum.split)

definition batch_range :: "parallel_scope \<Rightarrow> int list" where
  "batch_range s = [current_batch_start s..current_batch_start s + prepared_batch_size s - 1]"

fun run_batches ::
  "exec_env \<Rightarrow> string \<Rightarrow> (world \<Rightarrow> world) list \<Rightarrow> world \<Rightarrow> (int list list \<times> parallel_aggregation \<times> world) option" where
  "run_batches env p [] w = None"
| "run_batches env p (f # fs) w =
     (case getParallelScope w p of
        None \<Rightarrow> None
      | Some s \<Rightarrow>
          (let (r, w') = aggregateParallelResults env p (f w)
           in if pa_allBranchesComplete r then Some ([batch_range s], r, w')
              else map_option (\<lambda>(bs, x). (batch_range s # bs, x)) (run_batches env p fs w')))"

section \<open>Outputs and their storage\<close>

definition outs_of :: "int \<Rightarrow> (int \<times> jval) list \<Rightarrow> jval list" where
  "outs_of i xs = map snd (filter (\<lambda>(j, v). j = i) xs)"

lemma outs_of_simps [simp]:
  "outs_of i [] = []" "outs_of i ((j, v) # xs) = (if j = i then v # outs_of i xs else outs_of i xs)"
  "outs_of i (xs @ ys) = outs_of i xs @ outs_of i ys"
  by (simp_all add: outs_of_def)

lemma mproper_push_all: "mproper m \<Longrightarrow> mproper (push_all xs m)"
  by (induction xs arbitrary: m) (auto simp: push_all_def push_output_def)

lemma mget_push_all:
  "mget (push_all xs m) i =
     (if outs_of i xs = [] then mget m i
      else Some ((case mget m i of None \<Rightarrow> [] | Some outs \<Rightarrow> outs) @ outs_of i xs))"
proof (induction xs arbitrary: m)
  case (Cons x xs)
  obtain j v where x: "x = (j, v)" by fastforce
  have "push_all (x # xs) m = push_all xs (push_output j v m)" by (simp add: push_all_def x)
  then show ?case using Cons.IH [of "push_output j v m"] by (simp add: x push_output_def split: option.split)
qed (simp add: push_all_def)

lemma mget_put_all:
  assumes "mproper m"
  shows "mget (fold (\<lambda>(i, v). mput i (g v)) m acc) k = (case mget m k of Some v \<Rightarrow> Some (g v) | None \<Rightarrow> mget acc k)"
  using assms
proof (induction m arbitrary: acc)
  case (Cons x m)
  obtain i v where x: "x = (i, v)" by fastforce
  from Cons.prems x have m: "mproper m" "mget m i = None"
    by (auto simp: mproper_def mget_def map_of_eq_None_iff)
  show ?case using Cons.IH [OF m(1), of "mput i (g v) acc"] m(2) by (auto simp: x split: option.split)
qed simp

lemma mproper_put_all: "mproper acc \<Longrightarrow> mproper (fold (\<lambda>(i, v). mput i (g v)) m acc)"
  by (induction m arbitrary: acc) auto

text \<open>What the model needs of the storage: reading a value back through \<open>deref\<close> gives what
  was stored, and an array never reads back as nothing.\<close>

definition storage_faithful :: "exec_env \<Rightarrow> (jval \<Rightarrow> jval) \<Rightarrow> bool" where
  "storage_faithful env deref \<longleftrightarrow>
     (\<forall>v. deref (storeEntry env v) = deref v \<and> deref (forceStore env v) = deref v) \<and>
     deref JUndef = JUndef \<and> deref JNull = JNull \<and> (\<forall>xs. deref (JArr xs) \<noteq> JUndef \<and> deref (JArr xs) \<noteq> JNull)"

lemma deref_compact:
  assumes "storage_faithful env deref"
  shows "map deref (compactSubflowResults env vs) = map deref vs"
  using assms by (simp add: compactSubflowResults_def storage_faithful_def Let_def)

definition holds_outputs :: "(jval \<Rightarrow> jval) \<Rightarrow> (int \<Rightarrow> jval list) \<Rightarrow> (int, jval) jsmap \<Rightarrow> bool" where
  "holds_outputs deref out acc \<longleftrightarrow> mproper acc \<and> (\<forall>i. deref (or_empty (mget acc i)) = deref (JArr (out i)))"

lemma or_empty_keeps:
  assumes "storage_faithful env deref" and "deref v = deref (JArr xs)"
  shows "or_empty (Some v) = v"
proof -
  have "deref v \<noteq> JUndef" "deref v \<noteq> JNull" "deref JUndef = JUndef" "deref JNull = JNull"
    using assms by (simp_all add: storage_faithful_def)
  then show ?thesis by (auto simp: or_empty_def)
qed

lemma holds_compact:
  assumes "storage_faithful env deref" and "holds_outputs deref out acc"
  shows "holds_outputs deref out (compact_accumulated env acc)"
proof -
  let ?ks = "sort (mkeys acc)"
  let ?vs = "compactSubflowResults env (map (\<lambda>k. or_empty (mget acc k)) ?ks)"
  have p: "mproper acc" and h: "\<And>i. deref (or_empty (mget acc i)) = deref (JArr (out i))"
    using assms(2) by (auto simp: holds_outputs_def)
  have d: "distinct ?ks" using p by (simp add: mproper_def mkeys_def)
  have z: "mproper (zip ?ks ?vs)" using d by (simp add: mproper_def)
  have get: "mget (compact_accumulated env acc) i = (case mget (zip ?ks ?vs) i of Some v \<Rightarrow> Some v | None \<Rightarrow> mget acc i)" for i
    using mget_put_all [OF z, of "\<lambda>v. v" acc i] by (simp add: compact_accumulated_def Let_def)
  have "deref (or_empty (mget (compact_accumulated env acc) i)) = deref (JArr (out i))" for i
  proof (cases "mget (zip ?ks ?vs) i")
    case (Some v)
    then obtain j where j: "j < length ?ks" "?ks ! j = i" "?vs ! j = v"
      by (auto dest!: mget_in_set simp: in_set_zip)
    have "deref v = map deref ?vs ! j" using j by simp
    also have "\<dots> = deref (or_empty (mget acc i))" using j by (simp add: deref_compact [OF assms(1)])
    finally have "deref v = deref (JArr (out i))" by (simp add: h)
    with or_empty_keeps [OF assms(1) this] show ?thesis by (simp add: get Some)
  qed (simp add: get h)
  moreover have "mproper (compact_accumulated env acc)"
    using mproper_put_all [OF p, of "\<lambda>v. v"] by (simp add: compact_accumulated_def Let_def)
  ultimately show ?thesis by (simp add: holds_outputs_def)
qed

section \<open>One batch\<close>

definition batch_at :: "int \<Rightarrow> int \<Rightarrow> int \<Rightarrow> parallel_scope \<Rightarrow> bool" where
  "batch_at n b k s \<longleftrightarrow> ps_totalBranches s = n \<and> ps_batchSize s = Some b \<and> ps_currentBatchStart s = Some k \<and>
     ps_currentBatchSize s = Some (min b (n - k)) \<and> ps_branchOutputs s = []"

lemma batch_range_at: "batch_at n b k s \<Longrightarrow> batch_range s = [k..k + min b (n - k) - 1]"
  by (simp add: batch_at_def batch_range_def current_batch_start_def prepared_batch_size_def)

lemma round_next:
  assumes "batch_at n b k s" and "getParallelScope w p = Some s" and "delivers p f xs" and "k + b < n"
  obtains r w' s' where "aggregateParallelResults env p (f w) = (r, w')" "\<not> pa_allBranchesComplete r"
    "getParallelScope w' p = Some s'" "batch_at n b (k + b) s'"
    "ps_accumulated s' = (let a = fold (\<lambda>(i, outs). mput i (JArr outs)) (push_all xs []) (ps_accumulated s)
                          in if a = [] then [] else compact_accumulated env a)"
proof -
  let ?s2 = "accumulate (s\<lparr>ps_branchOutputs := push_all xs []\<rparr>)"
  let ?acc = "if ps_accumulated ?s2 = [] then [] else compact_accumulated env (ps_accumulated ?s2)"
  let ?s' = "advanceToNextBatch (k + b) (?s2\<lparr>ps_accumulated := ?acc\<rparr>)"
  have g: "getParallelScope (f w) p = Some (s\<lparr>ps_branchOutputs := push_all xs []\<rparr>)"
    using assms(1-3) by (simp add: delivers_def batch_at_def)
  have n: "next_batch_start ?s2 = k + b" "ps_totalBranches ?s2 = n"
    using assms(1,4) by (simp_all add: batch_at_def accumulate_def next_batch_start_def current_batch_start_def)
  have run: "aggregateParallelResults env p (f w) = (\<lparr>pa_allBranchesComplete = False, pa_results = None,
      pa_completedBranches = Some (int (length ?acc)), pa_totalBranches = Some n\<rparr>, put_parallel p ?s' (f w))"
    using assms(4) by (simp add: aggregateParallelResults_def g n Let_def)
  show thesis
  proof (rule that [OF run])
    show "batch_at n b (k + b) ?s'"
      using assms(1) by (simp add: batch_at_def advanceToNextBatch_def accumulate_def batch_size_def)
  qed (simp_all add: getParallelScope_def advanceToNextBatch_def accumulate_def Let_def)
qed

lemma round_last:
  assumes "batch_at n b k s" and "getParallelScope w p = Some s" and "delivers p f xs" and "n \<le> k + b" and "k < n"
  obtains r w' where "aggregateParallelResults env p (f w) = (r, w')" "pa_allBranchesComplete r"
    "pa_results r = Some (compactSubflowResults env (map (\<lambda>i. or_empty
        (mget (fold (\<lambda>(i, outs). mput i (JArr outs)) (push_all xs []) (ps_accumulated s)) i)) [0..n - 1]))"
    "getBlockOutput (w_state w') p None = Some [(''results'', JArr (the (pa_results r)))]"
proof -
  have out: "getBlockOutput (setBlockOutput False i x 0 None st) i None = Some x" for i x and st :: "unit execution_state"
    by (rule setBlockOutput_as_state [of False i x 0 None st])
      (simp add: getBlockOutput_def getBlockState_def unscoped_state_def)
  have "getParallelScope (f w) p = Some (s\<lparr>ps_branchOutputs := push_all xs []\<rparr>)"
    using assms(1-3) by (simp add: delivers_def batch_at_def)
  with assms(1,4,5) show thesis
    by (intro that) (auto simp: aggregateParallelResults_def accumulate_def next_batch_start_def current_batch_start_def
        batch_at_def branch_results_def getParallelScope_def Let_def min_def out)
qed

lemma upto_append: "i \<le> j + 1 \<Longrightarrow> j \<le> k \<Longrightarrow> [i..j] @ [j + 1..k] = [i..k]"
proof (induction "nat (j + 1 - i)" arbitrary: i)
  case (Suc m)
  then have "i \<le> j" by linarith
  with Suc have "[i + 1..j] @ [j + 1..k] = [i + 1..k]" by (intro Suc.hyps(1)) linarith+
  with \<open>i \<le> j\<close> Suc.prems show ?case by (simp add: upto_rec1)
qed (simp add: upto_empty)

lemma batches_left:
  assumes "(1::int) \<le> b" and "k < n"
  shows "(n - k + b - 1) div b = 1 + (if k + b < n then (n - (k + b) + b - 1) div b else 0)"
proof (cases "k + b < n")
  case True
  have "(n - k + b - 1) div b = ((n - (k + b) + b - 1) + b * 1) div b" by (simp add: algebra_simps)
  also have "\<dots> = 1 + (n - (k + b) + b - 1) div b" using assms(1) by (subst div_mult_self2) auto
  finally show ?thesis using True by simp
next
  case False
  with assms have "(n - k - 1) div b = 0" by (intro div_pos_pos_trivial) auto
  moreover have "(n - k + b - 1) div b = ((n - k - 1) + b * 1) div b" by (simp add: algebra_simps)
  ultimately have "(n - k + b - 1) div b = 1" using assms(1) by (simp only: div_mult_self2)
  with False show ?thesis by simp
qed

lemma run_batches_from:
  assumes "1 \<le> b" and "batch_at n b k s" and "getParallelScope w p = Some s" and "k < n"
    and "\<And>f. f \<in> set fs \<Longrightarrow> \<exists>xs. delivers p f xs" and "(n - k + b - 1) div b \<le> int (length fs)"
  shows "\<exists>bs r w'. run_batches env p fs w = Some (bs, r, w') \<and> concat bs = [k..n - 1] \<and>
    int (length bs) = (n - k + b - 1) div b \<and> (\<forall>x \<in> set bs. x \<noteq> [] \<and> int (length x) \<le> b) \<and>
    pa_allBranchesComplete r"
  using assms(2-)
proof (induction fs arbitrary: k s w)
  case Nil
  have "0 < (n - k + b - 1) div b"
    using assms(1) Nil.prems(3) by (simp add: pos_imp_zdiv_pos_iff)
  with Nil.prems(5) show ?case by simp
next
  case (Cons f fs)
  from Cons.prems(4) obtain xs where xs: "delivers p f xs" by auto
  have range: "batch_range s = [k..k + min b (n - k) - 1]" using Cons.prems(1) by (rule batch_range_at)
  show ?case
  proof (cases "k + b < n")
    case True
    obtain r w' s' where r: "aggregateParallelResults env p (f w) = (r, w')" "\<not> pa_allBranchesComplete r"
      "getParallelScope w' p = Some s'" "batch_at n b (k + b) s'"
      using round_next [OF Cons.prems(1,2) xs True] by metis
    obtain bs r' w'' where run: "run_batches env p fs w' = Some (bs, r', w'')" "concat bs = [k + b..n - 1]"
      "int (length bs) = (n - (k + b) + b - 1) div b" "\<forall>x \<in> set bs. x \<noteq> [] \<and> int (length x) \<le> b"
      "pa_allBranchesComplete r'"
      using Cons.IH [OF r(4,3) True] Cons.prems(4,5) batches_left [OF assms(1) Cons.prems(3)] True by auto
    have "[k..k + b - 1] @ [k + b..n - 1] = [k..n - 1]"
      using upto_append [of k "k + b - 1" "n - 1"] assms(1) True by simp
    with run r range True assms(1) batches_left [OF assms(1) Cons.prems(3)] Cons.prems(2) show ?thesis by auto
  next
    case False
    obtain r w' where "aggregateParallelResults env p (f w) = (r, w')" "pa_allBranchesComplete r"
      using round_last [OF Cons.prems(1,2) xs _ Cons.prems(3)] False by (metis not_less)
    with range False assms(1) batches_left [OF assms(1) Cons.prems(3)] Cons.prems(2,3) show ?thesis by auto
  qed
qed

lemma initialize_batch_at:
  assumes "initializeParallelScope env p w = (Inr s, w')" and "\<not> ps_isEmpty s"
  obtains b where "1 \<le> b" "b \<le> MAX_PARALLEL_BRANCHES" "ps_batchSize s = Some b" "getParallelScope w' p = Some s"
    "batch_at (ps_totalBranches s) b 0 s" "ps_accumulated s = []" "ps_totalBranches s \<noteq> 0"
proof -
  obtain cfg pl where s: "s = batch_scope cfg pl" "bp_branchCount pl \<noteq> 0" "w' = put_parallel p s w"
    using assms by (auto simp: initializeParallelScope_def Let_def split: option.splits sum.splits if_splits)
  have "1 \<le> resolveBatchSize (par_batchSize cfg)" "resolveBatchSize (par_batchSize cfg) \<le> MAX_PARALLEL_BRANCHES"
    by (auto simp: resolveBatchSize_def MAX_PARALLEL_BRANCHES_def DEFAULT_PARALLEL_BATCH_SIZE_def split: option.split)
  with s show thesis
    by (intro that [of "resolveBatchSize (par_batchSize cfg)"])
      (simp_all add: batch_scope_def Let_def batch_at_def new_parallel_scope_def getParallelScope_def)
qed

text \<open>
  C31: the batches of a parallel. A run that starts with a non-empty scope and whose bodies
  only deliver outputs returns after exactly as many batches as the branches fill; the
  batches run every branch exactly once and in order, and none of them is empty or larger
  than the configured size, which is at most 20.
\<close>

theorem parallel_batches_cover:
  assumes "initializeParallelScope env p w = (Inr s, w')" and "\<not> ps_isEmpty s" and "0 < ps_totalBranches s"
    and "\<forall>f \<in> set fs. \<exists>xs. delivers p f xs" and "ps_totalBranches s \<le> int (length fs)"
  shows "\<exists>b bs r w''. ps_batchSize s = Some b \<and> b \<le> MAX_PARALLEL_BRANCHES \<and>
    run_batches env p fs w' = Some (bs, r, w'') \<and> pa_allBranchesComplete r \<and>
    concat bs = [0..ps_totalBranches s - 1] \<and>
    int (length bs) = (ps_totalBranches s + b - 1) div b \<and> (\<forall>x \<in> set bs. x \<noteq> [] \<and> int (length x) \<le> b)"
proof -
  obtain b where b: "1 \<le> b" "b \<le> MAX_PARALLEL_BRANCHES" "ps_batchSize s = Some b" "getParallelScope w' p = Some s"
    "batch_at (ps_totalBranches s) b 0 s"
    using initialize_batch_at [OF assms(1,2)] by metis
  have "(ps_totalBranches s + b - 1) div b \<le> ps_totalBranches s"
  proof -
    have "ps_totalBranches s + b - 1 < (ps_totalBranches s + 1) * b"
    proof -
      have "ps_totalBranches s \<le> ps_totalBranches s * b" using b(1) assms(3) by simp
      then show ?thesis by (simp add: algebra_simps)
    qed
    moreover have "(ps_totalBranches s + b - 1) div b * b \<le> ps_totalBranches s + b - 1"
      using div_mult_mod_eq [of "ps_totalBranches s + b - 1" b] pos_mod_sign [of b "ps_totalBranches s + b - 1"] b(1)
      by linarith
    ultimately have "(ps_totalBranches s + b - 1) div b * b < (ps_totalBranches s + 1) * b" by linarith
    then have "(ps_totalBranches s + b - 1) div b < ps_totalBranches s + 1" using b(1) by simp
    then show ?thesis by simp
  qed
  with run_batches_from [OF b(1,5,4) assms(3), of fs env] assms(4,5) b show ?thesis by auto
qed

section \<open>The results of a run\<close>

lemma holds_accumulate:
  assumes "holds_outputs deref out acc" and "\<And>i v. (i, v) \<in> set xs \<Longrightarrow> out i = []"
  shows "holds_outputs deref (\<lambda>i. out i @ outs_of i xs) (fold (\<lambda>(i, outs). mput i (JArr outs)) (push_all xs []) acc)"
proof -
  have m: "mproper (push_all xs [])" by (rule mproper_push_all) simp
  have "deref (or_empty (mget (fold (\<lambda>(i, outs). mput i (JArr outs)) (push_all xs []) acc) i)) =
      deref (JArr (out i @ outs_of i xs))" for i
  proof (cases "outs_of i xs = []")
    case True
    then show ?thesis
      using assms(1) by (simp add: mget_put_all [OF m] mget_push_all holds_outputs_def)
  next
    case False
    then obtain v where "(i, v) \<in> set xs" by (auto simp: outs_of_def filter_empty_conv)
    with False assms(2) show ?thesis by (simp add: mget_put_all [OF m] mget_push_all or_empty_def)
  qed
  moreover have "mproper (fold (\<lambda>(i, outs). mput i (JArr outs)) (push_all xs []) acc)"
    using assms(1) by (intro mproper_put_all) (simp add: holds_outputs_def)
  ultimately show ?thesis by (simp add: holds_outputs_def)
qed

lemma run_results_from:
  assumes st: "storage_faithful env deref" and "1 \<le> b" and "batch_at n b k s" and "getParallelScope w p = Some s"
    and "k < n" and "list_all2 (delivers p) fs xss"
    and "\<And>j i v. j < length xss \<Longrightarrow> (i, v) \<in> set (xss ! j) \<Longrightarrow> k + b * int j \<le> i \<and> i < k + b * int j + b"
    and "holds_outputs deref out (ps_accumulated s)" and "\<And>i. k \<le> i \<Longrightarrow> out i = []"
    and "run_batches env p fs w = Some (bs, r, w')"
  shows "\<exists>rs. pa_results r = Some rs \<and>
    map deref rs = map (\<lambda>i. deref (JArr (out i @ outs_of i (concat (take (length bs) xss))))) [0..n - 1] \<and>
    getBlockOutput (w_state w') p None = Some [(''results'', JArr rs)]"
  using assms(3-)
proof (induction fs arbitrary: k s w xss out bs)
  case (Cons f fs)
  from Cons.prems(4) obtain xs yss where xss: "xss = xs # yss" "delivers p f xs" "list_all2 (delivers p) fs yss"
    by (auto simp: list_all2_Cons1)
  let ?out = "\<lambda>i. out i @ outs_of i xs"
  have idx: "k \<le> i" "i < k + b" if "(i, v) \<in> set xs" for i v
    using Cons.prems(5) [of 0 i v] that by (simp_all add: xss(1))
  have acc: "holds_outputs deref ?out (fold (\<lambda>(i, outs). mput i (JArr outs)) (push_all xs []) (ps_accumulated s))"
    by (rule holds_accumulate [OF Cons.prems(6)]) (use idx Cons.prems(7) in blast)
  show ?case
  proof (cases "k + b < n")
    case True
    obtain r1 w1 s1 where r: "aggregateParallelResults env p (f w) = (r1, w1)" "\<not> pa_allBranchesComplete r1"
      "getParallelScope w1 p = Some s1" "batch_at n b (k + b) s1"
      "ps_accumulated s1 = (let a = fold (\<lambda>(i, outs). mput i (JArr outs)) (push_all xs []) (ps_accumulated s)
                          in if a = [] then [] else compact_accumulated env a)"
      by (rule round_next [OF Cons.prems(1,2) xss(2) True])
    from r Cons.prems(2,8) obtain bs1 where bs: "run_batches env p fs w1 = Some (bs1, r, w')" "bs = batch_range s # bs1"
      by auto
    let ?a = "fold (\<lambda>(i, outs). mput i (JArr outs)) (push_all xs []) (ps_accumulated s)"
    have h: "holds_outputs deref ?out (ps_accumulated s1)"
    proof (cases "?a = []")
      case True
      then show ?thesis unfolding r(5) Let_def using acc unfolding True by simp
    next
      case False
      then show ?thesis unfolding r(5) Let_def using holds_compact [OF st acc] by simp
    qed
    have i: "k + b + b * int j \<le> i \<and> i < k + b + b * int j + b" if "j < length yss" "(i, v) \<in> set (yss ! j)" for j i v
      using Cons.prems(5) [of "Suc j" i v] that by (simp add: xss(1) algebra_simps)
    have z: "?out i = []" if "k + b \<le> i" for i
    proof -
      have "outs_of i xs = []" using idx that by (fastforce simp: outs_of_def filter_empty_conv)
      moreover have "k \<le> i" using that assms(2) by simp
      ultimately show ?thesis using Cons.prems(7) by simp
    qed
    show ?thesis
      using Cons.IH [OF r(4,3) True xss(3) i h z bs(1)] by (simp add: bs(2) xss(1))
  next
    case False
    then have "n \<le> k + b" by simp
    then obtain r1 w1 where r: "aggregateParallelResults env p (f w) = (r1, w1)" "pa_allBranchesComplete r1"
      "pa_results r1 = Some (compactSubflowResults env (map (\<lambda>i. or_empty
          (mget (fold (\<lambda>(i, outs). mput i (JArr outs)) (push_all xs []) (ps_accumulated s)) i)) [0..n - 1]))"
      "getBlockOutput (w_state w1) p None = Some [(''results'', JArr (the (pa_results r1)))]"
      by (rule round_last [OF Cons.prems(1,2) xss(2) _ Cons.prems(3)])
    with Cons.prems(2,8) have bs: "bs = [batch_range s]" "r = r1" "w' = w1" by auto
    have "map deref (the (pa_results r)) = map (\<lambda>i. deref (JArr (?out i))) [0..n - 1]"
      using acc by (simp add: bs(2) r(3) deref_compact [OF st] holds_outputs_def)
    with r show ?thesis by (simp add: bs xss(1))
  qed
qed simp


section \<open>What a prepared batch looks like\<close>

lemma wf_unmark_delete: "state_wf st \<Longrightarrow> state_wf (deleteBlockState i (unmarkExecuted i st))"
  by (simp add: wf_deleteBlockState wf_unmarkExecuted)

lemma reset_state:
  fixes st :: "unit execution_state"
  assumes "state_wf st"
  shows "state_wf (fold (\<lambda>i st. deleteBlockState i (unmarkExecuted i st)) xs st)"
    and "i \<in> set xs \<Longrightarrow> \<not> hasExecuted (fold (\<lambda>i st. deleteBlockState i (unmarkExecuted i st)) xs st) i \<and>
           stored (fold (\<lambda>i st. deleteBlockState i (unmarkExecuted i st)) xs st) i = None"
    and "i \<notin> set xs \<Longrightarrow> stored (fold (\<lambda>i st. deleteBlockState i (unmarkExecuted i st)) xs st) i = stored st i"
proof -
  have keep: "\<not> hasExecuted (fold (\<lambda>i st. deleteBlockState i (unmarkExecuted i st)) xs st) i \<and>
      stored (fold (\<lambda>i st. deleteBlockState i (unmarkExecuted i st)) xs st) i = None"
    if "\<not> hasExecuted st i" "stored st i = None" for st :: "unit execution_state" and xs i
    using that
    by (induction xs arbitrary: st) (auto simp: deleteBlockState_def unmarkExecuted_def hasExecuted_def stored_def)
  show "state_wf (fold (\<lambda>i st. deleteBlockState i (unmarkExecuted i st)) xs st)"
    using assms by (induction xs arbitrary: st) (auto intro: wf_unmark_delete)
  show "\<not> hasExecuted (fold (\<lambda>i st. deleteBlockState i (unmarkExecuted i st)) xs st) i \<and>
      stored (fold (\<lambda>i st. deleteBlockState i (unmarkExecuted i st)) xs st) i = None" if "i \<in> set xs"
    using that assms
  proof (induction xs arbitrary: st)
    case (Cons x xs)
    show ?case
    proof (cases "i \<in> set xs")
      case True
      with Cons.IH [OF True wf_unmark_delete [OF Cons.prems(2)]] show ?thesis by simp
    next
      case False
      with Cons.prems have "x = i" by simp
      moreover have "\<not> hasExecuted (deleteBlockState i (unmarkExecuted i st)) i"
        "stored (deleteBlockState i (unmarkExecuted i st)) i = None"
        by (simp_all add: deleteBlockState_def unmarkExecuted_def hasExecuted_def stored_def)
      ultimately show ?thesis using keep [of "deleteBlockState i (unmarkExecuted i st)" i xs] by simp
    qed
  qed simp
  show "stored (fold (\<lambda>i st. deleteBlockState i (unmarkExecuted i st)) xs st) i = stored st i" if "i \<notin> set xs"
    using that by (induction xs arbitrary: st) (auto simp: deleteBlockState_def unmarkExecuted_def stored_def)
qed

lemma key_source_in_mono: "key_source_in xs e \<Longrightarrow> set xs \<subseteq> set ys \<Longrightarrow> key_source_in ys e"
  by (auto simp: key_source_in_def split: option.splits prod.splits)

lemma mget_mappings:
  assumes "\<And>n. n \<in> set ns \<Longrightarrow> node_branch_index d n \<noteq> None"
  shows "mget (fold (\<lambda>n m. case node_branch_index d n of None \<Rightarrow> m | Some i \<Rightarrow> mput n (branch_entry d p n i) m) ns m) k =
    (if k \<in> set ns then Some (branch_entry d p k (the (node_branch_index d k))) else mget m k)"
  using assms
proof (induction ns arbitrary: m)
  case (Cons n ns)
  obtain i where "node_branch_index d n = Some i" using Cons.prems [of n] by auto
  with Cons show ?case by simp
qed simp

lemma adopt_facts:
  "w_mapping (adopt_expansion p d ex w) =
     fold (\<lambda>n m. case node_branch_index d n of None \<Rightarrow> m | Some i \<Rightarrow> mput n (branch_entry d p n i) m)
       (ex_allBranchNodes ex) (w_mapping w)"
  "w_state (adopt_expansion p d ex w) =
     fold (\<lambda>i st. deleteBlockState i (unmarkExecuted i st)) (filter (is_branch_node d) (ex_allBranchNodes ex)) (w_state w)"
  "w_em (adopt_expansion p d ex w) = clearDeactivatedEdgesForNodes (ex_allBranchNodes ex) ((w_em w)\<lparr>em_dag := d\<rparr>)"
proof -
  have frame: "w_mapping (markRunFromBlockBatchDirty p ex v) = w_mapping v" "w_state (markRunFromBlockBatchDirty p ex v) = w_state v"
    "w_em (markRunFromBlockBatchDirty p ex v) = w_em v" for v
    by (simp_all add: markRunFromBlockBatchDirty_def Let_def split: option.split)
  let ?w2 = "registerClonedSubflows p (ex_clonedSubflows ex) (markRunFromBlockBatchDirty p ex (upd_dag (\<lambda>_. d) w))"
  have dag: "w_dag ?w2 = d" "w_dag (registerBranchMappings p ns ?w2) = d" for ns
    by (simp_all add: w_dag_def registerClonedSubflows_def registerBranchMappings_def frame upd_dag_def)
  have step: "w_mapping ?w2 = w_mapping w" "w_state ?w2 = w_state w" "w_em ?w2 = (w_em w)\<lparr>em_dag := d\<rparr>"
    by (simp_all add: registerClonedSubflows_def frame upd_dag_def)
  have w4: "adopt_expansion p d ex w =
      (let w3 = registerBranchMappings p (ex_allBranchNodes ex) ?w2;
           w4 = resetBatchExecutionState (ex_allBranchNodes ex) w3
       in w4\<lparr>w_em := clearDeactivatedEdgesForNodes (ex_allBranchNodes ex) (w_em w4)\<rparr>)"
    by (simp add: adopt_expansion_def Let_def)
  show "w_mapping (adopt_expansion p d ex w) =
       fold (\<lambda>n m. case node_branch_index d n of None \<Rightarrow> m | Some i \<Rightarrow> mput n (branch_entry d p n i) m)
         (ex_allBranchNodes ex) (w_mapping w)"
    unfolding w4 Let_def resetBatchExecutionState_def registerBranchMappings_def dag by (simp add: upd_state_def step)
  show "w_state (adopt_expansion p d ex w) = fold (\<lambda>i st. deleteBlockState i (unmarkExecuted i st))
      (filter (is_branch_node d) (ex_allBranchNodes ex)) (w_state w)"
    unfolding w4 Let_def resetBatchExecutionState_def dag by (simp add: upd_state_def step registerBranchMappings_def)
  show "w_em (adopt_expansion p d ex w) = clearDeactivatedEdgesForNodes (ex_allBranchNodes ex) ((w_em w)\<lparr>em_dag := d\<rparr>)"
    unfolding w4 Let_def resetBatchExecutionState_def by (simp add: upd_state_def step registerBranchMappings_def)
qed

text \<open>The branch nodes of a prepared batch: every block has its copy for every branch, with the global index.\<close>

lemma prepared_nodes:
  assumes "prepareCurrentBatch depth env p w = (Inr (), w')"
    and "getParallelScope w p = Some s" and "\<not> ps_isEmpty s" and "0 < prepared_batch_size s"
    and "flat_parallel (w_dag w) p" and "mget (parallelConfigs (w_dag w)) p = Some cfg"
    and "par_nodes cfg \<noteq> []" and "distinct (par_nodes cfg)"
    and "\<forall>b \<in> set (par_nodes cfg). is_branch_node (w_dag w) (buildBranchNodeId b 0)"
  obtains d ex where
    "expandParallel depth (sha256Hex env) p (nat (prepared_batch_size s)) (nat (current_batch_start s))
       (nat (ps_totalBranches s)) (w_dag w) = Inr (d, ex)"
    "w' = adopt_expansion p d ex w"
    "ex_allBranchNodes ex = concat (map (\<lambda>b. map (buildBranchNodeId b) [0..<nat (prepared_batch_size s)]) (par_nodes cfg))"
    "\<And>b i. b \<in> set (par_nodes cfg) \<Longrightarrow> i < nat (prepared_batch_size s) \<Longrightarrow>
       \<exists>n. dnode d (buildBranchNodeId b i) = Some n \<and> m_isParallelBranch (metadata n) \<and>
         m_branchIndex (metadata n) = Some (nat (current_batch_start s) + i)"
    "\<And>k. k \<in> set (ex_allBranchNodes ex) \<Longrightarrow> node_branch_index d k \<noteq> None \<and> is_branch_node d k"
    "wf_dag (w_dag w) \<Longrightarrow> wf_dag d"
proof -
  obtain d ex where x: "expandParallel depth (sha256Hex env) p (nat (prepared_batch_size s)) (nat (current_batch_start s))
      (nat (ps_totalBranches s)) (w_dag w) = Inr (d, ex)" "w' = adopt_expansion p d ex w"
    using assms(1-4) by (auto simp: prepareCurrentBatch_def split: sum.splits)
  have tmpl: "\<forall>b \<in> set (par_nodes cfg). has_node (w_dag w) (buildBranchNodeId b 0)"
    using assms(9) by (auto simp: is_branch_node_def has_node_iff split: option.splits)
  note nodes = expansion_nodes [OF x(1) assms(5-8) tmpl]
  have all: "ex_allBranchNodes ex = concat (map (\<lambda>b. map (buildBranchNodeId b) [0..<nat (prepared_batch_size s)]) (par_nodes cfg))"
    using nodes by blast
  have node: "\<exists>n. dnode d (buildBranchNodeId b i) = Some n \<and> m_isParallelBranch (metadata n) \<and>
      m_branchIndex (metadata n) = Some (nat (current_batch_start s) + i)"
    if b: "b \<in> set (par_nodes cfg)" "i < nat (prepared_batch_size s)" for b i
  proof -
    obtain T where T: "dnode (w_dag w) (buildBranchNodeId b 0) = Some T" "m_isParallelBranch (metadata T)"
      using assms(9) b(1) by (auto simp: is_branch_node_def split: option.splits)
    then have "skel d (buildBranchNodeId b i) =
        Some (skeleton (branch_copy T b (nat (current_batch_start s)) (nat (ps_totalBranches s)) i))"
      using nodes b by blast
    then obtain m where "dnode d (buildBranchNodeId b i) = Some m"
      "metadata m = metadata (skeleton (branch_copy T b (nat (current_batch_start s)) (nat (ps_totalBranches s)) i))"
      by (rule skel_node)
    with T(2) show ?thesis
      by (simp add: skeleton_def branch_copy_def updateBranchMetadata_def cloneTemplateNode_def)
  qed
  have idx: "node_branch_index d k \<noteq> None \<and> is_branch_node d k" if "k \<in> set (ex_allBranchNodes ex)" for k
  proof -
    from that obtain b i where "b \<in> set (par_nodes cfg)" "i < nat (prepared_batch_size s)" "k = buildBranchNodeId b i"
      by (auto simp: all)
    from node [OF this(1,2)] this(3) show ?thesis
      by (auto simp: node_branch_index_def is_branch_node_def)
  qed
  have "wf_dag d" if "wf_dag (w_dag w)"
    using expansion_isolated [OF x(1) assms(5-8) tmpl] that by simp
  with x all node idx show ?thesis by (rule that)
qed

lemma prepared_mapping:
  assumes "prepareCurrentBatch depth env p w = (Inr (), w')"
    and "getParallelScope w p = Some s" and "\<not> ps_isEmpty s" and "0 < prepared_batch_size s"
    and "0 \<le> current_batch_start s"
    and "flat_parallel (w_dag w) p" and "mget (parallelConfigs (w_dag w)) p = Some cfg"
    and "par_nodes cfg \<noteq> []" and "distinct (par_nodes cfg)"
    and "\<forall>b \<in> set (par_nodes cfg). is_branch_node (w_dag w) (buildBranchNodeId b 0)"
    and "b \<in> set (par_nodes cfg)" and "i < nat (prepared_batch_size s)"
  shows "\<exists>m. mget (w_mapping w') (buildBranchNodeId b i) = Some m \<and> bm_parallelId m = p \<and>
    bm_iterationIndex m = current_batch_start s + int i"
proof -
  obtain d ex where d: "w' = adopt_expansion p d ex w"
    "ex_allBranchNodes ex = concat (map (\<lambda>b. map (buildBranchNodeId b) [0..<nat (prepared_batch_size s)]) (par_nodes cfg))"
    "\<And>b i. b \<in> set (par_nodes cfg) \<Longrightarrow> i < nat (prepared_batch_size s) \<Longrightarrow>
       \<exists>n. dnode d (buildBranchNodeId b i) = Some n \<and> m_isParallelBranch (metadata n) \<and>
         m_branchIndex (metadata n) = Some (nat (current_batch_start s) + i)"
    "\<And>k. k \<in> set (ex_allBranchNodes ex) \<Longrightarrow> node_branch_index d k \<noteq> None \<and> is_branch_node d k"
    using prepared_nodes [OF assms(1-4) assms(6-10)] by metis
  have k: "buildBranchNodeId b i \<in> set (ex_allBranchNodes ex)" unfolding d(2) using assms(11,12) by force
  obtain n where n: "dnode d (buildBranchNodeId b i) = Some n" "m_branchIndex (metadata n) = Some (nat (current_batch_start s) + i)"
    using d(3) [OF assms(11,12)] by auto
  show ?thesis
    unfolding d(1) adopt_facts
    by (subst mget_mappings) (use d(4) k n assms(5) in \<open>simp_all add: branch_entry_def node_branch_index_def\<close>)
qed

lemma prepared_parallels: "prepareCurrentBatch depth env p w = (r, w') \<Longrightarrow> w_parallels w' = w_parallels w"
  by (auto simp: prepareCurrentBatch_def adopt_expansion_def Let_def resetBatchExecutionState_def registerBranchMappings_def
      registerClonedSubflows_def markRunFromBlockBatchDirty_def upd_state_def upd_dag_def split: option.splits if_splits sum.splits)

text \<open>
  C33: a prepared batch starts clean. For a parallel of regular blocks, preparing a batch
  keeps the world well formed and leaves, for every block and every branch of the batch, a
  node that is marked as not executed, has no stored output from an earlier batch, has no
  deactivated edge of its own, and is mapped to the global index of its branch.
\<close>

theorem prepared_batch_clean:
  assumes "prepareCurrentBatch depth env p w = (Inr (), w')" and "world_wf w"
    and "getParallelScope w p = Some s" and "\<not> ps_isEmpty s" and "0 < prepared_batch_size s"
    and "0 \<le> current_batch_start s"
    and "flat_parallel (w_dag w) p" and "mget (parallelConfigs (w_dag w)) p = Some cfg"
    and "par_nodes cfg \<noteq> []" and "distinct (par_nodes cfg)"
    and "\<forall>b \<in> set (par_nodes cfg). is_branch_node (w_dag w) (buildBranchNodeId b 0)"
  shows "world_wf w' \<and> (\<forall>b \<in> set (par_nodes cfg). \<forall>i < nat (prepared_batch_size s).
    (let k = buildBranchNodeId b i
     in has_node (w_dag w') k \<and> \<not> hasExecuted (w_state w') k \<and> stored (w_state w') k = None \<and>
        (\<forall>e \<in> set (deactivatedEdges (w_em w')). \<not> key_source_in [k] e) \<and>
        map_option bm_iterationIndex (mget (w_mapping w') k) = Some (current_batch_start s + int i)))"
proof -
  obtain d ex where x: "w' = adopt_expansion p d ex w"
    and all: "ex_allBranchNodes ex = concat (map (\<lambda>b. map (buildBranchNodeId b) [0..<nat (prepared_batch_size s)]) (par_nodes cfg))"
    and node: "\<And>b i. b \<in> set (par_nodes cfg) \<Longrightarrow> i < nat (prepared_batch_size s) \<Longrightarrow>
       \<exists>n. dnode d (buildBranchNodeId b i) = Some n \<and> m_isParallelBranch (metadata n) \<and>
         m_branchIndex (metadata n) = Some (nat (current_batch_start s) + i)"
    and idx: "\<And>k. k \<in> set (ex_allBranchNodes ex) \<Longrightarrow> node_branch_index d k \<noteq> None \<and> is_branch_node d k"
    and wf: "wf_dag (w_dag w) \<Longrightarrow> wf_dag d"
    using prepared_nodes [OF assms(1,3-5,7-11)] by metis
  have st: "state_wf (w_state w)" using assms(2) by (simp add: world_wf_def)
  have "world_wf w'"
    using assms(2) wf reset_state(1) [OF st]
    by (simp add: world_wf_def x adopt_facts em_wf_def clearDeactivatedEdgesForNodes_def w_dag_def)
  moreover have "let k = buildBranchNodeId b i
     in has_node (w_dag w') k \<and> \<not> hasExecuted (w_state w') k \<and> stored (w_state w') k = None \<and>
        (\<forall>e \<in> set (deactivatedEdges (w_em w')). \<not> key_source_in [k] e) \<and>
        map_option bm_iterationIndex (mget (w_mapping w') k) = Some (current_batch_start s + int i)"
    if b: "b \<in> set (par_nodes cfg)" "i < nat (prepared_batch_size s)" for b i
  proof -
    let ?k = "buildBranchNodeId b i"
    have k: "?k \<in> set (ex_allBranchNodes ex)" unfolding all using b by force
    obtain n where n: "dnode d ?k = Some n" using node [OF b] by auto
    have "\<not> hasExecuted (w_state w') ?k \<and> stored (w_state w') ?k = None"
      unfolding x adopt_facts by (rule reset_state(2) [OF st]) (use k idx [OF k] in simp)
    moreover have "\<not> key_source_in [?k] e" if "e \<in> set (deactivatedEdges (w_em w'))" for e
      using that k key_source_in_mono [of "[?k]" e "ex_allBranchNodes ex"]
      by (auto simp: x adopt_facts clearDeactivatedEdgesForNodes_def)
    moreover have "map_option bm_iterationIndex (mget (w_mapping w') ?k) = Some (current_batch_start s + int i)"
      using prepared_mapping [OF assms(1,3-11) b] by auto
    ultimately show ?thesis
      using n by (simp add: Let_def x w_dag_def adopt_facts clearDeactivatedEdgesForNodes_def has_node_iff)
  qed
  ultimately show ?thesis by blast
qed

section \<open>Witnesses\<close>

text \<open>Five branches in batches of two; every body delivers the outputs of its branches.\<close>

definition fan_env :: exec_env where
  "fan_env = \<lparr>storeEntry = \<lambda>v. v, fitsThreshold = \<lambda>_. False, forceStore = \<lambda>v. v, resolveArray = \<lambda>_ _ _. Inr [],
     conditionVM = \<lambda>_ _ _. None, sha256Hex = \<lambda>s. s\<rparr>"

definition fan_world :: world where
  "fan_world = \<lparr>w_em = \<lparr>em_dag = \<lparr>dag_nodes = [], loopConfigs = [], parallelConfigs =
       [(''P'', (demo_parallel [''a''])\<lparr>par_count := Some 5, par_batchSize := Some 2\<rparr>)]\<rparr>,
       deactivatedEdges = [], nodesWithActivatedEdge = []\<rparr>,
     w_state = \<lparr>blockStates = [], executedBlocks = []\<rparr>, w_loops = [], w_parallels = [], w_parents = [],
     w_mapping = [], w_dirty = None\<rparr>"

definition fan_body :: "int \<Rightarrow> world \<Rightarrow> world" where
  "fan_body i = handleParallelBranchCompletion ''P'' ''a'' [(''v'', JNum i)] (Some i)"

definition fan_bodies :: "(world \<Rightarrow> world) list" where
  "fan_bodies = [fan_body 1 \<circ> fan_body 0, fan_body 2, fan_body 4, id, id]"

definition fan_outputs :: "(int \<times> jval) list list" where
  "fan_outputs = map (map (\<lambda>i. (i, JObj [(''v'', JNum i)]))) [[0, 1], [2], [4], [], []]"

definition fan_scope :: parallel_scope where
  "fan_scope = (new_parallel_scope 5)\<lparr>ps_batchSize := Some 2, ps_currentBatchStart := Some 0, ps_currentBatchSize := Some 2\<rparr>"

lemma fan_init: "initializeParallelScope fan_env ''P'' fan_world = (Inr fan_scope, put_parallel ''P'' fan_scope fan_world)"
  by (simp add: initializeParallelScope_def fan_world_def w_dag_def demo_parallel_def resolveBranchCount_def batch_scope_def
      resolveBatchSize_def MAX_PARALLEL_BRANCHES_def fan_scope_def new_parallel_scope_def Let_def)

lemma fan_scope_facts: "\<not> ps_isEmpty fan_scope" "ps_totalBranches fan_scope = 5" "ps_batchSize fan_scope = Some 2"
  by (simp_all add: fan_scope_def new_parallel_scope_def)

lemma fan_delivers: "list_all2 (delivers ''P'') fan_bodies fan_outputs"
  using delivers_completion delivers_comp [OF delivers_completion delivers_completion] delivers_id
  by (simp add: fan_bodies_def fan_outputs_def fan_body_def)

theorem parallel_batches_cover_witness:
  "\<exists>bs r w. run_batches fan_env ''P'' fan_bodies (put_parallel ''P'' fan_scope fan_world) = Some (bs, r, w) \<and>
     concat bs = [0, 1, 2, 3, 4] \<and> length bs = 3"
proof -
  have "\<forall>f \<in> set fan_bodies. \<exists>xs. delivers ''P'' f xs"
    using fan_delivers by (fastforce simp: list_all2_conv_all_nth in_set_conv_nth)
  moreover have "[0..4] = [0, 1, 2, 3, 4::int]" by (simp add: upto.simps)
  moreover have "int (length fan_bodies) = 5" by (simp add: fan_bodies_def)
  ultimately show ?thesis
    using parallel_batches_cover [OF fan_init fan_scope_facts(1), of fan_bodies] by (auto simp: fan_scope_facts)
qed


text \<open>The parallel of two blocks prepared for the second batch, with an output left by the first.\<close>

definition branch_meta :: node_meta where
  "branch_meta = no_meta\<lparr>m_isParallelBranch := True\<rparr>"

definition stale_dag :: dag where
  "stale_dag = \<lparr>dag_nodes = [
      demo_node (buildParallelSentinelStartId ''P'') [] [(buildBranchNodeId ''a'' 0, ''s'')] no_meta,
      demo_node (buildBranchNodeId ''a'' 0) [] [(buildParallelSentinelEndId ''P'', ''s'')] branch_meta,
      demo_node (buildParallelSentinelEndId ''P'') [] [] no_meta],
     loopConfigs = [], parallelConfigs = [(''P'', demo_parallel [''a''])]\<rparr>"

definition stale_scope :: parallel_scope where
  "stale_scope = (new_parallel_scope 4)\<lparr>ps_batchSize := Some 2, ps_currentBatchStart := Some 2, ps_currentBatchSize := Some 2\<rparr>"

definition stale_world :: world where
  "stale_world = fan_world\<lparr>w_em := \<lparr>em_dag = stale_dag, deactivatedEdges = [], nodesWithActivatedEdge = []\<rparr>,
     w_state := setBlockOutput False (buildBranchNodeId ''a'' 0) [] 0 None \<lparr>blockStates = [], executedBlocks = []\<rparr>,
     w_parallels := [(''P'', stale_scope)]\<rparr>"

lemma stale_wf: "world_wf stale_world"
proof -
  have "wf_dag stale_dag" by (rule wf_dag_check; code_simp)
  moreover have "state_wf (\<lparr>blockStates = [], executedBlocks = []\<rparr> :: unit execution_state)" by (simp add: state_wf_def)
  then have "state_wf (w_state stale_world)" by (simp add: stale_world_def wf_setBlockOutput)
  ultimately show ?thesis by (simp add: world_wf_def em_wf_def stale_world_def)
qed

lemma stale_facts:
  "getParallelScope stale_world ''P'' = Some stale_scope" "\<not> ps_isEmpty stale_scope"
  "prepared_batch_size stale_scope = 2" "current_batch_start stale_scope = 2"
  "w_dag stale_world = stale_dag" "flat_parallel stale_dag ''P''"
  "mget (parallelConfigs stale_dag) ''P'' = Some (demo_parallel [''a''])"
  "par_nodes (demo_parallel [''a'']) = [''a'']"
  by (simp_all add: stale_world_def stale_scope_def new_parallel_scope_def getParallelScope_def prepared_batch_size_def
      current_batch_start_def w_dag_def stale_dag_def flat_parallel_def demo_parallel_def is_container_def)

lemma stale_template: "is_branch_node stale_dag (buildBranchNodeId ''a'' 0)"
  by code_simp

lemma stale_prepares: "fst (prepareCurrentBatch 1 fan_env ''P'' stale_world) = Inr ()"
  by code_simp

theorem prepared_batch_clean_witness:
  "\<exists>w'. prepareCurrentBatch 1 fan_env ''P'' stale_world = (Inr (), w') \<and> \<not> hasExecuted (w_state w') (buildBranchNodeId ''a'' 0) \<and>
     map_option bm_iterationIndex (mget (w_mapping w') (buildBranchNodeId ''a'' 1)) = Some 3"
proof -
  obtain w' where w': "prepareCurrentBatch 1 fan_env ''P'' stale_world = (Inr (), w')"
    using stale_prepares by (metis prod.collapse)
  have all: "\<forall>b \<in> set (par_nodes (demo_parallel [''a''])). \<forall>i < nat (prepared_batch_size stale_scope).
    (let k = buildBranchNodeId b i
     in has_node (w_dag w') k \<and> \<not> hasExecuted (w_state w') k \<and> stored (w_state w') k = None \<and>
        (\<forall>e \<in> set (deactivatedEdges (w_em w')). \<not> key_source_in [k] e) \<and>
        map_option bm_iterationIndex (mget (w_mapping w') k) = Some (current_batch_start stale_scope + int i))"
    using prepared_batch_clean [OF w' stale_wf stale_facts(1,2)] stale_facts stale_template by simp
  show ?thesis
    using w' all [rule_format, of "''a''" 0] all [rule_format, of "''a''" 1] by (simp add: stale_facts Let_def)
qed

end
