(* ===== verification/NodeOrch.thy ===== *)
theory NodeOrch
  imports ParallelOrch
begin

text \<open>
  \<open>NodeExecutionOrchestrator\<close> (\<open>executor/orchestrators/node.ts\<close>): the execution of one
  node, which for a sentinel is the decision of its container, and the completion of a node,
  which stores outputs and prepares the next iteration or batch. The block executor, which
  runs the handler of a block, is the argument \<open>run\<close>; \<open>aborted\<close> is the abort signal of the
  context, \<open>depth\<close> the stack depth of the recursive resets and clones. Each operation is one
  atomic step.
\<close>

type_synonym block_runner = "world \<Rightarrow> dag_node \<Rightarrow> (run_error + jobj) \<times> world"

record node_result =
  nr_nodeId :: string
  nr_output :: jobj
  nr_isFinalOutput :: bool

section \<open>Sentinels\<close>

definition getResultCount :: "jval list option \<Rightarrow> nat" where
  "getResultCount v = (case v of None \<Rightarrow> 0 | Some xs \<Rightarrow> length xs)"

definition getSubflowResultOutput :: "jobj \<Rightarrow> jobj" where
  "getSubflowResultOutput output = [(''results'', nullish (get_prop output ''results'') (JArr []))]"

definition loop_of :: "dag_node \<Rightarrow> string option" where
  "loop_of n = (if m_subflowType (metadata n) = Some SubLoop then m_subflowId (metadata n) else None)"

definition parallel_of :: "dag_node \<Rightarrow> string option" where
  "parallel_of n = (if m_subflowType (metadata n) = Some SubParallel then m_subflowId (metadata n) else None)"

definition isFinalSentinelOutput :: "dag_node \<Rightarrow> jobj \<Rightarrow> bool" where
  "isFinalSentinelOutput n output =
     (let route = get_prop output ''selectedRoute''
      in if route = JStr LOOP_CONTINUE \<or> route = JStr PARALLEL_CONTINUE then False
         else if route = JStr LOOP_EXIT \<or> route = JStr PARALLEL_EXIT
         then \<not> list_ex (\<lambda>e. map_option JStr (edge_sourceHandle e) = Some route) (out_edges n)
         else outgoingEdges n = [])"

definition sentinel_start :: jobj where
  "sentinel_start = [(''sentinelStart'', JBool True)]"

definition skip_output :: "string \<Rightarrow> jobj" where
  "skip_output route = [(''sentinelStart'', JBool True), (''shouldExit'', JBool True), (''selectedRoute'', JStr route)]"

definition loop_end_output :: "loop_continuation \<Rightarrow> jobj" where
  "loop_end_output c =
     (if lc_shouldContinue c
      then [(''shouldContinue'', JBool True), (''shouldExit'', JBool False), (''selectedRoute'', JStr (lc_selectedRoute c))]
      else [(''results'', JArr (case lc_results c of None \<Rightarrow> [] | Some rs \<Rightarrow> rs)), (''shouldContinue'', JBool False),
            (''shouldExit'', JBool True), (''selectedRoute'', JStr (lc_selectedRoute c)),
            (''totalIterations'', JNum (int (case lc_totalIterations c of None \<Rightarrow> getResultCount (lc_results c) | Some n \<Rightarrow> n)))])"

definition parallel_end_output :: "parallel_aggregation \<Rightarrow> jobj" where
  "parallel_end_output r =
     [(''results'', JArr (if pa_allBranchesComplete r then (case pa_results r of None \<Rightarrow> [] | Some rs \<Rightarrow> rs) else [])),
      (''sentinelEnd'', JBool True),
      (''selectedRoute'', JStr (if pa_allBranchesComplete r then PARALLEL_EXIT else PARALLEL_CONTINUE)),
      (''totalBranches'', case pa_totalBranches r of None \<Rightarrow> JUndef | Some n \<Rightarrow> JNum n)]"

definition ensure_parallel_scope :: "exec_env \<Rightarrow> string \<Rightarrow> world \<Rightarrow> (run_error + unit) \<times> world" where
  "ensure_parallel_scope env p w =
     (if getParallelScope w p \<noteq> None \<or> \<not> mhas (parallelConfigs (w_dag w)) p then (Inr (), w)
      else case initializeParallelScope env p w of (Inl e, w') \<Rightarrow> (Inl e, w') | (Inr _, w') \<Rightarrow> (Inr (), w'))"

definition handleParallelSentinel ::
  "exec_env \<Rightarrow> nat \<Rightarrow> sentinel option \<Rightarrow> string \<Rightarrow> world \<Rightarrow> (run_error + jobj) \<times> world" where
  "handleParallelSentinel env depth sentinelType p w =
     (if sentinelType = Some SentinelStart then
        (case ensure_parallel_scope env p w of
           (Inl e, w1) \<Rightarrow> (Inl e, w1)
         | (Inr _, w1) \<Rightarrow>
             if (case getParallelScope w1 p of None \<Rightarrow> False | Some s \<Rightarrow> ps_isEmpty s) then (Inr (skip_output PARALLEL_EXIT), w1)
             else (case prepareCurrentBatch depth env p w1 of
                     (Inl e, w2) \<Rightarrow> (Inl e, w2)
                   | (Inr _, w2) \<Rightarrow> (Inr sentinel_start, w2)))
      else if sentinelType = Some SentinelEnd then
        (case aggregateParallelResults env p w of (r, w1) \<Rightarrow> (Inr (parallel_end_output r), w1))
      else (Inr [], w))"

definition handleLoopSentinel ::
  "exec_env \<Rightarrow> bool \<Rightarrow> sentinel option \<Rightarrow> string \<Rightarrow> world \<Rightarrow> jobj \<times> world" where
  "handleLoopSentinel env aborted sentinelType loopId w =
     (case sentinelType of
        Some SentinelStart \<Rightarrow>
          (case evaluateInitialCondition env loopId w of
             (go, w1) \<Rightarrow> (if go then sentinel_start else skip_output LOOP_EXIT, w1))
      | Some SentinelEnd \<Rightarrow>
          (case evaluateLoopContinuation env aborted loopId w of (c, w1) \<Rightarrow> (loop_end_output c, w1))
      | None \<Rightarrow> ([], w))"

definition handleSentinel ::
  "exec_env \<Rightarrow> nat \<Rightarrow> bool \<Rightarrow> dag_node \<Rightarrow> world \<Rightarrow> (run_error + jobj) \<times> world" where
  "handleSentinel env depth aborted n w =
     (if falsy_str (m_subflowId (metadata n)) then (Inr [], w)
      else let i = the (m_subflowId (metadata n))
           in case m_subflowType (metadata n) of
                None \<Rightarrow> (Inr [], w)
              | Some SubParallel \<Rightarrow> handleParallelSentinel env depth (m_sentinelType (metadata n)) i w
              | Some SubLoop \<Rightarrow> (case handleLoopSentinel env aborted (m_sentinelType (metadata n)) i w of
                                   (out, w1) \<Rightarrow> (Inr out, w1)))"

section \<open>Executing a node\<close>

definition cached_output :: "world \<Rightarrow> string \<Rightarrow> jobj" where
  "cached_output w i = (case getBlockOutput (w_state w) i None of None \<Rightarrow> [] | Some out \<Rightarrow> out)"

text \<open>Whether the node runs: in a run from a block, exactly the dirty nodes do; otherwise a
  node that is marked as executed does not run again.\<close>

definition uses_cache :: "world \<Rightarrow> string \<Rightarrow> bool" where
  "uses_cache w i =
     (case w_dirty w of
        Some dirty \<Rightarrow> i \<notin> set dirty
      | None \<Rightarrow> hasExecuted (w_state w) i)"

definition ensure_loop_of :: "exec_env \<Rightarrow> dag_node \<Rightarrow> world \<Rightarrow> (run_error + unit) \<times> world" where
  "ensure_loop_of env n w =
     (if falsy_str (loop_of n) \<or> getLoopScope w (the (loop_of n)) \<noteq> None then (Inr (), w)
      else case initializeLoopScope env (the (loop_of n)) w of (Inl e, w') \<Rightarrow> (Inl e, w') | (Inr _, w') \<Rightarrow> (Inr (), w'))"

definition ensure_parallel_of :: "exec_env \<Rightarrow> dag_node \<Rightarrow> world \<Rightarrow> (run_error + unit) \<times> world" where
  "ensure_parallel_of env n w =
     (if falsy_str (parallel_of n) \<or> getParallelScope w (the (parallel_of n)) \<noteq> None then (Inr (), w)
      else case initializeParallelScope env (the (parallel_of n)) w of (Inl e, w') \<Rightarrow> (Inl e, w') | (Inr _, w') \<Rightarrow> (Inr (), w'))"

definition execute_content ::
  "exec_env \<Rightarrow> block_runner \<Rightarrow> nat \<Rightarrow> bool \<Rightarrow> dag_node \<Rightarrow> world \<Rightarrow> (run_error + jobj) \<times> world" where
  "execute_content env run depth aborted n w =
     (if m_isSentinel (metadata n) then handleSentinel env depth aborted n w else run w n)"

text \<open>The node object is fetched once; when the preparation of a batch rewires the node that
  is being executed, the final-output test sees the new edges, as the object is shared.\<close>

definition final_after :: "world \<Rightarrow> dag_node \<Rightarrow> string \<Rightarrow> jobj \<Rightarrow> bool" where
  "final_after w n i out =
     (let n' = (case dnode (w_dag w) i of None \<Rightarrow> n | Some m \<Rightarrow> m)
      in if m_isSentinel (metadata n) then isFinalSentinelOutput n' out else outgoingEdges n' = [])"

definition execute_uncached ::
  "exec_env \<Rightarrow> block_runner \<Rightarrow> nat \<Rightarrow> bool \<Rightarrow> dag_node \<Rightarrow> string \<Rightarrow> world \<Rightarrow> (run_error + node_result) \<times> world" where
  "execute_uncached env run depth aborted n i w =
     (case ensure_loop_of env n w of
        (Inl e, w1) \<Rightarrow> (Inl e, w1)
      | (Inr _, w1) \<Rightarrow>
          (case ensure_parallel_of env n w1 of
             (Inl e, w2) \<Rightarrow> (Inl e, w2)
           | (Inr _, w2) \<Rightarrow>
               (case execute_content env run depth aborted n w2 of
                  (Inl e, w3) \<Rightarrow> (Inl e, w3)
                | (Inr out, w3) \<Rightarrow>
                    (Inr \<lparr>nr_nodeId = i, nr_output = out, nr_isFinalOutput = final_after w3 n i out\<rparr>, w3))))"

definition executeNode ::
  "exec_env \<Rightarrow> block_runner \<Rightarrow> nat \<Rightarrow> bool \<Rightarrow> string \<Rightarrow> world \<Rightarrow> (run_error + node_result) \<times> world" where
  "executeNode env run depth aborted i w =
     (case dnode (w_dag w) i of
        None \<Rightarrow> (Inl (NodeNotFound i), w)
      | Some n \<Rightarrow>
          if uses_cache w i
          then (Inr \<lparr>nr_nodeId = i, nr_output = cached_output w i, nr_isFinalOutput = False\<rparr>, w)
          else execute_uncached env run depth aborted n i w)"

section \<open>Completing a node\<close>

definition store_output :: "string \<Rightarrow> jobj \<Rightarrow> world \<Rightarrow> world" where
  "store_output i out w = upd_state (setBlockOutput False i out 0 None) w"

definition handleLoopNodeCompletion :: "dag_node \<Rightarrow> jobj \<Rightarrow> string \<Rightarrow> world \<Rightarrow> world" where
  "handleLoopNodeCompletion n out loopId w =
     store_output (node_id n) out (storeLoopNodeOutput loopId (node_id n) out w)"

definition store_stable_branch :: "dag_node \<Rightarrow> jobj \<Rightarrow> world \<Rightarrow> world" where
  "store_stable_branch n out w =
     (case m_branchIndex (metadata n) of
        None \<Rightarrow> w
      | Some b \<Rightarrow>
          if extractOuterBranchIndex (node_id n) \<noteq> None then w
          else store_output (buildOuterBranchScopedId
                 (case m_originalBlockId (metadata n) of Some o' \<Rightarrow> o' | None \<Rightarrow> extractBaseBlockId (node_id n)) b) out w)"

definition handleParallelNodeCompletion ::
  "exec_env \<Rightarrow> dag_node \<Rightarrow> jobj \<Rightarrow> string \<Rightarrow> world \<Rightarrow> (run_error + unit) \<times> world" where
  "handleParallelNodeCompletion env n out p w =
     (case (if getParallelScope w p = None
            then (case initializeParallelScope env p w of (Inl e, w') \<Rightarrow> (Inl e, w') | (Inr _, w') \<Rightarrow> (Inr (), w'))
            else (Inr (), w)) of
        (Inl e, w1) \<Rightarrow> (Inl e, w1)
      | (Inr _, w1) \<Rightarrow>
          (Inr (), store_output (node_id n) out
             (store_stable_branch n out (handleParallelBranchCompletion p (node_id n) out None w1))))"

definition continues :: "jobj \<Rightarrow> bool" where
  "continues out \<longleftrightarrow> get_prop out ''selectedRoute'' \<in>
     {JStr LOOP_CONTINUE, JStr LOOP_CONTINUE_ALT, JStr PARALLEL_CONTINUE}"

definition handleParentSubflowCompletion :: "dag_node \<Rightarrow> jobj \<Rightarrow> world \<Rightarrow> world" where
  "handleParentSubflowCompletion n out w =
     (if m_sentinelType (metadata n) \<noteq> Some SentinelEnd \<or> falsy_str (m_subflowId (metadata n)) \<or> continues out then w
      else let i = the (m_subflowId (metadata n))
           in case mget (w_parents w) i of
                None \<Rightarrow> w
              | Some e \<Rightarrow>
                  (case pe_parentType e of
                     SubParallel \<Rightarrow>
                       (case pe_branchIndex e of
                          None \<Rightarrow> w
                        | Some b \<Rightarrow> handleParallelBranchCompletion (pe_parentId e) (node_id n) (getSubflowResultOutput out) (Some b) w)
                   | SubLoop \<Rightarrow> storeLoopNodeOutput (pe_parentId e) i (getSubflowResultOutput out) w))"

definition reset_iteration :: "nat \<Rightarrow> string \<Rightarrow> world \<Rightarrow> (run_error + unit) \<times> world" where
  "reset_iteration depth loopId w =
     (case clearLoopExecutionState depth loopId w of
        (Inl e, w1) \<Rightarrow> (Inl e, w1)
      | (Inr _, w1) \<Rightarrow> (Inr (), w1\<lparr>w_em := restoreLoopEdges loopId (w_em w1)\<rparr>))"

definition handleRegularNodeCompletion :: "nat \<Rightarrow> dag_node \<Rightarrow> jobj \<Rightarrow> world \<Rightarrow> (run_error + unit) \<times> world" where
  "handleRegularNodeCompletion depth n out w =
     (let w1 = store_output (node_id n) out w;
          isEnd = (m_sentinelType (metadata n) = Some SentinelEnd);
          route = get_prop out ''selectedRoute''
      in if m_isSentinel (metadata n) \<and> m_subflowType (metadata n) = Some SubLoop \<and> isEnd \<and> route = JStr LOOP_CONTINUE
         then (if falsy_str (m_subflowId (metadata n)) then (Inr (), w1)
               else reset_iteration depth (the (m_subflowId (metadata n))) w1)
         else if m_subflowType (metadata n) = Some SubParallel \<and> isEnd \<and> route = JStr PARALLEL_CONTINUE
         then (if falsy_str (m_subflowId (metadata n)) then (Inr (), w1)
               else (Inr (), prepareForBatchContinuation (the (m_subflowId (metadata n))) w1))
         else (Inr (), w1))"

definition handleNodeCompletion ::
  "exec_env \<Rightarrow> nat \<Rightarrow> string \<Rightarrow> jobj \<Rightarrow> world \<Rightarrow> (run_error + unit) \<times> world" where
  "handleNodeCompletion env depth i out w =
     (case dnode (w_dag w) i of
        None \<Rightarrow> (Inr (), w)
      | Some n \<Rightarrow>
          if m_isSentinel (metadata n) then
            (case handleRegularNodeCompletion depth n out w of
               (Inl e, w1) \<Rightarrow> (Inl e, w1)
             | (Inr _, w1) \<Rightarrow> (Inr (), handleParentSubflowCompletion n out w1))
          else if \<not> falsy_str (loop_of n) then (Inr (), handleLoopNodeCompletion n out (the (loop_of n)) w)
          else if m_isParallelBranch (metadata n) \<and> \<not> falsy_str (parallel_of n)
          then handleParallelNodeCompletion env n out (the (parallel_of n)) w
          else handleRegularNodeCompletion depth n out w)"

end
