(* ===== verification/NodeProps.thy ===== *)
theory NodeProps
  imports NodeOrch
begin

text \<open>
  Properties of the node orchestrator: the run invariant that every execution and every
  completion of a node keeps, the rule that a node runs once until it is reset, and the
  delivery of outputs to the scope of the enclosing parallel.
\<close>

section \<open>The run invariant\<close>

text \<open>The invariant covers workflows whose parallels contain regular blocks only; loops may
  contain anything.\<close>

definition flat_config :: "dag \<Rightarrow> bool" where
  "flat_config d \<longleftrightarrow> (\<forall>p cfg. mget (parallelConfigs d) p = Some cfg \<longrightarrow> list_all (\<lambda>b. \<not> is_container d b) (par_nodes cfg))"

definition run_wf :: "world \<Rightarrow> bool" where
  "run_wf w \<longleftrightarrow> world_wf w \<and> flat_config (w_dag w)"

lemma flat_config_cong:
  "loopConfigs d' = loopConfigs d \<Longrightarrow> parallelConfigs d' = parallelConfigs d \<Longrightarrow> flat_config d' = flat_config d"
  by (simp add: flat_config_def is_container_def)

lemma configs_wire_internal:
  "loopConfigs (fst (wire_internal blocks off x s)) = loopConfigs (fst s) \<and>
   parallelConfigs (fst (wire_internal blocks off x s)) = parallelConfigs (fst s)"
  by (auto simp: wire_internal_def Let_def split: prod.split)

lemma configs_wireInternalEdges:
  "loopConfigs (wireInternalEdges blocks n off d) = loopConfigs d \<and>
   parallelConfigs (wireInternalEdges blocks n off d) = parallelConfigs d"
  unfolding wireInternalEdges_def
  by (rule fold_fst_invariant [where P = "\<lambda>d'. loopConfigs d' = loopConfigs d \<and> parallelConfigs d' = parallelConfigs d"])
    (simp_all add: configs_wire_internal)

lemma configs_wireSentinelEdges:
  "loopConfigs (wireSentinelEdges p en te d) = loopConfigs d \<and> parallelConfigs (wireSentinelEdges p en te d) = parallelConfigs d"
proof -
  have "loopConfigs (fold (\<lambda>t d. if has_node d t then set_edge s t None None d else d) xs d) = loopConfigs d \<and>
      parallelConfigs (fold (\<lambda>t d. if has_node d t then set_edge s t None None d else d) xs d) = parallelConfigs d" for s xs d
    by (rule configs_fold) simp
  moreover have "loopConfigs (fold (\<lambda>s d. if has_node d s then set_edge s t (terminal_handle s) None d else d) xs d) = loopConfigs d \<and>
      parallelConfigs (fold (\<lambda>s d. if has_node d s then set_edge s t (terminal_handle s) None d else d) xs d) = parallelConfigs d" for t xs d
    by (rule configs_fold) simp
  ultimately show ?thesis by (simp add: wireSentinelEdges_def Let_def)
qed

lemma expansion_wf:
  assumes "expandParallel depth sha p n off tot d = Inr (d', ex)" and "flat_config d" and "wf_dag d"
  shows "wf_dag d' \<and> loopConfigs d' = loopConfigs d \<and> parallelConfigs d' = parallelConfigs d"
proof -
  obtain cfg where cfg: "mget (parallelConfigs d) p = Some cfg"
    using assms(1) by (auto simp: expandParallel_def split: option.splits)
  show ?thesis
  proof (cases "par_nodes cfg = []")
    case True
    with assms cfg show ?thesis by (simp add: expandParallel_def)
  next
    case False
    have flat: "flat_parallel d p" using assms(2) cfg by (simp add: flat_config_def flat_parallel_def)
    obtain d1 d3 where x: "fold (expand_block n off tot) (par_nodes cfg) (d, []) = (d1, ex_allBranchNodes ex)"
      "d3 = wireInternalEdges (par_nodes cfg) n off d1"
      "d' = wireSentinelEdges p (ex_entryNodes ex) (ex_terminalNodes ex) d3"
      using flat_expand [OF flat cfg False assms(1)] by metis
    have "wf_dag d1" using wf_expand_blocks [OF assms(3), of n off tot "par_nodes cfg" "[]"] x(1) by simp
    then have "wf_dag d'" by (simp add: x wf_wireInternalEdges wf_wireSentinelEdges)
    moreover have "loopConfigs d1 = loopConfigs d \<and> parallelConfigs d1 = parallelConfigs d"
    proof -
      have "loopConfigs (fst (fold (expand_block n off tot) (par_nodes cfg) (d, []))) = loopConfigs d \<and>
          parallelConfigs (fst (fold (expand_block n off tot) (par_nodes cfg) (d, []))) = parallelConfigs d"
        by (rule fold_fst_invariant [where P = "\<lambda>d'. loopConfigs d' = loopConfigs d \<and> parallelConfigs d' = parallelConfigs d"])
          simp_all
      with x(1) show ?thesis by simp
    qed
    ultimately show ?thesis by (simp add: x(2,3) configs_wireInternalEdges configs_wireSentinelEdges)
  qed
qed

text \<open>Most operations keep the edge manager and only write well-formed states.\<close>

definition keeps :: "world \<Rightarrow> world \<Rightarrow> bool" where
  "keeps w w' \<longleftrightarrow> w_em w' = w_em w \<and> (state_wf (w_state w) \<longrightarrow> state_wf (w_state w'))"

lemma keeps_run_wf: "keeps w w' \<Longrightarrow> run_wf w \<Longrightarrow> run_wf w'"
  by (auto simp: keeps_def run_wf_def world_wf_def w_dag_def)

lemma keeps_refl [simp]: "keeps w w"
  by (simp add: keeps_def)

lemma keeps_trans: "keeps u v \<Longrightarrow> keeps v w \<Longrightarrow> keeps u w"
  by (auto simp: keeps_def)

lemma keeps_put [simp]: "keeps w (put_loop i s w)" "keeps w (put_parallel i p w)"
  by (simp_all add: keeps_def)

lemma keeps_store [simp]: "keeps w (upd_state (setBlockOutput same i out t p) w)"
  by (simp add: keeps_def wf_setBlockOutput)

lemma keeps_store_put [simp]:
  "keeps w (put_loop j s (upd_state (setBlockOutput same i out t p) w))"
  "keeps w (put_parallel j q (upd_state (setBlockOutput same i out t p) w))"
  by (simp_all add: keeps_def wf_setBlockOutput)

lemma keeps_loop_orch [simp]:
  "keeps w (storeLoopNodeOutput i n out w)" "keeps w (snd (initializeLoopScope env i w))"
  "keeps w (snd (evaluateInitialCondition env i w))" "keeps w (snd (evaluateLoopContinuation env aborted i w))"
proof -
  show "keeps w (storeLoopNodeOutput i n out w)"
    by (simp add: storeLoopNodeOutput_def split: option.split)
  show "keeps w (snd (initializeLoopScope env i w))"
    by (simp add: initializeLoopScope_def forEach_error_def Let_def split: option.split sum.split)
  show "keeps w (snd (evaluateInitialCondition env i w))"
    by (simp add: evaluateInitialCondition_def skip_loop_def split: option.split)
  have "keeps v (snd (createExitResult env i s v))" for s v
    by (simp add: createExitResult_def Let_def)
  moreover have "keeps w (snd (createExitResult env i s (put_loop i s' w)))" for s s'
    by (rule keeps_trans [OF keeps_put(1) [of w i s']]) (simp add: createExitResult_def Let_def)
  ultimately show "keeps w (snd (evaluateLoopContinuation env aborted i w))"
    by (simp add: evaluateLoopContinuation_def Let_def keeps_trans [OF keeps_put(1) keeps_put(1)] split: option.split)
qed

lemma keeps_clear: "keeps w (snd (clearLoopExecutionState depth i w))"
proof -
  let ?w1 = "upd_state (fold unmarkExecuted (collectAllLoopNodeIds (w_dag w) i)) w"
  have "state_wf st \<Longrightarrow> state_wf (fold unmarkExecuted xs st)" for xs and st :: "unit execution_state"
    by (induction xs arbitrary: st) (auto intro: wf_unmarkExecuted)
  then have 1: "keeps w ?w1" by (simp add: keeps_def)
  have drops: "keeps u v" if "only_drops u v" for u v
    using that by (simp add: only_drops_def keeps_def)
  show ?thesis
  proof (cases "resetNestedLoopScopes depth (w_dag w) i ?w1")
    case None
    with 1 show ?thesis by (simp add: clearLoopExecutionState_def Let_def)
  next
    case (Some w2)
    have 2: "keeps w w2" by (rule keeps_trans [OF 1 drops [OF loops_reset_drops [OF Some]]])
    show ?thesis
    proof (cases "resetNestedParallelScopes depth (w_dag w) i w2")
      case None
      with 2 Some show ?thesis by (simp add: clearLoopExecutionState_def Let_def)
    next
      case w3: (Some w3)
      then have "only_drops w2 w3" using parallels_reset_drops [of depth "w_dag w" i w2 w3] by blast
      with 2 Some w3 show ?thesis using keeps_trans drops by (simp add: clearLoopExecutionState_def Let_def)
    qed
  qed
qed

lemma keeps_parallel_orch [simp]:
  "keeps w (snd (initializeParallelScope env p w))" "keeps w (handleParallelBranchCompletion p i out ov w)"
  "keeps w (snd (aggregateParallelResults env p w))" "keeps w (prepareForBatchContinuation p w)"
proof -
  show "keeps w (snd (initializeParallelScope env p w))"
    by (simp add: initializeParallelScope_def setErrorScope_def Let_def split: option.split sum.split)
  show "keeps w (handleParallelBranchCompletion p i out ov w)"
    by (simp add: handleParallelBranchCompletion_def split: option.split)
  show "keeps w (snd (aggregateParallelResults env p w))"
    by (simp add: aggregateParallelResults_def Let_def split: option.split)
  show "keeps w (prepareForBatchContinuation p w)"
    by (simp add: prepareForBatchContinuation_def keeps_def wf_deleteBlockState wf_unmarkExecuted)
qed

lemma prepare_run_wf:
  assumes "run_wf w"
  shows "run_wf (snd (prepareCurrentBatch depth env p w))"
proof (cases "\<exists>s d ex. getParallelScope w p = Some s \<and> prepareCurrentBatch depth env p w = (Inr (), adopt_expansion p d ex w) \<and>
    expandParallel depth (sha256Hex env) p (nat (prepared_batch_size s)) (nat (current_batch_start s))
      (nat (ps_totalBranches s)) (w_dag w) = Inr (d, ex)")
  case True
  then obtain s d ex where x: "prepareCurrentBatch depth env p w = (Inr (), adopt_expansion p d ex w)"
    "expandParallel depth (sha256Hex env) p (nat (prepared_batch_size s)) (nat (current_batch_start s))
      (nat (ps_totalBranches s)) (w_dag w) = Inr (d, ex)" by blast
  have d: "wf_dag d \<and> loopConfigs d = loopConfigs (w_dag w) \<and> parallelConfigs d = parallelConfigs (w_dag w)"
    by (rule expansion_wf [OF x(2)]) (use assms in \<open>simp_all add: run_wf_def world_wf_def em_wf_def w_dag_def\<close>)
  have st: "state_wf (w_state w)" using assms by (simp add: run_wf_def world_wf_def)
  show ?thesis
    using assms d reset_state(1) [OF st] flat_config_cong [of d "w_dag w"]
    by (simp add: x(1) run_wf_def world_wf_def adopt_facts em_wf_def clearDeactivatedEdgesForNodes_def w_dag_def)
next
  case False
  then have "snd (prepareCurrentBatch depth env p w) = w"
    by (auto simp: prepareCurrentBatch_def split: option.splits sum.splits)
  with assms show ?thesis by simp
qed

section \<open>Executing and completing keep the invariant\<close>

lemma keeps_ensure [simp]:
  "keeps w (snd (ensure_loop_of env n w))" "keeps w (snd (ensure_parallel_of env n w))"
  "keeps w (snd (ensure_parallel_scope env p w))"
proof -
  have snds: "snd (case r of (Inl e, w') \<Rightarrow> (Inl e, w') | (Inr _, w') \<Rightarrow> (Inr (), w')) = snd r" for r :: "(run_error + 'x) \<times> world"
    by (simp split: prod.split sum.split)
  show "keeps w (snd (ensure_loop_of env n w))" by (simp add: ensure_loop_of_def snds)
  show "keeps w (snd (ensure_parallel_of env n w))" by (simp add: ensure_parallel_of_def snds)
  show "keeps w (snd (ensure_parallel_scope env p w))" by (simp add: ensure_parallel_scope_def snds)
qed

lemma keeps_of_snd: "keeps w (snd x) \<Longrightarrow> x = (r, w') \<Longrightarrow> run_wf w \<Longrightarrow> run_wf w'"
  using keeps_run_wf by simp

lemma run_wf_parallel_sentinel:
  assumes "run_wf w"
  shows "run_wf (snd (handleParallelSentinel env depth st p w))"
proof -
  obtain r w1 where e: "ensure_parallel_scope env p w = (r, w1)" by fastforce
  have w1: "run_wf w1" by (rule keeps_of_snd [OF keeps_ensure(3) e assms])
  have "run_wf (snd (aggregateParallelResults env p w))" by (rule keeps_run_wf [OF keeps_parallel_orch(3) assms])
  with w1 prepare_run_wf [OF w1, of depth env p] assms show ?thesis
    by (auto simp: handleParallelSentinel_def e split: prod.split sum.split)
qed

lemma run_wf_sentinel:
  assumes "run_wf w"
  shows "run_wf (snd (handleSentinel env depth aborted n w))"
proof -
  have "run_wf (snd (handleLoopSentinel env aborted st i w))" for st i
    using keeps_run_wf [OF keeps_loop_orch(3) assms, of env i] keeps_run_wf [OF keeps_loop_orch(4) assms, of env aborted i] assms
    by (auto simp: handleLoopSentinel_def split: option.split sentinel.split prod.split)
  then show ?thesis
    using run_wf_parallel_sentinel [OF assms] assms
    by (auto simp: handleSentinel_def Let_def split: option.split subflow.split prod.split) (metis snd_conv)+
qed

text \<open>A block runner may write outputs but leaves the invariant intact.\<close>

definition runner_ok :: "block_runner \<Rightarrow> bool" where
  "runner_ok run \<longleftrightarrow> (\<forall>w n. run_wf w \<longrightarrow> run_wf (snd (run w n)))"

lemma execute_uncached_run_wf:
  assumes "run_wf w" and "runner_ok run"
  shows "run_wf (snd (execute_uncached env run depth aborted n i w))"
proof -
  obtain r1 w1 where e1: "ensure_loop_of env n w = (r1, w1)" by fastforce
  have w1: "run_wf w1" by (rule keeps_of_snd [OF keeps_ensure(1) e1 assms(1)])
  obtain r2 w2 where e2: "ensure_parallel_of env n w1 = (r2, w2)" by fastforce
  have w2: "run_wf w2" by (rule keeps_of_snd [OF keeps_ensure(2) e2 w1])
  have "run_wf (snd (execute_content env run depth aborted n w2))"
    using run_wf_sentinel [OF w2] assms(2) w2 by (simp add: execute_content_def runner_ok_def)
  with assms(1) w1 w2 show ?thesis
    by (auto simp: execute_uncached_def e1 e2 split: prod.split sum.split)
qed

lemma execute_run_wf:
  "run_wf w \<Longrightarrow> runner_ok run \<Longrightarrow> run_wf (snd (executeNode env run depth aborted i w))"
  using execute_uncached_run_wf by (simp add: executeNode_def split: option.split)

lemma run_wf_store: "run_wf w \<Longrightarrow> run_wf (store_output i out w)"
  by (rule keeps_run_wf [of w]) (simp_all add: store_output_def)

lemma run_wf_reset:
  assumes "run_wf w"
  shows "run_wf (snd (reset_iteration depth i w))"
proof -
  obtain r w1 where e: "clearLoopExecutionState depth i w = (r, w1)" by fastforce
  have w1: "run_wf w1" by (rule keeps_of_snd [OF keeps_clear e assms])
  have cfg: "loopConfigs (restore_incoming_edges ids d) = loopConfigs d \<and>
      parallelConfigs (restore_incoming_edges ids d) = parallelConfigs d" for ids d
    unfolding restore_incoming_edges_def by (rule configs_fold) simp
  have "run_wf (w1\<lparr>w_em := restoreLoopEdges i (w_em w1)\<rparr>)"
    using w1 cfg flat_config_cong [of "restore_incoming_edges (collectAllLoopNodeIds (w_dag w1) i) (w_dag w1)" "w_dag w1"]
    by (simp add: run_wf_def world_wf_def w_dag_def restoreLoopEdges_def Let_def em_wf_def wf_restore_incoming
        clearDeactivatedEdgesForNodes_def)
  with w1 show ?thesis by (simp add: reset_iteration_def e split: sum.split)
qed

lemma run_wf_regular:
  assumes "run_wf w"
  shows "run_wf (snd (handleRegularNodeCompletion depth n out w))"
  using run_wf_reset run_wf_store [OF assms, of "node_id n" out]
    keeps_run_wf [OF keeps_parallel_orch(4) run_wf_store [OF assms, of "node_id n" out]]
  by (simp add: handleRegularNodeCompletion_def Let_def)

lemma keeps_parent: "keeps w (handleParentSubflowCompletion n out w)"
  by (simp add: handleParentSubflowCompletion_def Let_def split: option.split subflow.split)

lemma run_wf_parallel_node:
  assumes "run_wf w"
  shows "run_wf (snd (handleParallelNodeCompletion env n out p w))"
proof -
  obtain r w1 where e: "initializeParallelScope env p w = (r, w1)" by fastforce
  have w1: "run_wf w1" by (rule keeps_of_snd [OF keeps_parallel_orch(1) e assms])
  have "run_wf (store_output (node_id n) out (store_stable_branch n out (handleParallelBranchCompletion p (node_id n) out None v)))"
    if "run_wf v" for v
    using keeps_run_wf [OF keeps_parallel_orch(2) that, of p "node_id n" out None]
    by (auto simp: store_stable_branch_def intro: run_wf_store split: option.split)
  with w1 assms show ?thesis
    by (auto simp: handleParallelNodeCompletion_def e split: sum.split)
qed

lemma complete_run_wf:
  assumes "run_wf w"
  shows "run_wf (snd (handleNodeCompletion env depth i out w))"
proof (cases "dnode (w_dag w) i")
  case (Some n)
  obtain r w1 where e: "handleRegularNodeCompletion depth n out w = (r, w1)" by fastforce
  with run_wf_regular [OF assms, of depth n out] have w1: "run_wf w1" by simp
  have "run_wf (handleLoopNodeCompletion n out l w)" for l
    using run_wf_store keeps_run_wf [OF keeps_loop_orch(1) assms] by (simp add: handleLoopNodeCompletion_def)
  with w1 keeps_run_wf [OF keeps_parent w1] run_wf_parallel_node [OF assms] show ?thesis
    by (auto simp: handleNodeCompletion_def Some e split: sum.split)
qed (use assms in \<open>simp add: handleNodeCompletion_def\<close>)

text \<open>
  whatever a node does, the run stays consistent. Executing a node (a sentinel that
  decides, expands a batch or finishes its container included) and completing it (with the
  reset of an iteration or the continuation of a batch) keep the DAG, the edge manager and
  the execution state well formed, on success and on every error.
\<close>

theorem node_invariant:
  assumes "run_wf w" and "runner_ok run"
  shows "run_wf (snd (executeNode env run depth aborted i w)) \<and> run_wf (snd (handleNodeCompletion env depth i out w))"
  using execute_run_wf [OF assms] complete_run_wf [OF assms(1)] by blast

section \<open>A completed node is not executed again\<close>

lemma read_back [simp]: "getBlockOutput (setBlockOutput same i out t p st) i None = Some out"
  by (rule setBlockOutput_as_state [of same i out t p st])
    (simp add: getBlockOutput_def getBlockState_def unscoped_state_def)

lemma executed_after [simp]: "hasExecuted (setBlockOutput same i out t p st) i"
  by (rule setBlockOutput_as_state [of same i out t p st]) (simp add: hasExecuted_def)

lemma frame_put [simp]:
  "w_dirty (put_loop j s w) = w_dirty w" "w_dirty (put_parallel j q w) = w_dirty w" "w_dirty (upd_state f w) = w_dirty w"
  by (simp_all add: put_loop_def put_parallel_def upd_state_def)

lemma frame_scopes:
  "w_em (storeLoopNodeOutput j i out w) = w_em w" "w_dirty (storeLoopNodeOutput j i out w) = w_dirty w"
  "w_state (storeLoopNodeOutput j i out w) = w_state w"
  "w_em (handleParallelBranchCompletion p i out ov w) = w_em w" "w_dirty (handleParallelBranchCompletion p i out ov w) = w_dirty w"
  "w_state (handleParallelBranchCompletion p i out ov w) = w_state w"
  by (simp_all add: storeLoopNodeOutput_def handleParallelBranchCompletion_def split: option.split)

lemma frame_parent:
  "w_em (handleParentSubflowCompletion n out w) = w_em w" "w_dirty (handleParentSubflowCompletion n out w) = w_dirty w"
  "w_state (handleParentSubflowCompletion n out w) = w_state w"
  by (simp_all add: handleParentSubflowCompletion_def Let_def frame_scopes split: option.split subflow.split)

lemma frame_initialize:
  "w_em (snd (initializeParallelScope env p w)) = w_em w" "w_dirty (snd (initializeParallelScope env p w)) = w_dirty w"
  by (simp_all add: initializeParallelScope_def setErrorScope_def Let_def split: option.split sum.split)

lemma regular_completion:
  "\<not> continues out \<Longrightarrow> handleRegularNodeCompletion depth n out w = (Inr (), store_output (node_id n) out w)"
  by (auto simp: handleRegularNodeCompletion_def continues_def Let_def)

lemma frame_stable:
  "w_em (store_stable_branch n out w) = w_em w" "w_dirty (store_stable_branch n out w) = w_dirty w"
  by (simp_all add: store_stable_branch_def store_output_def split: option.split)

lemma completion_stores:
  assumes "handleNodeCompletion env depth i out w = (Inr (), w')" and "dnode (w_dag w) i = Some n" and "\<not> continues out"
  obtains st where "w_state w' = setBlockOutput False (node_id n) out 0 None st" "w_em w' = w_em w" "w_dirty w' = w_dirty w"
proof -
  have init: "w_em w1 = w_em w" "w_dirty w1 = w_dirty w" if "initializeParallelScope env p w = (r, w1)" for p r w1
    using frame_initialize [of env p w] that by simp_all
  show thesis
    using assms that init
    by (auto simp: handleNodeCompletion_def regular_completion frame_parent store_output_def handleLoopNodeCompletion_def
        frame_scopes handleParallelNodeCompletion_def frame_stable split: if_splits prod.splits sum.splits)
qed


section \<open>Outputs reach the enclosing parallel\<close>

text \<open>
  outputs are delivered to the right branch. When a block inside a parallel completes,
  its output is appended to the outputs of the branch the node is mapped to and becomes
  readable under the node's id; when a container nested in a parallel exits, its results
  are appended to the branch its parent entry names.
\<close>

theorem completion_reaches_branch:
  assumes "dnode (w_dag w) i = Some n" and "node_id n = i" and "getParallelScope w p = Some s" and "p \<noteq> []"
  shows "(\<not> m_isSentinel (metadata n) \<and> m_isParallelBranch (metadata n) \<and> parallel_of n = Some p \<and>
      completed_branch p i None w = Some b \<longrightarrow>
      (\<exists>w'. handleNodeCompletion env depth i out w = (Inr (), w') \<and> getBlockOutput (w_state w') i None = Some out \<and>
        getParallelScope w' p = Some (s\<lparr>ps_branchOutputs := push_output b (JObj out) (ps_branchOutputs s)\<rparr>)))
   \<and> (m_isSentinel (metadata n) \<and> m_sentinelType (metadata n) = Some SentinelEnd \<and> m_subflowId (metadata n) = Some c \<and> c \<noteq> [] \<and>
      \<not> continues out \<and> mget (w_parents w) c = Some \<lparr>pe_parentId = p, pe_parentType = SubParallel, pe_branchIndex = Some b\<rparr> \<longrightarrow>
      (\<exists>w'. handleNodeCompletion env depth i out w = (Inr (), w') \<and> getBlockOutput (w_state w') i None = Some out \<and>
        getParallelScope w' p =
          Some (s\<lparr>ps_branchOutputs := push_output b (JObj (getSubflowResultOutput out)) (ps_branchOutputs s)\<rparr>)))"
proof -
  have stable: "getParallelScope (store_stable_branch n out v) p = getParallelScope v p" for v
    by (simp add: store_stable_branch_def store_output_def getParallelScope_def split: option.split)
  have parents: "w_parents (store_output j out v) = w_parents v" for j v
    by (simp add: store_output_def upd_state_def)
  have loop: "falsy_str (loop_of n)" if "parallel_of n = Some p"
    using that by (auto simp: loop_of_def parallel_of_def split: if_splits)
  have scope: "getParallelScope (store_output j out v) p = getParallelScope v p" for j v
    by (simp add: store_output_def getParallelScope_def)
  show ?thesis
    using assms loop
    by (auto simp: handleNodeCompletion_def handleParallelNodeCompletion_def handleParallelBranchCompletion_def
        regular_completion handleParentSubflowCompletion_def parents completed_branch_def scope stable)
      (simp_all add: store_output_def getParallelScope_def)
qed

section \<open>What a sentinel may answer\<close>

text \<open>The type of the output of a sentinel: its route is one of the routes of its own kind of
  container, its results are an array, and it has neither an error nor a selected option.\<close>

fun routes_of :: "subflow \<Rightarrow> string list" where
  "routes_of SubLoop = [LOOP_CONTINUE, LOOP_EXIT]"
| "routes_of SubParallel = [PARALLEL_CONTINUE, PARALLEL_EXIT]"

fun control_handles_of :: "subflow \<Rightarrow> string list" where
  "control_handles_of SubLoop = [LOOP_CONTINUE, LOOP_CONTINUE_ALT, LOOP_EXIT]"
| "control_handles_of SubParallel = [PARALLEL_CONTINUE, PARALLEL_EXIT]"

definition sentinel_typed :: "subflow \<Rightarrow> jobj \<Rightarrow> bool" where
  "sentinel_typed k out \<longleftrightarrow>
     get_prop out ''selectedRoute'' \<in> insert JUndef (JStr ` set (routes_of k)) \<and>
     (get_prop out ''results'' = JUndef \<or> (\<exists>rs. get_prop out ''results'' = JArr rs)) \<and>
     get_prop out ''error'' = JUndef \<and> get_prop out ''selectedOption'' = JUndef"

lemma loop_route: "lc_selectedRoute (fst (evaluateLoopContinuation env aborted i w)) \<in> {LOOP_CONTINUE, LOOP_EXIT}"
  by (simp add: evaluateLoopContinuation_def createExitResult_def Let_def split: option.split)

lemma typed_outputs:
  "sentinel_typed k []" "sentinel_typed k sentinel_start" "sentinel_typed SubLoop (skip_output LOOP_EXIT)"
  "sentinel_typed SubParallel (skip_output PARALLEL_EXIT)" "sentinel_typed SubParallel (parallel_end_output r)"
  "lc_selectedRoute c \<in> {LOOP_CONTINUE, LOOP_EXIT} \<Longrightarrow> sentinel_typed SubLoop (loop_end_output c)"
  by (auto simp: sentinel_typed_def get_prop_def sentinel_start_def skip_output_def parallel_end_output_def loop_end_output_def)

lemma loop_sentinel_typed: "sentinel_typed SubLoop (fst (handleLoopSentinel env aborted st i w))"
  using loop_route [of env aborted i w] typed_outputs
  by (auto simp: handleLoopSentinel_def split: option.split sentinel.split prod.split)

lemma parallel_sentinel_typed: "handleParallelSentinel env depth st p w = (Inr out, w') \<Longrightarrow> sentinel_typed SubParallel out"
  using typed_outputs by (auto simp: handleParallelSentinel_def split: if_splits prod.splits sum.splits)

lemma typed_control:
  assumes "sentinel_typed k out" and "shouldActivateEdge e out"
    and "normalizeWorkflowEdgeSourceHandle (edge_sourceHandle e) = Some h" and "h \<in> set SUBFLOW_CONTROL_EDGE_HANDLES"
  shows "h \<in> set (control_handles_of k)"
proof (cases "control_route out")
  case True
  have r: "get_prop out ''selectedRoute'' = JStr h \<or>
      get_prop out ''selectedRoute'' = JStr LOOP_CONTINUE \<and> h \<in> {LOOP_CONTINUE, LOOP_CONTINUE_ALT}"
    by (rule activate_control_route(1) [OF True assms(2,3)])
  have t: "get_prop out ''selectedRoute'' \<in> insert JUndef (JStr ` set (routes_of k))"
    using assms(1) by (simp add: sentinel_typed_def)
  have "LOOP_CONTINUE \<notin> {PARALLEL_CONTINUE, PARALLEL_EXIT}" by code_simp
  with r t show ?thesis by (cases k) auto
next
  case False
  with assms(2-4) show ?thesis
    by (auto simp: shouldActivateEdge_def isSubflowControlEdge_def Let_def control_route_def split: if_splits)
qed

text \<open>
  C39: a sentinel answers in the type of its container. Whatever the state, the output of a
  sentinel of a loop carries only loop routes and that of a parallel only parallel routes,
  its results are an array, and it never has an error or a selected option; so the control
  edges it activates are those of its own kind of container.
\<close>

theorem sentinel_output_typed:
  assumes "handleSentinel env depth aborted n w = (Inr out, w')" and "m_subflowType (metadata n) = Some k"
  shows "sentinel_typed k out \<and>
    (\<forall>e h. shouldActivateEdge e out \<and> normalizeWorkflowEdgeSourceHandle (edge_sourceHandle e) = Some h \<and>
       h \<in> set SUBFLOW_CONTROL_EDGE_HANDLES \<longrightarrow> h \<in> set (control_handles_of k))"
proof -
  have "sentinel_typed k out"
  proof (cases "falsy_str (m_subflowId (metadata n))")
    case True
    with assms(1) show ?thesis by (simp add: handleSentinel_def typed_outputs)
  next
    case False
    show ?thesis
    proof (cases k)
      case SubLoop
      with assms False loop_sentinel_typed [of env aborted "m_sentinelType (metadata n)" "the (m_subflowId (metadata n))" w]
      show ?thesis by (auto simp: handleSentinel_def Let_def split: prod.splits)
    next
      case SubParallel
      with assms False parallel_sentinel_typed show ?thesis by (simp add: handleSentinel_def Let_def)
    qed
  qed
  with typed_control show ?thesis by blast
qed

section \<open>A branch in progress\<close>

text \<open>The first block of the second batch, about to run inside its parallel.\<close>

definition live_dag :: dag where
  "live_dag = stale_dag\<lparr>dag_nodes := [
      demo_node (buildParallelSentinelStartId ''P'') [] [(buildBranchNodeId ''a'' 0, ''s'')] no_meta,
      demo_node (buildBranchNodeId ''a'' 0) [] [(buildParallelSentinelEndId ''P'', ''s'')]
        (branch_meta\<lparr>m_subflowId := Some ''P'', m_subflowType := Some SubParallel, m_branchIndex := Some 0\<rparr>),
      demo_node (buildParallelSentinelEndId ''P'') [] [] no_meta]\<rparr>"

definition live_world :: world where
  "live_world = stale_world\<lparr>w_em := \<lparr>em_dag = live_dag, deactivatedEdges = [], nodesWithActivatedEdge = []\<rparr>,
     w_state := \<lparr>blockStates = [], executedBlocks = []\<rparr>,
     w_mapping := [(buildBranchNodeId ''a'' 0, \<lparr>bm_originalBlockId = ''a'', bm_parallelId = ''P'', bm_iterationIndex = 2\<rparr>)]\<rparr>"

lemma live_wf: "run_wf live_world"
proof -
  have "wf_dag live_dag" by (rule wf_dag_check; code_simp)
  moreover have "state_wf (\<lparr>blockStates = [], executedBlocks = []\<rparr> :: unit execution_state)" by (simp add: state_wf_def)
  ultimately show ?thesis
    by (simp add: run_wf_def world_wf_def em_wf_def live_world_def w_dag_def flat_config_def is_container_def
        live_dag_def stale_dag_def demo_parallel_def)
qed

definition echo_runner :: block_runner where
  "echo_runner w n = (Inr [(''v'', JNum 7)], w)"

lemma echo_ok: "runner_ok echo_runner"
  by (simp add: runner_ok_def echo_runner_def)

theorem node_invariant_witness:
  "run_wf (snd (executeNode fan_env echo_runner 1 False (buildBranchNodeId ''a'' 0) live_world))"
  using node_invariant [OF live_wf echo_ok] by blast

lemma live_completes: "fst (handleNodeCompletion fan_env 1 (buildBranchNodeId ''a'' 0) [(''v'', JNum 7)] live_world) = Inr ()"
  by code_simp

lemma live_facts:
  "has_node (w_dag live_world) (buildBranchNodeId ''a'' 0)" "w_dirty live_world = None"
  "getParallelScope live_world ''P'' = Some stale_scope" "\<not> continues [(''v'', JNum 7)]"
  "completed_branch ''P'' (buildBranchNodeId ''a'' 0) None live_world = Some 2"
  by code_simp+


theorem completion_reaches_branch_witness:
  "\<exists>w'. handleNodeCompletion fan_env 1 (buildBranchNodeId ''a'' 0) [(''v'', JNum 7)] live_world = (Inr (), w') \<and>
     map_option (\<lambda>s. mget (ps_branchOutputs s) 2) (getParallelScope w' ''P'') = Some (Some [JObj [(''v'', JNum 7)]])"
proof -
  obtain n where n: "dnode (w_dag live_world) (buildBranchNodeId ''a'' 0) = Some n" "node_id n = buildBranchNodeId ''a'' 0"
    "\<not> m_isSentinel (metadata n)" "m_isParallelBranch (metadata n)" "parallel_of n = Some ''P''"
  proof -
    have "(case dnode (w_dag live_world) (buildBranchNodeId ''a'' 0) of None \<Rightarrow> False | Some n \<Rightarrow>
        node_id n = buildBranchNodeId ''a'' 0 \<and> \<not> m_isSentinel (metadata n) \<and> m_isParallelBranch (metadata n) \<and>
        parallel_of n = Some ''P'')" by code_simp
    then show thesis using that by (auto split: option.splits)
  qed
  have "mget (ps_branchOutputs stale_scope) 2 = None" by code_simp
  with completion_reaches_branch [OF n(1,2) live_facts(3)] n(3-) live_facts(5) show ?thesis
    by (fastforce simp: push_output_def)
qed

definition end_sentinel :: dag_node where
  "end_sentinel = snd (demo_node (buildParallelSentinelEndId ''P'') [] []
     (no_meta\<lparr>m_isSentinel := True, m_sentinelType := Some SentinelEnd, m_subflowType := Some SubParallel, m_subflowId := Some ''P''\<rparr>))"

lemma end_sentinel_facts:
  "m_subflowType (metadata end_sentinel) = Some SubParallel"
  "\<exists>out. fst (handleSentinel fan_env 1 False end_sentinel live_world) = Inr out \<and> get_prop out ''selectedRoute'' = JStr PARALLEL_EXIT"
proof -
  show "m_subflowType (metadata end_sentinel) = Some SubParallel" by code_simp
  have "(case fst (handleSentinel fan_env 1 False end_sentinel live_world) of Inl _ \<Rightarrow> False
      | Inr out \<Rightarrow> get_prop out ''selectedRoute'' = JStr PARALLEL_EXIT)" by code_simp
  then show "\<exists>out. fst (handleSentinel fan_env 1 False end_sentinel live_world) = Inr out \<and> get_prop out ''selectedRoute'' = JStr PARALLEL_EXIT"
    by (auto split: sum.splits)
qed

theorem sentinel_output_typed_witness:
  "\<exists>out. fst (handleSentinel fan_env 1 False end_sentinel live_world) = Inr out \<and> sentinel_typed SubParallel out \<and>
     get_prop out ''selectedRoute'' = JStr PARALLEL_EXIT"
proof -
  obtain out w' where "handleSentinel fan_env 1 False end_sentinel live_world = (Inr out, w')"
    "get_prop out ''selectedRoute'' = JStr PARALLEL_EXIT"
    using end_sentinel_facts(2) by (metis prod.collapse)
  with sentinel_output_typed [OF _ end_sentinel_facts(1)] show ?thesis by fastforce
qed

end
