(* ===== verification/Steps.thy ===== *)
theory Steps
  imports Main
begin

text \<open>
  Transition systems: what a step relation preserves along every run. A component that is
  a state machine (the engine) interprets these contracts on its step relation.
\<close>

section \<open>Invariants\<close>

locale step_invariant =
  fixes step :: "'s \<Rightarrow> 's \<Rightarrow> bool"
    and inv :: "'s \<Rightarrow> bool"
  assumes step_keeps: "inv s \<Longrightarrow> step s t \<Longrightarrow> inv t"
begin

lemma run_keeps: "step\<^sup>*\<^sup>* s t \<Longrightarrow> inv s \<Longrightarrow> inv t"
  by (induction rule: rtranclp_induct) (auto intro: step_keeps)

lemma steps_keep: "(step ^^ n) s t \<Longrightarrow> inv s \<Longrightarrow> inv t"
  using run_keeps relpowp_imp_rtranclp by metis

end

text \<open>A view of the state that no step changes while the invariant holds.\<close>

locale frozen_view = step_invariant +
  fixes view :: "'s \<Rightarrow> 'v"
  assumes step_view: "inv s \<Longrightarrow> step s t \<Longrightarrow> view t = view s"
begin

lemma run_view: "step\<^sup>*\<^sup>* s t \<Longrightarrow> inv s \<Longrightarrow> view t = view s"
proof (induction rule: rtranclp_induct)
  case (step u v)
  then show ?case using run_keeps step_view by metis
qed simp

end

text \<open>A system that every step brings closer to its end.\<close>

locale draining = step_invariant +
  fixes size :: "'s \<Rightarrow> nat"
  assumes step_decreases: "inv s \<Longrightarrow> step s t \<Longrightarrow> size t < size s"
begin

lemma run_bounded: "(step ^^ n) s t \<Longrightarrow> inv s \<Longrightarrow> n + size t \<le> size s"
proof (induction n arbitrary: t)
  case (Suc n)
  then obtain u where u: "(step ^^ n) s u" "step u t" by (auto simp: relpowp_Suc_right elim: relcomppE)
  then have "size t < size u" using steps_keep step_decreases Suc.prems(2) by metis
  with Suc u show ?case by fastforce
qed simp

end

section \<open>Refinement\<close>

text \<open>Every step of the system is a step of the specification or leaves its abstraction alone.\<close>

locale refines = step_invariant +
  fixes abs :: "'s \<Rightarrow> 'a"
    and spec :: "'a \<Rightarrow> 'a \<Rightarrow> bool"
  assumes simulated: "inv s \<Longrightarrow> step s t \<Longrightarrow> spec\<^sup>=\<^sup>= (abs s) (abs t)"
begin

lemma run_simulated: "step\<^sup>*\<^sup>* s t \<Longrightarrow> inv s \<Longrightarrow> spec\<^sup>*\<^sup>* (abs s) (abs t)"
proof (induction rule: rtranclp_induct)
  case (step u v)
  then have "spec\<^sup>=\<^sup>= (abs u) (abs v)" using run_keeps simulated by metis
  with step show ?case by auto
qed simp

end

end
