(* ===== verification/Engine.thy ===== *)
theory Engine
  imports NodeProps Steps
begin

text \<open>
  \<open>ExecutionEngine\<close> (\<open>executor/execution/engine.ts\<close>): the ready queue, the nodes in
  flight, the completion of a node and the outcome of a run.

  The engine runs on one JavaScript thread. A node that is taken from the queue is a task:
  \<open>executeNodeAsync\<close> reads whether the node had run before and decides, up to its first
  \<open>await\<close>, whether the node runs at all; its execution takes effect at some later moment
  (one atomic step, in any order with the other tasks), and its completion, which
  \<open>withQueueLock\<close> serializes, at a still later one. Cancellation may arrive at any moment.
  Every interleaving is a sequence of steps of the relation \<open>engine_step\<close>. Logs, times,
  secret provenance and the serialized snapshot are not part of the model.
\<close>

section \<open>State\<close>

datatype phase = Running dag_node | Finished "run_error + node_result"

record task =
  tk_node :: string
  tk_seen :: bool
  tk_phase :: phase

record engine =
  en_world :: world
  en_queue :: "string list"
  en_tasks :: "task list"
  en_finalOutput :: jobj
  en_locked :: bool
  en_paused :: "(jval, jval) jsmap"
  en_cancelled :: bool
  en_error :: bool
  en_executionError :: "run_error option"
  en_stopped :: bool
  en_resuming :: bool
  en_pending :: "string list"

text \<open>What a run is given besides its state: the environment, the block executor, the stack
  depth, and \<open>stopAfterBlockId\<close> of the context.\<close>

record run_env =
  re_env :: exec_env
  re_run :: block_runner
  re_depth :: nat
  re_stopAfter :: "string option"

definition allowResumeTriggers :: "engine \<Rightarrow> bool" where
  "allowResumeTriggers e \<longleftrightarrow> en_resuming e"

definition engine_init :: "world \<Rightarrow> bool \<Rightarrow> string list \<Rightarrow> bool \<Rightarrow> engine" where
  "engine_init w resuming pending aborted =
     \<lparr>en_world = w, en_queue = [], en_tasks = [], en_finalOutput = [], en_locked = False, en_paused = [],
      en_cancelled = aborted, en_error = False, en_executionError = None, en_stopped = False,
      en_resuming = resuming, en_pending = pending\<rparr>"

definition signalCancelled :: "engine \<Rightarrow> engine" where
  "signalCancelled e = (if en_cancelled e then e else e\<lparr>en_cancelled := True\<rparr>)"

definition hasWork :: "engine \<Rightarrow> bool" where
  "hasWork e \<longleftrightarrow> en_queue e \<noteq> [] \<or> en_tasks e \<noteq> []"

section \<open>The ready queue\<close>

definition addToQueue :: "string \<Rightarrow> engine \<Rightarrow> engine" where
  "addToQueue i e =
     (if (case dnode (w_dag (en_world e)) i of None \<Rightarrow> False | Some n \<Rightarrow> m_isResumeTrigger (metadata n)) \<and>
         \<not> allowResumeTriggers e then e
      else if i \<in> set (en_queue e) then e
      else e\<lparr>en_queue := en_queue e @ [i]\<rparr>)"

definition addMultipleToQueue :: "string list \<Rightarrow> engine \<Rightarrow> engine" where
  "addMultipleToQueue is e = fold addToQueue is e"

definition dequeue :: "engine \<Rightarrow> (string \<times> engine) option" where
  "dequeue e = (case en_queue e of [] \<Rightarrow> None | i # q \<Rightarrow> Some (i, e\<lparr>en_queue := q\<rparr>))"

record remaining_edge =
  rm_source :: string
  rm_target :: string
  rm_sourceHandle :: "string option"

text \<open>The handle of a released edge: as persisted, or else that of the edge of the DAG, a
  continuation before an error edge.\<close>

definition resolveRemainingEdgeHandle :: "dag \<Rightarrow> remaining_edge \<Rightarrow> string option" where
  "resolveRemainingEdgeHandle d r =
     (if rm_sourceHandle r \<noteq> None then rm_sourceHandle r
      else case dnode d (rm_source r) of
             None \<Rightarrow> None
           | Some n \<Rightarrow>
               (let es = filter (\<lambda>e. edge_target e = rm_target r) (out_edges n)
                in case find (\<lambda>e. edge_sourceHandle e \<noteq> Some ERROR) es of
                     Some e \<Rightarrow> edge_sourceHandle e
                   | None \<Rightarrow> if es = [] then None else Some ERROR))"

definition upd_em :: "(edge_manager \<Rightarrow> edge_manager) \<Rightarrow> engine \<Rightarrow> engine" where
  "upd_em f e = e\<lparr>en_world := (en_world e)\<lparr>w_em := f (w_em (en_world e))\<rparr>\<rparr>"

definition drop_incoming :: "string \<Rightarrow> string \<Rightarrow> edge_manager \<Rightarrow> edge_manager" where
  "drop_incoming s t em =
     em\<lparr>em_dag := upd_node t (\<lambda>m. m\<lparr>incomingEdges := sdel s (incomingEdges m)\<rparr>) (em_dag em)\<rparr>"

definition queue_if_ready :: "string \<Rightarrow> engine \<Rightarrow> engine" where
  "queue_if_ready t e = (if isTargetReady (w_em (en_world e)) t then addToQueue t e else e)"

definition release_edge :: "remaining_edge \<Rightarrow> engine \<Rightarrow> engine" where
  "release_edge r e =
     (case dnode (w_dag (en_world e)) (rm_target r) of
        None \<Rightarrow> e
      | Some n \<Rightarrow>
          (let h = resolveRemainingEdgeHandle (w_dag (en_world e)) r
           in if h = Some ERROR then
                (let e1 = upd_em (deactivateResumedEdge (rm_source r) (node_id n) h) e
                 in if hasActivatedEdge (w_em (en_world e1)) (node_id n) then queue_if_ready (node_id n) e1 else e1)
              else
                (let e1 = upd_em (drop_incoming (rm_source r) (rm_target r)) e;
                     e2 = (if rm_source r \<in> set (incomingEdges n) then upd_em (markNodeWithActivatedEdge (node_id n)) e1
                           else e1)
                 in queue_if_ready (node_id n) e2)))"

definition start_node :: "dag \<Rightarrow> string option" where
  "start_node d =
     map_option node_id (find (\<lambda>n. blk_type (node_block n) \<in> {Some ''start_trigger'', Some ''starter''}) (mvalues (dag_nodes d)))"

definition initializeQueue ::
  "string option \<Rightarrow> remaining_edge list \<Rightarrow> string option \<Rightarrow> engine \<Rightarrow> engine" where
  "initializeQueue runFrom remaining trigger e =
     (case runFrom of
        Some i \<Rightarrow> addToQueue i e
      | None \<Rightarrow>
          if remaining \<noteq> [] then fold release_edge remaining e
          else if en_pending e \<noteq> [] then (addMultipleToQueue (en_pending e) e)\<lparr>en_pending := []\<rparr>
          else if en_resuming e then e
          else if \<not> falsy_str trigger then addToQueue (the trigger) e
          else (case start_node (w_dag (en_world e)) of None \<Rightarrow> e | Some i \<Rightarrow> addToQueue i e))"

section \<open>Executing and completing a task\<close>

definition launch :: "string \<Rightarrow> engine \<Rightarrow> engine" where
  "launch i e =
     (let w = en_world e;
          ph = (case dnode (w_dag w) i of
                  None \<Rightarrow> Finished (Inl (NodeNotFound i))
                | Some n \<Rightarrow>
                    if uses_cache w i
                    then Finished (Inr \<lparr>nr_nodeId = i, nr_output = cached_output w i, nr_isFinalOutput = False\<rparr>)
                    else Running n)
      in e\<lparr>en_tasks := en_tasks e @ [\<lparr>tk_node = i, tk_seen = hasExecuted (w_state w) i, tk_phase = ph\<rparr>]\<rparr>)"

definition perform :: "run_env \<Rightarrow> nat \<Rightarrow> dag_node \<Rightarrow> engine \<Rightarrow> engine" where
  "perform r k n e =
     (let t = en_tasks e ! k
      in case execute_uncached (re_env r) (re_run r) (re_depth r) (en_cancelled e) n (tk_node t) (en_world e) of
           (res, w) \<Rightarrow> e\<lparr>en_world := w, en_tasks := (en_tasks e)[k := t\<lparr>tk_phase := Finished res\<rparr>]\<rparr>)"

definition setFinalOutput :: "jobj \<Rightarrow> engine \<Rightarrow> engine" where
  "setFinalOutput out e = e\<lparr>en_finalOutput := out\<rparr>"

fun jprop :: "jval \<Rightarrow> string \<Rightarrow> jval" where
  "jprop (JObj obj) k = get_prop obj k"
| "jprop _ k = JUndef"

definition is_response :: "dag_node \<Rightarrow> bool" where
  "is_response n \<longleftrightarrow> blk_type (node_block n) = Some ''response''"

definition subflow_continues :: "jobj \<Rightarrow> bool" where
  "subflow_continues out \<longleftrightarrow>
     get_prop out ''shouldContinue'' = JBool True \<or> get_prop out ''selectedRoute'' = JStr PARALLEL_CONTINUE"

definition propagate_node :: "string \<Rightarrow> dag_node \<Rightarrow> jobj \<Rightarrow> engine \<Rightarrow> engine" where
  "propagate_node i n out e =
     (let n' = (case dnode (w_dag (en_world e)) i of None \<Rightarrow> n | Some m \<Rightarrow> m)
      in case processOutgoingEdges (w_em (en_world e)) n' out False of
           (em, ready) \<Rightarrow> addMultipleToQueue ready (upd_em (\<lambda>_. em) e))"

text \<open>\<open>handleNodeCompletion\<close> of the engine; the result is the error that the node orchestrator
  throws, if any.\<close>

definition complete_rest :: "run_env \<Rightarrow> string \<Rightarrow> dag_node \<Rightarrow> jobj \<Rightarrow> bool \<Rightarrow> engine \<Rightarrow> engine" where
  "complete_rest r i n out isFinal e =
     (if is_response n then
        (if en_locked e then e else (setFinalOutput out e)\<lparr>en_locked := True\<rparr>)\<lparr>en_stopped := True\<rparr>
      else
        (let e1 = (if isFinal \<and> \<not> en_locked e then setFinalOutput out e else e)
         in if re_stopAfter r = Some i \<and> \<not> subflow_continues out then e1\<lparr>en_stopped := True\<rparr>
            else propagate_node i n out e1))"

definition complete_node :: "run_env \<Rightarrow> string \<Rightarrow> jobj \<Rightarrow> bool \<Rightarrow> engine \<Rightarrow> (run_error + unit) \<times> engine" where
  "complete_node r i out isFinal e =
     (case dnode (w_dag (en_world e)) i of
        None \<Rightarrow> (Inr (), e)
      | Some n \<Rightarrow>
          if en_stopped e \<and> en_locked e then (Inr (), e)
          else
            (case handleNodeCompletion (re_env r) (re_depth r) i out (en_world e) of
               (Inl err, w) \<Rightarrow> (Inl err, e\<lparr>en_world := w\<rparr>)
             | (Inr _, w) \<Rightarrow>
                 (let e1 = e\<lparr>en_world := w\<rparr>; pause = get_prop out ''_pauseMetadata''
                  in if truthy pause
                     then (Inr (), e1\<lparr>en_paused := mput (jprop pause ''contextId'') pause (en_paused e1)\<rparr>)
                     else (Inr (), complete_rest r i n out isFinal e1))))"

text \<open>The first error that a task throws is the error of the run.\<close>

definition record_error :: "run_error \<Rightarrow> engine \<Rightarrow> engine" where
  "record_error err e = (if en_error e then e else e\<lparr>en_error := True, en_executionError := Some err\<rparr>)"

definition drop_at :: "nat \<Rightarrow> 'a list \<Rightarrow> 'a list" where
  "drop_at k xs = take k xs @ drop (Suc k) xs"

definition settle :: "run_env \<Rightarrow> nat \<Rightarrow> run_error + node_result \<Rightarrow> engine \<Rightarrow> engine" where
  "settle r k res e =
     (let t = en_tasks e ! k; e0 = e\<lparr>en_tasks := drop_at k (en_tasks e)\<rparr>
      in case res of
           Inl err \<Rightarrow> record_error err e0
         | Inr nr \<Rightarrow>
             if tk_seen t then e0
             else (case complete_node r (tk_node t) (nr_output nr) (nr_isFinalOutput nr) e0 of
                     (Inl err, e1) \<Rightarrow> record_error err e1
                   | (Inr _, e1) \<Rightarrow> e1))"

section \<open>The run\<close>

definition halted :: "engine \<Rightarrow> bool" where
  "halted e \<longleftrightarrow> en_cancelled e \<or> en_error e \<or> en_stopped e"

inductive engine_step :: "run_env \<Rightarrow> engine \<Rightarrow> engine \<Rightarrow> bool" for r where
  Skip: "\<not> halted e \<Longrightarrow> dequeue e = Some ([], e') \<Longrightarrow> engine_step r e e'"
| Launch: "\<not> halted e \<Longrightarrow> dequeue e = Some (i, e') \<Longrightarrow> i \<noteq> [] \<Longrightarrow> engine_step r e (launch i e')"
| Perform: "k < length (en_tasks e) \<Longrightarrow> tk_phase (en_tasks e ! k) = Running n \<Longrightarrow> engine_step r e (perform r k n e)"
| Settle: "k < length (en_tasks e) \<Longrightarrow> tk_phase (en_tasks e ! k) = Finished res \<Longrightarrow> engine_step r e (settle r k res e)"
| Cancel: "\<not> en_cancelled e \<Longrightarrow> engine_step r e (signalCancelled e)"

text \<open>The engine leaves its loop and returns: nothing is left to do, or a flag stops it; only a
  cancelled run returns with tasks in flight.\<close>

definition returns :: "engine \<Rightarrow> bool" where
  "returns e \<longleftrightarrow> (\<not> hasWork e \<or> halted e) \<and> (en_tasks e = [] \<or> en_cancelled e)"

datatype run_result =
    Success jobj
  | Paused jval
  | Cancelled jobj
  | Failed run_error jobj

definition collectPauseResponses :: "engine \<Rightarrow> jval" where
  "collectPauseResponses e =
     (let responses = map (\<lambda>p. jprop p ''response'') (mvalues (en_paused e))
      in case responses of
           [r] \<Rightarrow> r
         | _ \<Rightarrow> JObj [(''pausedBlocks'', JArr responses), (''pauseCount'', JNum (int (length responses)))])"

definition run_outcome :: "engine \<Rightarrow> run_result" where
  "run_outcome e =
     (if en_error e \<and> en_executionError e \<noteq> None \<and> \<not> en_locked e then
        (if en_cancelled e then Cancelled (en_finalOutput e)
         else Failed (the (en_executionError e)) (en_finalOutput e))
      else if en_paused e \<noteq> [] then Paused (collectPauseResponses e)
      else if en_cancelled e then Cancelled (en_finalOutput e)
      else Success (en_finalOutput e))"

end
