(* ===== verification/EngineProps.thy ===== *)
theory EngineProps
  imports Engine "HOL-Library.Multiset"
begin

text \<open>
  Properties of the engine over every interleaving: the invariant of a run, the abstract
  scheduler it implements, the finality of a response, the first error, and the bound on
  what still happens after a run is stopped.
\<close>

section \<open>Frames\<close>

lemma addToQueue_eq: "addToQueue i e = e\<lparr>en_queue := en_queue (addToQueue i e)\<rparr>"
  by (simp add: addToQueue_def)

lemma queue_frame [simp]:
  "en_world (addToQueue i e) = en_world e" "en_tasks (addToQueue i e) = en_tasks e"
  "en_finalOutput (addToQueue i e) = en_finalOutput e" "en_locked (addToQueue i e) = en_locked e"
  "en_paused (addToQueue i e) = en_paused e" "en_cancelled (addToQueue i e) = en_cancelled e"
  "en_error (addToQueue i e) = en_error e" "en_executionError (addToQueue i e) = en_executionError e"
  "en_stopped (addToQueue i e) = en_stopped e" "en_resuming (addToQueue i e) = en_resuming e"
  by (simp_all add: addToQueue_def)

lemma queue_set: "set (en_queue (addToQueue i e)) \<subseteq> insert i (set (en_queue e))"
  by (auto simp: addToQueue_def)

lemma queue_distinct: "distinct (en_queue e) \<Longrightarrow> distinct (en_queue (addToQueue i e))"
  by (simp add: addToQueue_def)

lemma queues_frame [simp]:
  "en_world (addMultipleToQueue is e) = en_world e" "en_tasks (addMultipleToQueue is e) = en_tasks e"
  "en_finalOutput (addMultipleToQueue is e) = en_finalOutput e" "en_locked (addMultipleToQueue is e) = en_locked e"
  "en_paused (addMultipleToQueue is e) = en_paused e" "en_cancelled (addMultipleToQueue is e) = en_cancelled e"
  "en_error (addMultipleToQueue is e) = en_error e" "en_executionError (addMultipleToQueue is e) = en_executionError e"
  "en_stopped (addMultipleToQueue is e) = en_stopped e" "en_resuming (addMultipleToQueue is e) = en_resuming e"
  by (induction "is" arbitrary: e) (simp_all add: addMultipleToQueue_def)

lemma queues_set: "set (en_queue (addMultipleToQueue is e)) \<subseteq> set is \<union> set (en_queue e)"
proof (induction "is" arbitrary: e)
  case (Cons i "is")
  with queue_set [of i e] show ?case by (fastforce simp: addMultipleToQueue_def)
qed (simp add: addMultipleToQueue_def)

lemma queues_distinct: "distinct (en_queue e) \<Longrightarrow> distinct (en_queue (addMultipleToQueue is e))"
  by (induction "is" arbitrary: e) (simp_all add: addMultipleToQueue_def queue_distinct)

lemma upd_em_frame [simp]:
  "en_queue (upd_em f e) = en_queue e" "en_tasks (upd_em f e) = en_tasks e" "en_finalOutput (upd_em f e) = en_finalOutput e"
  "en_locked (upd_em f e) = en_locked e" "en_paused (upd_em f e) = en_paused e" "en_cancelled (upd_em f e) = en_cancelled e"
  "en_error (upd_em f e) = en_error e" "en_executionError (upd_em f e) = en_executionError e"
  "en_stopped (upd_em f e) = en_stopped e" "w_em (en_world (upd_em f e)) = f (w_em (en_world e))"
  "en_resuming (upd_em f e) = en_resuming e"
  by (simp_all add: upd_em_def)

lemma dequeue_iff: "dequeue e = Some (i, e') \<longleftrightarrow> (\<exists>q. en_queue e = i # q \<and> e' = e\<lparr>en_queue := q\<rparr>)"
  by (cases "en_queue e") (auto simp: dequeue_def)

lemma propagate_node_frame [simp]:
  "en_tasks (propagate_node i n out e) = en_tasks e" "en_finalOutput (propagate_node i n out e) = en_finalOutput e"
  "en_locked (propagate_node i n out e) = en_locked e" "en_paused (propagate_node i n out e) = en_paused e"
  "en_cancelled (propagate_node i n out e) = en_cancelled e" "en_error (propagate_node i n out e) = en_error e"
  "en_executionError (propagate_node i n out e) = en_executionError e" "en_stopped (propagate_node i n out e) = en_stopped e"
  by (simp_all add: propagate_node_def Let_def split: prod.split)

lemma complete_rest_frame [simp]:
  "en_tasks (complete_rest r i n out fin e) = en_tasks e" "en_paused (complete_rest r i n out fin e) = en_paused e"
  "en_cancelled (complete_rest r i n out fin e) = en_cancelled e" "en_error (complete_rest r i n out fin e) = en_error e"
  "en_executionError (complete_rest r i n out fin e) = en_executionError e"
  by (simp_all add: complete_rest_def setFinalOutput_def Let_def)

lemma complete_node_frame:
  assumes "complete_node r i out fin e = (res, e')"
  shows "en_tasks e' = en_tasks e" "en_cancelled e' = en_cancelled e" "en_error e' = en_error e"
    "en_executionError e' = en_executionError e"
  using assms by (auto simp: complete_node_def Let_def split: option.splits if_splits prod.splits sum.splits)

lemma record_error_frame [simp]:
  "en_tasks (record_error err e) = en_tasks e" "en_cancelled (record_error err e) = en_cancelled e"
  "en_queue (record_error err e) = en_queue e" "en_finalOutput (record_error err e) = en_finalOutput e"
  "en_locked (record_error err e) = en_locked e" "en_paused (record_error err e) = en_paused e"
  "en_stopped (record_error err e) = en_stopped e" "en_world (record_error err e) = en_world e"
  "en_error (record_error err e)"
  by (simp_all add: record_error_def)

lemma settle_cases:
  obtains (Thrown) err where "settle r k res e = record_error err (e\<lparr>en_tasks := drop_at k (en_tasks e)\<rparr>)"
  | (Seen) "settle r k res e = e\<lparr>en_tasks := drop_at k (en_tasks e)\<rparr>"
  | (Completed) nr e' where
      "complete_node r (tk_node (en_tasks e ! k)) (nr_output nr) (nr_isFinalOutput nr) (e\<lparr>en_tasks := drop_at k (en_tasks e)\<rparr>) = (Inr (), e')"
      "settle r k res e = e'" "res = Inr nr" "\<not> tk_seen (en_tasks e ! k)"
  | (Rejected) nr err e' where
      "complete_node r (tk_node (en_tasks e ! k)) (nr_output nr) (nr_isFinalOutput nr) (e\<lparr>en_tasks := drop_at k (en_tasks e)\<rparr>) = (Inl err, e')"
      "settle r k res e = record_error err e'" "res = Inr nr" "\<not> tk_seen (en_tasks e ! k)"
proof (cases res)
  case (Inl err)
  then show ?thesis by (intro Thrown) (simp add: settle_def Let_def)
next
  case (Inr nr)
  show ?thesis
  proof (cases "tk_seen (en_tasks e ! k)")
    case True
    with Inr show ?thesis by (intro Seen) (simp add: settle_def Let_def)
  next
    case False
    obtain x e' where x: "complete_node r (tk_node (en_tasks e ! k)) (nr_output nr) (nr_isFinalOutput nr)
        (e\<lparr>en_tasks := drop_at k (en_tasks e)\<rparr>) = (x, e')" by fastforce
    show ?thesis
    proof (cases x)
      case (Inl err)
      show ?thesis by (rule Rejected [OF x [unfolded Inl]]) (simp_all add: settle_def Let_def \<open>res = Inr nr\<close> False x Inl)
    next
      case (Inr u)
      then have u: "x = Inr ()" by simp
      show ?thesis by (rule Completed [OF x [unfolded u]]) (simp_all add: settle_def Let_def \<open>res = Inr nr\<close> False x u)
    qed
  qed
qed

section \<open>The invariant of a run\<close>

text \<open>The run is well formed, no node waits twice in the queue, the error flag is set exactly
  when there is an error, and a locked output stops the run.\<close>

definition engine_ok :: "engine \<Rightarrow> bool" where
  "engine_ok e \<longleftrightarrow> run_wf (en_world e) \<and> distinct (en_queue e) \<and>
     (en_error e \<longleftrightarrow> en_executionError e \<noteq> None) \<and> (en_locked e \<longrightarrow> en_stopped e)"

lemma process_run_wf:
  assumes "run_wf w" and "processOutgoingEdges (w_em w) n out skip = (em, ready)"
  shows "run_wf (w\<lparr>w_em := em\<rparr>)"
proof -
  obtain activated tds C where p: "propagate (w_em w) n activated tds = (em, C)"
    using assms(2) by (rule process_split)
  have "loopConfigs (fold (\<lambda>t. upd_node t (deliver (node_id n))) activated (em_dag (w_em w))) = loopConfigs (w_dag w) \<and>
      parallelConfigs (fold (\<lambda>t. upd_node t (deliver (node_id n))) activated (em_dag (w_em w))) = parallelConfigs (w_dag w)"
    using configs_fold [of "\<lambda>t. upd_node t (deliver (node_id n))"] by (simp add: w_dag_def)
  then have "flat_config (em_dag em) = flat_config (w_dag w)"
    using propagate_dag [of "w_em w" n activated tds] p flat_config_cong [of "em_dag em" "w_dag w"] by simp
  with assms process_wf [of "w_em w" n out skip] show ?thesis
    by (simp add: run_wf_def world_wf_def w_dag_def)
qed

lemma propagate_ok: "engine_ok e \<Longrightarrow> engine_ok (propagate_node i n out e)"
  by (auto simp: engine_ok_def propagate_node_def Let_def queues_distinct upd_em_def
      intro: process_run_wf split: prod.split)

lemma complete_rest_ok:
  assumes "engine_ok e"
  shows "engine_ok (complete_rest r i n out fin e)"
proof -
  have "engine_ok (setFinalOutput out e)" using assms by (simp add: engine_ok_def setFinalOutput_def)
  with assms show ?thesis
    by (auto simp: complete_rest_def Let_def propagate_ok) (simp_all add: engine_ok_def setFinalOutput_def)
qed

lemma complete_node_ok:
  assumes "engine_ok e" and "complete_node r i out fin e = (res, e')"
  shows "engine_ok e'"
proof -
  obtain x w where h: "handleNodeCompletion (re_env r) (re_depth r) i out (en_world e) = (x, w)" by fastforce
  have "engine_ok (e\<lparr>en_world := w\<rparr>)"
    using assms(1) complete_run_wf [of "en_world e" "re_env r" "re_depth r" i out] h by (simp add: engine_ok_def)
  moreover from this have "engine_ok (e\<lparr>en_world := w, en_paused := ps\<rparr>)" for ps by (simp add: engine_ok_def)
  ultimately show ?thesis
    using assms by (auto simp: complete_node_def h Let_def complete_rest_ok split: option.splits if_splits sum.splits)
qed

lemma settle_ok:
  assumes "engine_ok e"
  shows "engine_ok (settle r k res e)"
proof -
  have 0: "engine_ok (e\<lparr>en_tasks := ts\<rparr>)" for ts using assms by (simp add: engine_ok_def)
  have err: "engine_ok e' \<Longrightarrow> engine_ok (record_error x e')" for e' x
    by (simp add: engine_ok_def record_error_def)
  show ?thesis
  proof (rule settle_cases [of r k res e])
    fix nr e'
    assume "complete_node r (tk_node (en_tasks e ! k)) (nr_output nr) (nr_isFinalOutput nr) (e\<lparr>en_tasks := drop_at k (en_tasks e)\<rparr>) = (Inr (), e')"
      "settle r k res e = e'"
    then show ?thesis using complete_node_ok [OF 0] by blast
  next
    fix nr x e'
    assume "complete_node r (tk_node (en_tasks e ! k)) (nr_output nr) (nr_isFinalOutput nr) (e\<lparr>en_tasks := drop_at k (en_tasks e)\<rparr>) = (Inl x, e')"
      "settle r k res e = record_error x e'"
    then show ?thesis using complete_node_ok [OF 0] err by metis
  qed (simp_all add: 0 err)
qed

lemma perform_ok:
  assumes "engine_ok e" and "runner_ok (re_run r)"
  shows "engine_ok (perform r k n e)"
proof -
  obtain res w where x: "execute_uncached (re_env r) (re_run r) (re_depth r) (en_cancelled e) n (tk_node (en_tasks e ! k)) (en_world e) = (res, w)"
    by fastforce
  have "run_wf w"
    using execute_uncached_run_wf [of "en_world e" "re_run r" "re_env r" "re_depth r" "en_cancelled e" n "tk_node (en_tasks e ! k)"]
      assms x by (simp add: engine_ok_def)
  with assms(1) show ?thesis by (simp add: perform_def x engine_ok_def Let_def)
qed

lemma launch_frame [simp]:
  "en_world (launch i e) = en_world e" "en_queue (launch i e) = en_queue e" "en_finalOutput (launch i e) = en_finalOutput e"
  "en_locked (launch i e) = en_locked e" "en_paused (launch i e) = en_paused e" "en_cancelled (launch i e) = en_cancelled e"
  "en_error (launch i e) = en_error e" "en_executionError (launch i e) = en_executionError e" "en_stopped (launch i e) = en_stopped e"
  by (simp_all add: launch_def Let_def)

lemma step_ok:
  assumes "engine_step r e e'" and "engine_ok e" and "runner_ok (re_run r)"
  shows "engine_ok e'"
  using assms(1)
proof (cases rule: engine_step.cases)
  case (Perform k n)
  with assms show ?thesis by (simp add: perform_ok)
next
  case (Settle k res)
  with assms show ?thesis by (simp add: settle_ok)
qed (use assms(2) in \<open>auto simp: engine_ok_def dequeue_iff signalCancelled_def\<close>)

interpretation running: step_invariant "engine_step r" "\<lambda>e. engine_ok e \<and> runner_ok (re_run r)" for r
  by unfold_locales (use step_ok in blast)

text \<open>
  in every interleaving of executions, completions and a cancellation the run stays
  consistent: the DAG, the edge manager and the execution state are well formed, no node
  waits twice in the queue, the run has an error exactly when its error flag is set, and a
  locked output means that the run is stopped.
\<close>

theorem engine_invariant:
  assumes "engine_ok e" and "runner_ok (re_run r)" and "(engine_step r)\<^sup>*\<^sup>* e e'"
  shows "engine_ok e'"
  using running.run_keeps [OF assms(3)] assms(1,2) by blast

section \<open>The abstract scheduler\<close>

text \<open>What the engine promises of its scheduling, without queues, flags and phases: a set of
  waiting nodes, the multiset of nodes in flight, the nodes whose inputs are settled, and
  whether the run is closed. Only a waiting node of an open run is started; a node that
  finishes leaves the flight and may make nodes wait that are ready then; a closed run stays
  closed.\<close>

record schedule =
  sc_waiting :: "string set"
  sc_inflight :: "string multiset"
  sc_ready :: "string set"
  sc_closed :: bool

inductive schedule_step :: "schedule \<Rightarrow> schedule \<Rightarrow> bool" where
  Discard: "\<not> sc_closed s \<Longrightarrow> schedule_step s (s\<lparr>sc_waiting := sc_waiting s - {[]}\<rparr>)"
| Start: "\<not> sc_closed s \<Longrightarrow> i \<in> sc_waiting s \<Longrightarrow>
    schedule_step s (s\<lparr>sc_waiting := sc_waiting s - {i}, sc_inflight := add_mset i (sc_inflight s)\<rparr>)"
| Work: "schedule_step s (s\<lparr>sc_ready := R\<rparr>)"
| Finish: "i \<in># sc_inflight s \<Longrightarrow> new \<subseteq> R \<Longrightarrow> sc_closed s \<longrightarrow> c \<Longrightarrow>
    schedule_step s \<lparr>sc_waiting = sc_waiting s \<union> new, sc_inflight = sc_inflight s - {#i#}, sc_ready = R, sc_closed = c\<rparr>"
| Close: "schedule_step s (s\<lparr>sc_closed := True\<rparr>)"

inductive_cases schedule_stepE: "schedule_step s s'"

definition abs_engine :: "engine \<Rightarrow> schedule" where
  "abs_engine e = \<lparr>sc_waiting = set (en_queue e), sc_inflight = mset (map tk_node (en_tasks e)),
     sc_ready = {i. isTargetReady (w_em (en_world e)) i}, sc_closed = halted e\<rparr>"

lemma mset_drop_at:
  assumes "k < length xs"
  shows "mset (map f (drop_at k xs)) = mset (map f xs) - {#f (xs ! k)#}"
proof -
  have "mset (map f xs) = mset (map f (take k xs @ xs ! k # drop (Suc k) xs))"
    using id_take_nth_drop [OF assms] by simp
  then show ?thesis by (simp add: drop_at_def)
qed

lemma queue_grows: "set (en_queue e) \<subseteq> set (en_queue (addMultipleToQueue is e))"
proof (induction "is" arbitrary: e)
  case (Cons i "is")
  have "set (en_queue e) \<subseteq> set (en_queue (addToQueue i e))" by (auto simp: addToQueue_def)
  with Cons [of "addToQueue i e"] show ?case by (auto simp: addMultipleToQueue_def)
qed (simp add: addMultipleToQueue_def)

definition queues_ready :: "engine \<Rightarrow> engine \<Rightarrow> bool" where
  "queues_ready e e' \<longleftrightarrow> set (en_queue e) \<subseteq> set (en_queue e') \<and>
     (\<forall>i \<in> set (en_queue e') - set (en_queue e). isTargetReady (w_em (en_world e')) i)"

lemma queues_ready_same: "en_queue e' = en_queue e \<Longrightarrow> queues_ready e e'"
  by (simp add: queues_ready_def)

lemma propagate_queues_ready: "queues_ready e (propagate_node i n out e)"
proof -
  let ?n = "case dnode (w_dag (en_world e)) i of None \<Rightarrow> n | Some m \<Rightarrow> m"
  obtain em ready where p: "processOutgoingEdges (w_em (en_world e)) ?n out False = (em, ready)" by fastforce
  have "\<forall>t \<in> set ready. isTargetReady em t" using p by (rule process_ready)
  with queues_set [of ready "upd_em (\<lambda>_. em) e"] queue_grows [of "upd_em (\<lambda>_. em) e" ready] show ?thesis
    by (fastforce simp: queues_ready_def propagate_node_def p Let_def)
qed

lemma queues_ready_cong: "queues_ready e1 e' \<Longrightarrow> en_queue e1 = en_queue e \<Longrightarrow> queues_ready e e'"
  by (simp add: queues_ready_def)

lemma complete_queues_ready:
  assumes "complete_node r i out fin e = (res, e')"
  shows "queues_ready e e' \<and> (en_stopped e \<longrightarrow> en_stopped e')"
proof -
  have rest: "queues_ready e (complete_rest r i n out fin e1) \<and> (en_stopped e1 \<longrightarrow> en_stopped (complete_rest r i n out fin e1))"
    if "en_queue e1 = en_queue e" for n e1
  proof (cases "is_response n")
    case True
    with that show ?thesis by (simp add: complete_rest_def setFinalOutput_def queues_ready_same)
  next
    case False
    define e2 where "e2 = (if fin \<and> \<not> en_locked e1 then setFinalOutput out e1 else e1)"
    have e2: "en_queue e2 = en_queue e" "en_stopped e2 = en_stopped e1" using that by (simp_all add: e2_def setFinalOutput_def)
    have "complete_rest r i n out fin e1 =
        (if re_stopAfter r = Some i \<and> \<not> subflow_continues out then e2\<lparr>en_stopped := True\<rparr> else propagate_node i n out e2)"
      using False by (simp add: complete_rest_def Let_def e2_def)
    then show ?thesis
      using e2 queues_ready_cong [OF propagate_queues_ready, of e2 e] by (simp add: queues_ready_same)
  qed
  show ?thesis
    using assms
    by (auto simp: complete_node_def Let_def intro!: queues_ready_same conjunct1 [OF rest] mp [OF conjunct2 [OF rest]]
        split: option.splits if_splits prod.splits sum.splits)
qed

lemma finish_simulated:
  assumes "k < length (en_tasks e)" and "en_tasks e' = drop_at k (en_tasks e)" and "queues_ready e e'"
    and "halted e \<longrightarrow> halted e'"
  shows "schedule_step (abs_engine e) (abs_engine e')"
proof -
  have i: "tk_node (en_tasks e ! k) \<in># sc_inflight (abs_engine e)" using assms(1) by (simp add: abs_engine_def)
  have q: "set (en_queue e') = set (en_queue e) \<union> (set (en_queue e') - set (en_queue e))"
    using assms(3) by (auto simp: queues_ready_def)
  have "set (en_queue e') - set (en_queue e) \<subseteq> {i. isTargetReady (w_em (en_world e')) i}"
    using assms(3) by (auto simp: queues_ready_def)
  from schedule_step.Finish [OF i this, of "halted e'"] assms(4)
  have "schedule_step (abs_engine e) \<lparr>sc_waiting = set (en_queue e) \<union> (set (en_queue e') - set (en_queue e)),
      sc_inflight = mset (map tk_node (en_tasks e)) - {#tk_node (en_tasks e ! k)#},
      sc_ready = {i. isTargetReady (w_em (en_world e')) i}, sc_closed = halted e'\<rparr>"
    by (simp add: abs_engine_def)
  moreover have "abs_engine e' = \<lparr>sc_waiting = set (en_queue e) \<union> (set (en_queue e') - set (en_queue e)),
      sc_inflight = mset (map tk_node (en_tasks e)) - {#tk_node (en_tasks e ! k)#},
      sc_ready = {i. isTargetReady (w_em (en_world e')) i}, sc_closed = halted e'\<rparr>"
    using q by (simp only: abs_engine_def assms(2) mset_drop_at [OF assms(1)])
  ultimately show ?thesis by simp
qed

lemma settle_simulated:
  assumes "k < length (en_tasks e)"
  shows "schedule_step (abs_engine e) (abs_engine (settle r k res e))"
proof -
  let ?e0 = "e\<lparr>en_tasks := drop_at k (en_tasks e)\<rparr>"
  have h: "queues_ready e e' \<and> en_tasks e' = drop_at k (en_tasks e) \<and> (halted e \<longrightarrow> halted e')"
    if "complete_node r i out fin ?e0 = (x, e')" for i out fin x e'
    using complete_queues_ready [OF that] complete_node_frame [OF that]
    by (auto simp: halted_def intro: queues_ready_cong)
  show ?thesis
  proof (rule settle_cases [of r k res e])
    fix nr e'
    assume "complete_node r (tk_node (en_tasks e ! k)) (nr_output nr) (nr_isFinalOutput nr) ?e0 = (Inr (), e')"
      "settle r k res e = e'"
    then show ?thesis using finish_simulated [OF assms] h by metis
  next
    fix nr x e'
    assume x: "complete_node r (tk_node (en_tasks e ! k)) (nr_output nr) (nr_isFinalOutput nr) ?e0 = (Inl x, e')"
      "settle r k res e = record_error x e'"
    from h [OF x(1)] show ?thesis
      by (auto simp: x(2) halted_def queues_ready_def intro!: finish_simulated [OF assms])
  next
    fix err
    assume "settle r k res e = record_error err ?e0"
    then show ?thesis by (auto simp: halted_def queues_ready_def intro!: finish_simulated [OF assms])
  qed (auto simp: halted_def queues_ready_def intro!: finish_simulated [OF assms])
qed

lemma perform_simulated:
  assumes "k < length (en_tasks e)"
  shows "schedule_step (abs_engine e) (abs_engine (perform r k n e))"
proof -
  obtain res w where x: "execute_uncached (re_env r) (re_run r) (re_depth r) (en_cancelled e) n (tk_node (en_tasks e ! k)) (en_world e) = (res, w)"
    by fastforce
  have nodes: "map tk_node ((en_tasks e)[k := (en_tasks e ! k)\<lparr>tk_phase := p\<rparr>]) = map tk_node (en_tasks e)" for p
    using assms by (simp add: map_update list_update_same_conv)
  have "abs_engine (perform r k n e) = abs_engine e\<lparr>sc_ready := {i. isTargetReady (w_em w) i}\<rparr>"
    using nodes by (simp add: perform_def x Let_def abs_engine_def halted_def)
  then show ?thesis using schedule_step.Work [of "abs_engine e"] by simp
qed

lemma step_simulated:
  assumes "engine_step r e e'" and "distinct (en_queue e)"
  shows "schedule_step (abs_engine e) (abs_engine e')"
  using assms(1)
proof (cases rule: engine_step.cases)
  case (Skip)
  then obtain q where "en_queue e = [] # q" "e' = e\<lparr>en_queue := q\<rparr>" by (auto simp: dequeue_iff)
  with Skip(1) assms(2) schedule_step.Discard [of "abs_engine e"] show ?thesis
    by (auto simp: abs_engine_def halted_def)
next
  case (Launch i e1)
  then obtain q where "en_queue e = i # q" "e1 = e\<lparr>en_queue := q\<rparr>" by (auto simp: dequeue_iff)
  with Launch(1,2) assms(2) schedule_step.Start [of "abs_engine e" i] show ?thesis
    by (auto simp: abs_engine_def halted_def launch_def Let_def)
next
  case (Cancel)
  then show ?thesis
    using schedule_step.Close [of "abs_engine e"] by (simp add: abs_engine_def halted_def signalCancelled_def)
qed (simp_all add: perform_simulated settle_simulated)

interpretation scheduling: refines "engine_step r" "\<lambda>e. engine_ok e \<and> runner_ok (re_run r)" abs_engine schedule_step for r
proof unfold_locales
  fix e e'
  assume "engine_ok e \<and> runner_ok (re_run r)" "engine_step r e e'"
  then have "schedule_step (abs_engine e) (abs_engine e')" using step_simulated by (simp add: engine_ok_def)
  then show "schedule_step\<^sup>=\<^sup>= (abs_engine e) (abs_engine e')" by simp
qed

interpretation closed: step_invariant schedule_step "\<lambda>s. sc_closed s \<and> sc_inflight s \<subseteq># m" for m
proof unfold_locales
  fix s s'
  have fewer: "x - {#i#} \<subseteq># m" if "x \<subseteq># m" for x i
    using that diff_subset_eq_self subset_mset.order_trans by blast
  assume "sc_closed s \<and> sc_inflight s \<subseteq># m" "schedule_step s s'"
  then show "sc_closed s' \<and> sc_inflight s' \<subseteq># m"
    by (auto elim!: schedule_stepE intro: fewer)
qed

text \<open>
  C35: the engine implements the abstract scheduler. Every run of the engine, in any
  interleaving, is a run of the scheduler: only waiting nodes of an open run are started, a
  node is made to wait only when its inputs are settled, and each started node finishes at
  most once. A run that is closed by a cancellation, an error or a stop starts nothing more.
\<close>

theorem engine_refines_scheduler:
  assumes "engine_ok e" and "runner_ok (re_run r)" and "(engine_step r)\<^sup>*\<^sup>* e e'"
  shows "schedule_step\<^sup>*\<^sup>* (abs_engine e) (abs_engine e') \<and>
    (halted e \<longrightarrow> halted e' \<and> mset (map tk_node (en_tasks e')) \<subseteq># mset (map tk_node (en_tasks e)))"
proof
  show sim: "schedule_step\<^sup>*\<^sup>* (abs_engine e) (abs_engine e')"
    using scheduling.run_simulated [OF assms(3)] assms(1,2) by blast
  show "halted e \<longrightarrow> halted e' \<and> mset (map tk_node (en_tasks e')) \<subseteq># mset (map tk_node (en_tasks e))"
    using closed.run_keeps [OF sim, of "sc_inflight (abs_engine e)"] by (simp add: abs_engine_def)
qed

section \<open>A response ends the run\<close>

definition answered :: "engine \<Rightarrow> bool" where
  "answered e \<longleftrightarrow> en_locked e \<and> en_stopped e"

lemma answered_completes: "answered e \<Longrightarrow> complete_node r i out fin e = (Inr (), e)"
  by (simp add: answered_def complete_node_def split: option.split)

lemma answered_step:
  assumes "engine_step r e e'" and "answered e"
  shows "answered e' \<and> (en_finalOutput e', en_queue e', en_paused e') = (en_finalOutput e, en_queue e, en_paused e)"
  using assms(1)
proof (cases rule: engine_step.cases)
  case (Perform k n)
  with assms(2) show ?thesis by (simp add: perform_def answered_def Let_def split: prod.split)
next
  case (Settle k res)
  have a: "answered (e\<lparr>en_tasks := ts\<rparr>)" for ts using assms(2) by (simp add: answered_def)
  show ?thesis
    unfolding Settle(1)
    by (rule settle_cases [of r k res e]) (use assms(2) in \<open>auto simp: answered_completes [OF a] answered_def\<close>)
qed (use assms(2) in \<open>auto simp: answered_def halted_def signalCancelled_def\<close>)

interpretation answering: frozen_view "engine_step r" answered "\<lambda>e. (en_finalOutput e, en_queue e, en_paused e)" for r
  by unfold_locales (use answered_step in blast)+

text \<open>
  C36: a response is final. When a response block completes, its output becomes the output of
  the run, and whatever the blocks still in flight do (finish, fail, or be cancelled), the
  output stays, nothing is queued any more, and the run, unless it is cancelled or paused,
  succeeds with exactly this output, even when another block has failed.
\<close>

theorem response_is_final:
  assumes "complete_node r i out fin e = (Inr (), e1)" and "dnode (w_dag (en_world e)) i = Some n" and "is_response n"
    and "\<not> truthy (get_prop out ''_pauseMetadata'')" and "\<not> en_locked e" and "(engine_step r)\<^sup>*\<^sup>* e1 e'"
  shows "en_finalOutput e' = out \<and> en_queue e' = en_queue e \<and>
    (\<not> en_cancelled e' \<and> en_paused e = [] \<longrightarrow> run_outcome e' = Success out)"
proof -
  have e1: "answered e1" "en_finalOutput e1 = out" "en_queue e1 = en_queue e" "en_paused e1 = en_paused e"
    using assms(1-5)
    by (auto simp: complete_node_def complete_rest_def setFinalOutput_def answered_def Let_def split: prod.splits sum.splits)
  then show ?thesis
    using answering.run_view [OF assms(6) e1(1)] answering.run_keeps [OF assms(6) e1(1)]
    by (simp add: run_outcome_def answered_def)
qed

section \<open>The first error\<close>

lemma error_step:
  assumes "engine_step r e e'" and "en_error e"
  shows "en_error e' \<and> en_executionError e' = en_executionError e"
  using assms(1)
proof (cases rule: engine_step.cases)
  case (Perform k n)
  with assms(2) show ?thesis by (simp add: perform_def Let_def split: prod.split)
next
  case (Settle k res)
  show ?thesis
    unfolding Settle(1)
  proof (rule settle_cases [of r k res e])
    fix nr e'
    assume "complete_node r (tk_node (en_tasks e ! k)) (nr_output nr) (nr_isFinalOutput nr) (e\<lparr>en_tasks := drop_at k (en_tasks e)\<rparr>) = (Inr (), e')"
      "settle r k res e = e'"
    with complete_node_frame(3,4) assms(2) show "en_error (settle r k res e) \<and> en_executionError (settle r k res e) = en_executionError e"
      by fastforce
  next
    fix nr x e'
    assume c: "complete_node r (tk_node (en_tasks e ! k)) (nr_output nr) (nr_isFinalOutput nr) (e\<lparr>en_tasks := drop_at k (en_tasks e)\<rparr>) = (Inl x, e')"
      "settle r k res e = record_error x e'"
    from complete_node_frame(3,4) [OF c(1)] assms(2) show "en_error (settle r k res e) \<and> en_executionError (settle r k res e) = en_executionError e"
      by (simp add: c(2) record_error_def)
  qed (use assms(2) in \<open>simp_all add: record_error_def\<close>)
qed (use assms(2) in \<open>auto simp: halted_def signalCancelled_def\<close>)

interpretation failing: frozen_view "engine_step r" en_error en_executionError for r
  by unfold_locales (use error_step in blast)+

text \<open>
  C37: the first error decides. Once a block has failed, the error of the run is that error
  whatever fails later, and unless a response was given, the run ends as failed with it (as
  cancelled, when it is cancelled). A run that succeeds without a response has no error, no
  paused block and no task in flight, and its queue is empty unless it was stopped early.
\<close>

theorem run_outcome_errors:
  assumes "engine_ok e" and "runner_ok (re_run r)" and "(engine_step r)\<^sup>*\<^sup>* e e'"
  shows "(en_executionError e = Some err \<and> \<not> en_locked e' \<longrightarrow>
      run_outcome e' = (if en_cancelled e' then Cancelled (en_finalOutput e') else Failed err (en_finalOutput e'))) \<and>
    (returns e' \<and> run_outcome e' = Success out \<longrightarrow>
      out = en_finalOutput e' \<and> \<not> en_cancelled e' \<and> en_tasks e' = [] \<and> en_paused e' = [] \<and>
      (en_locked e' \<or> \<not> en_error e' \<and> (en_stopped e' \<or> en_queue e' = [])))"
proof -
  have ok: "engine_ok e'" using running.run_keeps [OF assms(3)] assms(1,2) by blast
  have "en_error e' \<and> en_executionError e' = Some err" if "en_executionError e = Some err"
    using failing.run_view [OF assms(3)] failing.run_keeps [OF assms(3)] that assms(1) by (simp add: engine_ok_def)
  then show ?thesis
    using ok by (auto simp: run_outcome_def engine_ok_def returns_def halted_def hasWork_def split: if_splits)
qed

section \<open>A stopped run ends\<close>

definition task_weight :: "task \<Rightarrow> nat" where
  "task_weight t = (case tk_phase t of Running _ \<Rightarrow> 2 | Finished _ \<Rightarrow> 1)"

definition drain_size :: "engine \<Rightarrow> nat" where
  "drain_size e = sum_list (map task_weight (en_tasks e)) + (if en_cancelled e then 0 else 1)"

lemma drain_bound: "drain_size e \<le> 2 * length (en_tasks e) + 1"
proof -
  have "sum_list (map task_weight ts) \<le> 2 * length ts" for ts
    by (induction ts) (auto simp: task_weight_def split: phase.split)
  from this [of "en_tasks e"] show ?thesis by (simp add: drain_size_def)
qed

lemma weight_drop_at:
  assumes "k < length ts"
  shows "sum_list (map task_weight ts) = task_weight (ts ! k) + sum_list (map task_weight (drop_at k ts))"
proof -
  have "sum_list (map task_weight ts) = sum_list (map task_weight (take k ts @ ts ! k # drop (Suc k) ts))"
    using id_take_nth_drop [OF assms] by simp
  then show ?thesis by (simp add: drop_at_def)
qed

lemma settle_tasks: "en_tasks (settle r k res e) = drop_at k (en_tasks e) \<and> en_cancelled (settle r k res e) = en_cancelled e"
proof (rule settle_cases [of r k res e])
  fix nr e'
  assume c: "complete_node r (tk_node (en_tasks e ! k)) (nr_output nr) (nr_isFinalOutput nr) (e\<lparr>en_tasks := drop_at k (en_tasks e)\<rparr>) = (Inr (), e')"
    "settle r k res e = e'"
  from complete_node_frame(1,2) [OF c(1)] show ?thesis by (simp add: c(2))
next
  fix nr x e'
  assume c: "complete_node r (tk_node (en_tasks e ! k)) (nr_output nr) (nr_isFinalOutput nr) (e\<lparr>en_tasks := drop_at k (en_tasks e)\<rparr>) = (Inl x, e')"
    "settle r k res e = record_error x e'"
  from complete_node_frame(1,2) [OF c(1)] show ?thesis by (simp add: c(2))
qed simp_all

lemma drain_step:
  assumes "engine_step r e e'" and "halted e"
  shows "halted e' \<and> drain_size e' < drain_size e"
proof
  show "halted e'"
    using assms(1)
  proof (cases rule: engine_step.cases)
    case (Settle k res)
    then have "schedule_step (abs_engine e) (abs_engine e')" by (simp add: settle_simulated)
    with assms(2) show ?thesis by (auto simp: abs_engine_def elim: schedule_stepE)
  qed (use assms(2) in \<open>auto simp: halted_def perform_def Let_def signalCancelled_def split: prod.splits\<close>)
  show "drain_size e' < drain_size e"
    using assms(1)
  proof (cases rule: engine_step.cases)
    case (Perform k n)
    have "task_weight (en_tasks e ! k) = 2" "task_weight ((en_tasks e ! k)\<lparr>tk_phase := Finished x\<rparr>) = 1" for x
      using Perform(3) by (simp_all add: task_weight_def)
    moreover have "task_weight (en_tasks e ! k) \<le> sum_list (map task_weight (en_tasks e))"
      using weight_drop_at [OF Perform(2)] by simp
    ultimately show ?thesis
      using Perform(1,2) by (simp add: drain_size_def perform_def Let_def map_update sum_list_update split: prod.split)
  next
    case (Settle k res)
    have "task_weight (en_tasks e ! k) = 1" using Settle(3) by (simp add: task_weight_def)
    with weight_drop_at [OF Settle(2)] settle_tasks [of r k res e] Settle(1) show ?thesis by (simp add: drain_size_def)
  qed (use assms(2) in \<open>auto simp: drain_size_def signalCancelled_def\<close>)
qed

interpretation stopping: draining "engine_step r" halted drain_size for r
  by unfold_locales (use drain_step in blast)+

lemma progress: "\<not> returns e \<Longrightarrow> \<exists>e'. engine_step r e e'"
proof (cases "en_tasks e")
  case (Cons t ts)
  then show ?thesis
    using engine_step.Perform [of 0 e] engine_step.Settle [of 0 e] by (cases "tk_phase t") auto
next
  case Nil
  assume "\<not> returns e"
  with Nil have h: "\<not> halted e" "en_queue e \<noteq> []" by (auto simp: returns_def hasWork_def)
  then obtain i q where d: "dequeue e = Some (i, e\<lparr>en_queue := q\<rparr>)" by (cases "en_queue e") (auto simp: dequeue_def)
  show ?thesis
  proof (cases "i = []")
    case True
    with engine_step.Skip [OF h(1)] d show ?thesis by blast
  next
    case False
    with engine_step.Launch [OF h(1) d] show ?thesis by blast
  qed
qed

text \<open>
  C38: a run that is stopped ends. From the moment a run is cancelled, has an error or is
  stopped early, at most two more steps per task in flight happen, plus a cancellation; and
  the engine never blocks: as long as it has not returned, a step is possible.
\<close>

theorem stopped_run_ends:
  assumes "halted e" and "(engine_step r ^^ n) e e'"
  shows "n \<le> 2 * length (en_tasks e) + 1 \<and> (returns e' \<or> (\<exists>e''. engine_step r e' e''))"
  using stopping.run_bounded [OF assms(2,1)] drain_bound [of e] progress [of e' r] by fastforce

section \<open>A run with two failing blocks and a response\<close>

definition pair_dag :: dag where
  "pair_dag = \<lparr>dag_nodes = [demo_node ''a'' [] [] no_meta, demo_node ''b'' [] [] no_meta,
      (''r'', \<lparr>node_id = ''r'', node_block = demo_block ''r'' ''response'' True, incomingEdges = [], outgoingEdges = [],
        metadata = no_meta\<rparr>)],
     loopConfigs = [], parallelConfigs = []\<rparr>"

definition pair_world :: world where
  "pair_world = live_world\<lparr>w_em := \<lparr>em_dag = pair_dag, deactivatedEdges = [], nodesWithActivatedEdge = []\<rparr>\<rparr>"

definition failing_task :: "string \<Rightarrow> task" where
  "failing_task i = \<lparr>tk_node = i, tk_seen = False, tk_phase = Finished (Inl (BlockError i))\<rparr>"

definition pair_engine :: engine where
  "pair_engine = (engine_init pair_world False [] False)\<lparr>en_tasks := [failing_task ''a'', failing_task ''b'']\<rparr>"

definition pair_env :: run_env where
  "pair_env = \<lparr>re_env = fan_env, re_run = echo_runner, re_depth = 1, re_stopAfter = None\<rparr>"

lemma pair_ok: "engine_ok (pair_engine\<lparr>en_queue := q\<rparr>)" if "distinct q" for q
proof -
  have "wf_dag pair_dag" by (rule wf_dag_check; code_simp)
  moreover have "state_wf (\<lparr>blockStates = [], executedBlocks = []\<rparr> :: unit execution_state)" by (simp add: state_wf_def)
  ultimately show ?thesis
    using that by (simp add: engine_ok_def pair_engine_def engine_init_def run_wf_def world_wf_def em_wf_def pair_world_def live_world_def
        stale_world_def w_dag_def flat_config_def pair_dag_def)
qed

lemma pair_runner: "runner_ok (re_run pair_env)"
  by (simp add: pair_env_def echo_ok)

lemma pair_launches: "engine_step r (pair_engine\<lparr>en_queue := [''a'']\<rparr>) (launch ''a'' (pair_engine\<lparr>en_queue := []\<rparr>))"
  by (rule engine_step.Launch) (simp_all add: halted_def pair_engine_def engine_init_def dequeue_def)

lemma pair_fails: "engine_step r (settle r 0 (Inl (BlockError ''a'')) pair_engine) (settle r 0 (Inl (BlockError ''b'')) (settle r 0 (Inl (BlockError ''a'')) pair_engine))"
  by (rule engine_step.Settle) (simp_all add: settle_def Let_def pair_engine_def failing_task_def drop_at_def record_error_def engine_init_def)

lemma pair_launches_run: "(engine_step r)\<^sup>*\<^sup>* (pair_engine\<lparr>en_queue := [''a'']\<rparr>) (launch ''a'' (pair_engine\<lparr>en_queue := []\<rparr>))"
  by (rule r_into_rtranclp) (rule pair_launches)

lemma pair_fails_run: "(engine_step r)\<^sup>*\<^sup>* (settle r 0 (Inl (BlockError ''a'')) pair_engine) (settle r 0 (Inl (BlockError ''b'')) (settle r 0 (Inl (BlockError ''a'')) pair_engine))"
  by (rule r_into_rtranclp) (rule pair_fails)

theorem engine_invariant_witness: "engine_ok (launch ''a'' (pair_engine\<lparr>en_queue := []\<rparr>))"
  by (rule engine_invariant [OF pair_ok pair_runner pair_launches_run]) simp

theorem engine_refines_scheduler_witness:
  "schedule_step\<^sup>*\<^sup>* (abs_engine (pair_engine\<lparr>en_queue := [''a'']\<rparr>)) (abs_engine (launch ''a'' (pair_engine\<lparr>en_queue := []\<rparr>)))"
  using engine_refines_scheduler [OF pair_ok pair_runner pair_launches_run] by simp

lemma failed_once: "en_executionError (settle r 0 (Inl (BlockError ''a'')) pair_engine) = Some (BlockError ''a'')"
  "halted (settle r 0 (Inl (BlockError ''a'')) pair_engine)"
  "length (en_tasks (settle r 0 (Inl (BlockError ''a'')) pair_engine)) = 1"
  by (simp_all add: settle_def Let_def record_error_def pair_engine_def engine_init_def halted_def drop_at_def failing_task_def)

lemma failed_once_ok: "engine_ok (settle r 0 (Inl (BlockError ''a'')) pair_engine)"
proof -
  have "pair_engine\<lparr>en_queue := []\<rparr> = pair_engine" by (simp add: pair_engine_def engine_init_def)
  with pair_ok [of "[]"] show ?thesis by (simp add: settle_ok)
qed

theorem run_outcome_errors_witness:
  "run_outcome (settle pair_env 0 (Inl (BlockError ''b'')) (settle pair_env 0 (Inl (BlockError ''a'')) pair_engine)) =
     Failed (BlockError ''a'') []"
proof -
  let ?e = "settle pair_env 0 (Inl (BlockError ''b'')) (settle pair_env 0 (Inl (BlockError ''a'')) pair_engine)"
  have "\<not> en_locked ?e" "\<not> en_cancelled ?e" "en_finalOutput ?e = []"
    by (simp_all add: settle_def Let_def record_error_def pair_engine_def engine_init_def)
  with run_outcome_errors [OF failed_once_ok pair_runner pair_fails_run] failed_once(1) show ?thesis by simp
qed

theorem stopped_run_ends_witness:
  "1 \<le> 2 * length (en_tasks (settle pair_env 0 (Inl (BlockError ''a'')) pair_engine)) + 1"
  using stopped_run_ends [OF failed_once(2), of 1 pair_env] pair_fails [of pair_env] by simp

lemma pair_response:
  "fst (complete_node pair_env ''r'' [(''v'', JNum 1)] True pair_engine) = Inr ()"
  "en_tasks (snd (complete_node pair_env ''r'' [(''v'', JNum 1)] True pair_engine)) = [failing_task ''a'', failing_task ''b'']"
  "en_cancelled (snd (complete_node pair_env ''r'' [(''v'', JNum 1)] True pair_engine)) = False"
  by code_simp+

theorem response_is_final_witness:
  "\<exists>e1. complete_node pair_env ''r'' [(''v'', JNum 1)] True pair_engine = (Inr (), e1) \<and>
     run_outcome (settle pair_env 0 (Inl (BlockError ''a'')) e1) = Success [(''v'', JNum 1)]"
proof -
  obtain e1 where e1: "complete_node pair_env ''r'' [(''v'', JNum 1)] True pair_engine = (Inr (), e1)"
    using pair_response(1) by (metis prod.collapse)
  have t: "en_tasks e1 = [failing_task ''a'', failing_task ''b'']" "\<not> en_cancelled e1" using pair_response(2,3) e1 by simp_all
  have "engine_step pair_env e1 (settle pair_env 0 (Inl (BlockError ''a'')) e1)"
    by (rule engine_step.Settle) (simp_all add: t failing_task_def)
  then have run: "(engine_step pair_env)\<^sup>*\<^sup>* e1 (settle pair_env 0 (Inl (BlockError ''a'')) e1)" by blast
  obtain n where n: "dnode (w_dag (en_world pair_engine)) ''r'' = Some n" "is_response n"
    by (simp add: pair_engine_def engine_init_def w_dag_def pair_world_def pair_dag_def dnode_def demo_node_def is_response_def demo_block_def)
  have "\<not> en_locked pair_engine" "en_paused pair_engine = []" "\<not> truthy (get_prop [(''v'', JNum 1)] ''_pauseMetadata'')"
    by (simp_all add: pair_engine_def engine_init_def get_prop_def)
  with response_is_final [OF e1 n _ _ run] settle_tasks [of pair_env 0 "Inl (BlockError ''a'')" e1] t(2) e1 show ?thesis by simp
qed

end
