(* ===== verification/Resume.thy ===== *)
theory Resume
  imports EngineProps
begin

text \<open>
  Resuming a paused run: \<open>initializeQueue\<close> releases the edges of the pause blocks that have
  been answered (\<open>remainingEdges\<close>). What the release guarantees, and a join it strands.
\<close>

section \<open>Releasing only settles\<close>

text \<open>A later edge manager has the same nodes and edges, waits for less, and has pruned and
  activated more.\<close>

definition settles_node :: "dag_node \<Rightarrow> dag_node \<Rightarrow> bool" where
  "settles_node n n' \<longleftrightarrow> node_id n' = node_id n \<and> metadata n' = metadata n \<and> outgoingEdges n' = outgoingEdges n \<and>
     set (incomingEdges n') \<subseteq> set (incomingEdges n)"

definition settles :: "edge_manager \<Rightarrow> edge_manager \<Rightarrow> bool" where
  "settles em em' \<longleftrightarrow> (\<forall>i. rel_option settles_node (dnode (em_dag em) i) (dnode (em_dag em') i)) \<and>
     set (deactivatedEdges em) \<subseteq> set (deactivatedEdges em') \<and>
     set (nodesWithActivatedEdge em) \<subseteq> set (nodesWithActivatedEdge em')"

lemma settles_node_refl [simp]: "settles_node n n"
  by (simp add: settles_node_def)

lemma settles_refl [simp]: "settles em em"
  by (simp add: settles_def option.rel_refl)

lemma settles_trans:
  assumes "settles a b" and "settles b c"
  shows "settles a c"
proof -
  have "rel_option settles_node x z" if "rel_option settles_node x y" "rel_option settles_node y z" for x y z
    using that by (cases x; cases y; cases z) (auto simp: settles_node_def)
  with assms show ?thesis unfolding settles_def by blast
qed

lemma settles_dnode:
  assumes "settles em em'" and "dnode (em_dag em') i = Some n'"
  obtains n where "dnode (em_dag em) i = Some n" and "settles_node n n'"
  using assms by (auto simp: settles_def dest!: spec [of _ i] split: option.splits elim: option.rel_cases)

lemma settles_dnode_fwd:
  assumes "settles em em'" and "dnode (em_dag em) i = Some n"
  obtains n' where "dnode (em_dag em') i = Some n'" and "settles_node n n'"
proof -
  have "rel_option settles_node (Some n) (dnode (em_dag em') i)" using assms by (metis settles_def)
  then show thesis using that by (auto simp: option_rel_Some1)
qed

lemma ready_iff:
  "isTargetReady em i \<longleftrightarrow>
     (\<exists>n. dnode (em_dag em) i = Some n \<and> (\<forall>s \<in> set (incomingEdges n). \<not> live_link em s (node_id n)))"
  by (auto simp: isTargetReady_def isNodeReady_iff filter_empty_conv split: option.split)

lemma live_settles:
  assumes "settles em em'" and "live_link em' s t"
  shows "live_link em s t"
proof -
  obtain m' e where m': "dnode (em_dag em') s = Some m'" "e \<in> set (out_edges m')" "edge_target e = t"
    "edge_active (deactivatedEdges em') s e"
    using assms(2) by (auto simp: live_link_def split: option.splits)
  obtain m where "dnode (em_dag em) s = Some m" "settles_node m m'" using settles_dnode [OF assms(1) m'(1)] .
  moreover have "edge_active (deactivatedEdges em) s e" using m'(4) assms(1) by (auto simp: edge_active_def settles_def)
  ultimately show ?thesis using m'(2,3) by (auto simp: live_link_def settles_node_def out_edges_def)
qed

lemma ready_settles:
  assumes "settles em em'" and "isTargetReady em i"
  shows "isTargetReady em' i"
proof -
  obtain n where n: "dnode (em_dag em) i = Some n" "\<forall>s \<in> set (incomingEdges n). \<not> live_link em s (node_id n)"
    using assms(2) by (auto simp: ready_iff)
  obtain n' where "dnode (em_dag em') i = Some n'" "settles_node n n'" using settles_dnode_fwd [OF assms(1) n(1)] .
  with n(2) live_settles [OF assms(1)] show ?thesis by (auto simp: ready_iff settles_node_def)
qed

lemma settles_drop: "settles em (drop_incoming s t em)"
proof -
  have "rel_option settles_node x (map_option (\<lambda>m. m\<lparr>incomingEdges := sdel s (incomingEdges m)\<rparr>) x)" for x
    by (cases x) (auto simp: settles_node_def)
  then show ?thesis by (simp add: settles_def drop_incoming_def option.rel_refl)
qed

lemma settles_mark: "settles em (markNodeWithActivatedEdge i em)"
  by (auto simp: settles_def markNodeWithActivatedEdge_def option.rel_refl)

lemma settles_prune: "settles em (deactivateResumedEdge s t h em)"
  using deact_run_mono [of "(deactivatedEdges em, [])" "em_dag em" "nodesWithActivatedEdge em" s "[(s, t, h, False)]"]
  by (simp add: settles_def deactivateResumedEdge_def deactivateEdgeAndDescendants_def option.rel_refl del: deact_run.simps)

lemma resolve_settles:
  assumes "settles em em'"
  shows "resolveRemainingEdgeHandle (em_dag em') r = resolveRemainingEdgeHandle (em_dag em) r"
proof -
  have "rel_option settles_node (dnode (em_dag em) (rm_source r)) (dnode (em_dag em') (rm_source r))"
    using assms by (simp add: settles_def)
  then show ?thesis
    by (auto simp: resolveRemainingEdgeHandle_def settles_node_def out_edges_def elim: option.rel_cases)
qed

section \<open>Releasing one edge\<close>

lemma queue_if_ready_frame [simp]:
  "en_world (queue_if_ready t e) = en_world e" "en_resuming (queue_if_ready t e) = en_resuming e"
  "en_error (queue_if_ready t e) = en_error e" "en_executionError (queue_if_ready t e) = en_executionError e"
  "en_locked (queue_if_ready t e) = en_locked e" "en_stopped (queue_if_ready t e) = en_stopped e"
  by (simp_all add: queue_if_ready_def)

text \<open>The state that \<open>release_edge\<close> leaves in the edge manager.\<close>

definition released_em :: "remaining_edge \<Rightarrow> edge_manager \<Rightarrow> edge_manager" where
  "released_em r em =
     (case dnode (em_dag em) (rm_target r) of
        None \<Rightarrow> em
      | Some n \<Rightarrow>
          if resolveRemainingEdgeHandle (em_dag em) r = Some ERROR
          then deactivateResumedEdge (rm_source r) (node_id n) (Some ERROR) em
          else if rm_source r \<in> set (incomingEdges n)
          then markNodeWithActivatedEdge (node_id n) (drop_incoming (rm_source r) (rm_target r) em)
          else drop_incoming (rm_source r) (rm_target r) em)"

lemma release_em: "w_em (en_world (release_edge r e)) = released_em r (w_em (en_world e))"
  by (simp add: release_edge_def released_em_def Let_def w_dag_def split: option.split)

lemma released_settles: "settles em (released_em r em)"
  by (auto simp: released_em_def settles_prune settles_drop intro: settles_trans [OF settles_drop settles_mark] split: option.split)

lemma release_settles: "settles (w_em (en_world e)) (w_em (en_world (release_edge r e)))"
  by (simp add: release_em released_settles)

lemma release_frame [simp]:
  "en_resuming (release_edge r e) = en_resuming e" "en_error (release_edge r e) = en_error e"
  "en_executionError (release_edge r e) = en_executionError e" "en_locked (release_edge r e) = en_locked e"
  "en_stopped (release_edge r e) = en_stopped e"
  by (simp_all add: release_edge_def Let_def split: option.split)

lemma drop_incoming_wf: "em_wf em \<Longrightarrow> em_wf (drop_incoming s t em)"
  by (simp add: em_wf_def drop_incoming_def wf_drop_incoming)

lemma prune_wf: "em_wf em \<Longrightarrow> em_wf (deactivateResumedEdge s t h em)"
  by (auto simp: em_wf_def deactivateResumedEdge_def intro: deactivate_distinct)

lemma released_wf: "em_wf em \<Longrightarrow> em_wf (released_em r em)"
  using prune_wf drop_incoming_wf
  by (auto simp: released_em_def markNodeWithActivatedEdge_def em_wf_def split: option.split)

lemma released_configs:
  "loopConfigs (em_dag (released_em r em)) = loopConfigs (em_dag em)"
  "parallelConfigs (em_dag (released_em r em)) = parallelConfigs (em_dag em)"
  by (simp_all add: released_em_def drop_incoming_def deactivateResumedEdge_def markNodeWithActivatedEdge_def split: option.split)

lemma release_world: "en_world (release_edge r e) = (en_world e)\<lparr>w_em := released_em r (w_em (en_world e))\<rparr>"
  by (simp add: release_edge_def released_em_def upd_em_def Let_def w_dag_def split: option.split)

lemma release_run_wf: "run_wf (en_world e) \<Longrightarrow> run_wf (en_world (release_edge r e))"
  using released_wf released_configs flat_config_cong [of "em_dag (released_em r (w_em (en_world e)))" "em_dag (w_em (en_world e))"]
  by (simp add: release_world run_wf_def world_wf_def w_dag_def)

text \<open>What is queued is ready and may be queued.\<close>

definition admissible :: "engine \<Rightarrow> string \<Rightarrow> bool" where
  "admissible e i \<longleftrightarrow> isTargetReady (w_em (en_world e)) i \<and>
     (\<forall>n. dnode (w_dag (en_world e)) i = Some n \<longrightarrow> m_isResumeTrigger (metadata n) \<longrightarrow> allowResumeTriggers e)"

definition queue_admissible :: "engine \<Rightarrow> bool" where
  "queue_admissible e \<longleftrightarrow> distinct (en_queue e) \<and> (\<forall>i \<in> set (en_queue e). admissible e i)"

lemma admissible_settles:
  assumes "admissible e i" and "settles (w_em (en_world e)) (w_em (en_world e'))" and "en_resuming e' = en_resuming e"
  shows "admissible e' i"
proof -
  have "rel_option settles_node (dnode (w_dag (en_world e)) i) (dnode (w_dag (en_world e')) i)"
    using assms(2) by (simp add: settles_def w_dag_def)
  with assms ready_settles [OF assms(2)] show ?thesis
    by (auto simp: admissible_def allowResumeTriggers_def settles_node_def elim: option.rel_cases)
qed

lemma add_admissible:
  assumes "queue_admissible e" and "isTargetReady (w_em (en_world e)) i"
  shows "queue_admissible (addToQueue i e)"
  using assms by (auto simp: queue_admissible_def admissible_def addToQueue_def allowResumeTriggers_def split: option.splits)

lemma queue_if_ready_admissible: "queue_admissible e \<Longrightarrow> queue_admissible (queue_if_ready t e)"
  by (simp add: queue_if_ready_def add_admissible)

lemma upd_em_admissible:
  assumes "queue_admissible e" and "settles (w_em (en_world e)) (f (w_em (en_world e)))"
  shows "queue_admissible (upd_em f e)"
  using assms admissible_settles [of e _ "upd_em f e"] by (simp add: queue_admissible_def)

lemma release_admissible:
  assumes "queue_admissible e"
  shows "queue_admissible (release_edge r e)"
proof (cases "dnode (w_dag (en_world e)) (rm_target r)")
  case None
  with assms show ?thesis by (simp add: release_edge_def)
next
  case (Some n)
  show ?thesis
    using assms by (auto simp: release_edge_def Some Let_def
        intro!: queue_if_ready_admissible upd_em_admissible settles_prune settles_drop settles_mark)
qed

section \<open>Releasing all edges\<close>

definition is_error_edge :: "engine \<Rightarrow> remaining_edge \<Rightarrow> bool" where
  "is_error_edge e r \<longleftrightarrow> resolveRemainingEdgeHandle (w_dag (en_world e)) r = Some ERROR"

text \<open>The edge no longer holds up its target.\<close>

definition let_go :: "engine \<Rightarrow> remaining_edge \<Rightarrow> bool" where
  "let_go e r \<longleftrightarrow> (\<forall>n. dnode (w_dag (en_world e)) (rm_target r) = Some n \<longrightarrow>
     (if is_error_edge e r then createEdgeKey (rm_source r) (rm_target r) (Some ERROR) \<in> set (deactivatedEdges (w_em (en_world e)))
      else rm_source r \<notin> set (incomingEdges n)))"

lemma error_edge_settles:
  "settles (w_em (en_world e)) (w_em (en_world e')) \<Longrightarrow> is_error_edge e' r \<longleftrightarrow> is_error_edge e r"
  using resolve_settles by (simp add: is_error_edge_def w_dag_def)

lemma let_go_settles:
  assumes "let_go e r" and "settles (w_em (en_world e)) (w_em (en_world e'))"
  shows "let_go e' r"
  unfolding let_go_def
proof (intro allI impI)
  fix n'
  assume "dnode (w_dag (en_world e')) (rm_target r) = Some n'"
  then obtain n where "dnode (w_dag (en_world e)) (rm_target r) = Some n" "settles_node n n'"
    using settles_dnode [OF assms(2)] by (metis w_dag_def)
  with assms(1) show "if is_error_edge e' r then createEdgeKey (rm_source r) (rm_target r) (Some ERROR) \<in> set (deactivatedEdges (w_em (en_world e')))
      else rm_source r \<notin> set (incomingEdges n')"
    using error_edge_settles [OF assms(2)] assms(2) by (auto simp: let_go_def settles_node_def settles_def split: if_splits)
qed

lemma key_pruned: "createEdgeKey s t h \<in> set (deactivatedEdges (deactivateResumedEdge s t h em))"
  using deact_run_requested [of s t h "em_dag em" "nodesWithActivatedEdge em" s False "deactivatedEdges em" "[]"]
  by (simp add: deactivateResumedEdge_def deactivateEdgeAndDescendants_def del: deact_run.simps)

lemma release_lets_go:
  assumes "run_wf (en_world e)"
  shows "let_go (release_edge r e) r"
proof (cases "dnode (w_dag (en_world e)) (rm_target r)")
  case None
  then have "release_edge r e = e" by (simp add: release_edge_def)
  with None show ?thesis by (simp add: let_go_def)
next
  case (Some n)
  have id: "node_id n = rm_target r"
    using assms Some wf_dagD by (auto simp: run_wf_def world_wf_def em_wf_def w_dag_def wf_node_def)
  show ?thesis
  proof (cases "is_error_edge e r")
    case True
    then have "w_em (en_world (release_edge r e)) = deactivateResumedEdge (rm_source r) (rm_target r) (Some ERROR) (w_em (en_world e))"
      using Some by (simp add: release_em released_em_def is_error_edge_def w_dag_def id)
    with True error_edge_settles [OF release_settles [of e r]] show ?thesis by (simp add: let_go_def key_pruned)
  next
    case False
    then have "em_dag (w_em (en_world (release_edge r e))) = em_dag (drop_incoming (rm_source r) (rm_target r) (w_em (en_world e)))"
      using Some by (simp add: release_em released_em_def is_error_edge_def w_dag_def markNodeWithActivatedEdge_def)
    with False error_edge_settles [OF release_settles [of e r]] show ?thesis
      by (auto simp: let_go_def w_dag_def drop_incoming_def)
  qed
qed

lemma release_all:
  assumes "run_wf (en_world e)" and "queue_admissible e"
  shows "settles (w_em (en_world e)) (w_em (en_world (fold release_edge rs e))) \<and> run_wf (en_world (fold release_edge rs e)) \<and>
    queue_admissible (fold release_edge rs e) \<and> en_resuming (fold release_edge rs e) = en_resuming e \<and>
    (\<forall>r \<in> set rs. let_go (fold release_edge rs e) r)"
  using assms
proof (induction rs arbitrary: e)
  case (Cons r rs)
  note all = Cons.IH [OF release_run_wf [OF Cons.prems(1), of r] release_admissible [OF Cons.prems(2), of r]]
  then have go: "let_go (fold release_edge rs (release_edge r e)) r"
    using let_go_settles [OF release_lets_go [OF Cons.prems(1), of r]] by blast
  have "settles (w_em (en_world e)) (w_em (en_world (fold release_edge rs (release_edge r e))))"
    using settles_trans [OF release_settles [of e r]] all by blast
  with all go show ?case by simp
qed simp

text \<open>Without error edges, a target that is ready in the end was queued.\<close>

lemma drop_ready_other:
  assumes "i \<noteq> t" and "isTargetReady (drop_incoming s t em) i"
  shows "isTargetReady em i"
proof -
  have "live_link (drop_incoming s t em) a b = live_link em a b" for a b
    by (cases "dnode (em_dag em) a"; cases "a = t") (simp_all add: live_link_def drop_incoming_def out_edges_def comp_def)
  with assms show ?thesis by (simp add: ready_iff) (simp add: drop_incoming_def)
qed

lemma released_ready_other:
  assumes "resolveRemainingEdgeHandle (em_dag em) r \<noteq> Some ERROR" and "i \<noteq> rm_target r" and "isTargetReady (released_em r em) i"
  shows "isTargetReady em i"
proof -
  have "isTargetReady (markNodeWithActivatedEdge j em') i = isTargetReady em' i" for j em'
    by (simp add: isTargetReady_def isNodeReady_def markNodeWithActivatedEdge_def split: option.split)
  note mark = this
  show ?thesis
  proof (cases "dnode (em_dag em) (rm_target r)")
    case None
    with assms(3) show ?thesis by (simp add: released_em_def)
  next
    case (Some n)
    then have "isTargetReady (drop_incoming (rm_source r) (rm_target r) em) i"
      using assms(1,3) by (simp add: released_em_def mark split: if_splits)
    then show ?thesis by (rule drop_ready_other [OF assms(2)])
  qed
qed

lemma release_queues:
  assumes "\<not> is_error_edge e r" and "admissible (release_edge r e) (rm_target r)" and "run_wf (en_world e)"
  shows "rm_target r \<in> set (en_queue (release_edge r e))"
proof -
  obtain n' where n': "dnode (em_dag (w_em (en_world (release_edge r e)))) (rm_target r) = Some n'"
    using assms(2) by (auto simp: admissible_def ready_iff)
  obtain n where n: "dnode (em_dag (w_em (en_world e))) (rm_target r) = Some n" "settles_node n n'"
    using settles_dnode [OF release_settles n'] .
  have id: "node_id n = rm_target r"
    using assms(3) n(1) wf_dagD by (auto simp: run_wf_def world_wf_def em_wf_def wf_node_def)
  have resume: "m_isResumeTrigger (metadata n) \<longrightarrow> allowResumeTriggers e"
    using assms(2) n' n(2) by (simp add: admissible_def w_dag_def allowResumeTriggers_def settles_node_def)
  have queued: "rm_target r \<in> set (en_queue (queue_if_ready (rm_target r) e2))"
    if "en_world e2 = en_world (release_edge r e)" "en_resuming e2 = en_resuming e" for e2
    using assms(2) resume n' n(2) that
    by (auto simp: queue_if_ready_def addToQueue_def admissible_def allowResumeTriggers_def w_dag_def settles_node_def)
  define e2 where "e2 = (if rm_source r \<in> set (incomingEdges n)
    then upd_em (markNodeWithActivatedEdge (node_id n)) (upd_em (drop_incoming (rm_source r) (rm_target r)) e)
    else upd_em (drop_incoming (rm_source r) (rm_target r)) e)"
  have "release_edge r e = queue_if_ready (rm_target r) e2"
    using assms(1) n(1) by (simp add: release_edge_def Let_def is_error_edge_def w_dag_def id e2_def)
  with queued [of e2] show ?thesis by (simp add: e2_def)
qed

lemma release_keeps_queue: "set (en_queue e) \<subseteq> set (en_queue (release_edge r e))"
proof -
  have q: "set (en_queue e) \<subseteq> set (en_queue (queue_if_ready t e'))" if "en_queue e' = en_queue e" for t e'
    using that by (auto simp: queue_if_ready_def addToQueue_def)
  show ?thesis
    by (cases "dnode (w_dag (en_world e)) (rm_target r)") (simp_all add: release_edge_def Let_def q)
qed

lemma release_complete:
  assumes "run_wf (en_world e)" and "queue_admissible e" and "\<forall>r \<in> set rs. \<not> is_error_edge e r"
    and "r \<in> set rs" and "admissible (fold release_edge rs e) (rm_target r)"
  shows "rm_target r \<in> set (en_queue (fold release_edge rs e))"
  using assms(3-)
proof (induction rs rule: rev_induct)
  case (snoc x rs)
  let ?e1 = "fold release_edge rs e"
  have 1: "settles (w_em (en_world e)) (w_em (en_world ?e1))" "run_wf (en_world ?e1)"
    using release_all [OF assms(1,2)] by blast+
  have x: "\<not> is_error_edge ?e1 x" using snoc.prems(1) error_edge_settles [OF 1(1)] by simp
  show ?case
  proof (cases "rm_target r = rm_target x")
    case True
    with release_queues [OF x _ 1(2)] snoc.prems(3) show ?thesis by simp
  next
    case False
    with snoc.prems(2) have r: "r \<in> set rs" by auto
    have adm: "isTargetReady (w_em (en_world (release_edge x ?e1))) (rm_target r)"
      "\<And>n. dnode (w_dag (en_world (release_edge x ?e1))) (rm_target r) = Some n \<Longrightarrow> m_isResumeTrigger (metadata n) \<Longrightarrow> en_resuming ?e1"
      using snoc.prems(3) by (simp_all add: admissible_def allowResumeTriggers_def)
    have ready: "isTargetReady (w_em (en_world ?e1)) (rm_target r)"
      by (rule released_ready_other [of _ x]) (use x False adm(1) in \<open>simp_all add: release_em is_error_edge_def w_dag_def\<close>)
    have "en_resuming ?e1" if n: "dnode (w_dag (en_world ?e1)) (rm_target r) = Some n" "m_isResumeTrigger (metadata n)" for n
    proof -
      obtain n' where "dnode (em_dag (w_em (en_world (release_edge x ?e1)))) (rm_target r) = Some n'" "settles_node n n'"
        using settles_dnode_fwd [OF release_settles] n(1) by (metis w_dag_def)
      with adm(2) [of n'] n(2) show ?thesis by (simp add: w_dag_def settles_node_def)
    qed
    with ready have "admissible ?e1 (rm_target r)" by (simp add: admissible_def allowResumeTriggers_def)
    with snoc.IH snoc.prems(1) r have "rm_target r \<in> set (en_queue ?e1)" by simp
    then show ?thesis using release_keeps_queue [of ?e1 x] by auto
  qed
qed simp

section \<open>The queue of a resumed run\<close>

lemma release_tasks [simp]: "en_tasks (release_edge r e) = en_tasks e"
  by (simp add: release_edge_def queue_if_ready_def Let_def split: option.split)

lemma initializeQueue_remaining:
  "rs \<noteq> [] \<Longrightarrow> initializeQueue None rs trigger e = fold release_edge rs e"
  by (simp add: initializeQueue_def)

lemma resume_start:
  assumes "run_wf (en_world e)" and "en_queue e = []"
  shows "run_wf (en_world (fold release_edge rs e)) \<and> distinct (en_queue (fold release_edge rs e))"
  using release_all [OF assms(1), of rs] assms(2) by (auto simp: queue_admissible_def)

text \<open>
  a resumed run starts where it may. The edges of the answered pause blocks no longer
  hold up their targets: a continuation edge is removed from the incoming edges, an error
  edge is pruned. Every node that is queued is ready in the state left behind, is queued
  once, and is a resume trigger only in a run that resumes a snapshot; and when no error
  edge is released, every target of a released edge that is ready is queued.
\<close>

theorem resume_releases:
  assumes "run_wf (en_world e)" and "en_queue e = []" and "rs \<noteq> []" and "e' = initializeQueue None rs trigger e"
  shows "run_wf (en_world e') \<and> distinct (en_queue e') \<and> (\<forall>i \<in> set (en_queue e'). admissible e' i) \<and>
    (\<forall>r \<in> set rs. let_go e' r) \<and>
    ((\<forall>r \<in> set rs. \<not> is_error_edge e r) \<longrightarrow>
      (\<forall>r \<in> set rs. admissible e' (rm_target r) \<longrightarrow> rm_target r \<in> set (en_queue e')))"
proof -
  have e': "e' = fold release_edge rs e" using assms(3,4) by (simp add: initializeQueue_remaining)
  have q: "queue_admissible e" using assms(2) by (simp add: queue_admissible_def)
  show ?thesis
    using release_all [OF assms(1) q, of rs] release_complete [OF assms(1) q, of rs]
    unfolding e' queue_admissible_def by blast
qed

section \<open>A join behind an error handler\<close>

text \<open>A pause block \<open>p\<close> that continues to \<open>j\<close>, and whose error path \<open>x\<close> rejoins at \<open>j\<close>; the
  nodes in the order \<open>p\<close>, \<open>j\<close>, \<open>x\<close>, in which the remaining edges are persisted.\<close>

definition rejoin_dag :: dag where
  "rejoin_dag = \<lparr>dag_nodes = [
      demo_node ''p'' [] [(''j'', ''source''), (''x'', ''error'')] no_meta,
      demo_node ''j'' [''p'', ''x''] [] no_meta,
      demo_node ''x'' [''p''] [(''j'', ''source'')] no_meta], loopConfigs = [], parallelConfigs = []\<rparr>"

definition rejoin_engine :: engine where
  "rejoin_engine = engine_init (live_world\<lparr>w_em := \<lparr>em_dag = rejoin_dag, deactivatedEdges = [], nodesWithActivatedEdge = [''p'']\<rparr>,
     w_state := setBlockOutput False ''p'' [] 0 None \<lparr>blockStates = [], executedBlocks = []\<rparr>\<rparr>) True [] False"

definition edge_to :: "string \<Rightarrow> remaining_edge" where
  "edge_to t = \<lparr>rm_source = ''p'', rm_target = t, rm_sourceHandle = None\<rparr>"

text \<open>
  a resumed run can strand a join. When the error edge is released after the
  continuation edge, the join is ready and activated in the end, but the queue of the run is
  empty: pruning the error path settles the join, and only the target of the error edge
  itself is considered. When the same edges are released in the other order, the join is
  queued.
\<close>

theorem resume_strands_join:
  "en_queue (initializeQueue None [edge_to ''j'', edge_to ''x''] None rejoin_engine) = [] \<and>
   isTargetReady (w_em (en_world (initializeQueue None [edge_to ''j'', edge_to ''x''] None rejoin_engine))) ''j'' \<and>
   hasActivatedEdge (w_em (en_world (initializeQueue None [edge_to ''j'', edge_to ''x''] None rejoin_engine))) ''j'' \<and>
   en_queue (initializeQueue None [edge_to ''x'', edge_to ''j''] None rejoin_engine) = [''j'']"
  by code_simp

lemma rejoin_wf: "run_wf (en_world rejoin_engine)"
proof -
  have "wf_dag rejoin_dag" by (rule wf_dag_check; code_simp)
  moreover have "state_wf (\<lparr>blockStates = [], executedBlocks = []\<rparr> :: unit execution_state)" by (simp add: state_wf_def)
  ultimately show ?thesis
    by (simp add: rejoin_engine_def engine_init_def run_wf_def world_wf_def em_wf_def live_world_def stale_world_def
        w_dag_def flat_config_def rejoin_dag_def wf_setBlockOutput)
qed

lemma rejoin_facts:
  "en_queue rejoin_engine = []" "\<not> is_error_edge rejoin_engine (edge_to ''j'')"
  "en_queue (initializeQueue None [edge_to ''x'', edge_to ''j''] None rejoin_engine) = [''j'']"
  by code_simp+

theorem resume_releases_witness:
  "isTargetReady (w_em (en_world (initializeQueue None [edge_to ''x'', edge_to ''j''] None rejoin_engine))) ''j''"
  using resume_releases [OF rejoin_wf rejoin_facts(1) _ refl, of "[edge_to ''x'', edge_to ''j'']" None] rejoin_facts(3)
  by (simp add: admissible_def)

end
