(* ===== verification/Snapshot.thy ===== *)
theory Snapshot
  imports World
begin

text \<open>
  The pause snapshot of a run: \<open>serializePauseSnapshot\<close>
  (\<open>executor/execution/snapshot-serializer.ts\<close>), the JSON text it is kept as
  (\<open>ExecutionSnapshot.toJSON\<close> and \<open>fromJSON\<close>), and its reading by
  \<open>DAGExecutor.createExecutionContext\<close> (\<open>executor/execution/executor.ts\<close>).

  The record \<open>snapshot\<close> has the part of \<open>SerializableExecutionState\<close> that the world of the model
  holds. A plain object is the association list of its own properties in the order in which
  JavaScript lists them: array indices first, in ascending order, then the other keys in the
  order of their creation. The keys of an object with numeric keys are kept as integers;
  \<open>String\<close> and \<open>Number\<close> are inverse on them. Logs, routing decisions, completed loops, large-value
  keys, identity and secret provenance are not part of the model; the size guard on the
  loop scopes is in \<open>JsonSize\<close>.
\<close>

section \<open>Objects and maps\<close>

text \<open>A property whose name is the canonical text of a number below \<open>2 ^ 32 - 1\<close> is an array index.\<close>

definition array_index :: "string \<Rightarrow> bool" where
  "array_index k \<longleftrightarrow> k = show_nat (parse_nat k) \<and> parse_nat k < 4294967295"

definition int_index :: "int \<Rightarrow> bool" where
  "int_index k \<longleftrightarrow> 0 \<le> k \<and> k < 4294967295"

text \<open>\<open>Object.fromEntries\<close> of a map, and \<open>new Map(Object.entries(...))\<close> back again, which keeps
  the order of the object.\<close>

definition js_object :: "(string, 'v) jsmap \<Rightarrow> (string, 'v) jsmap" where
  "js_object m =
     sort_key (\<lambda>(k, _). parse_nat k) (filter (\<lambda>(k, _). array_index k) m) @ filter (\<lambda>(k, _). \<not> array_index k) m"

definition js_int_object :: "(int, 'v) jsmap \<Rightarrow> (int, 'v) jsmap" where
  "js_int_object m = sort_key fst (filter (\<lambda>(k, _). int_index k) m) @ filter (\<lambda>(k, _). \<not> int_index k) m"

text \<open>An object that is filled by assignments \<open>obj[k] = v\<close>: assigning an object to \<open>__proto__\<close>
  changes the prototype and creates no property.\<close>

definition PROTO :: string where "PROTO = ''__proto__''"

definition js_assigned :: "(string, 'v) jsmap \<Rightarrow> (string, 'v) jsmap" where
  "js_assigned m = js_object (filter (\<lambda>(k, _). k \<noteq> PROTO) m)"

section \<open>Through JSON\<close>

text \<open>What \<open>JSON.parse(JSON.stringify(v))\<close> gives back: a property whose value is \<open>undefined\<close> is
  dropped, an array element that is \<open>undefined\<close> becomes \<open>null\<close>.\<close>

fun json_value :: "jval \<Rightarrow> jval"
  and json_items :: "jval list \<Rightarrow> jval list"
  and json_entries :: "jobj \<Rightarrow> jobj" where
  "json_value (JArr vs) = JArr (json_items vs)"
| "json_value (JObj es) = JObj (json_entries es)"
| "json_value v = v"
| "json_items [] = []"
| "json_items (v # vs) = (if v = JUndef then JNull else json_value v) # json_items vs"
| "json_entries [] = []"
| "json_entries ((k, v) # es) = (if v = JUndef then json_entries es else (k, json_value v) # json_entries es)"

definition json_optional :: "jval option \<Rightarrow> jval option" where
  "json_optional v = (case v of None \<Rightarrow> None | Some x \<Rightarrow> if x = JUndef then None else Some (json_value x))"

definition json_map :: "('v \<Rightarrow> 'w) \<Rightarrow> ('k, 'v) jsmap \<Rightarrow> ('k, 'w) jsmap" where
  "json_map f m = map (\<lambda>(k, v). (k, f v)) m"

definition json_block_state :: "unit block_state \<Rightarrow> unit block_state" where
  "json_block_state s = s\<lparr>bs_output := json_entries (bs_output s)\<rparr>"

definition json_loop_scope :: "loop_scope \<Rightarrow> loop_scope" where
  "json_loop_scope s =
     s\<lparr>ls_current := json_map json_entries (ls_current s), ls_all := json_items (ls_all s),
       ls_item := json_optional (ls_item s), ls_items := map_option json_items (ls_items s)\<rparr>"

definition json_parallel_scope :: "parallel_scope \<Rightarrow> parallel_scope" where
  "json_parallel_scope s =
     s\<lparr>ps_accumulated := json_map json_value (filter (\<lambda>(k, v). v \<noteq> JUndef) (ps_accumulated s)),
       ps_branchOutputs := json_map json_items (ps_branchOutputs s),
       ps_items := map_option json_items (ps_items s)\<rparr>"

section \<open>The snapshot\<close>

record snapshot =
  sn_blockStates :: "(string, unit block_state) jsmap"
  sn_executedBlocks :: "string list"
  sn_loopExecutions :: "(string, loop_scope) jsmap option"
  sn_parallelExecutions :: "(string, parallel_scope) jsmap option"
  sn_parallelBlockMapping :: "(string, branch_mapping) jsmap option"
  sn_pendingQueue :: "string list option"
  sn_dagIncomingEdges :: "(string, string list) jsmap option"
  sn_deactivatedEdges :: "edge_key list option"
  sn_nodesWithActivatedEdge :: "string list option"

definition serializeLoopExecutions :: "(string, loop_scope) jsmap \<Rightarrow> (string, loop_scope) jsmap" where
  "serializeLoopExecutions loops =
     js_assigned (map (\<lambda>(i, s). (i, s\<lparr>ls_current := js_object (ls_current s)\<rparr>)) loops)"

definition serializeParallelExecutions :: "(string, parallel_scope) jsmap \<Rightarrow> (string, parallel_scope) jsmap" where
  "serializeParallelExecutions parallels =
     js_assigned (map (\<lambda>(i, s). (i, s\<lparr>ps_branchOutputs := js_int_object (ps_branchOutputs s),
                                   ps_accumulated := js_int_object (ps_accumulated s)\<rparr>)) parallels)"

definition serializePauseSnapshot :: "world \<Rightarrow> string list \<Rightarrow> snapshot" where
  "serializePauseSnapshot w triggerBlockIds =
     \<lparr>sn_blockStates = js_object (blockStates (w_state w)),
      sn_executedBlocks = executedBlocks (w_state w),
      sn_loopExecutions = Some (serializeLoopExecutions (w_loops w)),
      sn_parallelExecutions = Some (serializeParallelExecutions (w_parallels w)),
      sn_parallelBlockMapping = Some (js_object (w_mapping w)),
      sn_pendingQueue = Some triggerBlockIds,
      sn_dagIncomingEdges = Some (js_object (map (\<lambda>(i, n). (i, incomingEdges n)) (dag_nodes (w_dag w)))),
      sn_deactivatedEdges = Some (deactivatedEdges (w_em w)),
      sn_nodesWithActivatedEdge = Some (nodesWithActivatedEdge (w_em w))\<rparr>"

text \<open>\<open>ExecutionSnapshot.fromJSON(snapshot.toJSON())\<close> on the state.\<close>

definition json_snapshot :: "snapshot \<Rightarrow> snapshot" where
  "json_snapshot s =
     s\<lparr>sn_blockStates := json_map json_block_state (sn_blockStates s),
       sn_loopExecutions := map_option (json_map json_loop_scope) (sn_loopExecutions s),
       sn_parallelExecutions := map_option (json_map json_parallel_scope) (sn_parallelExecutions s)\<rparr>"

section \<open>Reading a snapshot\<close>

text \<open>\<open>createExecutionContext\<close>: the execution state and the tables of the context. A table of a
  snapshot is already the entry list of its object, so a map made from it has that list.\<close>

definition or_empty :: "'a list option \<Rightarrow> 'a list" where
  "or_empty m = (case m of None \<Rightarrow> [] | Some m \<Rightarrow> m)"

definition restored_state :: "snapshot option \<Rightarrow> string list option \<Rightarrow> unit execution_state" where
  "restored_state s dirty =
     (let states = (case s of None \<Rightarrow> [] | Some s \<Rightarrow> sn_blockStates s);
          executed = (case s of None \<Rightarrow> [] | Some s \<Rightarrow> set_of_array (sn_executedBlocks s))
      in \<lparr>blockStates = states,
          executedBlocks = (case dirty of None \<Rightarrow> executed | Some ds \<Rightarrow> filter (\<lambda>i. i \<notin> set ds) executed)\<rparr>)"

definition restored_loops :: "snapshot option \<Rightarrow> (string, loop_scope) jsmap" where
  "restored_loops s = (case s of None \<Rightarrow> [] | Some s \<Rightarrow> or_empty (sn_loopExecutions s))"

definition restored_parallels :: "snapshot option \<Rightarrow> (string, parallel_scope) jsmap" where
  "restored_parallels s = (case s of None \<Rightarrow> [] | Some s \<Rightarrow> or_empty (sn_parallelExecutions s))"

definition restored_mapping :: "snapshot option \<Rightarrow> (string, branch_mapping) jsmap" where
  "restored_mapping s = (case s of None \<Rightarrow> [] | Some s \<Rightarrow> or_empty (sn_parallelBlockMapping s))"

section \<open>Lookups survive\<close>

lemma mget_permuted:
  assumes "mproper m" and "set m' = set m" and "mproper m'"
  shows "mget m' k = mget m k"
  using assms by (metis mget_iff_in_set not_Some_eq)

lemma mproper_split:
  assumes "mproper m" and "set xs = set (filter P m)" and "distinct (map fst xs)"
  shows "set (xs @ filter (\<lambda>e. \<not> P e) m) = set m \<and> mproper (xs @ filter (\<lambda>e. \<not> P e) m)"
proof
  show "set (xs @ filter (\<lambda>e. \<not> P e) m) = set m" using assms(2) by auto
  have "(k, v) \<in> set xs \<Longrightarrow> (k, v') \<in> set (filter (\<lambda>e. \<not> P e) m) \<Longrightarrow> False" for k v v'
  proof -
    assume a: "(k, v) \<in> set xs" "(k, v') \<in> set (filter (\<lambda>e. \<not> P e) m)"
    then have "(k, v) \<in> set m" "(k, v') \<in> set m" "P (k, v)" "\<not> P (k, v')" using assms(2) by auto
    with assms(1) show False by (metis mget_iff_in_set option.inject)
  qed
  then have "fst ` set xs \<inter> fst ` set (filter (\<lambda>e. \<not> P e) m) = {}" by fastforce
  then show "mproper (xs @ filter (\<lambda>e. \<not> P e) m)"
    using assms(1,3) by (simp add: mproper_def distinct_map_filter)
qed

lemma mget_sorted_split:
  fixes f :: "'k \<times> 'v \<Rightarrow> 'o::linorder"
  assumes "mproper m"
  shows "mget (sort_key f (filter P m) @ filter (\<lambda>e. \<not> P e) m) k = mget m k \<and>
    mproper (sort_key f (filter P m) @ filter (\<lambda>e. \<not> P e) m)"
proof -
  have "distinct (map fst (sort_key f (filter P m)))"
    using assms by (simp add: mproper_def distinct_map inj_on_subset [of fst "set m"])
  then show ?thesis
    using mproper_split [OF assms, of "sort_key f (filter P m)" P] mget_permuted [OF assms] by auto
qed

lemma js_object_lookup:
  assumes "mproper m"
  shows "mget (js_object m) k = mget m k" and "mproper (js_object m)"
proof -
  have "js_object m = sort_key (\<lambda>(k, _). parse_nat k) (filter (\<lambda>(k, _). array_index k) m) @
      filter (\<lambda>e. \<not> (\<lambda>(k, _). array_index k) e) m"
    by (simp add: js_object_def case_prod_unfold)
  with mget_sorted_split [OF assms, of "\<lambda>(k, _). parse_nat k" "\<lambda>(k, _). array_index k"]
  show "mget (js_object m) k = mget m k" "mproper (js_object m)" by (simp_all add: case_prod_unfold)
qed

lemma js_int_object_lookup:
  assumes "mproper m"
  shows "mget (js_int_object m) k = mget m k" and "mproper (js_int_object m)"
proof -
  have "js_int_object m = sort_key fst (filter (\<lambda>(k, _). int_index k) m) @
      filter (\<lambda>e. \<not> (\<lambda>(k, _). int_index k) e) m"
    by (simp add: js_int_object_def case_prod_unfold)
  with mget_sorted_split [OF assms, of fst "\<lambda>(k, _). int_index k"]
  show "mget (js_int_object m) k = mget m k" "mproper (js_int_object m)" by (simp_all add: case_prod_unfold)
qed

lemma mproper_map_values [simp]: "mproper (map (\<lambda>(i, v). (i, f i v)) m) = mproper m"
  by (simp add: mproper_def case_prod_unfold comp_def)

lemma mproper_filter: "mproper m \<Longrightarrow> mproper (filter P m)"
  by (simp add: mproper_def distinct_map_filter)

lemma mget_filter_key: "mget (filter (\<lambda>(k, _). P k) m) k = (if P k then mget m k else None)"
  by (induction m) auto

lemma mget_json_map [simp]: "mget (json_map f m) k = map_option f (mget m k)"
  by (simp add: json_map_def mget_map_values)

lemma js_assigned_lookup:
  assumes "mproper m"
  shows "mget (js_assigned m) k = (if k = PROTO then None else mget m k)" and "mproper (js_assigned m)"
  using js_object_lookup [OF mproper_filter [OF assms, of "\<lambda>(k, _). k \<noteq> PROTO"]]
  by (simp_all add: js_assigned_def mget_filter_key [where P = "\<lambda>k. k \<noteq> PROTO"])

end
