(* ===== verification/StartBlock.thy ===== *)
theory StartBlock
  imports Workflow
begin

text \<open>
  The start of a workflow (\<open>executor/utils/start-block.ts\<close> and the classification of start blocks
  in \<open>lib/workflows/triggers/triggers.ts\<close>): which block starts a run, and how the input of the run
  becomes the output of that block.

  The record \<open>start_host\<close> has what the code is given and calls: the input, the trusted metadata and
  the workspace of the run, the category a block type is registered with, \<open>JSON.parse\<close> and the
  conversions \<open>Number\<close> (nothing for not-a-number) and \<open>String\<close>, and the storage keys: the
  workspace a key names, the context it belongs to (nothing when the code throws) and the
  key in an internal URL. A key of an object is never \<open>__proto__\<close>.
\<close>

record start_host =
  sh_registry :: "string \<Rightarrow> string option"
  sh_workflowInput :: jval
  sh_runMetadata :: "jobj option"
  sh_workspaceId :: "string option"
  sh_parse :: "string \<Rightarrow> jval option"
  sh_number :: "jval \<Rightarrow> jval option"
  sh_string :: "jval \<Rightarrow> string"
  sh_keyWorkspace :: "string \<Rightarrow> string option"
  sh_keyContext :: "string \<Rightarrow> string option"
  sh_urlKey :: "string \<Rightarrow> string option"

section \<open>Which block starts a run\<close>

datatype start_path =
  UNIFIED | LEGACY_STARTER | SPLIT_INPUT | SPLIT_API | SPLIT_CHAT | SPLIT_MANUAL | EXTERNAL_TRIGGER

datatype execution_kind = ChatRun | ManualRun | ApiRun | ExternalRun

datatype start_error =
    MultipleTriggers
  | ReservedNames string "string list" bool
  | MetadataNameTaken string

definition EXECUTION_PRIORITIES :: "execution_kind \<Rightarrow> start_path list" where
  "EXECUTION_PRIORITIES k =
     (case k of
        ChatRun \<Rightarrow> [UNIFIED, SPLIT_CHAT, LEGACY_STARTER]
      | ManualRun \<Rightarrow> [UNIFIED, SPLIT_API, SPLIT_INPUT, SPLIT_MANUAL, LEGACY_STARTER, EXTERNAL_TRIGGER]
      | ApiRun \<Rightarrow> [UNIFIED, SPLIT_API, SPLIT_INPUT, LEGACY_STARTER]
      | ExternalRun \<Rightarrow> [EXTERNAL_TRIGGER])"

definition CHILD_PRIORITIES :: "start_path list" where
  "CHILD_PRIORITIES = [UNIFIED, SPLIT_INPUT, LEGACY_STARTER]"

definition classifyStartBlockType :: "string \<Rightarrow> string option \<Rightarrow> bool \<Rightarrow> start_path option" where
  "classifyStartBlockType t category triggerModeEnabled =
     (if t = ''start_trigger'' then Some UNIFIED
      else if t = ''starter'' then Some LEGACY_STARTER
      else if t = ''input_trigger'' then Some SPLIT_INPUT
      else if t = ''api_trigger'' then Some SPLIT_API
      else if t = ''chat_trigger'' then Some SPLIT_CHAT
      else if t = ''manual_trigger'' then Some SPLIT_MANUAL
      else if t \<in> {''webhook'', ''schedule'', ''sim_workspace_event''} then Some EXTERNAL_TRIGGER
      else if category = Some ''triggers'' \<or> triggerModeEnabled then Some EXTERNAL_TRIGGER
      else None)"

text \<open>A candidate of \<open>resolveExecutorStartBlock\<close> is a wrapper with the type of a block and the block
  itself; the fields \<open>enabled\<close> and \<open>triggerMode\<close> that \<open>resolveStartCandidates\<close> looks for in a
  candidate are not in it, so that neither of the two tests has an effect.\<close>

record start_wrapper =
  sw_type :: string
  sw_original :: sblock

definition classifyStartBlock :: "start_host \<Rightarrow> start_wrapper \<Rightarrow> start_path option" where
  "classifyStartBlock h c = classifyStartBlockType (sw_type c) (sh_registry h (sw_type c)) False"

definition supportsExecution :: "start_path \<Rightarrow> execution_kind \<Rightarrow> bool" where
  "supportsExecution path k \<longleftrightarrow>
     (if k = ExternalRun then path = EXTERNAL_TRIGGER
      else if path = UNIFIED \<or> path = LEGACY_STARTER then True
      else if k = ChatRun then path = SPLIT_CHAT
      else if k = ApiRun then path = SPLIT_API \<or> path = SPLIT_INPUT
      else path \<in> {SPLIT_API, SPLIT_INPUT, SPLIT_MANUAL, EXTERNAL_TRIGGER})"

fun position :: "'a list \<Rightarrow> 'a \<Rightarrow> nat" where
  "position [] x = 0"
| "position (y # ys) x = (if x = y then 0 else Suc (position ys x))"

definition start_candidates ::
  "start_host \<Rightarrow> execution_kind \<Rightarrow> bool \<Rightarrow> (string, start_wrapper) jsmap \<Rightarrow> (string \<times> start_wrapper \<times> start_path) list" where
  "start_candidates h k isChildWorkflow entries =
     concat (map (\<lambda>(i, c).
       case classifyStartBlock h c of
         None \<Rightarrow> []
       | Some path \<Rightarrow>
           if (if isChildWorkflow then path \<in> set CHILD_PRIORITIES else supportsExecution path k)
           then [(i, c, path)] else []) entries)"

definition resolveStartCandidates ::
  "start_host \<Rightarrow> execution_kind \<Rightarrow> bool \<Rightarrow> (string, start_wrapper) jsmap \<Rightarrow> (string \<times> start_wrapper \<times> start_path) list" where
  "resolveStartCandidates h k isChildWorkflow entries =
     (let order = (if isChildWorkflow then CHILD_PRIORITIES else EXECUTION_PRIORITIES k)
      in sort_key (\<lambda>(i, c, path). position order path) (start_candidates h k isChildWorkflow entries))"

definition add_wrapper :: "sblock \<Rightarrow> (string, start_wrapper) jsmap \<Rightarrow> (string, start_wrapper) jsmap" where
  "add_wrapper b acc =
     (if falsy_str (blk_type b) then acc else mput (blk_id b) \<lparr>sw_type = the (blk_type b), sw_original = b\<rparr> acc)"

definition start_wrappers :: "sblock list \<Rightarrow> (string, start_wrapper) jsmap" where
  "start_wrappers blocks = fold add_wrapper blocks []"

definition resolveExecutorStartBlock ::
  "start_host \<Rightarrow> execution_kind \<Rightarrow> bool \<Rightarrow> sblock list \<Rightarrow> start_error + (sblock \<times> start_path) option" where
  "resolveExecutorStartBlock h k isChildWorkflow blocks =
     (case resolveStartCandidates h k isChildWorkflow (start_wrappers blocks) of
        [] \<Rightarrow> Inr None
      | (i, c, path) # rest \<Rightarrow>
          if isChildWorkflow \<and> rest \<noteq> [] then Inl MultipleTriggers else Inr (Some (sw_original c, path)))"

definition buildResolutionFromBlock :: "sblock \<Rightarrow> (sblock \<times> start_path) option" where
  "buildResolutionFromBlock b =
     (if falsy_str (blk_type b) then None
      else case classifyStartBlockType (the (blk_type b)) (blk_category b)
                  (get_prop (blk_params b) ''triggerMode'' = JBool True) of
             None \<Rightarrow> None
           | Some path \<Rightarrow> Some (b, path))"

section \<open>The configuration of a start block\<close>

definition readMetadataSubBlockValue :: "sblock \<Rightarrow> string \<Rightarrow> jval" where
  "readMetadataSubBlockValue b key =
     (case blk_subBlocks b of
        None \<Rightarrow> JUndef
      | Some subs \<Rightarrow> (case get_prop subs key of JObj raw \<Rightarrow> get_prop raw ''value'' | _ \<Rightarrow> JUndef))"

fun records_of :: "jval list \<Rightarrow> jobj list" where
  "records_of [] = []"
| "records_of (JObj f # xs) = f # records_of xs"
| "records_of (_ # xs) = records_of xs"

definition extractInputFormat :: "sblock \<Rightarrow> jobj list" where
  "extractInputFormat b =
     (case nullish (readMetadataSubBlockValue b ''inputFormat'') (get_prop (blk_params b) ''inputFormat'') of
        JArr xs \<Rightarrow> records_of xs
      | _ \<Rightarrow> [])"

definition isRunMetadataEnabled :: "sblock \<Rightarrow> bool" where
  "isRunMetadataEnabled b \<longleftrightarrow>
     nullish (readMetadataSubBlockValue b ''runMetadata'') (get_prop (blk_params b) ''runMetadata'')
       \<in> {JBool True, JStr ''true''}"

datatype starter_mode = StarterManual | StarterApi | StarterChat

definition normalizeLegacyStarterMode :: "jval \<Rightarrow> starter_mode option" where
  "normalizeLegacyStarterMode v =
     (if v = JStr ''chat'' then Some StarterChat
      else if v = JStr ''api'' \<or> v = JStr ''run'' then Some StarterApi
      else if v = JUndef \<or> v = JStr ''manual'' then Some StarterManual
      else None)"

definition getSerializedLegacyStarterMode :: "sblock \<Rightarrow> starter_mode option" where
  "getSerializedLegacyStarterMode b =
     (let fromMetadata = readMetadataSubBlockValue b ''startWorkflow''
      in normalizeLegacyStarterMode
           (if fromMetadata \<noteq> JUndef then fromMetadata else get_prop (blk_params b) ''startWorkflow''))"

definition readInputFormatFieldName :: "jobj \<Rightarrow> string option" where
  "readInputFormatFieldName f = (case get_prop f ''name'' of JStr s \<Rightarrow> Some (js_trim s) | _ \<Rightarrow> None)"

definition EXECUTION_CONTROL_OUTPUT_FIELD_NAMES :: "string list" where
  "EXECUTION_CONTROL_OUTPUT_FIELD_NAMES = [''error'', ''selectedOption'', ''selectedRoute'', ''_pauseMetadata'']"

definition START_BLOCK_METADATA_FIELD :: string where
  "START_BLOCK_METADATA_FIELD = ''metadata''"

definition collectExecutionControlFieldNames :: "string option list \<Rightarrow> string list" where
  "collectExecutionControlFieldNames names =
     fold (\<lambda>n acc. if \<not> falsy_str n \<and> the n \<in> set EXECUTION_CONTROL_OUTPUT_FIELD_NAMES then sadd (the n) acc else acc)
       names []"

definition block_title :: "sblock \<Rightarrow> string" where
  "block_title b = (case blk_name b of None \<Rightarrow> blk_id b | Some n \<Rightarrow> n)"

definition pathConsumesInputFormat :: "start_path \<Rightarrow> starter_mode option \<Rightarrow> bool" where
  "pathConsumesInputFormat path mode \<longleftrightarrow>
     (case path of SPLIT_CHAT \<Rightarrow> False | LEGACY_STARTER \<Rightarrow> mode \<noteq> Some StarterChat | _ \<Rightarrow> True)"

section \<open>The input by its format\<close>

definition coerceValue :: "start_host \<Rightarrow> jval \<Rightarrow> jval \<Rightarrow> jval" where
  "coerceValue h t v =
     (if v = JUndef \<or> v = JNull then v
      else if t = JStr ''string'' then (case v of JStr s \<Rightarrow> v | _ \<Rightarrow> JStr (sh_string h v))
      else if t = JStr ''number'' then
        (case v of JNum n \<Rightarrow> v | _ \<Rightarrow> (case sh_number h v of None \<Rightarrow> v | Some parsed \<Rightarrow> parsed))
      else if t = JStr ''boolean'' then
        (case v of
           JBool b \<Rightarrow> v
         | _ \<Rightarrow> if v \<in> {JStr ''true'', JStr ''1'', JNum 1} then JBool True
                else if v \<in> {JStr ''false'', JStr ''0'', JNum 0} then JBool False else v)
      else if t = JStr ''object'' \<or> t = JStr ''array'' then
        (case v of JStr s \<Rightarrow> (case sh_parse h s of None \<Rightarrow> v | Some parsed \<Rightarrow> parsed) | _ \<Rightarrow> v)
      else v)"

text \<open>The value of a field: from the nested \<open>input\<close> object, else from the input itself, else the
  default of the field.\<close>

definition provided_value :: "start_host \<Rightarrow> string \<Rightarrow> jval" where
  "provided_value h name =
     (case sh_workflowInput h of
        JObj r \<Rightarrow>
          (case get_prop r ''input'' of
             JObj c \<Rightarrow> if mhas c name then get_prop c name else get_prop r name
           | _ \<Rightarrow> get_prop r name)
      | _ \<Rightarrow> JUndef)"

definition field_value :: "start_host \<Rightarrow> jobj \<Rightarrow> string \<Rightarrow> jval" where
  "field_value h f name =
     coerceValue h (get_prop f ''type'') (nullish (provided_value h name) (get_prop f ''value''))"

definition structured_input :: "start_host \<Rightarrow> jobj list \<Rightarrow> jobj" where
  "structured_input h format =
     fold (\<lambda>f acc. let name = readInputFormatFieldName f
                   in if falsy_str name then acc else mput (the name) (field_value h f (the name)) acc) format []"

definition getRawInputCandidate :: "jval \<Rightarrow> jval" where
  "getRawInputCandidate v =
     (case v of JObj r \<Rightarrow> if mhas r ''input'' then get_prop r ''input'' else v | _ \<Rightarrow> v)"

text \<open>\<open>deriveInputFromFormat\<close>: the structured input, the final input, and whether there is a
  structured one.\<close>

definition deriveInputFromFormat :: "start_host \<Rightarrow> jobj list \<Rightarrow> jobj \<times> jval \<times> bool" where
  "deriveInputFromFormat h format =
     (if format = [] then ([], getRawInputCandidate (sh_workflowInput h), False)
      else let structured = structured_input h format; has = (structured \<noteq> [])
           in (structured, (if has then JObj structured else getRawInputCandidate (sh_workflowInput h)), has))"

section \<open>Files\<close>

definition ensureString :: "jval \<Rightarrow> string" where
  "ensureString v = (case v of JStr s \<Rightarrow> s | _ \<Rightarrow> [])"

definition resolveOwnedStartFileKey :: "start_host \<Rightarrow> jval \<Rightarrow> string \<Rightarrow> string \<Rightarrow> string" where
  "resolveOwnedStartFileKey h suppliedKey url workspaceId =
     (if ensureString suppliedKey \<noteq> []
      then (if sh_keyWorkspace h (ensureString suppliedKey) = Some workspaceId then ensureString suppliedKey else [])
      else if url = [] then []
      else case sh_urlKey h url of
             None \<Rightarrow> []
           | Some k \<Rightarrow> if sh_keyWorkspace h k = Some workspaceId then k else [])"

definition file_url :: "jobj \<Rightarrow> string" where
  "file_url f = (case get_prop f ''url'' of JStr s \<Rightarrow> s | _ \<Rightarrow> ensureString (get_prop f ''path''))"

definition user_file :: "jobj \<Rightarrow> string \<Rightarrow> string \<Rightarrow> string option \<Rightarrow> jobj" where
  "user_file f url key context =
     [(''id'', get_prop f ''id''), (''name'', get_prop f ''name''), (''url'', JStr url), (''size'', get_prop f ''size''),
      (''type'', get_prop f ''type''), (''key'', JStr key)]
     @ (if falsy_str context then [] else [(''context'', JStr (the context))])
     @ (case get_prop f ''base64'' of JStr s \<Rightarrow> [(''base64'', JStr s)] | _ \<Rightarrow> [])"

definition normalizeStartFile :: "start_host \<Rightarrow> string \<Rightarrow> jval \<Rightarrow> jobj option" where
  "normalizeStartFile h workspaceId file =
     (case file of
        JObj f \<Rightarrow>
          (let url = file_url f; key = resolveOwnedStartFileKey h (get_prop f ''key'') url workspaceId
           in if key \<noteq> [] \<and> sh_keyContext h key = None then None
              else if ensureString (get_prop f ''id'') = [] \<or> ensureString (get_prop f ''name'') = [] \<or> url = [] \<or>
                      (case get_prop f ''size'' of JNum _ \<Rightarrow> False | _ \<Rightarrow> True) \<or>
                      ensureString (get_prop f ''type'') = [] \<or> key = []
              then None
              else Some (user_file f url key (sh_keyContext h key)))
      | _ \<Rightarrow> None)"

definition getFilesFromWorkflowInput :: "start_host \<Rightarrow> jobj list option" where
  "getFilesFromWorkflowInput h =
     (case sh_workflowInput h of
        JObj r \<Rightarrow>
          (case get_prop r ''files'' of
             JArr files \<Rightarrow>
               (let normalized = map (\<lambda>f. if falsy_str (sh_workspaceId h) then None
                                          else normalizeStartFile h (the (sh_workspaceId h)) f) files
                in if None \<in> set normalized then None else Some (map the normalized))
           | _ \<Rightarrow> None)
      | _ \<Rightarrow> None)"

definition mergeFilesIntoOutput :: "start_host \<Rightarrow> jobj \<Rightarrow> jobj" where
  "mergeFilesIntoOutput h out =
     (case getFilesFromWorkflowInput h of
        Some files \<Rightarrow> mput ''files'' (JArr (map JObj files)) out
      | None \<Rightarrow>
          (case sh_workflowInput h of
             JObj r \<Rightarrow> if mhas r ''files'' then mput ''files'' JUndef out else out
           | _ \<Rightarrow> out))"

section \<open>The output of a start block\<close>

text \<open>A runtime value: kept out when the structured input has the field, and a missing one does not
  replace what is there.\<close>

definition put_runtime :: "string list \<Rightarrow> string \<times> jval \<Rightarrow> jobj \<Rightarrow> jobj" where
  "put_runtime kept e out =
     (case e of (k, v) \<Rightarrow>
        if k \<in> set kept then out
        else if v \<noteq> JUndef \<and> v \<noteq> JNull then mput k v out
        else if \<not> mhas out k then mput k v out else out)"

definition put_entries :: "jobj \<Rightarrow> jobj \<Rightarrow> jobj" where
  "put_entries entries out = fold (\<lambda>(k, v). mput k v) entries out"

definition fill_input :: "jval \<Rightarrow> jobj \<Rightarrow> jobj" where
  "fill_input workflowInput out =
     (if \<not> mhas out ''input''
      then let fallback = (case workflowInput of JObj r \<Rightarrow> ensureString (get_prop r ''input'') | _ \<Rightarrow> [])
           in mput ''input'' (if fallback \<noteq> [] then JStr fallback else JUndef) out
      else if get_prop out ''input'' = JStr [] then mput ''input'' JUndef out else out)"

definition fill_conversation :: "jval \<Rightarrow> jobj \<Rightarrow> jobj" where
  "fill_conversation workflowInput out =
     (if \<not> mhas out ''conversationId''
      then let c = (case workflowInput of JObj r \<Rightarrow> ensureString (get_prop r ''conversationId'') | _ \<Rightarrow> [])
           in if c \<noteq> [] then mput ''conversationId'' (JStr c) out else out
      else if get_prop out ''conversationId'' = JStr [] then mput ''conversationId'' JUndef out else out)"

definition buildUnifiedStartOutput :: "jval \<Rightarrow> jobj \<Rightarrow> bool \<Rightarrow> jobj" where
  "buildUnifiedStartOutput workflowInput structured hasStructured =
     (let out0 = (if hasStructured then put_entries structured [] else []);
          kept = (if hasStructured then mkeys structured else []);
          out1 = (case workflowInput of
                    JObj r \<Rightarrow> fold (\<lambda>e out. if fst e = ''onUploadError'' then out else put_runtime kept e out) r out0
                  | _ \<Rightarrow> out0)
      in fill_conversation workflowInput (fill_input workflowInput out1))"

definition buildApiOrInputOutput :: "jval \<Rightarrow> jobj" where
  "buildApiOrInputOutput finalInput =
     (case finalInput of JObj o1 \<Rightarrow> mput ''input'' (JObj o1) o1 | _ \<Rightarrow> [(''input'', finalInput)])"

definition buildChatOutput :: "jval \<Rightarrow> jobj" where
  "buildChatOutput workflowInput =
     (let source = (case workflowInput of JObj r \<Rightarrow> r | _ \<Rightarrow> []);
          c = ensureString (get_prop source ''conversationId'')
      in [(''input'', JStr (ensureString (get_prop source ''input'')))]
         @ (if c \<noteq> [] then [(''conversationId'', JStr c)] else []))"

definition isSafeKey :: "string \<Rightarrow> bool" where
  "isSafeKey k \<longleftrightarrow> k \<notin> {''__proto__'', ''constructor'', ''prototype''}"

definition safeAssign :: "jobj \<Rightarrow> jobj \<Rightarrow> jobj" where
  "safeAssign target source = put_entries (filter (\<lambda>(k, v). isSafeKey k) source) target"

definition buildLegacyStarterOutput :: "jval \<Rightarrow> jval \<Rightarrow> starter_mode option \<Rightarrow> jobj" where
  "buildLegacyStarterOutput finalInput workflowInput mode =
     (if mode = Some StarterChat then buildChatOutput workflowInput
      else let out = (case finalInput of
                        JObj o1 \<Rightarrow> mput ''input'' (JObj o1) (safeAssign [] o1)
                      | _ \<Rightarrow> [(''input'', finalInput)]);
               c = (case workflowInput of JObj r \<Rightarrow> get_prop r ''conversationId'' | _ \<Rightarrow> JUndef)
           in if truthy c then mput ''conversationId'' (JStr (ensureString c)) out else out)"

definition buildManualTriggerOutput :: "jval \<Rightarrow> jval \<Rightarrow> jobj" where
  "buildManualTriggerOutput finalInput workflowInput =
     (let out = (case finalInput of JObj o1 \<Rightarrow> o1 | _ \<Rightarrow> [(''input'', finalInput)])
      in if mhas out ''input'' then out else mput ''input'' (getRawInputCandidate workflowInput) out)"

definition buildIntegrationTriggerOutput :: "jval \<Rightarrow> jobj \<Rightarrow> bool \<Rightarrow> jobj" where
  "buildIntegrationTriggerOutput workflowInput structured hasStructured =
     (let out0 = (if hasStructured then put_entries structured [] else []);
          kept = (if hasStructured then mkeys structured else [])
      in case workflowInput of JObj r \<Rightarrow> fold (put_runtime kept) r out0 | _ \<Rightarrow> out0)"

definition assertNoReservedInputFormatFields :: "jobj list \<Rightarrow> sblock \<Rightarrow> start_error option" where
  "assertNoReservedInputFormatFields format b =
     (let names = collectExecutionControlFieldNames (map readInputFormatFieldName format)
      in if names = [] then None else Some (ReservedNames (block_title b) names True))"

definition assertNoReservedStartOutputFields :: "jobj \<Rightarrow> sblock \<Rightarrow> start_error option" where
  "assertNoReservedStartOutputFields out b =
     (let names = collectExecutionControlFieldNames (map Some (mkeys out))
      in if names = [] then None else Some (ReservedNames (block_title b) names False))"

definition assertNoMetadataInputFormatField :: "jobj list \<Rightarrow> sblock \<Rightarrow> start_error option" where
  "assertNoMetadataInputFormatField format b =
     (if Some START_BLOCK_METADATA_FIELD \<in> set (map readInputFormatFieldName format)
      then Some (MetadataNameTaken (block_title b)) else None)"

definition format_error :: "sblock \<Rightarrow> start_path \<Rightarrow> starter_mode option \<Rightarrow> jobj list \<Rightarrow> start_error option" where
  "format_error b path mode format =
     (if \<not> pathConsumesInputFormat path mode then None
      else case assertNoReservedInputFormatFields format b of
             Some e \<Rightarrow> Some e
           | None \<Rightarrow> if isRunMetadataEnabled b then assertNoMetadataInputFormatField format b else None)"

definition path_output :: "start_host \<Rightarrow> start_path \<Rightarrow> starter_mode option \<Rightarrow> jobj list \<Rightarrow> jobj" where
  "path_output h path mode format =
     (case deriveInputFromFormat h format of
        (structured, finalInput, hasStructured) \<Rightarrow>
          (case path of
             UNIFIED \<Rightarrow> buildUnifiedStartOutput (sh_workflowInput h) structured hasStructured
           | SPLIT_API \<Rightarrow> buildApiOrInputOutput finalInput
           | SPLIT_INPUT \<Rightarrow> buildApiOrInputOutput finalInput
           | SPLIT_CHAT \<Rightarrow> buildChatOutput (sh_workflowInput h)
           | SPLIT_MANUAL \<Rightarrow> buildManualTriggerOutput finalInput (sh_workflowInput h)
           | EXTERNAL_TRIGGER \<Rightarrow> buildIntegrationTriggerOutput (sh_workflowInput h) structured hasStructured
           | LEGACY_STARTER \<Rightarrow> buildLegacyStarterOutput finalInput (sh_workflowInput h) mode))"

definition put_metadata :: "start_host \<Rightarrow> sblock \<Rightarrow> jobj \<Rightarrow> jobj" where
  "put_metadata h b out =
     (if \<not> isRunMetadataEnabled b then out
      else let out1 = mdel START_BLOCK_METADATA_FIELD out
           in case sh_runMetadata h of None \<Rightarrow> out1 | Some m \<Rightarrow> mput START_BLOCK_METADATA_FIELD (JObj m) out1)"

definition buildStartBlockOutput :: "start_host \<Rightarrow> sblock \<times> start_path \<Rightarrow> start_error + jobj" where
  "buildStartBlockOutput h resolution =
     (case resolution of (b, path) \<Rightarrow>
        let format = extractInputFormat b;
            mode = (if path = LEGACY_STARTER then getSerializedLegacyStarterMode b else None)
        in case format_error b path mode format of
             Some e \<Rightarrow> Inl e
           | None \<Rightarrow>
               (let out = put_metadata h b (mergeFilesIntoOutput h (path_output h path mode format))
                in case assertNoReservedStartOutputFields out b of Some e \<Rightarrow> Inl e | None \<Rightarrow> Inr out))"

end
