(* ===== verification/Executor.thy ===== *)
theory Executor
  imports Resume Snapshot StartBlock
begin

text \<open>
  \<open>DAGExecutor\<close> (\<open>executor/execution/executor.ts\<close>): how a run is put together. \<open>execute\<close> builds
  the DAG of a workflow, or rebuilds it for a paused run, and \<open>executeFromBlock\<close> prepares a
  partial run from the state of an earlier one; both end in an engine whose queue has been
  filled, which is the first thing \<open>ExecutionEngine.run\<close> does.

  The record \<open>extensions\<close> has the fields of \<open>contextExtensions\<close> that influence what runs; the
  metadata that comes with them carries no pending blocks. What the choice and the output of the
  start block depend on is the field \<open>xe_start\<close>.
\<close>

record executor_env =
  xe_parse :: "string \<Rightarrow> jval list option"
  xe_sha :: "string \<Rightarrow> string"
  xe_depth :: nat
  xe_start :: start_host

record extensions =
  cx_dagIncomingEdges :: "(string, string list) jsmap option"
  cx_snapshotState :: "snapshot option"
  cx_resumeFromSnapshot :: bool
  cx_remainingEdges :: "remaining_edge list"
  cx_resumePendingQueue :: "string list"
  cx_aborted :: bool

datatype prepare_error =
    BuildFailed dag_error
  | RunFromInvalid run_from_error
  | ExpansionFailed run_error
  | TriggerMissing string
  | StartRejected start_error

section \<open>Containers and their parents\<close>

definition add_parents :: "dag \<Rightarrow> parent_entry \<Rightarrow> string list \<Rightarrow> (string, parent_entry) jsmap \<Rightarrow> (string, parent_entry) jsmap" where
  "add_parents d e nodes parents = fold (\<lambda>i m. if is_container d i then mput i e m else m) nodes parents"

definition buildSubflowParentMap :: "dag \<Rightarrow> (string, parent_entry) jsmap" where
  "buildSubflowParentMap d =
     fold (\<lambda>(i, cfg). add_parents d \<lparr>pe_parentId = i, pe_parentType = SubParallel, pe_branchIndex = Some 0\<rparr> (par_nodes cfg))
       (parallelConfigs d)
       (fold (\<lambda>(i, cfg). add_parents d \<lparr>pe_parentId = i, pe_parentType = SubLoop, pe_branchIndex = None\<rparr> (loop_nodes cfg))
         (loopConfigs d) [])"

section \<open>The batches of a snapshot\<close>

text \<open>\<open>restoreSnapshotParallelBatches\<close>: the current batch of every parallel is expanded again;
  a clone is remembered with the parallel it belongs to.\<close>

definition restore_batch ::
  "executor_env \<Rightarrow> string \<Rightarrow> parallel_scope \<Rightarrow> dag \<Rightarrow> prepare_error + dag \<times> (cloned_info \<times> string) list" where
  "restore_batch env p s d =
     (let size = (case ps_currentBatchSize s of None \<Rightarrow> 0 | Some n \<Rightarrow> n)
      in if size \<le> 0 then Inr (d, [])
         else case expandParallel (xe_depth env) (xe_sha env) p (nat size) (nat (current_batch_start s))
                     (nat (ps_totalBranches s)) d of
                Inl e \<Rightarrow> Inl (ExpansionFailed e)
              | Inr (d', ex) \<Rightarrow> Inr (d', map (\<lambda>c. (c, p)) (ex_clonedSubflows ex)))"

fun restore_batches ::
  "executor_env \<Rightarrow> (string, parallel_scope) jsmap \<Rightarrow> dag \<Rightarrow> prepare_error + dag \<times> (cloned_info \<times> string) list" where
  "restore_batches env [] d = Inr (d, [])"
| "restore_batches env ((p, s) # ps) d =
     (case restore_batch env p s d of
        Inl e \<Rightarrow> Inl e
      | Inr (d1, cs) \<Rightarrow>
          (case restore_batches env ps d1 of
             Inl e \<Rightarrow> Inl e
           | Inr (d2, cs') \<Rightarrow> Inr (d2, cs @ cs')))"

definition restoreSnapshotParallelBatches ::
  "executor_env \<Rightarrow> snapshot option \<Rightarrow> dag \<Rightarrow> prepare_error + dag \<times> (cloned_info \<times> string) list" where
  "restoreSnapshotParallelBatches env s d = restore_batches env (restored_parallels s) d"

definition restoreSavedIncomingEdges :: "(string, string list) jsmap option \<Rightarrow> dag \<Rightarrow> dag" where
  "restoreSavedIncomingEdges saved d = (case saved of None \<Rightarrow> d | Some entries \<Rightarrow> fold restore_incoming entries d)"

definition restored_clone_map :: "(cloned_info \<times> string) list \<Rightarrow> string \<Rightarrow> nat \<Rightarrow> (string, string) jsmap" where
  "restored_clone_map clones p outer = branch_clone_map (map fst (filter (\<lambda>(c, q). q = p) clones)) outer"

definition restored_parent ::
  "(cloned_info \<times> string) list \<Rightarrow> (string, parent_entry) jsmap \<Rightarrow> cloned_info \<times> string \<Rightarrow> parent_entry" where
  "restored_parent clones parents = (\<lambda>(c, p).
     let original = mget parents (ci_originalId c);
         clonedParent = (case original of
             None \<Rightarrow> None
           | Some e \<Rightarrow> mget (restored_clone_map clones p (ci_outerBranchIndex c)) (pe_parentId e))
     in \<lparr>pe_parentId = (case clonedParent of None \<Rightarrow> p | Some i \<Rightarrow> i),
         pe_parentType = (if \<not> falsy_str clonedParent \<and> original \<noteq> None then pe_parentType (the original) else SubParallel),
         pe_branchIndex = Some (if \<not> falsy_str clonedParent then 0 else int (ci_outerBranchIndex c))\<rparr>)"

definition registerRestoredClonedSubflows ::
  "(cloned_info \<times> string) list \<Rightarrow> (string, parent_entry) jsmap \<Rightarrow> (string, parent_entry) jsmap" where
  "registerRestoredClonedSubflows clones parents =
     fold (\<lambda>x parents. mput (ci_clonedId (fst x)) (restored_parent clones parents x) parents) clones parents"

section \<open>The context of a run\<close>

definition initializeStarterBlock ::
  "executor_env \<Rightarrow> sworkflow \<Rightarrow> string option \<Rightarrow> unit execution_state \<Rightarrow> prepare_error + unit execution_state" where
  "initializeStarterBlock env w trigger st =
     (let start = (if falsy_str trigger then
                     (case resolveExecutorStartBlock (xe_start env) ManualRun False (wf_blocks w) of
                        Inl e \<Rightarrow> Inl (StartRejected e)
                      | Inr r \<Rightarrow> Inr r)
                   else case block_by_id w (the trigger) of
                          None \<Rightarrow> Inl (TriggerMissing (the trigger))
                        | Some b \<Rightarrow> Inr (Some (case buildResolutionFromBlock b of None \<Rightarrow> (b, SPLIT_MANUAL) | Some r \<Rightarrow> r)))
      in case start of
           Inl e \<Rightarrow> Inl e
         | Inr None \<Rightarrow> Inr st
         | Inr (Some r) \<Rightarrow>
             if mhas (blockStates st) (blk_id (fst r)) then Inr st
             else case buildStartBlockOutput (xe_start env) r of
                    Inl e \<Rightarrow> Inl (StartRejected e)
                  | Inr out \<Rightarrow>
                      Inr (setBlockState (blk_id (fst r))
                        \<lparr>bs_output = out, bs_executed = False, bs_time = 0, bs_provenance = None\<rparr> st))"

text \<open>\<open>createExecutionContext\<close> up to its tables, which \<open>Snapshot\<close> reads: the execution state with
  the prepared start block. \<open>runFrom\<close> is the start and the dirty set of a partial run.\<close>

definition initial_state ::
  "executor_env \<Rightarrow> sworkflow \<Rightarrow> extensions \<Rightarrow> snapshot option \<Rightarrow> string option \<Rightarrow> (string \<times> string list) option \<Rightarrow>
   prepare_error + unit execution_state" where
  "initial_state env w cx s trigger runFrom =
     (let st = restored_state s (map_option snd runFrom)
      in if cx_resumePendingQueue cx \<noteq> [] then Inr st
         else case runFrom of
                None \<Rightarrow> initializeStarterBlock env w trigger st
              | Some (start, dirty) \<Rightarrow>
                  if block_by_id w start \<noteq> None then initializeStarterBlock env w (Some start) st else Inr st)"

text \<open>\<open>createExecutionContext\<close> with \<open>buildExecutionPipeline\<close>: the world of the run, with a new edge
  manager over the DAG into which the routing state of the snapshot is read.\<close>

definition assemble ::
  "dag \<Rightarrow> snapshot option \<Rightarrow> unit execution_state \<Rightarrow> (string, parent_entry) jsmap \<Rightarrow> string list option \<Rightarrow> world" where
  "assemble d s st parents dirty =
     (let keys = (case s of None \<Rightarrow> None | Some s \<Rightarrow> sn_deactivatedEdges s);
          marks = (case s of None \<Rightarrow> None | Some s \<Rightarrow> sn_nodesWithActivatedEdge s)
      in \<lparr>w_em = restoreDeactivatedEdges (or_empty keys) (or_empty marks)
                  \<lparr>em_dag = d, deactivatedEdges = [], nodesWithActivatedEdge = []\<rparr>,
          w_state = st, w_loops = restored_loops s, w_parallels = restored_parallels s, w_parents = parents,
          w_mapping = restored_mapping s, w_dirty = dirty\<rparr>)"

definition start_engine :: "extensions \<Rightarrow> string option \<Rightarrow> string option \<Rightarrow> world \<Rightarrow> engine" where
  "start_engine cx runFrom trigger w =
     initializeQueue runFrom (cx_remainingEdges cx) trigger
       (engine_init w (cx_resumeFromSnapshot cx) (cx_resumePendingQueue cx) (cx_aborted cx))"

definition execute :: "executor_env \<Rightarrow> sworkflow \<Rightarrow> extensions \<Rightarrow> string option \<Rightarrow> prepare_error + engine" where
  "execute env w cx trigger =
     (case build (xe_parse env) w trigger (cx_dagIncomingEdges cx) (cx_resumeFromSnapshot cx) of
        Inl e \<Rightarrow> Inl (BuildFailed e)
      | Inr d \<Rightarrow>
          (case restoreSnapshotParallelBatches env (cx_snapshotState cx) d of
             Inl e \<Rightarrow> Inl e
           | Inr (d1, clones) \<Rightarrow>
               (let d2 = restoreSavedIncomingEdges (cx_dagIncomingEdges cx) d1
                in case initial_state env w cx (cx_snapshotState cx) trigger None of
                     Inl e \<Rightarrow> Inl e
                   | Inr st \<Rightarrow>
                       (let parents = registerRestoredClonedSubflows clones (buildSubflowParentMap d2)
                        in Inr (start_engine cx None trigger (assemble d2 (cx_snapshotState cx) st parents None))))))"

section \<open>A partial run\<close>

definition reachable_containers :: "string list \<Rightarrow> string list" where
  "reachable_containers reachable =
     fold (\<lambda>i ids.
        let ids1 = (case extractLoopIdFromSentinel i of None \<Rightarrow> ids | Some l \<Rightarrow> if l = [] then ids else sadd l ids)
        in case extractParallelIdFromSentinel i of None \<Rightarrow> ids1 | Some p \<Rightarrow> if p = [] then ids1 else sadd p ids1)
       reachable []"

definition outer_branch_alias :: "string list \<Rightarrow> string \<Rightarrow> bool" where
  "outer_branch_alias reachable i \<longleftrightarrow>
     stripOuterBranchSuffix i \<noteq> i \<and> (\<exists>r \<in> set reachable. stripCloneSuffixes r = stripOuterBranchSuffix i)"

definition preserved :: "string list \<Rightarrow> string \<Rightarrow> bool" where
  "preserved reachable i \<longleftrightarrow>
     i \<in> set reachable \<or> i \<in> set (reachable_containers reachable) \<or> outer_branch_alias reachable i"

definition of_reachable :: "string list \<Rightarrow> (string, 's) jsmap option \<Rightarrow> (string, 's) jsmap" where
  "of_reachable reachable m = js_assigned (filter (\<lambda>(i, _). i \<in> set (reachable_containers reachable)) (or_empty m))"

definition filter_snapshot :: "string list \<Rightarrow> snapshot \<Rightarrow> snapshot" where
  "filter_snapshot reachable s =
     s\<lparr>sn_blockStates := js_assigned (filter (\<lambda>(i, _). preserved reachable i) (sn_blockStates s)),
       sn_executedBlocks := filter (preserved reachable) (sn_executedBlocks s),
       sn_loopExecutions := Some (of_reachable reachable (sn_loopExecutions s)),
       sn_parallelExecutions := Some (of_reachable reachable (sn_parallelExecutions s))\<rparr>"

definition cut_cached_upstream :: "string list \<Rightarrow> dag \<Rightarrow> dag" where
  "cut_cached_upstream dirty d =
     fold (\<lambda>i. upd_node i (\<lambda>n. n\<lparr>incomingEdges := filter (\<lambda>s. s \<in> set dirty) (incomingEdges n)\<rparr>)) dirty d"

definition executeFromBlock ::
  "executor_env \<Rightarrow> sworkflow \<Rightarrow> extensions \<Rightarrow> string \<Rightarrow> snapshot \<Rightarrow> prepare_error + engine" where
  "executeFromBlock env w cx startBlockId source =
     (case build (xe_parse env) w None None True of
        Inl e \<Rightarrow> Inl (BuildFailed e)
      | Inr d \<Rightarrow>
          (case validateRunFromBlock startBlockId d (set_of_array (sn_executedBlocks source)) of
             Some e \<Rightarrow> Inl (RunFromInvalid e)
           | None \<Rightarrow>
               (let sets = computeExecutionSets d startBlockId;
                    start = traversal_start d startBlockId;
                    filtered = Some (filter_snapshot (reachableUpstreamSet sets) source);
                    d1 = cut_cached_upstream (dirtySet sets) d
                in case initial_state env w cx filtered None (Some (start, dirtySet sets)) of
                     Inl e \<Rightarrow> Inl e
                   | Inr st \<Rightarrow>
                       Inr (start_engine cx (Some start) None
                              (assemble d1 filtered st (buildSubflowParentMap d1) (Some (dirtySet sets)))))))"

end
