(* ===== verification/ExecutorProps.thy ===== *)
theory ExecutorProps
  imports Executor
begin

text \<open>
  Properties of the assembly of a run: whatever way a run starts, the engine it is given is
  consistent; a run that is resumed finds the state that was paused; a partial run
  re-executes exactly what is downstream of its start; the parents of nested containers. A
  partial run also takes over pruned edges that it should forget, which is shown on a fork.
\<close>

section \<open>A consistent start\<close>

text \<open>A workflow whose parallels hold no containers.\<close>

definition flat_workflow :: "sworkflow \<Rightarrow> bool" where
  "flat_workflow w \<longleftrightarrow> flat_config (initializeConfigs w)"

definition configs_within :: "dag \<Rightarrow> dag \<Rightarrow> bool" where
  "configs_within d d' \<longleftrightarrow> (\<forall>i. is_container d' i = is_container d i) \<and>
     (\<forall>p c'. mget (parallelConfigs d') p = Some c' \<longrightarrow>
       (\<exists>c. mget (parallelConfigs d) p = Some c \<and> set (par_nodes c') \<subseteq> set (par_nodes c)))"

lemma configs_within_refl [simp]: "configs_within d d"
  by (simp add: configs_within_def)

lemma configs_withinD:
  assumes "configs_within d d'"
  shows "is_container d' i = is_container d i"
    and "mget (parallelConfigs d') p = Some c' \<Longrightarrow> \<exists>c. mget (parallelConfigs d) p = Some c \<and> set (par_nodes c') \<subseteq> set (par_nodes c)"
  using assms by (simp_all add: configs_within_def)

lemma configs_within_trans:
  assumes "configs_within d1 d2" and "configs_within d2 d3"
  shows "configs_within d1 d3"
proof -
  have "\<exists>c. mget (parallelConfigs d1) p = Some c \<and> set (par_nodes c3) \<subseteq> set (par_nodes c)"
    if c3: "mget (parallelConfigs d3) p = Some c3" for p c3
  proof -
    obtain c2 where c2: "mget (parallelConfigs d2) p = Some c2" "set (par_nodes c3) \<subseteq> set (par_nodes c2)"
      using configs_withinD(2) [OF assms(2) c3] by blast
    then show ?thesis using configs_withinD(2) [OF assms(1) c2(1)] by blast
  qed
  then show ?thesis
    using configs_withinD(1) [OF assms(1)] configs_withinD(1) [OF assms(2)] by (simp add: configs_within_def)
qed

lemma configs_within_same:
  "loopConfigs d' = loopConfigs d \<Longrightarrow> parallelConfigs d' = parallelConfigs d \<Longrightarrow> configs_within d d'"
  by (simp add: configs_within_def is_container_def)

lemma flat_within:
  assumes "configs_within d d'" and "flat_config d"
  shows "flat_config d'"
proof -
  have "\<not> is_container d' b" if m: "mget (parallelConfigs d') p = Some c'" and b: "b \<in> set (par_nodes c')" for p c' b
  proof -
    obtain c where "mget (parallelConfigs d) p = Some c" "b \<in> set (par_nodes c)"
      using configs_withinD(2) [OF assms(1) m] b by blast
    then show ?thesis using assms(2) configs_withinD(1) [OF assms(1)] by (simp add: flat_config_def list_all_iff)
  qed
  then show ?thesis by (auto simp: flat_config_def list_all_iff)
qed

lemma within_loops:
  "\<forall>(k, c) \<in> set cs. mhas (loopConfigs d) k \<Longrightarrow> configs_within d (construct_loops r cs d)"
proof (induction r cs d rule: construct_loops.induct)
  case (2 r k c cs d)
  let ?d1 = "if \<exists>n \<in> set (loop_nodes c). n \<in> set r then d
     else d\<lparr>loopConfigs := mput k (c\<lparr>loop_nodes := []\<rparr>) (loopConfigs d)\<rparr>"
  show ?case
  proof (cases "k \<in> set r")
    case True
    have "configs_within d ?d1"
      using 2(3) by (auto simp: configs_within_def is_container_def)
    moreover have "configs_within ?d1 (createLoopSentinelPair k ?d1)" by (simp add: configs_within_same)
    moreover have "configs_within (createLoopSentinelPair k ?d1) (construct_loops r cs (createLoopSentinelPair k ?d1))"
      by (rule 2(2)) (use True 2(3) in auto)
    ultimately have "configs_within d (construct_loops r cs (createLoopSentinelPair k ?d1))"
      by (meson configs_within_trans)
    then show ?thesis using True by (simp add: Let_def)
  next
    case False
    with 2 show ?thesis by simp
  qed
qed simp

lemma within_parallels:
  "\<forall>(k, c) \<in> set cs. mhas (parallelConfigs d) k \<Longrightarrow> configs_within d (construct_parallels r cs d)"
proof (induction r cs d rule: construct_parallels.induct)
  case (2 r k c cs d)
  let ?d1 = "if \<exists>n \<in> set (par_nodes c). n \<in> set r then d
     else d\<lparr>parallelConfigs := mput k (c\<lparr>par_nodes := []\<rparr>) (parallelConfigs d)\<rparr>"
  show ?case
  proof (cases "k \<in> set r")
    case True
    have "configs_within d ?d1"
      using 2(3) by (auto simp: configs_within_def is_container_def mhas_def)
    moreover have "configs_within ?d1 (createParallelSentinelPair k ?d1)" by (simp add: configs_within_same)
    moreover have "configs_within (createParallelSentinelPair k ?d1) (construct_parallels r cs (createParallelSentinelPair k ?d1))"
      by (rule 2(2)) (use True 2(3) in auto)
    ultimately have "configs_within d (construct_parallels r cs (createParallelSentinelPair k ?d1))"
      by (meson configs_within_trans)
    then show ?thesis using True by (simp add: Let_def)
  next
    case False
    with 2 show ?thesis by simp
  qed
qed simp

lemma within_nodes: "loopConfigs (construct_nodes r l bs d) = loopConfigs d \<and> parallelConfigs (construct_nodes r l bs d) = parallelConfigs d"
  by (induction r l bs d rule: construct_nodes.induct) simp_all

lemma configs_keys: "\<forall>(k, c) \<in> set m. mhas m k"
  by (force simp flip: set_mkeys simp: mkeys_def)

lemma within_passes: "configs_within (initializeConfigs w) (build_passes parse w R)"
proof -
  let ?d0 = "initializeConfigs w"
  have "configs_within ?d0 (loop_execute ?d0 R)"
    unfolding loop_execute_def by (rule within_loops [OF configs_keys])
  moreover have "configs_within (loop_execute ?d0 R) (parallel_execute (loop_execute ?d0 R) R)"
    unfolding parallel_execute_def by (rule within_parallels [OF configs_keys])
  moreover have "configs_within (parallel_execute (loop_execute ?d0 R) R) (before_edges w R)"
    by (rule configs_within_same) (simp_all add: before_edges_def node_execute_def Let_def within_nodes)
  moreover have "configs_within (before_edges w R) (build_passes parse w R)"
    using adds_edges_frame [OF adds_build_passes [of w R parse]] by (intro configs_within_same) auto
  ultimately show ?thesis by (meson configs_within_trans)
qed

text \<open>Saved incoming edges name nodes of the graph.\<close>

definition known_sources :: "(string, string list) jsmap option \<Rightarrow> dag \<Rightarrow> bool" where
  "known_sources saved d \<longleftrightarrow> (\<forall>(i, srcs) \<in> set (or_empty saved). \<forall>s \<in> set srcs. has_node d s)"

lemma has_node_saved [simp]: "has_node (restore_incoming x d) i = has_node d i"
  by (simp add: restore_incoming_def case_prod_unfold)

lemma has_node_saves [simp]: "has_node (fold restore_incoming xs d) i = has_node d i"
  by (induction xs arbitrary: d) simp_all

lemma configs_restores:
  "loopConfigs (fold restore_incoming xs d) = loopConfigs d \<and> parallelConfigs (fold restore_incoming xs d) = parallelConfigs d"
  by (rule configs_fold) (simp add: restore_incoming_def case_prod_unfold)

lemma wf_restores:
  assumes "wf_dag d" and "\<forall>(i, srcs) \<in> set xs. \<forall>s \<in> set srcs. has_node d s"
  shows "wf_dag (fold restore_incoming xs d)"
  using assms
proof (induction xs arbitrary: d)
  case (Cons x xs)
  have "wf_dag (restore_incoming x d)"
    unfolding restore_incoming_def case_prod_unfold
    by (rule wf_dag_upd [OF Cons.prems(1)]) (use Cons.prems(2) in \<open>auto simp: wf_node_def out_edges_def\<close>)
  then show ?case using Cons by simp
qed simp

lemma build_cases:
  assumes "build parse w trig saved all = Inr d"
  obtains R where "path_execute w trig all = Inr R" "d = fold restore_incoming (or_empty saved) (build_passes parse w R)"
  using assms by (cases saved) (auto simp: build_def Let_def or_empty_def split: sum.splits option.splits)

lemma build_ok:
  assumes "build parse w trig saved all = Inr d" and "flat_workflow w" and "known_sources saved d"
  shows "wf_dag d \<and> flat_config d"
proof -
  obtain R where R: "d = fold restore_incoming (or_empty saved) (build_passes parse w R)"
    by (rule build_cases [OF assms(1)])
  have "wf_dag d"
    unfolding R by (rule wf_restores [OF wf_build_passes]) (use assms(3) in \<open>simp add: R known_sources_def\<close>)
  moreover have "flat_config d"
    using flat_within [OF within_passes] assms(2) configs_restores flat_config_cong
    unfolding R flat_workflow_def by blast
  ultimately show ?thesis ..
qed

lemma expansion_keeps_nodes:
  assumes "expandParallel depth sha p n off tot d = Inr (d', ex)" and "flat_config d" and "has_node d i"
  shows "has_node d' i"
proof -
  obtain cfg where cfg: "mget (parallelConfigs d) p = Some cfg"
    using assms(1) by (auto simp: expandParallel_def split: option.splits)
  show ?thesis
  proof (cases "par_nodes cfg = []")
    case True
    with assms cfg show ?thesis by (simp add: expandParallel_def)
  next
    case False
    have flat: "flat_parallel d p" using assms(2) cfg by (simp add: flat_config_def flat_parallel_def)
    obtain d1 d3 where x: "fold (expand_block n off tot) (par_nodes cfg) (d, []) = (d1, ex_allBranchNodes ex)"
      "d3 = wireInternalEdges (par_nodes cfg) n off d1"
      "d' = wireSentinelEdges p (ex_entryNodes ex) (ex_terminalNodes ex) d3"
      using flat_expand [OF flat cfg False assms(1)] by metis
    have place: "has_node d i \<Longrightarrow> has_node (fold (place_branch T b off tot) xs d) i" for T b xs d
      by (induction xs arbitrary: d) (simp_all add: place_branch_def updateBranchMetadata_def [abs_def])
    have "has_node (fst (fold (expand_block n off tot) (par_nodes cfg) (d, []))) i"
      by (rule fold_fst_invariant) (use assms(3) place in \<open>auto simp: expand_block_def Let_def split: option.split prod.split\<close>)
    then have "has_node d1 i" by (simp add: x(1))
    moreover have "skel d' i = skel d1 i" by (simp add: x)
    ultimately show ?thesis by (auto simp: skel_def has_node_iff)
  qed
qed

lemma restore_batch_ok:
  assumes "restore_batch env p s d = Inr (d', cs)" and "wf_dag d" and "flat_config d"
  shows "wf_dag d' \<and> flat_config d' \<and> (\<forall>i. has_node d i \<longrightarrow> has_node d' i)"
proof (cases "d' = d")
  case True
  with assms show ?thesis by simp
next
  case False
  then obtain n ex where e: "expandParallel (xe_depth env) (xe_sha env) p n (nat (current_batch_start s))
      (nat (ps_totalBranches s)) d = Inr (d', ex)"
    using assms(1) by (auto simp: restore_batch_def Let_def split: if_splits sum.splits prod.splits)
  show ?thesis
    using expansion_wf [OF e assms(3,2)] flat_config_cong [of d' d] assms(3) expansion_keeps_nodes [OF e assms(3)] by simp
qed

lemma restore_batches_ok:
  assumes "restore_batches env ps d = Inr (d', cs)" and "wf_dag d" and "flat_config d"
  shows "wf_dag d' \<and> flat_config d' \<and> (\<forall>i. has_node d i \<longrightarrow> has_node d' i)"
  using assms
proof (induction env ps d arbitrary: cs rule: restore_batches.induct)
  case (2 env p s ps d)
  then obtain d1 cs1 cs2 where b: "restore_batch env p s d = Inr (d1, cs1)" "restore_batches env ps d1 = Inr (d', cs2)"
    by (auto split: sum.splits prod.splits)
  note ok = restore_batch_ok [OF b(1) 2(3,4)]
  have "wf_dag d' \<and> flat_config d' \<and> (\<forall>i. has_node d1 i \<longrightarrow> has_node d' i)"
    by (rule 2(1) [OF b(1) _ b(2)]) (use ok in simp_all)
  with ok show ?case by blast
qed simp

text \<open>The states of a snapshot: executed blocks have an executed state.\<close>

definition snapshot_ok :: "snapshot \<Rightarrow> bool" where
  "snapshot_ok s \<longleftrightarrow> mproper (sn_blockStates s) \<and>
     (\<forall>i \<in> set (sn_executedBlocks s). \<exists>st. mget (sn_blockStates s) i = Some st \<and> bs_executed st)"

lemma state_wf_empty: "state_wf (\<lparr>blockStates = [], executedBlocks = []\<rparr> :: unit execution_state)"
  by (simp add: state_wf_def)

lemma restored_state_wf:
  assumes "\<forall>x. s = Some x \<longrightarrow> snapshot_ok x"
  shows "state_wf (restored_state s dirty)"
  using assms state_wf_empty
  by (cases s) (auto simp: restored_state_def Let_def state_wf_def stored_def snapshot_ok_def split: option.split)

text \<open>Preparing the start block changes nothing but the state of the start block, which it leaves
  unexecuted.\<close>

lemma resolution_of_block: "buildResolutionFromBlock b = Some r \<Longrightarrow> fst r = b"
  by (auto simp: buildResolutionFromBlock_def split: if_splits option.splits)

lemma starter_cases:
  assumes "initializeStarterBlock env w t st = Inr st'"
  shows "st' = st \<or> (\<exists>i s. st' = setBlockState i s st \<and> \<not> bs_executed s \<and> \<not> mhas (blockStates st) i \<and>
    (\<not> falsy_str t \<longrightarrow> i = the t))"
proof (cases "st' = st")
  case False
  with assms obtain r s where st': "st' = setBlockState (blk_id (fst r)) s st" and s: "\<not> bs_executed s"
      and new: "\<not> mhas (blockStates st) (blk_id (fst r))"
      and t: "falsy_str t \<or> block_by_id w (the t) = Some (fst r)"
    by (auto simp: initializeStarterBlock_def Let_def resolution_of_block split: sum.splits option.splits if_splits)
  have "\<not> falsy_str t \<longrightarrow> blk_id (fst r) = the t"
    using t by (auto simp: block_by_id_def find_Some_iff)
  with st' s new show ?thesis by blast
qed simp

lemma starter_wf: "initializeStarterBlock env w t st = Inr st' \<Longrightarrow> state_wf st \<Longrightarrow> state_wf st'"
  using starter_cases [of env w t st st'] by (auto simp: wf_setBlockState)

lemma initial_state_wf:
  assumes "initial_state env w cx s trigger runFrom = Inr st" and "\<forall>x. s = Some x \<longrightarrow> snapshot_ok x"
  shows "state_wf st"
proof -
  have wf: "state_wf (restored_state s dirty)" for dirty by (rule restored_state_wf [OF assms(2)])
  have "st = restored_state s (map_option snd runFrom) \<or>
      (\<exists>t. initializeStarterBlock env w t (restored_state s (map_option snd runFrom)) = Inr st)"
    using assms(1) by (auto simp: initial_state_def Let_def split: if_splits option.splits)
  with wf starter_wf show ?thesis by blast
qed

lemma assemble_wf:
  assumes "wf_dag d" and "flat_config d" and "state_wf st"
  shows "run_wf (assemble d s st parents dirty)"
  using assms by (simp add: assemble_def Let_def run_wf_def world_wf_def em_wf_def restoreDeactivatedEdges_def w_dag_def)

lemma release_fold_frame:
  "en_error (fold release_edge rs e) = en_error e" "en_executionError (fold release_edge rs e) = en_executionError e"
  "en_locked (fold release_edge rs e) = en_locked e" "en_tasks (fold release_edge rs e) = en_tasks e"
  by (induction rs arbitrary: e) (simp_all add: release_tasks)

lemma start_engine_ok:
  assumes "run_wf w"
  shows "engine_ok (start_engine cx runFrom trigger w) \<and> en_tasks (start_engine cx runFrom trigger w) = []"
proof -
  let ?e = "engine_init w (cx_resumeFromSnapshot cx) (cx_resumePendingQueue cx) (cx_aborted cx)"
  have init: "engine_ok ?e" "en_queue ?e = []" "en_tasks ?e = []" "\<not> en_locked ?e"
    using assms by (simp_all add: engine_ok_def engine_init_def)
  show ?thesis
  proof (cases "runFrom = None \<and> cx_remainingEdges cx \<noteq> []")
    case True
    then have e: "start_engine cx runFrom trigger w = fold release_edge (cx_remainingEdges cx) ?e"
      by (simp add: start_engine_def initializeQueue_remaining)
    have "run_wf (en_world (fold release_edge (cx_remainingEdges cx) ?e)) \<and>
        distinct (en_queue (fold release_edge (cx_remainingEdges cx) ?e))"
      using resume_start [OF _ init(2), of "cx_remainingEdges cx"] init(1) by (simp add: engine_ok_def)
    then show ?thesis using init by (simp add: e engine_ok_def release_fold_frame)
  next
    case False
    then show ?thesis
      using init by (auto simp: start_engine_def initializeQueue_def engine_ok_def queue_distinct queues_distinct split: option.split)
  qed
qed

lemma execute_cases:
  assumes "execute env w cx trigger = Inr e"
  obtains d d1 clones st where "build (xe_parse env) w trigger (cx_dagIncomingEdges cx) (cx_resumeFromSnapshot cx) = Inr d"
    and "restore_batches env (restored_parallels (cx_snapshotState cx)) d = Inr (d1, clones)"
    and "initial_state env w cx (cx_snapshotState cx) trigger None = Inr st"
    and "e = start_engine cx None trigger
      (assemble (restoreSavedIncomingEdges (cx_dagIncomingEdges cx) d1) (cx_snapshotState cx) st
        (registerRestoredClonedSubflows clones
          (buildSubflowParentMap (restoreSavedIncomingEdges (cx_dagIncomingEdges cx) d1))) None)"
  using assms by (auto simp: execute_def restoreSnapshotParallelBatches_def Let_def split: sum.splits prod.splits)

lemma executeFromBlock_cases:
  assumes "executeFromBlock env w cx b source = Inr e"
  obtains d st where "build (xe_parse env) w None None True = Inr d"
    and "validateRunFromBlock b d (set_of_array (sn_executedBlocks source)) = None"
    and "initial_state env w cx (Some (filter_snapshot (reachableUpstreamSet (computeExecutionSets d b)) source)) None
      (Some (traversal_start d b, dirtySet (computeExecutionSets d b))) = Inr st"
    and "e = start_engine cx (Some (traversal_start d b)) None
      (assemble (cut_cached_upstream (dirtySet (computeExecutionSets d b)) d)
        (Some (filter_snapshot (reachableUpstreamSet (computeExecutionSets d b)) source)) st
        (buildSubflowParentMap (cut_cached_upstream (dirtySet (computeExecutionSets d b)) d))
        (Some (dirtySet (computeExecutionSets d b))))"
  using assms by (auto simp: executeFromBlock_def Let_def split: sum.splits option.splits)

lemma cut_wf: "wf_dag d \<Longrightarrow> wf_dag (cut_cached_upstream dirty d)"
proof -
  have "wf_dag d \<Longrightarrow> wf_dag (fold (\<lambda>i. upd_node i (\<lambda>n. n\<lparr>incomingEdges := filter (\<lambda>s. s \<in> set dirty) (incomingEdges n)\<rparr>)) xs d)"
    for xs
  proof (induction xs arbitrary: d)
    case (Cons x xs)
    have "wf_dag (upd_node x (\<lambda>n. n\<lparr>incomingEdges := filter (\<lambda>s. s \<in> set dirty) (incomingEdges n)\<rparr>) d)"
      by (rule wf_dag_upd [OF Cons.prems]) (auto simp: wf_node_def out_edges_def)
    with Cons.IH show ?case by simp
  qed simp
  then show "wf_dag d \<Longrightarrow> wf_dag (cut_cached_upstream dirty d)" by (simp add: cut_cached_upstream_def)
qed

lemma cut_configs:
  "loopConfigs (cut_cached_upstream dirty d) = loopConfigs d \<and> parallelConfigs (cut_cached_upstream dirty d) = parallelConfigs d"
  unfolding cut_cached_upstream_def by (rule configs_fold) simp

lemma filter_snapshot_ok:
  assumes "snapshot_ok s" and "PROTO \<notin> set (sn_executedBlocks s)"
  shows "snapshot_ok (filter_snapshot R s)"
proof -
  have p: "mproper (filter (\<lambda>(i, _). preserved R i) (sn_blockStates s))"
    using assms(1) by (simp add: snapshot_ok_def mproper_filter)
  have "mget (sn_blockStates (filter_snapshot R s)) i = mget (sn_blockStates s) i"
    if "i \<in> set (sn_executedBlocks (filter_snapshot R s))" for i
    using that assms(2) js_assigned_lookup(1) [OF p, of i]
    by (auto simp: filter_snapshot_def mget_filter_key [where P = "preserved R"])
  then show ?thesis
    using assms(1) js_assigned_lookup(2) [OF p] by (auto simp: snapshot_ok_def filter_snapshot_def)
qed

text \<open>What a run is given may come from anywhere; these are the conditions on it.\<close>

definition resumable :: "executor_env \<Rightarrow> sworkflow \<Rightarrow> extensions \<Rightarrow> string option \<Rightarrow> bool" where
  "resumable env w cx trigger \<longleftrightarrow> (\<forall>s. cx_snapshotState cx = Some s \<longrightarrow> snapshot_ok s) \<and>
     (\<forall>d. build (xe_parse env) w trigger (cx_dagIncomingEdges cx) (cx_resumeFromSnapshot cx) = Inr d \<longrightarrow>
       known_sources (cx_dagIncomingEdges cx) d)"

lemma executed_ok:
  assumes "execute env w cx trigger = Inr e" and "flat_workflow w" and "resumable env w cx trigger"
  shows "engine_ok e \<and> en_tasks e = []"
proof -
  obtain d d1 clones st where x:
    "build (xe_parse env) w trigger (cx_dagIncomingEdges cx) (cx_resumeFromSnapshot cx) = Inr d"
    "restore_batches env (restored_parallels (cx_snapshotState cx)) d = Inr (d1, clones)"
    "initial_state env w cx (cx_snapshotState cx) trigger None = Inr st"
    "e = start_engine cx None trigger
      (assemble (restoreSavedIncomingEdges (cx_dagIncomingEdges cx) d1) (cx_snapshotState cx) st
        (registerRestoredClonedSubflows clones
          (buildSubflowParentMap (restoreSavedIncomingEdges (cx_dagIncomingEdges cx) d1))) None)"
    by (rule execute_cases [OF assms(1)])
  have k: "known_sources (cx_dagIncomingEdges cx) d" using assms(3) x(1) by (simp add: resumable_def)
  note d = build_ok [OF x(1) assms(2) k]
  note d1 = restore_batches_ok [OF x(2) conjunct1 [OF d] conjunct2 [OF d]]
  have r: "restoreSavedIncomingEdges (cx_dagIncomingEdges cx) d1 = fold restore_incoming (or_empty (cx_dagIncomingEdges cx)) d1"
    by (simp add: restoreSavedIncomingEdges_def or_empty_def split: option.split)
  have "wf_dag (restoreSavedIncomingEdges (cx_dagIncomingEdges cx) d1)"
    unfolding r by (rule wf_restores) (use d1 k in \<open>auto simp: known_sources_def\<close>)
  moreover have "flat_config (restoreSavedIncomingEdges (cx_dagIncomingEdges cx) d1)"
    unfolding r using d1 flat_config_cong configs_restores by blast
  moreover have "state_wf st"
    by (rule initial_state_wf [OF x(3)]) (use assms(3) in \<open>simp add: resumable_def\<close>)
  ultimately show ?thesis unfolding x(4) by (intro start_engine_ok assemble_wf)
qed

lemma executed_from_block_ok:
  assumes "executeFromBlock env w cx b source = Inr e" and "flat_workflow w" and "snapshot_ok source"
    and "PROTO \<notin> set (sn_executedBlocks source)"
  shows "engine_ok e \<and> en_tasks e = []"
proof -
  obtain d st where x: "build (xe_parse env) w None None True = Inr d"
    "initial_state env w cx (Some (filter_snapshot (reachableUpstreamSet (computeExecutionSets d b)) source)) None
      (Some (traversal_start d b, dirtySet (computeExecutionSets d b))) = Inr st"
    "e = start_engine cx (Some (traversal_start d b)) None
      (assemble (cut_cached_upstream (dirtySet (computeExecutionSets d b)) d)
        (Some (filter_snapshot (reachableUpstreamSet (computeExecutionSets d b)) source)) st
        (buildSubflowParentMap (cut_cached_upstream (dirtySet (computeExecutionSets d b)) d))
        (Some (dirtySet (computeExecutionSets d b))))"
    by (rule executeFromBlock_cases [OF assms(1)])
  have "wf_dag d \<and> flat_config d"
    by (rule build_ok [OF x(1) assms(2)]) (simp add: known_sources_def or_empty_def)
  then have "wf_dag (cut_cached_upstream (dirtySet (computeExecutionSets d b)) d)"
    "flat_config (cut_cached_upstream (dirtySet (computeExecutionSets d b)) d)"
    using cut_wf cut_configs flat_config_cong by blast+
  moreover have "state_wf st"
    by (rule initial_state_wf [OF x(2)]) (use filter_snapshot_ok [OF assms(3,4)] in simp)
  ultimately show ?thesis unfolding x(3) by (intro start_engine_ok assemble_wf)
qed


section \<open>What a partial run keeps and forgets\<close>

lemma dnode_cut:
  "dnode (cut_cached_upstream dirty d) i =
     map_option (\<lambda>n. if i \<in> set dirty then n\<lparr>incomingEdges := filter (\<lambda>s. s \<in> set dirty) (incomingEdges n)\<rparr> else n) (dnode d i)"
proof -
  let ?f = "\<lambda>n. n\<lparr>incomingEdges := filter (\<lambda>s. s \<in> set dirty) (incomingEdges n)\<rparr>"
  have "dnode (fold (\<lambda>i. upd_node i ?f) xs d) i = map_option (\<lambda>n. if i \<in> set xs then ?f n else n) (dnode d i)" for xs
    by (induction xs arbitrary: d) (auto simp: option.map_comp option.map_ident comp_def intro!: option.map_cong)
  then show ?thesis by (simp add: cut_cached_upstream_def)
qed

lemma start_dirty: "traversal_start d b \<in> set (dirty_set d b)" "b \<in> set (dirty_set d b)"
  using bfs_seen_subset [of "[b]" "\<lambda>_. False" "out_adj d" "[b]"]
    bfs_seen_subset [of "[b, traversal_start d b]" "\<lambda>_. False" "out_adj d" "[traversal_start d b]"]
  by (auto simp: dirty_set_def Let_def)

lemma traversal_start_nonempty: "b \<noteq> [] \<Longrightarrow> traversal_start d b \<noteq> []"
  by (auto simp: traversal_start_def resolveContainerToSentinelStart_def buildSentinelStartId_def
      buildParallelSentinelStartId_def id_template_defs)

lemma starter_elsewhere:
  assumes "initializeStarterBlock env w (Some t) st = Inr st'" and "t \<noteq> []" and "i \<noteq> t"
  shows "stored st' i = stored st i" and "hasExecuted st' i = hasExecuted st i"
  using starter_cases [OF assms(1)] assms(2,3) by (auto simp: hasExecuted_def)

lemma starter_not_executed:
  assumes "initializeStarterBlock env w t st = Inr st'" and "hasExecuted st' i"
  shows "hasExecuted st i"
  using starter_cases [OF assms(1)] assms(2) by (auto simp: hasExecuted_def)

lemma partial_state:
  assumes "initial_state env w cx s None (Some (start, dirty)) = Inr st" and "start \<noteq> []" and "i \<noteq> start"
  shows "stored st i = stored (restored_state s (Some dirty)) i"
    and "hasExecuted st i = hasExecuted (restored_state s (Some dirty)) i"
  using assms starter_elsewhere [of env w start "restored_state s (Some dirty)" st i]
  by (auto simp: initial_state_def Let_def split: if_splits)

lemma partial_not_executed:
  assumes "initial_state env w cx s trigger (Some (start, dirty)) = Inr st" and "i \<in> set dirty"
  shows "\<not> hasExecuted st i"
proof
  assume "hasExecuted st i"
  then have "hasExecuted (restored_state s (Some dirty)) i"
    using assms(1) starter_not_executed [of env w "Some start" "restored_state s (Some dirty)" st i]
    by (auto simp: initial_state_def Let_def split: if_splits)
  with assms(2) show False by (simp add: hasExecuted_def restored_state_def Let_def)
qed

text \<open>
  C10: a partial run is prepared exactly. Its start has been validated against the executed
  blocks of the source. The only queued node is its start. No dirty node counts as executed,
  and besides them exactly those nodes do that were executed and are preserved: upstream of
  a dirty node, a container of such a node, or an outer-branch alias of one. A preserved
  block keeps its stored state, every other one has none. In the graph the dirty nodes wait
  for dirty nodes only, and nothing else is changed.
\<close>

theorem partial_run_prepared:
  assumes "executeFromBlock env w cx b source = Inr e" and "b \<noteq> []" and "mproper (sn_blockStates source)"
  shows "\<exists>d dirty reach. build (xe_parse env) w None None True = Inr d \<and>
    dirty = dirtySet (computeExecutionSets d b) \<and> reach = reachableUpstreamSet (computeExecutionSets d b) \<and>
    validateRunFromBlock b d (set_of_array (sn_executedBlocks source)) = None \<and>
    set (en_queue e) \<subseteq> {traversal_start d b} \<and>
    (\<forall>i. hasExecuted (w_state (en_world e)) i \<longleftrightarrow>
       i \<in> set (sn_executedBlocks source) \<and> preserved reach i \<and> i \<notin> set dirty) \<and>
    (\<forall>i. i \<noteq> traversal_start d b \<longrightarrow> i \<noteq> PROTO \<longrightarrow>
       stored (w_state (en_world e)) i = (if preserved reach i then mget (sn_blockStates source) i else None)) \<and>
    (\<forall>i. dnode (w_dag (en_world e)) i = map_option (\<lambda>n. if i \<in> set dirty
       then n\<lparr>incomingEdges := filter (\<lambda>s. s \<in> set dirty) (incomingEdges n)\<rparr> else n) (dnode d i))"
proof -
  obtain d st where x: "build (xe_parse env) w None None True = Inr d"
    "validateRunFromBlock b d (set_of_array (sn_executedBlocks source)) = None"
    "initial_state env w cx (Some (filter_snapshot (reachableUpstreamSet (computeExecutionSets d b)) source)) None
      (Some (traversal_start d b, dirtySet (computeExecutionSets d b))) = Inr st"
    "e = start_engine cx (Some (traversal_start d b)) None
      (assemble (cut_cached_upstream (dirtySet (computeExecutionSets d b)) d)
        (Some (filter_snapshot (reachableUpstreamSet (computeExecutionSets d b)) source)) st
        (buildSubflowParentMap (cut_cached_upstream (dirtySet (computeExecutionSets d b)) d))
        (Some (dirtySet (computeExecutionSets d b))))"
    by (rule executeFromBlock_cases [OF assms(1)])
  let ?dirty = "dirtySet (computeExecutionSets d b)" and ?reach = "reachableUpstreamSet (computeExecutionSets d b)"
  let ?f = "filter_snapshot ?reach source" and ?t = "traversal_start d b"
  have w: "w_state (en_world e) = st" "w_dag (en_world e) = cut_cached_upstream ?dirty d"
    by (simp_all add: x(4) start_engine_def initializeQueue_def engine_init_def assemble_def Let_def
        w_dag_def restoreDeactivatedEdges_def)
  have q: "set (en_queue e) \<subseteq> {?t}"
    using queue_set by (fastforce simp: x(4) start_engine_def initializeQueue_def engine_init_def)
  have t: "?t \<in> set ?dirty" "?t \<noteq> []"
    using start_dirty(1) traversal_start_nonempty [OF assms(2)] by (simp_all add: computeExecutionSets_def Let_def)
  have p: "mproper (filter (\<lambda>(i, _). preserved ?reach i) (sn_blockStates source))"
    by (rule mproper_filter [OF assms(3)])
  have executed: "hasExecuted st i \<longleftrightarrow> i \<in> set (sn_executedBlocks source) \<and> preserved ?reach i \<and> i \<notin> set ?dirty" for i
  proof (cases "i \<in> set ?dirty")
    case True
    then show ?thesis using partial_not_executed [OF x(3)] by blast
  next
    case False
    with t have "i \<noteq> ?t" by blast
    from partial_state(2) [OF x(3) t(2) this] show ?thesis
      by (auto simp: hasExecuted_def restored_state_def Let_def filter_snapshot_def)
  qed
  have states: "stored st i = (if preserved ?reach i then mget (sn_blockStates source) i else None)"
    if "i \<noteq> ?t" "i \<noteq> PROTO" for i
    using partial_state(1) [OF x(3) t(2) that(1)] js_assigned_lookup(1) [OF p, of i] that(2)
    by (simp add: stored_def restored_state_def Let_def filter_snapshot_def mget_filter_key [where P = "preserved ?reach"])
  show ?thesis
    by (intro exI [of _ d] exI [of _ ?dirty] exI [of _ ?reach]) (simp add: x(1,2) q w executed states dnode_cut)
qed

section \<open>Pausing and resuming\<close>

definition tables_proper :: "world \<Rightarrow> bool" where
  "tables_proper w \<longleftrightarrow> mproper (w_loops w) \<and> mproper (w_parallels w) \<and> mproper (w_mapping w)"

definition paused_loop :: "loop_scope \<Rightarrow> loop_scope" where
  "paused_loop s = json_loop_scope (s\<lparr>ls_current := js_object (ls_current s)\<rparr>)"

definition paused_parallel :: "parallel_scope \<Rightarrow> parallel_scope" where
  "paused_parallel s = json_parallel_scope
     (s\<lparr>ps_branchOutputs := js_int_object (ps_branchOutputs s), ps_accumulated := js_int_object (ps_accumulated s)\<rparr>)"

text \<open>What the scopes lose: the outputs and results in them are those of the JSON text, looked up
  under the same keys.\<close>

lemma paused_loop_lookup:
  assumes "mproper (ls_current s)"
  shows "mget (ls_current (paused_loop s)) k = map_option json_entries (mget (ls_current s) k)"
  by (simp add: paused_loop_def json_loop_scope_def js_object_lookup [OF assms])

lemma paused_parallel_lookup:
  assumes "mproper (ps_branchOutputs s)"
  shows "mget (ps_branchOutputs (paused_parallel s)) k = map_option json_items (mget (ps_branchOutputs s) k)"
  by (simp add: paused_parallel_def json_parallel_scope_def js_int_object_lookup [OF assms])

lemma loops_paused:
  assumes "mproper (w_loops w)" and "i \<noteq> PROTO"
  shows "mget (restored_loops (Some (json_snapshot (serializePauseSnapshot w q)))) i = map_option paused_loop (mget (w_loops w) i)"
  using assms js_assigned_lookup(1) [of "map (\<lambda>(i, s). (i, s\<lparr>ls_current := js_object (ls_current s)\<rparr>)) (w_loops w)" i]
  by (simp add: restored_loops_def or_empty_def json_snapshot_def serializePauseSnapshot_def serializeLoopExecutions_def
      mproper_map_values mget_map_values option.map_comp comp_def paused_loop_def [abs_def])

lemma parallels_paused:
  assumes "mproper (w_parallels w)" and "i \<noteq> PROTO"
  shows "mget (restored_parallels (Some (json_snapshot (serializePauseSnapshot w q)))) i =
    map_option paused_parallel (mget (w_parallels w) i)"
  using assms js_assigned_lookup(1) [of "map (\<lambda>(i, s). (i, s\<lparr>ps_branchOutputs := js_int_object (ps_branchOutputs s),
      ps_accumulated := js_int_object (ps_accumulated s)\<rparr>)) (w_parallels w)" i]
  by (simp add: restored_parallels_def or_empty_def json_snapshot_def serializePauseSnapshot_def serializeParallelExecutions_def
      mproper_map_values mget_map_values option.map_comp comp_def paused_parallel_def [abs_def])

lemma state_paused:
  assumes "state_wf (w_state w)"
  shows "stored (restored_state (Some (json_snapshot (serializePauseSnapshot w q))) None) i =
      map_option json_block_state (stored (w_state w) i)"
    and "executedBlocks (restored_state (Some (json_snapshot (serializePauseSnapshot w q))) None) = executedBlocks (w_state w)"
proof -
  have "mproper (blockStates (w_state w))" "distinct (executedBlocks (w_state w))"
    using assms by (simp_all add: state_wf_def)
  then show "stored (restored_state (Some (json_snapshot (serializePauseSnapshot w q))) None) i =
      map_option json_block_state (stored (w_state w) i)"
    "executedBlocks (restored_state (Some (json_snapshot (serializePauseSnapshot w q))) None) = executedBlocks (w_state w)"
    by (simp_all add: restored_state_def Let_def stored_def json_snapshot_def serializePauseSnapshot_def
        js_object_lookup set_of_array_distinct)
qed

lemma pause_snapshot_ok:
  assumes "state_wf (w_state w)"
  shows "snapshot_ok (json_snapshot (serializePauseSnapshot w q))"
proof -
  have p: "mproper (blockStates (w_state w))" using assms by (simp add: state_wf_def)
  have "mproper (json_map json_block_state (js_object (blockStates (w_state w))))"
    unfolding json_map_def using js_object_lookup(2) [OF p] by (rule iffD2 [OF mproper_map_values])
  moreover have "\<exists>s. mget (json_map json_block_state (js_object (blockStates (w_state w)))) i = Some s \<and> bs_executed s"
    if "i \<in> set (executedBlocks (w_state w))" for i
    using assms that by (auto simp: state_wf_def stored_def js_object_lookup [OF p] json_block_state_def)
  ultimately show ?thesis by (simp add: snapshot_ok_def json_snapshot_def serializePauseSnapshot_def)
qed

lemma starter_keeps:
  assumes "initializeStarterBlock env w t st = Inr st'" and "state_wf st"
  shows "stored st i = Some s \<Longrightarrow> stored st' i = Some s" and "executedBlocks st' = executedBlocks st"
proof -
  consider "st' = st" | i s where "st' = setBlockState i s st" "\<not> bs_executed s" "\<not> mhas (blockStates st) i"
    using starter_cases [OF assms(1)] by blast
  note cases = this
  show "stored st i = Some s \<Longrightarrow> stored st' i = Some s"
    using cases by cases (auto simp: mhas_def stored_def)
  show "executedBlocks st' = executedBlocks st"
  proof (cases rule: cases)
    case (2 i s)
    then have "i \<notin> set (executedBlocks st)" using assms(2) by (auto simp: state_wf_def stored_def mhas_def)
    with 2 show ?thesis by (auto simp: sdel_def intro: filter_True)
  qed simp
qed

lemma initial_state_keeps:
  assumes "initial_state env w cx s trigger None = Inr st" and "state_wf (restored_state s None)"
  shows "stored (restored_state s None) i = Some x \<Longrightarrow> stored st i = Some x"
    and "executedBlocks st = executedBlocks (restored_state s None)"
  using assms starter_keeps [of env w trigger "restored_state s None" st]
  by (auto simp: initial_state_def Let_def split: if_splits)

lemma dnode_restores:
  assumes "mproper xs"
  shows "dnode (fold restore_incoming xs d) i = map_option (\<lambda>n. case mget xs i of None \<Rightarrow> n
    | Some srcs \<Rightarrow> n\<lparr>incomingEdges := set_of_array srcs\<rparr>) (dnode d i)"
  using assms
proof (induction xs arbitrary: d)
  case Nil
  show ?case by (simp add: option.map_ident)
next
  case (Cons x xs)
  obtain k srcs where x: "x = (k, srcs)" by (cases x)
  have k: "mget xs k = None" and p: "mproper xs"
    using Cons.prems by (auto simp: x mproper_def mget_def map_of_eq_None_iff)
  show ?case
    using Cons.IH [OF p] k
    by (auto simp: x restore_incoming_def option.map_comp comp_def option.map_ident)
qed

text \<open>What a resumed world has in common with the paused one.\<close>

definition resumes_world :: "world \<Rightarrow> world \<Rightarrow> bool" where
  "resumes_world w0 w \<longleftrightarrow>
     (\<forall>i st. stored (w_state w0) i = Some st \<longrightarrow> stored (w_state w) i = Some (json_block_state st)) \<and>
     executedBlocks (w_state w) = executedBlocks (w_state w0) \<and>
     (\<forall>i. i \<noteq> PROTO \<longrightarrow> mget (w_loops w) i = map_option paused_loop (mget (w_loops w0) i) \<and>
       mget (w_parallels w) i = map_option paused_parallel (mget (w_parallels w0) i)) \<and>
     (\<forall>i. mget (w_mapping w) i = mget (w_mapping w0) i) \<and>
     (\<forall>i n n0. dnode (w_dag w) i = Some n \<longrightarrow> dnode (w_dag w0) i = Some n0 \<longrightarrow> incomingEdges n = incomingEdges n0) \<and>
     (snapshot_keys (w_em w) \<and> nodesWithActivatedEdge (w_em w) = nodesWithActivatedEdge (w_em w0)) \<and>
     ((\<forall>k \<in> set (deactivatedEdges (w_em w0)). parseEdgeKey k \<noteq> None) \<longrightarrow>
       deactivatedEdges (w_em w) = deactivatedEdges (w_em w0))"

lemma assembled_em:
  assumes "em_wf em0"
  shows "snapshot_keys (restoreDeactivatedEdges (deactivatedEdges em0) (nodesWithActivatedEdge em0) em) \<and>
    nodesWithActivatedEdge (restoreDeactivatedEdges (deactivatedEdges em0) (nodesWithActivatedEdge em0) em) = nodesWithActivatedEdge em0 \<and>
    ((\<forall>k \<in> set (deactivatedEdges em0). parseEdgeKey k \<noteq> None) \<longrightarrow>
      deactivatedEdges (restoreDeactivatedEdges (deactivatedEdges em0) (nodesWithActivatedEdge em0) em) = deactivatedEdges em0)"
proof -
  have "normalizeSerializedEdgeKey d k = k" if "parseEdgeKey k \<noteq> None" for d k
    using that by (cases k) simp_all
  then have "map (normalizeSerializedEdgeKey d) ks = ks" if "\<forall>k \<in> set ks. parseEdgeKey k \<noteq> None" for d ks
    using that by (simp add: map_idI)
  then show ?thesis
    using assms by (auto simp: restoreDeactivatedEdges_def snapshot_keys_def em_wf_def set_of_array_distinct)
qed

lemma incoming_paused:
  assumes "wf_dag d0" and "xs = js_object (map (\<lambda>(i, n). (i, incomingEdges n)) (dag_nodes d0))"
    and "dnode (fold restore_incoming xs d) i = Some n" and "dnode d0 i = Some n0"
  shows "incomingEdges n = incomingEdges n0"
proof -
  have m: "mproper (dag_nodes d0)" and dist: "distinct (incomingEdges n0)"
    using assms(1,4) by (auto simp: wf_dag_def wf_node_def)
  have x: "mget xs i = Some (incomingEdges n0)" "mproper xs"
    using js_object_lookup [of "map (\<lambda>(i, n). (i, incomingEdges n)) (dag_nodes d0)"] m assms(4)
    by (simp_all add: assms(2) mget_map_values dnode_def)
  show ?thesis
    using assms(3) x dist by (auto simp: dnode_restores set_of_array_distinct)
qed

text \<open>
  C9: a paused run is resumed where it stopped. When a run is executed from the JSON text of
  the snapshot of a world, the world it starts with, before the edges of the answered pause
  blocks are released, has the same executed blocks in the same order, the stored outputs
  and the scopes of loops and parallels as JSON gives them back, the same branch mappings,
  the same incoming edges at every node that exists in both graphs, the same activated
  nodes, and the same pruned edges.
\<close>

theorem pause_resume_roundtrip:
  assumes "world_wf w0" and "tables_proper w0"
    and "s = json_snapshot (serializePauseSnapshot w0 q)"
    and "cx_snapshotState cx = Some s" and "cx_dagIncomingEdges cx = sn_dagIncomingEdges s"
    and "execute env w cx trigger = Inr e"
  shows "\<exists>e0. e = initializeQueue None (cx_remainingEdges cx) trigger e0 \<and> en_queue e0 = [] \<and>
    resumes_world w0 (en_world e0)"
proof -
  obtain d d1 clones st where x:
    "initial_state env w cx (cx_snapshotState cx) trigger None = Inr st"
    "e = start_engine cx None trigger
      (assemble (restoreSavedIncomingEdges (cx_dagIncomingEdges cx) d1) (cx_snapshotState cx) st
        (registerRestoredClonedSubflows clones
          (buildSubflowParentMap (restoreSavedIncomingEdges (cx_dagIncomingEdges cx) d1))) None)"
    using execute_cases [OF assms(6)] by metis
  let ?d = "restoreSavedIncomingEdges (cx_dagIncomingEdges cx) d1"
  let ?w = "assemble ?d (cx_snapshotState cx) st (registerRestoredClonedSubflows clones (buildSubflowParentMap ?d)) None"
  let ?e0 = "engine_init ?w (cx_resumeFromSnapshot cx) (cx_resumePendingQueue cx) (cx_aborted cx)"
  have s: "cx_snapshotState cx = Some (json_snapshot (serializePauseSnapshot w0 q))" using assms(3,4) by simp
  have wf: "state_wf (w_state w0)" "em_wf (w_em w0)" "wf_dag (w_dag w0)"
    using assms(1) by (simp_all add: world_wf_def em_wf_def w_dag_def)
  have saved: "sn_dagIncomingEdges (json_snapshot (serializePauseSnapshot w0 q)) =
      Some (js_object (map (\<lambda>(i, n). (i, incomingEdges n)) (dag_nodes (w_dag w0))))"
    by (simp add: json_snapshot_def serializePauseSnapshot_def)
  have "state_wf (restored_state (cx_snapshotState cx) None)"
    unfolding s using pause_snapshot_ok [OF wf(1)] by (intro restored_state_wf) simp
  note st = initial_state_keeps [OF x(1) this]
  have state: "w_state ?w = st" "w_loops ?w = restored_loops (cx_snapshotState cx)" "w_parallels ?w = restored_parallels (cx_snapshotState cx)"
    "w_mapping ?w = restored_mapping (cx_snapshotState cx)" "w_dag ?w = ?d"
    by (simp_all add: assemble_def Let_def w_dag_def restoreDeactivatedEdges_def)
  have em: "w_em ?w = restoreDeactivatedEdges (deactivatedEdges (w_em w0)) (nodesWithActivatedEdge (w_em w0))
      \<lparr>em_dag = ?d, deactivatedEdges = [], nodesWithActivatedEdge = []\<rparr>"
    by (simp add: assemble_def s json_snapshot_def serializePauseSnapshot_def or_empty_def)
  have mapping: "mget (restored_mapping (cx_snapshotState cx)) i = mget (w_mapping w0) i" for i
    using assms(2) js_object_lookup(1) [of "w_mapping w0" i]
    by (simp add: s restored_mapping_def or_empty_def json_snapshot_def serializePauseSnapshot_def tables_proper_def)
  have incoming: "incomingEdges n = incomingEdges n0" if "dnode ?d i = Some n" "dnode (w_dag w0) i = Some n0" for i n n0
    using incoming_paused [OF wf(3) refl _ that(2), of d1 n] that(1)
    by (simp add: assms(5) assms(3) saved restoreSavedIncomingEdges_def)
  have "resumes_world w0 ?w"
    unfolding resumes_world_def state em
    using st state_paused [OF wf(1)] loops_paused parallels_paused assembled_em [OF wf(2)] assms(2) mapping incoming
    by (simp add: s tables_proper_def)
  then show ?thesis
    using x(2) by (intro exI [of _ ?e0]) (simp add: start_engine_def engine_init_def)
qed

section \<open>Parents of containers\<close>

lemma mget_add_parents:
  "mget (add_parents d e nodes m) c = (if c \<in> set nodes \<and> is_container d c then Some e else mget m c)"
proof -
  have "mget (fold (\<lambda>i m. if is_container d i then mput i e m else m) nodes m) c =
      (if c \<in> set nodes \<and> is_container d c then Some e else mget m c)"
    by (induction nodes arbitrary: m) auto
  then show ?thesis by (simp add: add_parents_def)
qed

lemma fold_add_parents:
  assumes "is_container d c"
  shows "case mget (fold (\<lambda>(i, cfg). add_parents d (E i) (N cfg)) cs m) c of
      None \<Rightarrow> mget m c = None \<and> (\<forall>(i, cfg) \<in> set cs. c \<notin> set (N cfg))
    | Some e \<Rightarrow> (\<exists>(i, cfg) \<in> set cs. e = E i \<and> c \<in> set (N cfg)) \<or>
        mget m c = Some e \<and> (\<forall>(i, cfg) \<in> set cs. c \<notin> set (N cfg))"
proof (induction cs arbitrary: m)
  case Nil
  show ?case by (cases "mget m c") simp_all
next
  case (Cons x cs)
  obtain i cfg where x: "x = (i, cfg)" by (cases x)
  show ?case
    using Cons.IH [of "add_parents d (E i) (N cfg) m"] assms
    by (auto simp: x mget_add_parents split: option.splits if_splits)
qed

lemma fold_add_parents_other:
  "\<not> is_container d c \<Longrightarrow> mget (fold (\<lambda>(i, cfg). add_parents d (E i) (N cfg)) cs m) c = mget m c"
  by (induction cs arbitrary: m) (auto simp: mget_add_parents)

lemma parents_cases:
  assumes "is_container d c"
  shows "case mget (buildSubflowParentMap d) c of
      None \<Rightarrow> (\<forall>(i, cfg) \<in> set (loopConfigs d). c \<notin> set (loop_nodes cfg)) \<and>
        (\<forall>(i, cfg) \<in> set (parallelConfigs d). c \<notin> set (par_nodes cfg))
    | Some e \<Rightarrow>
        (\<exists>(i, cfg) \<in> set (parallelConfigs d). c \<in> set (par_nodes cfg) \<and>
           e = \<lparr>pe_parentId = i, pe_parentType = SubParallel, pe_branchIndex = Some 0\<rparr>) \<or>
        (\<exists>(i, cfg) \<in> set (loopConfigs d). c \<in> set (loop_nodes cfg) \<and>
           e = \<lparr>pe_parentId = i, pe_parentType = SubLoop, pe_branchIndex = None\<rparr>) \<and>
        (\<forall>(i, cfg) \<in> set (parallelConfigs d). c \<notin> set (par_nodes cfg))"
proof -
  let ?l = "fold (\<lambda>(i, cfg). add_parents d \<lparr>pe_parentId = i, pe_parentType = SubLoop, pe_branchIndex = None\<rparr> (loop_nodes cfg))
      (loopConfigs d) []"
  note l = fold_add_parents [OF assms, where E = "\<lambda>i. \<lparr>pe_parentId = i, pe_parentType = SubLoop, pe_branchIndex = None\<rparr>"
      and N = loop_nodes and cs = "loopConfigs d" and m = "[]"]
  note p = fold_add_parents [OF assms, where E = "\<lambda>i. \<lparr>pe_parentId = i, pe_parentType = SubParallel, pe_branchIndex = Some 0\<rparr>"
      and N = par_nodes and cs = "parallelConfigs d" and m = ?l]
  show ?thesis
  proof (cases "mget (buildSubflowParentMap d) c")
    case None
    with l p show ?thesis by (auto simp: buildSubflowParentMap_def)
  next
    case (Some e)
    with p have "(\<exists>(i, cfg) \<in> set (parallelConfigs d). e = \<lparr>pe_parentId = i, pe_parentType = SubParallel, pe_branchIndex = Some 0\<rparr> \<and> c \<in> set (par_nodes cfg)) \<or>
        mget ?l c = Some e \<and> (\<forall>(i, cfg) \<in> set (parallelConfigs d). c \<notin> set (par_nodes cfg))"
      by (simp add: buildSubflowParentMap_def)
    with l Some show ?thesis by (auto simp: buildSubflowParentMap_def split: option.splits)
  qed
qed

text \<open>Clones are registered again as the running orchestrator registered them.\<close>

lemma restored_clone_map_single: "restored_clone_map (map (\<lambda>c. (c, p)) cs) p outer = branch_clone_map cs outer"
  by (simp add: restored_clone_map_def comp_def filter_map)

lemma branch_clone_named:
  assumes "\<forall>c \<in> set cs. ci_clonedId c \<noteq> []" and "mget (branch_clone_map cs outer) k = Some i"
  shows "i \<noteq> []"
proof -
  have "\<forall>c \<in> set cs. ci_clonedId c \<noteq> [] \<Longrightarrow>
      mget (fold (\<lambda>c m. if ci_outerBranchIndex c = outer then mput (ci_originalId c) (ci_clonedId c) m else m) cs m) k = Some i \<Longrightarrow>
      i \<noteq> [] \<or> mget m k = Some i" for m
    by (induction cs arbitrary: m) (fastforce split: if_splits)+
  from this [of "[]"] assms show ?thesis by (simp add: branch_clone_map_def)
qed

lemma restored_as_registered:
  assumes "\<forall>c \<in> set cs. ci_clonedId c \<noteq> []"
  shows "registerRestoredClonedSubflows (map (\<lambda>c. (c, p)) cs) parents =
    w_parents (registerClonedSubflows p cs (w\<lparr>w_parents := parents\<rparr>))"
proof -
  have "restored_parent (map (\<lambda>c. (c, p)) cs) ps (c, p) = clone_parent p cs ps c" for ps c
    using branch_clone_named [OF assms, of "ci_outerBranchIndex c"]
    by (auto simp: restored_parent_def clone_parent_def Let_def restored_clone_map_single split: option.split)
  then have "fold (\<lambda>x parents. mput (ci_clonedId (fst x)) (restored_parent (map (\<lambda>c. (c, p)) cs) parents x) parents)
      (map (\<lambda>c. (c, p)) xs) ps = fold (\<lambda>c parents. mput (ci_clonedId c) (clone_parent p cs parents c) parents) xs ps" for xs ps
    by (induction xs arbitrary: ps) simp_all
  then show ?thesis by (simp add: registerRestoredClonedSubflows_def registerClonedSubflows_def)
qed

text \<open>
  a resumed run knows where its containers are. In the map that is rebuilt from the
  configurations exactly the containers listed in a container have an entry; it names a
  parallel that lists the container when there is one (with branch 0), and a loop that lists
  it otherwise. The clones of a restored batch get the parents that the running
  orchestrator had given them.
\<close>

theorem parents_restored:
  shows "(mget (buildSubflowParentMap d) c \<noteq> None \<longleftrightarrow> is_container d c \<and>
      ((\<exists>(i, cfg) \<in> set (loopConfigs d). c \<in> set (loop_nodes cfg)) \<or>
       (\<exists>(i, cfg) \<in> set (parallelConfigs d). c \<in> set (par_nodes cfg)))) \<and>
    (\<forall>e. mget (buildSubflowParentMap d) c = Some e \<longrightarrow>
      (if \<exists>(i, cfg) \<in> set (parallelConfigs d). c \<in> set (par_nodes cfg)
       then \<exists>(i, cfg) \<in> set (parallelConfigs d). c \<in> set (par_nodes cfg) \<and>
         e = \<lparr>pe_parentId = i, pe_parentType = SubParallel, pe_branchIndex = Some 0\<rparr>
       else \<exists>(i, cfg) \<in> set (loopConfigs d). c \<in> set (loop_nodes cfg) \<and>
         e = \<lparr>pe_parentId = i, pe_parentType = SubLoop, pe_branchIndex = None\<rparr>)) \<and>
    ((\<forall>c \<in> set cs. ci_clonedId c \<noteq> []) \<longrightarrow>
      registerRestoredClonedSubflows (map (\<lambda>c. (c, p)) cs) (buildSubflowParentMap d) =
        w_parents (registerClonedSubflows p cs (w\<lparr>w_parents := buildSubflowParentMap d\<rparr>)))"
proof (intro conjI)
  have none: "\<not> is_container d c \<Longrightarrow> mget (buildSubflowParentMap d) c = None"
    by (simp add: buildSubflowParentMap_def fold_add_parents_other)
  show "mget (buildSubflowParentMap d) c \<noteq> None \<longleftrightarrow> is_container d c \<and>
      ((\<exists>(i, cfg) \<in> set (loopConfigs d). c \<in> set (loop_nodes cfg)) \<or>
       (\<exists>(i, cfg) \<in> set (parallelConfigs d). c \<in> set (par_nodes cfg)))"
    using none parents_cases [of d c] by (cases "is_container d c") (auto split: option.splits)
  show "\<forall>e. mget (buildSubflowParentMap d) c = Some e \<longrightarrow>
      (if \<exists>(i, cfg) \<in> set (parallelConfigs d). c \<in> set (par_nodes cfg)
       then \<exists>(i, cfg) \<in> set (parallelConfigs d). c \<in> set (par_nodes cfg) \<and>
         e = \<lparr>pe_parentId = i, pe_parentType = SubParallel, pe_branchIndex = Some 0\<rparr>
       else \<exists>(i, cfg) \<in> set (loopConfigs d). c \<in> set (loop_nodes cfg) \<and>
         e = \<lparr>pe_parentId = i, pe_parentType = SubLoop, pe_branchIndex = None\<rparr>)"
    using none parents_cases [of d c] by (cases "is_container d c") (auto split: option.splits)
qed (use restored_as_registered in blast)

section \<open>A fork\<close>

text \<open>A condition \<open>c\<close> after the start \<open>s\<close> leads to \<open>a\<close> or to \<open>b\<close>; \<open>choosing\<close> runs the blocks so
  that the condition takes the given option.\<close>

definition fork_flow :: sworkflow where
  "fork_flow = \<lparr>wf_blocks = [demo_block ''s'' ''starter'' True, demo_block ''c'' ''condition'' True,
      demo_block ''a'' ''agent'' True, demo_block ''b'' ''agent'' True],
     wf_connections = [demo_con ''s'' ''c'' None, demo_con ''c'' ''a'' (Some ''condition-1''),
      demo_con ''c'' ''b'' (Some ''condition-2'')],
     wf_loops = [], wf_parallels = []\<rparr>"

definition choosing :: "string \<Rightarrow> block_runner" where
  "choosing opt w n =
     (let out = (if node_id n = ''c'' then [(''selectedOption'', JStr opt)] else [])
      in (Inr out, upd_state (setBlockOutput False (node_id n) out 0 None) w))"

definition fork_env :: "string \<Rightarrow> run_env" where
  "fork_env opt = \<lparr>re_env = \<lparr>storeEntry = id, fitsThreshold = (\<lambda>_. True), forceStore = id,
       resolveArray = (\<lambda>_ _ _. Inr []), conditionVM = (\<lambda>_ _ _. None), sha256Hex = id\<rparr>,
     re_run = choosing opt, re_depth = 1, re_stopAfter = None\<rparr>"

definition plain_start :: start_host where
  "plain_start = \<lparr>sh_registry = (\<lambda>_. None), sh_workflowInput = JObj [(''v'', JNum 1)], sh_runMetadata = None,
     sh_workspaceId = None, sh_parse = (\<lambda>_. None), sh_number = (\<lambda>_. None), sh_string = (\<lambda>_. []),
     sh_keyWorkspace = (\<lambda>_. None), sh_keyContext = (\<lambda>_. None), sh_urlKey = (\<lambda>_. None)\<rparr>"

definition plain_env :: executor_env where
  "plain_env = \<lparr>xe_parse = (\<lambda>_. None), xe_sha = id, xe_depth = 1, xe_start = plain_start\<rparr>"

definition fresh :: extensions where
  "fresh = \<lparr>cx_dagIncomingEdges = None, cx_snapshotState = None, cx_resumeFromSnapshot = False, cx_remainingEdges = [],
     cx_resumePendingQueue = [], cx_aborted = False\<rparr>"

definition prepared :: "prepare_error + engine \<Rightarrow> engine" where
  "prepared x = (case x of Inl _ \<Rightarrow> pair_engine | Inr e \<Rightarrow> e)"

definition succeeds :: "prepare_error + engine \<Rightarrow> bool" where
  "succeeds x = (case x of Inl _ \<Rightarrow> False | Inr e \<Rightarrow> True)"

lemma prepared_iff: "succeeds x \<longleftrightarrow> x = Inr (prepared x)"
  by (cases x) (simp_all add: succeeds_def prepared_def)

text \<open>One node from the queue is launched, performed and settled before anything else happens.\<close>

definition turn :: "run_env \<Rightarrow> engine \<Rightarrow> engine" where
  "turn r e =
     (case dequeue e of
        None \<Rightarrow> e
      | Some (i, e0) \<Rightarrow>
          (let e1 = launch i e0;
               e2 = (case tk_phase (en_tasks e1 ! 0) of Finished _ \<Rightarrow> e1 | Running n \<Rightarrow> perform r 0 n e1)
           in case tk_phase (en_tasks e2 ! 0) of Finished res \<Rightarrow> settle r 0 res e2 | Running _ \<Rightarrow> e2))"

definition may_turn :: "engine \<Rightarrow> bool" where
  "may_turn e \<longleftrightarrow> \<not> halted e \<and> en_tasks e = [] \<and> list_all (\<lambda>i. i \<noteq> []) (en_queue e)"

lemma turn_steps:
  assumes "may_turn e"
  shows "(engine_step r)\<^sup>*\<^sup>* e (turn r e)"
proof (cases "dequeue e")
  case None
  then show ?thesis by (simp add: turn_def)
next
  case (Some x)
  obtain i e0 where x: "x = (i, e0)" by (cases x)
  have deq: "dequeue e = Some (i, e0)" using Some x by simp
  then have e0: "en_tasks e0 = []" "i \<noteq> []" using assms by (auto simp: dequeue_iff may_turn_def)
  let ?e1 = "launch i e0"
  have l: "engine_step r e ?e1" using assms deq e0 by (intro engine_step.Launch) (simp_all add: may_turn_def)
  obtain t where t: "en_tasks ?e1 = [t]" using e0 by (simp add: launch_def Let_def)
  let ?e2 = "case tk_phase (en_tasks ?e1 ! 0) of Finished _ \<Rightarrow> ?e1 | Running n \<Rightarrow> perform r 0 n ?e1"
  have p: "(engine_step r)\<^sup>*\<^sup>* ?e1 ?e2 \<and> length (en_tasks ?e2) = 1"
  proof (cases "tk_phase t")
    case (Running n)
    then have "engine_step r ?e1 (perform r 0 n ?e1)" by (intro engine_step.Perform) (simp_all add: t)
    moreover have "length (en_tasks (perform r 0 n ?e1)) = length (en_tasks ?e1)"
      by (simp add: perform_def Let_def split: prod.split)
    ultimately show ?thesis using Running by (simp add: t r_into_rtranclp)
  qed (simp add: t)
  have "(engine_step r)\<^sup>*\<^sup>* ?e2 (case tk_phase (en_tasks ?e2 ! 0) of Finished res \<Rightarrow> settle r 0 res ?e2 | Running _ \<Rightarrow> ?e2)"
    using p by (auto intro!: engine_step.Settle split: phase.split)
  with l p show ?thesis
    by (simp add: turn_def deq Let_def) (meson converse_rtranclp_into_rtranclp rtranclp_trans)
qed

definition fork_first :: engine where
  "fork_first = (turn (fork_env ''1'') ^^ 3) (prepared (execute plain_env fork_flow fresh None))"

definition fork_snapshot :: snapshot where
  "fork_snapshot = json_snapshot (serializePauseSnapshot (en_world fork_first) [])"

lemma fork_starts: "succeeds (execute plain_env fork_flow fresh None)"
  by code_simp

lemma fork_run: "(engine_step (fork_env ''1''))\<^sup>*\<^sup>* (prepared (execute plain_env fork_flow fresh None)) fork_first"
proof -
  let ?e = "prepared (execute plain_env fork_flow fresh None)" and ?f = "turn (fork_env ''1'')"
  have "may_turn ?e" "may_turn (?f ?e)" "may_turn (?f (?f ?e))" by code_simp+
  then show ?thesis
    using turn_steps [of ?e "fork_env ''1''"] turn_steps [of "?f ?e" "fork_env ''1''"] turn_steps [of "?f (?f ?e)" "fork_env ''1''"]
    by (simp add: fork_first_def numeral_3_eq_3)
qed

lemma fork_ends: "returns fork_first" "run_outcome fork_first = Success []" "executedBlocks (w_state (en_world fork_first)) = [''s'', ''c'', ''a'']"
  by code_simp+

lemma rerun_starts: "succeeds (executeFromBlock plain_env fork_flow fresh ''c'' fork_snapshot)"
  "may_turn (prepared (executeFromBlock plain_env fork_flow fresh ''c'' fork_snapshot))"
  by code_simp+

definition fork_resume :: extensions where
  "fork_resume = fresh\<lparr>cx_snapshotState := Some fork_snapshot, cx_dagIncomingEdges := sn_dagIncomingEdges fork_snapshot,
     cx_resumeFromSnapshot := True\<rparr>"

lemma choosing_ok: "runner_ok (re_run (fork_env opt))"
  by (simp add: runner_ok_def fork_env_def choosing_def Let_def run_wf_def world_wf_def wf_setBlockOutput)

lemma fork_flat: "flat_workflow fork_flow"
  by (simp add: flat_workflow_def flat_config_def initializeConfigs_def fork_flow_def)

lemma fork_resumable: "resumable plain_env fork_flow fresh None"
  by (simp add: resumable_def fresh_def known_sources_def or_empty_def)

lemma fork_first_ok: "engine_ok fork_first"
  using executed_ok [OF fork_starts [unfolded prepared_iff] fork_flat fork_resumable] running.run_keeps [OF fork_run] choosing_ok
  by blast


lemma fork_snapshot_facts:
  "mproper (sn_blockStates fork_snapshot)" "sn_executedBlocks fork_snapshot = [''s'', ''c'', ''a'']"
proof -
  have "distinct (map fst (sn_blockStates fork_snapshot))" by code_simp
  then show "mproper (sn_blockStates fork_snapshot)" by (simp add: mproper_def)
  show "sn_executedBlocks fork_snapshot = [''s'', ''c'', ''a'']" by code_simp
qed

theorem partial_run_prepared_witness:
  "\<exists>d. build (\<lambda>_. None) fork_flow None None True = Inr d \<and>
    \<not> hasExecuted (w_state (en_world (prepared (executeFromBlock plain_env fork_flow fresh ''c'' fork_snapshot)))) ''c'' \<and>
    set (en_queue (prepared (executeFromBlock plain_env fork_flow fresh ''c'' fork_snapshot))) \<subseteq> {traversal_start d ''c''}"
proof -
  have "''c'' \<in> set (dirtySet (computeExecutionSets d ''c''))" for d
    using start_dirty(2) by (simp add: computeExecutionSets_def Let_def)
  moreover have "xe_parse plain_env = (\<lambda>_. None)" by (simp add: plain_env_def)
  ultimately show ?thesis
    using partial_run_prepared [OF rerun_starts(1) [unfolded prepared_iff] _ fork_snapshot_facts(1)] by fastforce
qed

lemma resume_starts: "succeeds (execute plain_env fork_flow fork_resume None)"
  by code_simp

theorem pause_resume_roundtrip_witness:
  "executedBlocks (w_state (en_world (prepared (execute plain_env fork_flow fork_resume None)))) = [''s'', ''c'', ''a'']"
proof -
  have wf: "world_wf (en_world fork_first)" using fork_first_ok by (simp add: engine_ok_def run_wf_def)
  have "w_loops (en_world fork_first) = []" "w_parallels (en_world fork_first) = []" "w_mapping (en_world fork_first) = []"
    by code_simp+
  then have t: "tables_proper (en_world fork_first)" by (simp add: tables_proper_def)
  have cx: "cx_snapshotState fork_resume = Some fork_snapshot" "cx_dagIncomingEdges fork_resume = sn_dagIncomingEdges fork_snapshot"
    "cx_remainingEdges fork_resume = []"
    by (simp_all add: fork_resume_def fresh_def)
  obtain e0 where e0: "prepared (execute plain_env fork_flow fork_resume None) = initializeQueue None [] None e0"
    "resumes_world (en_world fork_first) (en_world e0)"
    using pause_resume_roundtrip [OF wf t fork_snapshot_def cx(1,2) resume_starts [unfolded prepared_iff]] cx(3) by auto
  have "en_world (initializeQueue None [] None e0) = en_world e0"
    by (auto simp: initializeQueue_def split: option.split)
  then show ?thesis using e0 fork_ends(3) by (simp add: resumes_world_def)
qed

text \<open>A parallel \<open>P\<close> that holds a loop \<open>L\<close>.\<close>

definition nest_dag :: dag where
  "nest_dag = \<lparr>dag_nodes = [], loopConfigs = [(''L'', demo_loop [''a''])], parallelConfigs = [(''P'', demo_parallel [''L''])]\<rparr>"

theorem parents_restored_witness:
  "mget (buildSubflowParentMap nest_dag) ''L'' =
     Some \<lparr>pe_parentId = ''P'', pe_parentType = SubParallel, pe_branchIndex = Some 0\<rparr>"
proof -
  have "is_container nest_dag ''L''" by (simp add: nest_dag_def is_container_def)
  moreover have c: "\<exists>(i, cfg) \<in> set (parallelConfigs nest_dag). ''L'' \<in> set (par_nodes cfg)"
    by (simp add: nest_dag_def demo_parallel_def)
  ultimately obtain e where "mget (buildSubflowParentMap nest_dag) ''L'' = Some e"
    using parents_restored [of nest_dag "''L''" "[]"] by blast
  moreover from this c have "\<exists>(i, cfg) \<in> set (parallelConfigs nest_dag). ''L'' \<in> set (par_nodes cfg) \<and>
      e = \<lparr>pe_parentId = i, pe_parentType = SubParallel, pe_branchIndex = Some 0\<rparr>"
    using parents_restored [of nest_dag "''L''" "[]"] by simp
  ultimately show ?thesis by (simp add: nest_dag_def)
qed

end
