(* ===== verification/Defects.thy ===== *)
theory Defects
  imports ExecutorProps
begin

text \<open>
  Behaviours the model exposes. A container nested in a parallel is cloned for every branch
  of a later batch from nodes whose incoming edges the first batch has already consumed. A
  partial run takes over the pruned edges and activated nodes of the run it starts from.
\<close>

text \<open>A parallel \<open>P\<close> of two branches, run one at a time, that contains a loop \<open>L\<close> in which \<open>j\<close>
  joins \<open>a\<close> and \<open>b\<close>.\<close>

definition joined_dag :: dag where
  "joined_dag = \<lparr>dag_nodes = [
      demo_node (buildParallelSentinelStartId ''P'') [] [(buildSentinelStartId ''L'', ''s'')] no_meta,
      demo_node (buildSentinelStartId ''L'') [buildParallelSentinelStartId ''P''] [(''a'', ''s''), (''b'', ''s'')] no_meta,
      demo_node ''a'' [buildSentinelStartId ''L''] [(''j'', ''s'')] no_meta,
      demo_node ''b'' [buildSentinelStartId ''L''] [(''j'', ''s'')] no_meta,
      demo_node ''j'' [''a'', ''b''] [(buildSentinelEndId ''L'', ''s'')] no_meta,
      demo_node (buildSentinelEndId ''L'') [''j''] [(buildParallelSentinelEndId ''P'', LOOP_EXIT)] no_meta,
      demo_node (buildParallelSentinelEndId ''P'') [buildSentinelEndId ''L''] [] no_meta],
     loopConfigs = [(''L'', demo_loop [''a'', ''b'', ''j''])], parallelConfigs = [(''P'', demo_parallel [''L''])]\<rparr>"

text \<open>The DAG after the blocks \<open>is\<close> have been completed.\<close>

definition complete_in :: "string list \<Rightarrow> dag \<Rightarrow> dag" where
  "complete_in is d = fold (\<lambda>i d. case dnode d i of None \<Rightarrow> d
     | Some n \<Rightarrow> em_dag (fst (processOutgoingEdges \<lparr>em_dag = d, deactivatedEdges = [], nodesWithActivatedEdge = []\<rparr> n [] False))) is d"

definition second_batch :: "dag \<Rightarrow> dag option" where
  "second_batch d = (case expandParallel 3 id ''P'' 1 1 2 d of Inl _ \<Rightarrow> None | Inr (d', _) \<Rightarrow> Some d')"

definition clone_name :: "string \<Rightarrow> string" where
  "clone_name i = buildPreCloneIdForParent id i 1 (buildOuterBranchScopedId ''L'' 1)"

definition waits_for :: "dag option \<Rightarrow> string \<Rightarrow> string list option" where
  "waits_for d i = (case d of None \<Rightarrow> None | Some d \<Rightarrow> map_option incomingEdges (dnode d i))"

text \<open>
  a container that is cloned for a later batch loses its joins. Cloned from the DAG as
  built, the join of the second branch waits for both blocks before it; cloned after the
  first branch has run, it waits for nothing, so it is ready as soon as one of them has
  finished.
\<close>

theorem late_clone_loses_join:
  "waits_for (second_batch joined_dag) (clone_name ''j'') = Some [clone_name ''a'', clone_name ''b''] \<and>
   waits_for (second_batch (complete_in [''a'', ''b'', ''j''] joined_dag)) (clone_name ''j'') = Some []"
  by code_simp

section \<open>A rerun that takes both branches\<close>

text \<open>
  re-running a condition can take both branches. The fork runs to its end with option 1,
  so \<open>a\<close> has run and \<open>b\<close> has not. A partial run from the condition with the stored state, in
  which the condition now takes option 2, queues both \<open>a\<close> and \<open>b\<close>; when the pruned edges and the
  activated nodes of the source run are left out of the state, it queues \<open>b\<close> only.
\<close>

theorem rerun_takes_both:
  "\<exists>e0 e1 e e' f f'. execute plain_env fork_flow fresh None = Inr e0 \<and>
    (engine_step (fork_env ''1''))\<^sup>*\<^sup>* e0 e1 \<and> returns e1 \<and> run_outcome e1 = Success [] \<and>
    executedBlocks (w_state (en_world e1)) = [''s'', ''c'', ''a''] \<and>
    executeFromBlock plain_env fork_flow fresh ''c'' (json_snapshot (serializePauseSnapshot (en_world e1) [])) = Inr e \<and>
    (engine_step (fork_env ''2''))\<^sup>*\<^sup>* e e' \<and> en_queue e' = [''b'', ''a''] \<and>
    executeFromBlock plain_env fork_flow fresh ''c''
      ((json_snapshot (serializePauseSnapshot (en_world e1) []))\<lparr>sn_deactivatedEdges := None, sn_nodesWithActivatedEdge := None\<rparr>) = Inr f \<and>
    (engine_step (fork_env ''2''))\<^sup>*\<^sup>* f f' \<and> en_queue f' = [''b'']"
proof -
  let ?clean = "fork_snapshot\<lparr>sn_deactivatedEdges := None, sn_nodesWithActivatedEdge := None\<rparr>"
  let ?e = "prepared (executeFromBlock plain_env fork_flow fresh ''c'' fork_snapshot)"
  let ?f = "prepared (executeFromBlock plain_env fork_flow fresh ''c'' ?clean)"
  have "succeeds (executeFromBlock plain_env fork_flow fresh ''c'' ?clean)" "may_turn ?f" by code_simp+
  then have f: "executeFromBlock plain_env fork_flow fresh ''c'' ?clean = Inr ?f"
    "(engine_step (fork_env ''2''))\<^sup>*\<^sup>* ?f (turn (fork_env ''2'') ?f)"
    by (simp_all add: prepared_iff turn_steps)
  have e: "executeFromBlock plain_env fork_flow fresh ''c'' fork_snapshot = Inr ?e"
    "(engine_step (fork_env ''2''))\<^sup>*\<^sup>* ?e (turn (fork_env ''2'') ?e)"
    using rerun_starts by (simp_all add: prepared_iff turn_steps)
  have q: "en_queue (turn (fork_env ''2'') ?e) = [''b'', ''a'']" "en_queue (turn (fork_env ''2'') ?f) = [''b'']"
    by code_simp+
  show ?thesis
    using fork_starts [unfolded prepared_iff] fork_run fork_ends e f q unfolding fork_snapshot_def by blast
qed

end
