(* ===== verification/JsonSize.thy ===== *)
theory JsonSize
  imports Main "HOL-Library.Word"
begin

text \<open>
  The size guard of the pause snapshot (\<open>executor/execution/snapshot-serializer.ts\<close>): the
  number of bytes of the JSON text of a value, computed without building the text and
  abandoned as soon as a limit is passed. The reference is the text itself, as
  \<open>JSON.stringify\<close> writes it and UTF-8 encodes it.

  A string is the list of its UTF-16 code units, which may hold lone surrogates. A value is
  a tree (a cyclic value, on which both the code and \<open>JSON.stringify\<close> throw, is not one);
  functions and symbols behave as \<open>undefined\<close>. The text of a finite number is its decimal
  text, which is ASCII; \<open>NaN\<close> and the infinities are \<open>SNum None\<close>.
\<close>

type_synonym js_string = "16 word list"

datatype snap_value =
    SUndef
  | SNull
  | SBool bool
  | SNum "string option"
  | SStr js_string
  | SBigInt
  | SArr "snap_value list"
  | SObj "(js_string \<times> snap_value) list"

datatype json_error = BigIntValue

section \<open>The computed size\<close>

definition is_high :: "16 word \<Rightarrow> bool" where "is_high c \<longleftrightarrow> 0xd800 \<le> c \<and> c \<le> 0xdbff"

definition is_low :: "16 word \<Rightarrow> bool" where "is_low c \<longleftrightarrow> 0xdc00 \<le> c \<and> c \<le> 0xdfff"

definition has_short_escape :: "16 word \<Rightarrow> bool" where
  "has_short_escape c \<longleftrightarrow> c \<in> {0x22, 0x5c} \<or> c \<in> {0x08, 0x09, 0x0a, 0x0c, 0x0d}"

fun escaped_units :: "js_string \<Rightarrow> int" where
  "escaped_units [] = 0"
| "escaped_units (c # cs) =
     (if has_short_escape c then 2 + escaped_units cs
      else if c < 0x20 then 6 + escaped_units cs
      else if is_high c then
        (case cs of
           d # ds \<Rightarrow> if is_low d then 4 + escaped_units ds else 6 + escaped_units cs
         | [] \<Rightarrow> 6)
      else if is_low c then 6 + escaped_units cs
      else if c < 0x80 then 1 + escaped_units cs
      else if c < 0x800 then 2 + escaped_units cs
      else 3 + escaped_units cs)"

definition getEscapedJsonStringByteLength :: "js_string \<Rightarrow> int" where
  "getEscapedJsonStringByteLength s = 2 + escaped_units s"

fun getPrimitiveJsonByteLength :: "snap_value \<Rightarrow> json_error + int option" where
  "getPrimitiveJsonByteLength SNull = Inr (Some 4)"
| "getPrimitiveJsonByteLength (SStr s) = Inr (Some (getEscapedJsonStringByteLength s))"
| "getPrimitiveJsonByteLength (SNum n) = Inr (Some (case n of Some t \<Rightarrow> int (length t) | None \<Rightarrow> 4))"
| "getPrimitiveJsonByteLength (SBool b) = Inr (Some (if b then 4 else 5))"
| "getPrimitiveJsonByteLength SBigInt = Inl BigIntValue"
| "getPrimitiveJsonByteLength _ = Inr None"

text \<open>\<open>bounded_items b first vs max\<close> is the loop over the rest of an array with \<open>b\<close> bytes counted;
  \<open>bounded_entries\<close> that over the rest of the properties of an object.\<close>

fun getBoundedJsonByteLength :: "snap_value \<Rightarrow> int \<Rightarrow> json_error + int option"
  and bounded_items :: "int \<Rightarrow> bool \<Rightarrow> snap_value list \<Rightarrow> int \<Rightarrow> json_error + int"
  and bounded_entries :: "int \<Rightarrow> bool \<Rightarrow> (js_string \<times> snap_value) list \<Rightarrow> int \<Rightarrow> json_error + int" where
  "getBoundedJsonByteLength (SArr vs) maxBytes = map_sum id Some (bounded_items 2 True vs maxBytes)"
| "getBoundedJsonByteLength (SObj es) maxBytes = map_sum id Some (bounded_entries 2 False es maxBytes)"
| "getBoundedJsonByteLength v maxBytes = getPrimitiveJsonByteLength v"
| "bounded_items b first [] maxBytes = Inr b"
| "bounded_items b first (v # vs) maxBytes =
     (let b1 = (if first then b else b + 1)
      in case getBoundedJsonByteLength v (maxBytes - b1) of
           Inl e \<Rightarrow> Inl e
         | Inr item \<Rightarrow>
             (let b2 = b1 + (case item of Some n \<Rightarrow> n | None \<Rightarrow> 4)
              in if b2 > maxBytes then Inr b2 else bounded_items b2 False vs maxBytes))"
| "bounded_entries b hasEntries [] maxBytes = Inr b"
| "bounded_entries b hasEntries ((k, v) # es) maxBytes =
     (if v = SUndef then bounded_entries b hasEntries es maxBytes
      else
        (let b1 = (if hasEntries then b + 1 else b) + getEscapedJsonStringByteLength k + 1
         in case getBoundedJsonByteLength v (maxBytes - b1) of
              Inl e \<Rightarrow> Inl e
            | Inr item \<Rightarrow>
                (let b2 = b1 + (case item of Some n \<Rightarrow> n | None \<Rightarrow> 4)
                 in if b2 > maxBytes then Inr b2 else bounded_entries b2 True es maxBytes)))"

definition LARGE_VALUE_THRESHOLD_BYTES :: int where "LARGE_VALUE_THRESHOLD_BYTES = 8 * 1024 * 1024"

datatype compact_error = SizeThrows json_error | Oversized string

definition assertSnapshotValueIsCompact :: "snap_value \<Rightarrow> string \<Rightarrow> compact_error + unit" where
  "assertSnapshotValueIsCompact v lbl =
     (case getBoundedJsonByteLength v LARGE_VALUE_THRESHOLD_BYTES of
        Inl e \<Rightarrow> Inl (SizeThrows e)
      | Inr None \<Rightarrow> Inr ()
      | Inr (Some n) \<Rightarrow> if n > LARGE_VALUE_THRESHOLD_BYTES then Inl (Oversized lbl) else Inr ())"

section \<open>The text\<close>

type_synonym bytes = "8 word list"

text \<open>The code points of a string; a lone surrogate stands for itself.\<close>

fun code_points :: "js_string \<Rightarrow> nat list" where
  "code_points [] = []"
| "code_points [c] = [unat c]"
| "code_points (c # d # cs) =
     (if is_high c \<and> is_low d then (0x10000 + (unat c - 0xd800) * 0x400 + (unat d - 0xdc00)) # code_points cs
      else unat c # code_points (d # cs))"

definition utf8 :: "nat \<Rightarrow> bytes" where
  "utf8 p =
     (if p < 0x80 then [of_nat p]
      else if p < 0x800 then [of_nat (0xc0 + p div 64), of_nat (0x80 + p mod 64)]
      else if p < 0x10000 then [of_nat (0xe0 + p div 4096), of_nat (0x80 + p div 64 mod 64), of_nat (0x80 + p mod 64)]
      else [of_nat (0xf0 + p div 262144), of_nat (0x80 + p div 4096 mod 64), of_nat (0x80 + p div 64 mod 64),
            of_nat (0x80 + p mod 64)])"

definition ascii :: "string \<Rightarrow> bytes" where
  "ascii s = map of_char s"

definition hex_digit :: "nat \<Rightarrow> char" where
  "hex_digit n = (''0123456789abcdef'' ! n)"

definition unicode_escape :: "nat \<Rightarrow> bytes" where
  "unicode_escape p = ascii [CHR 0x5c, CHR ''u'', hex_digit (p div 4096 mod 16), hex_digit (p div 256 mod 16),
     hex_digit (p div 16 mod 16), hex_digit (p mod 16)]"

definition short_escape :: "nat \<Rightarrow> char option" where
  "short_escape p = map_of [(0x22, CHR 0x22), (0x5c, CHR 0x5c), (0x08, CHR ''b''), (0x09, CHR ''t''), (0x0a, CHR ''n''),
     (0x0c, CHR ''f''), (0x0d, CHR ''r'')] p"

definition quote_point :: "nat \<Rightarrow> bytes" where
  "quote_point p =
     (case short_escape p of
        Some c \<Rightarrow> ascii [CHR 0x5c, c]
      | None \<Rightarrow> if p < 0x20 \<or> (0xd800 \<le> p \<and> p \<le> 0xdfff) then unicode_escape p else utf8 p)"

definition quote :: "js_string \<Rightarrow> bytes" where
  "quote s = ascii [CHR 0x22] @ concat (map quote_point (code_points s)) @ ascii [CHR 0x22]"

fun join_comma :: "bytes list \<Rightarrow> bytes" where
  "join_comma [] = []"
| "join_comma [t] = t"
| "join_comma (t # ts) = t @ ascii '','' @ join_comma ts"

text \<open>\<open>None\<close> is a value that has no JSON text.\<close>

fun stringify :: "snap_value \<Rightarrow> json_error + bytes option"
  and item_texts :: "snap_value list \<Rightarrow> json_error + bytes list"
  and entry_texts :: "(js_string \<times> snap_value) list \<Rightarrow> json_error + bytes list" where
  "stringify SUndef = Inr None"
| "stringify SNull = Inr (Some (ascii ''null''))"
| "stringify (SBool b) = Inr (Some (ascii (if b then ''true'' else ''false'')))"
| "stringify (SNum n) = Inr (Some (ascii (case n of Some t \<Rightarrow> t | None \<Rightarrow> ''null'')))"
| "stringify (SStr s) = Inr (Some (quote s))"
| "stringify SBigInt = Inl BigIntValue"
| "stringify (SArr vs) = map_sum id (\<lambda>ts. Some (ascii ''['' @ join_comma ts @ ascii '']'')) (item_texts vs)"
| "stringify (SObj es) = map_sum id (\<lambda>ts. Some (ascii ''{'' @ join_comma ts @ ascii ''}'')) (entry_texts es)"
| "item_texts [] = Inr []"
| "item_texts (v # vs) =
     (case stringify v of
        Inl e \<Rightarrow> Inl e
      | Inr t \<Rightarrow> map_sum id (Cons (case t of Some t \<Rightarrow> t | None \<Rightarrow> ascii ''null'')) (item_texts vs))"
| "entry_texts [] = Inr []"
| "entry_texts ((k, v) # es) =
     (case stringify v of
        Inl e \<Rightarrow> Inl e
      | Inr None \<Rightarrow> entry_texts es
      | Inr (Some t) \<Rightarrow> map_sum id (Cons (quote k @ ascii '':'' @ t)) (entry_texts es))"

section \<open>Strings\<close>

lemma length_ascii [simp]: "length (ascii s) = length s"
  by (simp add: ascii_def)

lemma unit_nat:
  "is_high c \<longleftrightarrow> 0xd800 \<le> unat c \<and> unat c \<le> 0xdbff" "is_low c \<longleftrightarrow> 0xdc00 \<le> unat c \<and> unat c \<le> 0xdfff"
  "c < 0x20 \<longleftrightarrow> unat c < 0x20" "c < 0x80 \<longleftrightarrow> unat c < 0x80" "c < 0x800 \<longleftrightarrow> unat c < 0x800"
  by (simp_all add: is_high_def is_low_def word_le_nat_alt word_less_nat_alt)

lemma short_nat: "has_short_escape c \<longleftrightarrow> unat c \<in> {0x22, 0x5c, 0x08, 0x09, 0x0a, 0x0c, 0x0d}"
  by (simp add: has_short_escape_def word_unat_eq_iff)

lemma short_escape_some: "short_escape p \<noteq> None \<longleftrightarrow> p \<in> {0x22, 0x5c, 0x08, 0x09, 0x0a, 0x0c, 0x0d}"
  by (auto simp: short_escape_def)

lemma length_quote_point:
  "length (quote_point p) =
     (if p \<in> {0x22, 0x5c, 0x08, 0x09, 0x0a, 0x0c, 0x0d} then 2
      else if p < 0x20 \<or> (0xd800 \<le> p \<and> p \<le> 0xdfff) then 6
      else if p < 0x80 then 1 else if p < 0x800 then 2 else if p < 0x10000 then 3 else 4)"
proof (cases "short_escape p")
  case None
  then have n: "\<not> p \<in> {0x22, 0x5c, 0x08, 0x09, 0x0a, 0x0c, 0x0d}" using short_escape_some [of p] by simp
  show ?thesis unfolding if_not_P [OF n] by (simp add: quote_point_def None unicode_escape_def utf8_def)
next
  case (Some c)
  then have n: "p \<in> {0x22, 0x5c, 0x08, 0x09, 0x0a, 0x0c, 0x0d}" using short_escape_some [of p] by simp
  show ?thesis unfolding if_P [OF n] by (simp add: quote_point_def Some)
qed

lemma unit_length:
  "\<not> (is_high c \<or> is_low c) \<or> \<not> has_short_escape c \<Longrightarrow> length (quote_point (unat c)) =
     (if has_short_escape c then 2 else if c < 0x20 then 6 else if is_high c \<or> is_low c then 6
      else if c < 0x80 then 1 else if c < 0x800 then 2 else 3)"
proof -
  have "unat c < 2 ^ LENGTH(16)" by (rule unsigned_less)
  then show "\<not> (is_high c \<or> is_low c) \<or> \<not> has_short_escape c \<Longrightarrow> length (quote_point (unat c)) =
     (if has_short_escape c then 2 else if c < 0x20 then 6 else if is_high c \<or> is_low c then 6
      else if c < 0x80 then 1 else if c < 0x800 then 2 else 3)"
    by (auto simp: length_quote_point short_nat unit_nat)
qed

lemma surrogates_plain: "is_high c \<or> is_low c \<Longrightarrow> \<not> has_short_escape c \<and> \<not> c < 0x20"
  by (auto simp: short_nat unit_nat)

lemma pair_length:
  assumes "is_high c" and "is_low d"
  shows "length (quote_point (0x10000 + (unat c - 0xd800) * 0x400 + (unat d - 0xdc00))) = 4"
  by (simp add: length_quote_point)

lemma escaped_units_length: "escaped_units s = int (length (concat (map quote_point (code_points s))))"
proof (induction s rule: code_points.induct)
  case 1
  then show ?case by simp
next
  case (2 c)
  then show ?case using surrogates_plain [of c] by (auto simp: unit_length)
next
  case (3 c d cs)
  show ?case
  proof (cases "is_high c \<and> is_low d")
    case True
    with 3(1) surrogates_plain [of c] pair_length [of c d] show ?thesis by simp
  next
    case False
    with 3(2) surrogates_plain [of c] show ?thesis by (auto simp: unit_length)
  qed
qed

lemma string_length: "getEscapedJsonStringByteLength s = int (length (quote s))"
  by (simp add: getEscapedJsonStringByteLength_def escaped_units_length quote_def)

section \<open>Values\<close>

text \<open>The computed size agrees with a text within a limit: it is exact up to the limit and above
  it beyond; where writing the text throws, the computation throws or has passed the limit.\<close>

definition agrees :: "json_error + bytes option \<Rightarrow> int \<Rightarrow> json_error + int option \<Rightarrow> bool" where
  "agrees t maxBytes r \<longleftrightarrow>
     (case t of
        Inl e \<Rightarrow> r = Inl e \<or> (\<exists>n > maxBytes. r = Inr (Some n))
      | Inr None \<Rightarrow> r = Inr None
      | Inr (Some bs) \<Rightarrow>
          if int (length bs) \<le> maxBytes then r = Inr (Some (int (length bs))) else (\<exists>n > maxBytes. r = Inr (Some n)))"

definition rest_size :: "bool \<Rightarrow> bytes list \<Rightarrow> int" where
  "rest_size first ts = sum_list (map (\<lambda>t. int (length t) + 1) ts) - (if first \<and> ts \<noteq> [] then 1 else 0)"

definition agrees_rest :: "json_error + bytes list \<Rightarrow> int \<Rightarrow> bool \<Rightarrow> int \<Rightarrow> json_error + int \<Rightarrow> bool" where
  "agrees_rest t b first maxBytes r \<longleftrightarrow>
     (case t of
        Inl e \<Rightarrow> r = Inl e \<or> (\<exists>n > maxBytes. r = Inr n)
      | Inr ts \<Rightarrow>
          if b + rest_size first ts \<le> maxBytes then r = Inr (b + rest_size first ts) else (\<exists>n > maxBytes. r = Inr n))"

lemma sum_texts_nonneg: "0 \<le> sum_list (map (\<lambda>t. int (length t) + 1) ts)"
  by (induction ts) auto

lemma rest_size_Nil [simp]: "rest_size first [] = 0"
  by (simp add: rest_size_def)

lemma rest_size_Cons: "rest_size first (t # ts) = (if first then 0 else 1) + int (length t) + rest_size False ts"
  by (simp add: rest_size_def)

lemma rest_size_nonneg: "0 \<le> rest_size False ts"
  using sum_texts_nonneg by (simp add: rest_size_def)

lemma length_join: "int (length (join_comma ts)) = rest_size True ts"
  by (induction ts rule: join_comma.induct) (simp_all add: rest_size_def)

lemma agrees_array:
  assumes "agrees_rest ts 2 True maxBytes r" and "length open = 1" and "length close = 1"
  shows "agrees (map_sum id (\<lambda>ts. Some (ascii open @ join_comma ts @ ascii close)) ts) maxBytes (map_sum id Some r)"
proof (cases ts)
  case (Inl e)
  with assms(1) show ?thesis by (auto simp: agrees_rest_def agrees_def)
next
  case (Inr xs)
  have "int (length (ascii open @ join_comma xs @ ascii close)) = 2 + rest_size True xs"
    using assms(2,3) length_join [of xs] by simp
  with assms(1) Inr show ?thesis by (auto simp: agrees_rest_def agrees_def split: if_splits)
qed

text \<open>One step of either loop: \<open>b1\<close> bytes are counted before the value, \<open>pre\<close> of them new.\<close>

lemma agrees_step:
  assumes item: "agrees t (maxBytes - b1) r" and b1: "b1 = b + (if first then 0 else 1) + int (length pre)"
    and rest: "\<And>x b2. t = Inr x \<Longrightarrow> agrees_rest ts b2 False maxBytes (loop b2)"
  shows "agrees_rest (case t of Inl e \<Rightarrow> Inl e
        | Inr x \<Rightarrow> map_sum id (Cons (pre @ (case x of Some x \<Rightarrow> x | None \<Rightarrow> ascii ''null''))) ts) b first maxBytes
      (case r of Inl e \<Rightarrow> Inl e
       | Inr x \<Rightarrow> let b2 = b1 + (case x of Some n \<Rightarrow> n | None \<Rightarrow> 4) in if b2 > maxBytes then Inr b2 else loop b2)"
proof (cases t)
  case (Inl e)
  with item show ?thesis by (auto simp: agrees_def agrees_rest_def Let_def)
next
  case (Inr x)
  let ?text = "case x of Some x \<Rightarrow> x | None \<Rightarrow> ascii ''null''"
  let ?b2 = "b1 + int (length ?text)"
  have total: "b + rest_size first ((pre @ ?text) # xs) = ?b2 + rest_size False xs" for xs
    by (simp add: rest_size_Cons b1)
  show ?thesis
  proof (cases "?b2 \<le> maxBytes")
    case True
    then have "r = Inr (map_option (\<lambda>bs. int (length bs)) x)"
      using item Inr by (cases x) (auto simp: agrees_def)
    then have "(case r of Inl e \<Rightarrow> Inl e
       | Inr x \<Rightarrow> let b2 = b1 + (case x of Some n \<Rightarrow> n | None \<Rightarrow> 4) in if b2 > maxBytes then Inr b2 else loop b2) = loop ?b2"
      using True by (cases x) (auto simp: Let_def)
    with rest [OF Inr, of ?b2] show ?thesis
      using total by (cases ts) (auto simp: Inr agrees_rest_def)
  next
    case False
    then have "\<exists>n > maxBytes. (case r of Inl e \<Rightarrow> Inl e
       | Inr x \<Rightarrow> let b2 = b1 + (case x of Some n \<Rightarrow> n | None \<Rightarrow> 4) in if b2 > maxBytes then Inr b2 else loop b2) = Inr n"
      using item Inr by (cases x) (auto simp: agrees_def Let_def split: if_splits)
    moreover have "\<not> ?b2 + rest_size False xs \<le> maxBytes" for xs using False rest_size_nonneg [of xs] by linarith
    ultimately show ?thesis using total by (cases ts) (auto simp: Inr agrees_rest_def)
  qed
qed

lemma no_text_iff: "stringify v = Inr None \<longleftrightarrow> v = SUndef"
proof -
  have "map_sum id (\<lambda>ts. Some (f ts)) x \<noteq> Inr None" for f :: "bytes list \<Rightarrow> bytes" and x :: "json_error + bytes list"
    by (cases x) simp_all
  then show ?thesis by (cases v) simp_all
qed

lemma size_agrees:
  "agrees (stringify v) maxBytes (getBoundedJsonByteLength v maxBytes)"
  "agrees_rest (item_texts vs) b first maxBytes (bounded_items b first vs maxBytes)"
  "agrees_rest (entry_texts es) b (\<not> has) maxBytes (bounded_entries b has es maxBytes)"
proof (induction v and vs and es arbitrary: maxBytes and b first maxBytes and b has maxBytes
    rule: stringify_item_texts_entry_texts.induct)
  case (4 n)
  then show ?case by (cases n) (auto simp: agrees_def)
next
  case (5 s)
  then show ?case by (simp add: agrees_def string_length)
next
  case (7 vs)
  then show ?case using agrees_array [OF 7, of "''[''" "'']''"] by simp
next
  case (8 es)
  then show ?case using agrees_array [of "entry_texts es" maxBytes "bounded_entries 2 False es maxBytes" "''{''" "''}''"] 8 [where has = False] by simp
next
  case (10 v vs)
  have "agrees_rest (case stringify v of Inl e \<Rightarrow> Inl e
      | Inr x \<Rightarrow> map_sum id (Cons ([] @ (case x of Some x \<Rightarrow> x | None \<Rightarrow> ascii ''null''))) (item_texts vs)) b first maxBytes
    (case getBoundedJsonByteLength v (maxBytes - (if first then b else b + 1)) of Inl e \<Rightarrow> Inl e
     | Inr x \<Rightarrow> let b2 = (if first then b else b + 1) + (case x of Some n \<Rightarrow> n | None \<Rightarrow> 4)
         in if b2 > maxBytes then Inr b2 else bounded_items b2 False vs maxBytes)"
    by (rule agrees_step [OF 10(1)]) (use 10(2) in auto)
  then show ?case unfolding item_texts.simps bounded_items.simps Let_def append_Nil .
next
  case (12 k v es)
  show ?case
  proof (cases "v = SUndef")
    case True
    with 12(2) show ?thesis by simp
  next
    case False
    have rest: "agrees_rest (entry_texts es) b2 False maxBytes (bounded_entries b2 True es maxBytes)" if "stringify v = Inr x" for x b2
      using 12(2,3) [of x, where has = True] that by (cases x) auto
    have "agrees_rest (case stringify v of Inl e \<Rightarrow> Inl e
        | Inr x \<Rightarrow> map_sum id (Cons ((quote k @ ascii '':'') @ (case x of Some x \<Rightarrow> x | None \<Rightarrow> ascii ''null''))) (entry_texts es))
        b (\<not> has) maxBytes
      (case getBoundedJsonByteLength v (maxBytes - ((if has then b + 1 else b) + getEscapedJsonStringByteLength k + 1)) of Inl e \<Rightarrow> Inl e
       | Inr x \<Rightarrow> let b2 = ((if has then b + 1 else b) + getEscapedJsonStringByteLength k + 1) + (case x of Some n \<Rightarrow> n | None \<Rightarrow> 4)
           in if b2 > maxBytes then Inr b2 else bounded_entries b2 True es maxBytes)"
      by (rule agrees_step [OF 12(1)]) (use rest in \<open>auto simp: string_length\<close>)
    moreover have "entry_texts ((k, v) # es) = (case stringify v of Inl e \<Rightarrow> Inl e
        | Inr x \<Rightarrow> map_sum id (Cons ((quote k @ ascii '':'') @ (case x of Some x \<Rightarrow> x | None \<Rightarrow> ascii ''null''))) (entry_texts es))"
      using False no_text_iff [of v] by (auto split: sum.split option.split)
    ultimately show ?thesis using False by (simp add: Let_def)
  qed
qed (simp_all add: agrees_def agrees_rest_def)

text \<open>
  C30: the size guard is exact. For every value the size the guard computes is the number of
  bytes of its JSON text whenever that text fits the limit, and exceeds the limit whenever
  the text does, although the count is abandoned early; so a value whose text can be
  written passes the guard exactly when the text has at most 8 MiB, and a value without a
  text always passes.
\<close>

theorem snapshot_guard_exact:
  shows "(\<forall>bs. stringify v = Inr (Some bs) \<longrightarrow>
      (int (length bs) \<le> maxBytes \<longrightarrow> getBoundedJsonByteLength v maxBytes = Inr (Some (int (length bs)))) \<and>
      (assertSnapshotValueIsCompact v lbl = Inr () \<longleftrightarrow> int (length bs) \<le> LARGE_VALUE_THRESHOLD_BYTES)) \<and>
    (stringify v = Inr None \<longrightarrow> assertSnapshotValueIsCompact v lbl = Inr ()) \<and>
    (stringify v = Inl e \<longrightarrow> assertSnapshotValueIsCompact v lbl \<noteq> Inr ())"
  using size_agrees(1) [of v maxBytes] size_agrees(1) [of v LARGE_VALUE_THRESHOLD_BYTES]
  by (auto simp: agrees_def assertSnapshotValueIsCompact_def split: if_splits)

text \<open>A string with an escape, a character outside the basic plane, and a lone surrogate.\<close>

definition odd_value :: snap_value where
  "odd_value = SObj [([0x61], SArr [SStr [0x22, 0xd83d, 0xde00, 0xd83d], SUndef, SNum (Some ''12'')]), ([0x62], SUndef)]"

theorem snapshot_guard_exact_witness:
  "getBoundedJsonByteLength odd_value 100 = Inr (Some 30) \<and> assertSnapshotValueIsCompact odd_value ''v'' = Inr ()"
proof -
  have q: "length (quote s) = nat (getEscapedJsonStringByteLength s)" for s by (simp add: string_length)
  have "\<exists>bs. stringify odd_value = Inr (Some bs) \<and> length bs = 30"
    by (simp add: odd_value_def q getEscapedJsonStringByteLength_def has_short_escape_def is_high_def is_low_def)
  then obtain bs where "stringify odd_value = Inr (Some bs)" "length bs = 30" by blast
  with snapshot_guard_exact [of odd_value 100 "''v''"] show ?thesis by (simp add: LARGE_VALUE_THRESHOLD_BYTES_def)
qed

end
