(* ===== verification/BlockExec.thy ===== *)
theory BlockExec
  imports NodeProps
begin

text \<open>
  \<open>BlockExecutor\<close> (\<open>executor/execution/block-executor.ts\<close>) with its retry policy
  (\<open>executor/execution/block-retry.ts\<close>, \<open>lib/workflows/blocks/retry-eligibility.ts\<close> and
  \<open>resolveBlockRetryConfig\<close> of \<open>packages/workflow-types\<close>): how one block runs, is tried again,
  fails, and where its output goes. It is the block executor that the node orchestrator
  takes as a parameter.

  What happens outside is the record \<open>block_host\<close>: which blocks have a handler, the
  permission check, the resolution of the inputs, the handler itself, the hydration and
  compaction of its output, the state of the abort signal whenever the code reads it, the
  links of a pause, and the duration that is stored. Logs, callbacks and secret provenance
  are not part of the model. Costs are in a unit in which they are whole; they are never negative, as an attached cost is checked to be.
\<close>

section \<open>Errors\<close>

record cost =
  cost_input :: nat
  cost_output :: nat
  cost_total :: nat

record child_info =
  cw_name :: string
  cw_snapshotId :: "string option"

text \<open>A thrown value: an \<open>Error\<close> with what the code reads of it, its trusted cost and its cause,
  or another value, which has only its text. The cause chain is a list, not a cycle.\<close>

datatype js_error =
    ErrorObj (er_name: string) (er_message: string) (er_retryable: "bool option") (er_child: "child_info option")
      (er_database: bool) (er_cost: "cost option") (er_cause: "js_error option")
  | OtherThrown string

definition normalizeError :: "js_error \<Rightarrow> string" where
  "normalizeError e = (case e of ErrorObj _ m _ _ _ _ _ \<Rightarrow> m | OtherThrown s \<Rightarrow> s)"

definition readTrustedExecutionCost :: "js_error \<Rightarrow> cost option" where
  "readTrustedExecutionCost e = (case e of ErrorObj _ _ _ _ _ c _ \<Rightarrow> c | OtherThrown _ \<Rightarrow> None)"

definition attachTrustedExecutionCost :: "js_error \<Rightarrow> cost option \<Rightarrow> js_error" where
  "attachTrustedExecutionCost e c =
     (case (e, c) of
        (ErrorObj n m r ch db _ cause, Some c) \<Rightarrow> ErrorObj n m r ch db (Some c) cause
      | _ \<Rightarrow> e)"

fun find_cause :: "nat \<Rightarrow> (js_error \<Rightarrow> bool) \<Rightarrow> js_error \<Rightarrow> js_error option" where
  "find_cause 0 P e = None"
| "find_cause (Suc k) P (OtherThrown s) = None"
| "find_cause (Suc k) P (ErrorObj n m r ch db c cause) =
     (if P (ErrorObj n m r ch db c cause) then Some (ErrorObj n m r ch db c cause)
      else case cause of None \<Rightarrow> None | Some e \<Rightarrow> find_cause k P e)"

definition findCause :: "(js_error \<Rightarrow> bool) \<Rightarrow> js_error \<Rightarrow> js_error option" where
  "findCause P e = find_cause 10 P e"

definition isAbortError :: "js_error \<Rightarrow> bool" where
  "isAbortError e \<longleftrightarrow> (case e of ErrorObj n _ _ _ _ _ _ \<Rightarrow> n = ''AbortError'' | OtherThrown _ \<Rightarrow> False)"

definition isChildWorkflowError :: "js_error \<Rightarrow> bool" where
  "isChildWorkflowError e \<longleftrightarrow> (case e of ErrorObj _ _ _ ch _ _ _ \<Rightarrow> ch \<noteq> None | OtherThrown _ \<Rightarrow> False)"

definition marked_final :: "js_error \<Rightarrow> bool" where
  "marked_final e \<longleftrightarrow> (case e of ErrorObj _ _ r _ _ _ _ \<Rightarrow> r = Some False | OtherThrown _ \<Rightarrow> False)"

definition isNonRetryableExecutionError :: "js_error \<Rightarrow> bool" where
  "isNonRetryableExecutionError e \<longleftrightarrow> findCause marked_final e \<noteq> None"

definition isRetryableBlockError :: "js_error \<Rightarrow> bool" where
  "isRetryableBlockError e \<longleftrightarrow>
     (if isNonRetryableExecutionError e then False
      else if findCause isChildWorkflowError e \<noteq> None then False
      else if findCause isAbortError e \<noteq> None then False else True)"

section \<open>The retry policy\<close>

record retry_policy =
  rp_maxTries :: int
  rp_waitBetweenTriesMs :: int

definition normalizeBound :: "js_number option \<Rightarrow> int \<Rightarrow> int \<Rightarrow> int \<Rightarrow> int" where
  "normalizeBound v lo hi fallback =
     (case v of None \<Rightarrow> fallback | Some NotFinite \<Rightarrow> fallback | Some (Finite n) \<Rightarrow> min hi (max lo n))"

definition normalizeBlockRetryTries :: "js_number option \<Rightarrow> int" where
  "normalizeBlockRetryTries v = normalizeBound v 2 5 3"

definition normalizeBlockRetryWaitMs :: "js_number option \<Rightarrow> int" where
  "normalizeBlockRetryWaitMs v = normalizeBound v 0 5000 1000"

definition resolveBlockRetryConfig :: "retry_config option \<Rightarrow> retry_policy option" where
  "resolveBlockRetryConfig r =
     (case r of
        None \<Rightarrow> None
      | Some rc \<Rightarrow>
          if \<not> rc_enabled rc then None
          else Some \<lparr>rp_maxTries = normalizeBlockRetryTries (rc_maxTries rc),
                     rp_waitBetweenTriesMs = normalizeBlockRetryWaitMs (rc_waitBetweenTriesMs rc)\<rparr>)"

definition isRetryEligibleBlock :: "string option \<Rightarrow> string option \<Rightarrow> bool \<Rightarrow> bool" where
  "isRetryEligibleBlock blockType category triggerMode \<longleftrightarrow>
     (if falsy_str blockType then False
      else if isHumanInTheLoopBlock blockType then False
      else if triggerMode \<or> category = Some ''triggers'' then False
      else \<not> isSentinelBlockType blockType \<and> \<not> isMetadataOnlyBlockType blockType)"

definition resolveBlockRetryPolicy :: "sblock \<Rightarrow> retry_policy option" where
  "resolveBlockRetryPolicy b =
     (if isRetryEligibleBlock (blk_type b) (blk_category b) (get_prop (blk_params b) ''triggerMode'' = JBool True)
      then resolveBlockRetryConfig (blk_retry b) else None)"

section \<open>Trying a handler again\<close>

record retry_attempt =
  ra_attempt :: int
  ra_maxTries :: int
  ra_isFinalTry :: bool

text \<open>What a handler returns: a value, or a stream with the error that draining it ends in, if
  any, and the output it has by then; with the trusted cost of the result.\<close>

datatype handler_result = Value jval | Streaming "js_error option" jval

record handler_output =
  ho_result :: handler_result
  ho_cost :: "cost option"

definition addTrustedExecutionCosts :: "cost option \<Rightarrow> cost option \<Rightarrow> cost option" where
  "addTrustedExecutionCosts accumulated current =
     (case (accumulated, current) of
        (None, _) \<Rightarrow> current
      | (_, None) \<Rightarrow> accumulated
      | (Some a, Some c) \<Rightarrow> Some \<lparr>cost_input = cost_input a + cost_input c, cost_output = cost_output a + cost_output c,
                                cost_total = cost_total a + cost_total c\<rparr>)"

definition cost_value :: "cost \<Rightarrow> jval" where
  "cost_value c = JObj [(''input'', JNum (int (cost_input c))), (''output'', JNum (int (cost_output c))), (''total'', JNum (int (cost_total c)))]"

text \<open>The cost of failed tries is added to the output of the try that succeeds.\<close>

definition with_cost :: "cost option \<Rightarrow> handler_output \<Rightarrow> handler_output" where
  "with_cost accumulated out =
     (case addTrustedExecutionCosts accumulated (ho_cost out) of
        None \<Rightarrow> out
      | Some t \<Rightarrow>
          (if accumulated = None then out
           else case ho_result out of
                  Value (JObj obj) \<Rightarrow> out\<lparr>ho_result := Value (JObj (mput ''cost'' (cost_value t) obj)), ho_cost := Some t\<rparr>
                | Streaming _ _ \<Rightarrow> out\<lparr>ho_cost := Some t\<rparr>
                | _ \<Rightarrow> out))"

text \<open>The loop of \<open>runHandlerWithRetry\<close> at try \<open>tries\<close>. \<open>failed k\<close> and \<open>waited k\<close> tell whether the run
  is aborted when try \<open>k\<close> has failed, and after the wait that follows it. The result comes with
  the number of tries.\<close>

function retry_loop ::
  "(retry_attempt option \<Rightarrow> 'w \<Rightarrow> (js_error + handler_output) \<times> 'w) \<Rightarrow> (int \<Rightarrow> bool) \<Rightarrow> (int \<Rightarrow> bool) \<Rightarrow> bool \<Rightarrow> int \<Rightarrow>
   cost option \<Rightarrow> int \<Rightarrow> 'w \<Rightarrow> (js_error + handler_output) \<times> int \<times> 'w" where
  "retry_loop invoke failed waited addsCost maxTries acc tries w =
     (let isFinal = tries \<ge> maxTries
      in case invoke (Some \<lparr>ra_attempt = tries, ra_maxTries = maxTries, ra_isFinalTry = isFinal\<rparr>) w of
           (Inr out, w1) \<Rightarrow> (Inr (if addsCost then with_cost acc out else out), tries, w1)
         | (Inl e, w1) \<Rightarrow>
             (let acc1 = (if addsCost then addTrustedExecutionCosts acc (readTrustedExecutionCost e) else acc)
              in if isFinal \<or> failed tries \<or> \<not> isRetryableBlockError e \<or> waited tries
                 then (Inl (attachTrustedExecutionCost e acc1), tries, w1)
                 else retry_loop invoke failed waited addsCost maxTries acc1 (tries + 1) w1))"
  by pat_completeness auto
termination by (relation "measure (\<lambda>(_, _, _, _, maxTries, _, tries, _). nat (maxTries - tries))") auto

declare retry_loop.simps [simp del]

definition runHandlerWithRetry ::
  "(retry_attempt option \<Rightarrow> 'w \<Rightarrow> (js_error + handler_output) \<times> 'w) \<Rightarrow> (int \<Rightarrow> bool) \<Rightarrow> (int \<Rightarrow> bool) \<Rightarrow> sblock \<Rightarrow> 'w \<Rightarrow>
   (js_error + handler_output) \<times> int \<times> 'w" where
  "runHandlerWithRetry invoke failed waited b w =
     (case resolveBlockRetryPolicy b of
        None \<Rightarrow> (case invoke None w of (r, w1) \<Rightarrow> (r, 1, w1))
      | Some p \<Rightarrow> retry_loop invoke failed waited (blk_type b = Some ''function'') (rp_maxTries p) None 1 w)"

section \<open>Running a block\<close>

record block_host =
  bh_canHandle :: "sblock \<Rightarrow> bool"
  bh_validate :: "world \<Rightarrow> sblock \<Rightarrow> js_error option"
  bh_resolve :: "world \<Rightarrow> string \<Rightarrow> sblock \<Rightarrow> js_error + jobj"
  bh_invoke :: "dag_node \<Rightarrow> sblock \<Rightarrow> jobj \<Rightarrow> retry_attempt option \<Rightarrow> world \<Rightarrow> (js_error + handler_output) \<times> world"
  bh_finish :: "world \<Rightarrow> jobj \<Rightarrow> js_error + jobj"
  bh_abortedFailed :: "int \<Rightarrow> bool"
  bh_abortedWaited :: "int \<Rightarrow> bool"
  bh_aborted :: bool
  bh_timedOut :: bool
  bh_resumeLinks :: "world \<Rightarrow> dag_node \<Rightarrow> (string \<times> string) option"
  bh_duration :: nat

definition put_output :: "nat \<Rightarrow> string \<Rightarrow> jobj \<Rightarrow> world \<Rightarrow> world" where
  "put_output duration i out w = upd_state (setBlockOutput False i out duration None) w"

text \<open>The output of a branch of a parallel is also stored under the id of its global index and under
  the id of its outer branch, unless the node is itself a clone in an outer branch.\<close>

definition setNodeOutput :: "nat \<Rightarrow> dag_node \<Rightarrow> jobj \<Rightarrow> world \<Rightarrow> world" where
  "setNodeOutput duration n out w =
     (let w1 = put_output duration (node_id n) out w
      in case (m_originalBlockId (metadata n), m_branchIndex (metadata n)) of
           (Some b, Some i) \<Rightarrow>
             if m_isParallelBranch (metadata n) \<and> b \<noteq> [] \<and> extractOuterBranchIndex (node_id n) = None
             then let w2 = (if buildBranchNodeId b i \<noteq> node_id n then put_output duration (buildBranchNodeId b i) out w1 else w1)
                  in put_output duration (buildOuterBranchScopedId b i) out w2
             else w1
         | _ \<Rightarrow> w1)"

text \<open>The placeholder of a pause block, by which its inputs can refer to its own links, and its
  removal.\<close>

definition preparePauseResumeSelfReference :: "block_host \<Rightarrow> dag_node \<Rightarrow> world \<Rightarrow> world" where
  "preparePauseResumeSelfReference h n w =
     (let existing = stored (w_state w) (node_id n)
      in if (case existing of None \<Rightarrow> False | Some s \<Rightarrow> bs_executed s) then w
         else case bh_resumeLinks h w n of
                None \<Rightarrow> w
              | Some (ui, api) \<Rightarrow>
                  upd_state (setBlockState (node_id n)
                    \<lparr>bs_output = [(''url'', JStr ui), (''resumeEndpoint'', JStr api)], bs_executed = False,
                     bs_time = (case existing of None \<Rightarrow> 0 | Some s \<Rightarrow> bs_time s), bs_provenance = None\<rparr>) w)"

definition cleanupSelfReference :: "block_host \<Rightarrow> dag_node \<Rightarrow> world \<Rightarrow> world \<Rightarrow> world" where
  "cleanupSelfReference h n w0 w =
     (let existing = stored (w_state w0) (node_id n)
      in if (case existing of None \<Rightarrow> False | Some s \<Rightarrow> bs_executed s) \<or> bh_resumeLinks h w0 n = None then w
         else case existing of
                None \<Rightarrow> upd_state (deleteBlockState (node_id n)) w
              | Some s \<Rightarrow> upd_state (setBlockState (node_id n) s) w)"

definition normalizeOutput :: "jval \<Rightarrow> jobj" where
  "normalizeOutput v =
     (case v of JNull \<Rightarrow> [] | JUndef \<Rightarrow> [] | JObj obj \<Rightarrow> obj | _ \<Rightarrow> [(''result'', v)])"

definition hasErrorPortEdge :: "dag_node \<Rightarrow> bool" where
  "hasErrorPortEdge n \<longleftrightarrow> (\<exists>e \<in> set (out_edges n). edge_sourceHandle e = Some ERROR)"

definition INTERNAL_DATABASE_ERROR_MESSAGE :: string where
  "INTERNAL_DATABASE_ERROR_MESSAGE = ''An internal error occurred while executing the block. Please try again.''"

definition is_database :: "js_error \<Rightarrow> bool" where
  "is_database e = (case e of ErrorObj _ _ _ _ db _ _ \<Rightarrow> db | OtherThrown _ \<Rightarrow> False)"

definition error_message :: "js_error \<Rightarrow> string" where
  "error_message e = (if is_database e then INTERNAL_DATABASE_ERROR_MESSAGE else normalizeError e)"

definition blockExecutionError :: "sblock \<Rightarrow> string \<Rightarrow> run_error" where
  "blockExecutionError b msg =
     BlockError ((if falsy_str (blk_name b) then blk_id b else the (blk_name b)) @ '': '' @ msg)"

definition child_entries :: "sblock \<Rightarrow> js_error \<Rightarrow> jobj \<Rightarrow> jobj" where
  "child_entries b e out =
     (case e of
        ErrorObj _ _ _ (Some ch) _ _ _ \<Rightarrow>
          if isWorkflowBlockType (blk_type b)
          then let out1 = mput ''childWorkflowName'' (JStr (cw_name ch)) out
               in if falsy_str (cw_snapshotId ch) then out1
                  else mput ''childWorkflowSnapshotId'' (JStr (the (cw_snapshotId ch))) out1
          else out
      | _ \<Rightarrow> out)"

definition error_output :: "sblock \<Rightarrow> js_error \<Rightarrow> jobj \<Rightarrow> cost option \<Rightarrow> jobj" where
  "error_output b e partial completedCost =
     (let c = (case readTrustedExecutionCost e of Some c \<Rightarrow> Some c | None \<Rightarrow> completedCost);
          out0 = [(''error'', JStr (error_message e))] @ (case c of None \<Rightarrow> [] | Some c \<Rightarrow> [(''cost'', cost_value c)]);
          out1 = (case get_prop partial ''content'' of
                    JStr s \<Rightarrow> if s \<noteq> [] then mput ''content'' (JStr s) out0 else out0
                  | _ \<Rightarrow> out0)
      in child_entries b e out1)"

definition soft_stop :: "block_host \<Rightarrow> sblock \<Rightarrow> js_error \<Rightarrow> bool" where
  "soft_stop h b e \<longleftrightarrow> isAbortError e \<and> \<not> bh_timedOut h \<and> bh_aborted h \<and> blk_type b = Some ''agent''"

definition handleBlockError ::
  "block_host \<Rightarrow> dag_node \<Rightarrow> sblock \<Rightarrow> js_error \<Rightarrow> jobj \<Rightarrow> cost option \<Rightarrow> world \<Rightarrow> (run_error + jobj) \<times> world" where
  "handleBlockError h n b e partial completedCost w =
     (if soft_stop h b e
      then let out = [(''content'', JStr [])] in (Inr out, setNodeOutput (bh_duration h) n out w)
      else let out = error_output b e partial completedCost; w1 = setNodeOutput (bh_duration h) n out w
           in if hasErrorPortEdge n then (Inr out, w1) else (Inl (blockExecutionError b (error_message e)), w1))"

definition as_object :: "jval \<Rightarrow> jobj" where
  "as_object v = (case v of JObj obj \<Rightarrow> obj | _ \<Rightarrow> [])"

text \<open>What happens to a handler's output before it is stored: a stream is drained, the output is
  normalized, hydrated and compacted, and the trace spans of a child workflow are taken off.
  An error comes with the part of the answer that has been drained.\<close>

definition settle_output :: "block_host \<Rightarrow> handler_output \<Rightarrow> world \<Rightarrow> (js_error \<times> jobj) + jobj" where
  "settle_output h ho w =
     (let drained = (case ho_result ho of
            Value v \<Rightarrow> Inr (normalizeOutput v)
          | Streaming None v \<Rightarrow> Inr (normalizeOutput v)
          | Streaming (Some e) v \<Rightarrow> Inl (e, as_object v))
      in case drained of
           Inl x \<Rightarrow> Inl x
         | Inr out \<Rightarrow>
             (case bh_finish h w out of
                Inl e \<Rightarrow> Inl (e, [])
              | Inr out1 \<Rightarrow> Inr (mdel ''childTraceSpans'' out1)))"

definition execute_inputs :: "block_host \<Rightarrow> dag_node \<Rightarrow> sblock \<Rightarrow> world \<Rightarrow> js_error + jobj" where
  "execute_inputs h n b w =
     (case (if \<not> isSentinelBlockType (blk_type b) \<and> \<not> falsy_str (blk_type b) then bh_validate h w b else None) of
        Some e \<Rightarrow> Inl e
      | None \<Rightarrow> bh_resolve h w (node_id n) b)"

definition execute_handler :: "block_host \<Rightarrow> dag_node \<Rightarrow> sblock \<Rightarrow> jobj \<Rightarrow> world \<Rightarrow> (run_error + jobj) \<times> world" where
  "execute_handler h n b inputs w =
     (case runHandlerWithRetry (bh_invoke h n b inputs) (bh_abortedFailed h) (bh_abortedWaited h) b w of
        (Inl e, _, w1) \<Rightarrow> handleBlockError h n b e [] None w1
      | (Inr ho, _, w1) \<Rightarrow>
          (case settle_output h ho w1 of
             Inl (e, partial) \<Rightarrow> handleBlockError h n b e partial (ho_cost ho) w1
           | Inr out \<Rightarrow> (Inr out, setNodeOutput (bh_duration h) n out w1)))"

definition execute_block :: "block_host \<Rightarrow> dag_node \<Rightarrow> sblock \<Rightarrow> world \<Rightarrow> (run_error + jobj) \<times> world" where
  "execute_block h n b w =
     (if \<not> bh_canHandle h b
      then (Inl (blockExecutionError b (''No handler found for block type: '' @
              (case blk_type b of None \<Rightarrow> ''unknown'' | Some t \<Rightarrow> t))), w)
      else
        (let pauses = isHumanInTheLoopBlock (blk_type b);
             w1 = (if pauses then preparePauseResumeSelfReference h n w else w);
             inputs = execute_inputs h n b w1;
             w2 = (if pauses then cleanupSelfReference h n w w1 else w1)
         in case inputs of
              Inl e \<Rightarrow> handleBlockError h n b e [] None w2
            | Inr r \<Rightarrow> execute_handler h n b r w2))"

text \<open>The block executor as the node orchestrator calls it.\<close>

definition block_run :: "block_host \<Rightarrow> block_runner" where
  "block_run h w n = execute_block h n (node_block n) w"

end
