(* ===== verification/BlockExecProps.thy ===== *)
theory BlockExecProps
  imports BlockExec ExecutorProps
begin

text \<open>
  Properties of the block executor: how often a handler is tried and what comes of it, where
  the output of a block is stored and read again, what an error port fires, that the
  placeholder of a pause block leaves no trace, and that the block executor keeps the
  invariant of a run, which the theorems about runs assume of it.
\<close>

section \<open>Retries\<close>

definition try_of :: "int \<Rightarrow> nat \<Rightarrow> retry_attempt option" where
  "try_of maxTries k = Some \<lparr>ra_attempt = int k, ra_maxTries = maxTries, ra_isFinalTry = int k \<ge> maxTries\<rparr>"

text \<open>The world before try \<open>k + 1\<close>, and the cost of the first \<open>k\<close> tries, when they fail.\<close>

primrec before_try :: "(retry_attempt option \<Rightarrow> 'w \<Rightarrow> (js_error + handler_output) \<times> 'w) \<Rightarrow> int \<Rightarrow> nat \<Rightarrow> 'w \<Rightarrow> 'w" where
  "before_try invoke m 0 w = w"
| "before_try invoke m (Suc k) w = snd (invoke (try_of m (Suc k)) (before_try invoke m k w))"

definition error_at :: "(retry_attempt option \<Rightarrow> 'w \<Rightarrow> (js_error + handler_output) \<times> 'w) \<Rightarrow> int \<Rightarrow> nat \<Rightarrow> 'w \<Rightarrow> js_error option" where
  "error_at invoke m k w =
     (case fst (invoke (try_of m k) (before_try invoke m (k - 1) w)) of Inl e \<Rightarrow> Some e | Inr _ \<Rightarrow> None)"

primrec spent :: "(retry_attempt option \<Rightarrow> 'w \<Rightarrow> (js_error + handler_output) \<times> 'w) \<Rightarrow> int \<Rightarrow> nat \<Rightarrow> 'w \<Rightarrow> cost option" where
  "spent invoke m 0 w = None"
| "spent invoke m (Suc k) w = addTrustedExecutionCosts (spent invoke m k w)
     (case error_at invoke m (Suc k) w of None \<Rightarrow> None | Some e \<Rightarrow> readTrustedExecutionCost e)"

text \<open>How the loop ends at try \<open>t\<close>.\<close>

definition ends_at ::
  "(retry_attempt option \<Rightarrow> 'w \<Rightarrow> (js_error + handler_output) \<times> 'w) \<Rightarrow> (int \<Rightarrow> bool) \<Rightarrow> (int \<Rightarrow> bool) \<Rightarrow> bool \<Rightarrow> int \<Rightarrow> 'w \<Rightarrow>
   nat \<Rightarrow> (js_error + handler_output) \<Rightarrow> 'w \<Rightarrow> bool" where
  "ends_at invoke failed waited addsCost m w t r w' \<longleftrightarrow>
     w' = before_try invoke m t w \<and>
     (let acc = (if addsCost then spent invoke m (t - 1) w else None)
      in case fst (invoke (try_of m t) (before_try invoke m (t - 1) w)) of
           Inr out \<Rightarrow> r = Inr (if addsCost then with_cost acc out else out)
         | Inl e \<Rightarrow> r = Inl (attachTrustedExecutionCost e (if addsCost then spent invoke m t w else None)) \<and>
             (int t \<ge> m \<or> failed (int t) \<or> \<not> isRetryableBlockError e \<or> waited (int t)))"

lemma retry_loop_ends:
  assumes "retry_loop invoke failed waited addsCost m (if addsCost then spent invoke m k w else None) (int (Suc k))
      (before_try invoke m k w) = (r, t, w')"
    and "int (Suc k) \<le> m"
  shows "\<exists>n. t = int n \<and> Suc k \<le> n \<and> int n \<le> m \<and> ends_at invoke failed waited addsCost m w n r w' \<and>
    (\<forall>j. Suc k \<le> j \<and> j < n \<longrightarrow> (\<exists>e. error_at invoke m j w = Some e \<and> isRetryableBlockError e) \<and>
       \<not> failed (int j) \<and> \<not> waited (int j))"
  using assms
proof (induction "nat (m - int k)" arbitrary: k rule: less_induct)
  case less
  let ?acc = "if addsCost then spent invoke m k w else None" and ?w = "before_try invoke m k w"
  have att: "Some \<lparr>ra_attempt = int (Suc k), ra_maxTries = m, ra_isFinalTry = int (Suc k) \<ge> m\<rparr> = try_of m (Suc k)"
    by (simp add: try_of_def)
  obtain x w1 where i: "invoke (try_of m (Suc k)) ?w = (x, w1)" by (cases "invoke (try_of m (Suc k)) ?w")
  note unfolded = less.prems(1) [unfolded retry_loop.simps [of invoke failed waited addsCost m ?acc "int (Suc k)"] Let_def att i]
  show ?case
  proof (cases x)
    case (Inr out)
    with unfolded have "r = Inr (if addsCost then with_cost ?acc out else out)" "t = int (Suc k)" "w' = w1" by auto
    with i Inr less.prems(2) show ?thesis
      by (intro exI [of _ "Suc k"]) (auto simp: ends_at_def Let_def)
  next
    case (Inl e)
    have err: "error_at invoke m (Suc k) w = Some e" by (simp add: error_at_def i Inl)
    show ?thesis
    proof (cases "int (Suc k) \<ge> m \<or> failed (int (Suc k)) \<or> \<not> isRetryableBlockError e \<or> waited (int (Suc k))")
      case True
      with unfolded Inl err have "r = Inl (attachTrustedExecutionCost e (if addsCost then spent invoke m (Suc k) w else None))"
        "t = int (Suc k)" "w' = w1"
        by (cases addsCost; simp)+
      with i Inl True less.prems(2) show ?thesis
        by (intro exI [of _ "Suc k"]) (auto simp add: ends_at_def Let_def simp del: spent.simps)
    next
      case False
      have "retry_loop invoke failed waited addsCost m (if addsCost then spent invoke m (Suc k) w else None)
          (int (Suc k) + 1) w1 = (r, t, w')"
        using unfolded Inl err False by (cases addsCost) simp_all
      then have rec: "retry_loop invoke failed waited addsCost m (if addsCost then spent invoke m (Suc k) w else None)
          (int (Suc (Suc k))) (before_try invoke m (Suc k) w) = (r, t, w')"
        by (simp add: i add.commute del: spent.simps)
      have "nat (m - int (Suc k)) < nat (m - int k)" "int (Suc (Suc k)) \<le> m" using False less.prems(2) by auto
      from less.hyps [OF this(1) rec this(2)] obtain n where n: "t = int n" "Suc (Suc k) \<le> n" "int n \<le> m"
        "ends_at invoke failed waited addsCost m w n r w'"
        "\<forall>j. Suc (Suc k) \<le> j \<and> j < n \<longrightarrow> (\<exists>e. error_at invoke m j w = Some e \<and> isRetryableBlockError e) \<and>
           \<not> failed (int j) \<and> \<not> waited (int j)" by blast
      have "(\<exists>e. error_at invoke m j w = Some e \<and> isRetryableBlockError e) \<and> \<not> failed (int j) \<and> \<not> waited (int j)"
        if "Suc k \<le> j" "j < n" for j
        using n(5) err False that by (cases "j = Suc k") auto
      with n show ?thesis by (intro exI [of _ n]) auto
    qed
  qed
qed

lemma policy_bounds:
  assumes "resolveBlockRetryPolicy b = Some p"
  shows "2 \<le> rp_maxTries p" "rp_maxTries p \<le> 5" "0 \<le> rp_waitBetweenTriesMs p" "rp_waitBetweenTriesMs p \<le> 5000"
  using assms
  by (auto simp: resolveBlockRetryPolicy_def resolveBlockRetryConfig_def normalizeBlockRetryTries_def
      normalizeBlockRetryWaitMs_def normalizeBound_def split: if_splits option.splits js_number.splits)

text \<open>
  C26: A handler is tried once when the block has no retry policy, and otherwise between once and
  at most the two to five times of its policy: every try but the last has failed with an error
  that may be tried again and the run was not aborted then; the last one succeeded, or its
  error may not be tried again, or the run was aborted, or the tries are used up. The result
  is that of the last try, with the costs of the failed ones added for a function block; a
  policy exists only for an eligible block whose configuration enables it.
\<close>

theorem retry_tries:
  "case runHandlerWithRetry invoke failed waited b w of
     (r, t, w') \<Rightarrow>
       (case resolveBlockRetryPolicy b of
          None \<Rightarrow> t = 1 \<and> (r, w') = invoke None w
        | Some p \<Rightarrow>
            2 \<le> rp_maxTries p \<and> rp_maxTries p \<le> 5 \<and> blk_retry b \<noteq> None \<and>
            isRetryEligibleBlock (blk_type b) (blk_category b) (get_prop (blk_params b) ''triggerMode'' = JBool True) \<and>
            (\<exists>n. t = int n \<and> 1 \<le> n \<and> int n \<le> rp_maxTries p \<and>
              ends_at invoke failed waited (blk_type b = Some ''function'') (rp_maxTries p) w n r w' \<and>
              (\<forall>j. 1 \<le> j \<and> j < n \<longrightarrow>
                (\<exists>e. error_at invoke (rp_maxTries p) j w = Some e \<and> isRetryableBlockError e) \<and>
                \<not> failed (int j) \<and> \<not> waited (int j))))"
proof (cases "resolveBlockRetryPolicy b")
  case None
  then show ?thesis by (simp add: runHandlerWithRetry_def split: prod.splits)
next
  case (Some p)
  note bounds = policy_bounds [OF Some]
  obtain r t w' where run: "runHandlerWithRetry invoke failed waited b w = (r, t, w')" by (metis prod_cases3)
  with Some have "retry_loop invoke failed waited (blk_type b = Some ''function'') (rp_maxTries p)
      (if blk_type b = Some ''function'' then spent invoke (rp_maxTries p) 0 w else None) (int (Suc 0))
      (before_try invoke (rp_maxTries p) 0 w) = (r, t, w')"
    by (cases "blk_type b = Some ''function''") (simp_all add: runHandlerWithRetry_def)
  from retry_loop_ends [OF this] bounds obtain n where "t = int n" "1 \<le> n" "int n \<le> rp_maxTries p"
    "ends_at invoke failed waited (blk_type b = Some ''function'') (rp_maxTries p) w n r w'"
    "\<forall>j. 1 \<le> j \<and> j < n \<longrightarrow> (\<exists>e. error_at invoke (rp_maxTries p) j w = Some e \<and> isRetryableBlockError e) \<and>
       \<not> failed (int j) \<and> \<not> waited (int j)" by auto
  moreover have "blk_retry b \<noteq> None"
    "isRetryEligibleBlock (blk_type b) (blk_category b) (get_prop (blk_params b) ''triggerMode'' = JBool True)"
    using Some by (auto simp: resolveBlockRetryPolicy_def resolveBlockRetryConfig_def split: if_splits option.splits)
  ultimately show ?thesis using run Some bounds by auto
qed

text \<open>A function block with three tries whose handler fails twice, at a cost, and then answers.\<close>

definition flaky_block :: sblock where
  "flaky_block = (demo_block ''f'' ''function'' True)\<lparr>blk_retry := Some \<lparr>rc_enabled = True, rc_maxTries = Some (Finite 3), rc_waitBetweenTriesMs = None\<rparr>\<rparr>"

definition flaky :: "retry_attempt option \<Rightarrow> nat \<Rightarrow> (js_error + handler_output) \<times> nat" where
  "flaky a k =
     (if k < 2 then Inl (ErrorObj ''Error'' ''busy'' None None False (Some \<lparr>cost_input = 1, cost_output = 0, cost_total = 1\<rparr>) None)
      else Inr \<lparr>ho_result = Value (JObj []), ho_cost = None\<rparr>, k + 1)"

theorem retry_tries_witness:
  "fst (snd (runHandlerWithRetry flaky (\<lambda>_. False) (\<lambda>_. False) flaky_block 0)) = 3 \<and>
   (\<exists>e. error_at flaky 3 1 0 = Some e \<and> isRetryableBlockError e) \<and>
   (\<exists>e. error_at flaky 3 2 0 = Some e \<and> isRetryableBlockError e) \<and>
   fst (runHandlerWithRetry flaky (\<lambda>_. False) (\<lambda>_. False) flaky_block 0) =
     Inr \<lparr>ho_result = Value (JObj [(''cost'', cost_value \<lparr>cost_input = 2, cost_output = 0, cost_total = 2\<rparr>)]),
       ho_cost = Some \<lparr>cost_input = 2, cost_output = 0, cost_total = 2\<rparr>\<rparr>"
proof -
  let ?run = "runHandlerWithRetry flaky (\<lambda>_. False) (\<lambda>_. False) flaky_block 0"
  have run: "?run = (Inr \<lparr>ho_result = Value (JObj [(''cost'', cost_value \<lparr>cost_input = 2, cost_output = 0, cost_total = 2\<rparr>)]),
       ho_cost = Some \<lparr>cost_input = 2, cost_output = 0, cost_total = 2\<rparr>\<rparr>, 3, 3)" by code_simp
  have pol: "resolveBlockRetryPolicy flaky_block = Some \<lparr>rp_maxTries = 3, rp_waitBetweenTriesMs = 1000\<rparr>" by code_simp
  let ?failed_before = "\<lambda>n. \<forall>j. 1 \<le> j \<and> j < n \<longrightarrow> (\<exists>e. error_at flaky 3 j 0 = Some e \<and> isRetryableBlockError e) \<and> True \<and> True"
  have "\<exists>n. (3::int) = int n \<and> ?failed_before n"
    using retry_tries [where invoke = flaky and failed = "\<lambda>_. False" and waited = "\<lambda>_. False" and b = flaky_block and w = 0]
    unfolding run pol prod.case option.case retry_policy.select_convs not_False_eq_True
    by (elim conjE exE) (intro exI conjI, assumption, assumption)
  then obtain n where n: "(3::int) = int n" "?failed_before n" by (elim exE conjE)
  then have "n = 3" by linarith
  with n(2) run show ?thesis by simp
qed

section \<open>The placeholder of a pause block\<close>

lemma mput_back: "mget m k = Some v \<Longrightarrow> mput k v (mput k v' m) = m"
  by (induction m) (auto simp: mput_def)

lemma mdel_absent: "\<not> mhas m k \<Longrightarrow> mdel k m = m"
  by (induction m) (auto simp: mdel_def)

lemma mdel_mput_absent: "\<not> mhas m k \<Longrightarrow> mdel k (mput k v m) = m"
  using mdel_absent [of m k] by (induction m) (auto simp: mdel_def mput_def)

lemma sdel_absent: "x \<notin> set xs \<Longrightarrow> sdel x xs = xs"
  by (simp add: sdel_def filter_id_conv) blast

lemma replace_back:
  assumes "state_wf st" and "\<not> (\<exists>s. stored st i = Some s \<and> bs_executed s)" and "\<not> bs_executed ph"
  shows "(case stored st i of None \<Rightarrow> deleteBlockState i (setBlockState i ph st)
      | Some s \<Rightarrow> setBlockState i s (setBlockState i ph st)) = st"
proof -
  have "i \<notin> set (executedBlocks st)" using assms(1,2) by (auto simp: state_wf_def)
  then have "sdel i (sdel i (executedBlocks st)) = executedBlocks st" by (simp add: sdel_absent)
  then show ?thesis
    using assms(2,3)
    by (auto simp: setBlockState_def deleteBlockState_def stored_def mput_back mdel_mput_absent mhas_def split: option.split)
qed

lemma self_reference_undone:
  assumes "state_wf (w_state w)"
  shows "cleanupSelfReference h n w (preparePauseResumeSelfReference h n w) = w"
proof (cases "(\<exists>s. stored (w_state w) (node_id n) = Some s \<and> bs_executed s) \<or> bh_resumeLinks h w n = None")
  case True
  then show ?thesis
    by (auto simp: cleanupSelfReference_def preparePauseResumeSelfReference_def Let_def split: option.split)
next
  case False
  then obtain ui api where l: "bh_resumeLinks h w n = Some (ui, api)" by auto
  let ?ph = "\<lparr>bs_output = [(''url'', JStr ui), (''resumeEndpoint'', JStr api)], bs_executed = False,
    bs_time = (case stored (w_state w) (node_id n) of None \<Rightarrow> 0 | Some s \<Rightarrow> bs_time s), bs_provenance = None\<rparr>"
  have "\<not> bs_executed ?ph" by simp
  from replace_back [OF assms _ this, of "node_id n"] False l show ?thesis
    by (auto simp: cleanupSelfReference_def preparePauseResumeSelfReference_def upd_state_def Let_def split: option.splits)
qed

text \<open>
  The placeholder by which a pause block's inputs refer to its own links leaves no trace:
  while the inputs are resolved the block has the links as its output and is not marked as
  executed, and nothing else is changed; afterwards the world is the one it was.
\<close>

theorem self_reference_leaves_no_trace:
  assumes "state_wf (w_state w)"
  shows "cleanupSelfReference h n w (preparePauseResumeSelfReference h n w) = w \<and>
    (\<forall>ui api. bh_resumeLinks h w n = Some (ui, api) \<and> \<not> hasExecuted (w_state w) (node_id n) \<and>
        (\<forall>s. stored (w_state w) (node_id n) = Some s \<longrightarrow> \<not> bs_executed s) \<longrightarrow>
      (let st = w_state (preparePauseResumeSelfReference h n w)
       in getBlockOutput st (node_id n) None = Some [(''url'', JStr ui), (''resumeEndpoint'', JStr api)] \<and>
          \<not> hasExecuted st (node_id n) \<and> (\<forall>j. j \<noteq> node_id n \<longrightarrow> stored st j = stored (w_state w) j)))"
proof -
  have "cleanupSelfReference h n w (preparePauseResumeSelfReference h n w) = w"
    by (rule self_reference_undone [OF assms])
  moreover have "let st = w_state (preparePauseResumeSelfReference h n w)
       in getBlockOutput st (node_id n) None = Some [(''url'', JStr ui), (''resumeEndpoint'', JStr api)] \<and>
          \<not> hasExecuted st (node_id n) \<and> (\<forall>j. j \<noteq> node_id n \<longrightarrow> stored st j = stored (w_state w) j)"
    if "bh_resumeLinks h w n = Some (ui, api)" "\<not> hasExecuted (w_state w) (node_id n)"
      "\<forall>s. stored (w_state w) (node_id n) = Some s \<longrightarrow> \<not> bs_executed s" for ui api
    using that
    by (auto simp: preparePauseResumeSelfReference_def upd_state_def Let_def getBlockOutput_def getBlockState_def
        unscoped_state_def hasExecuted_def split: option.split)
  ultimately show ?thesis by blast
qed

text \<open>A host whose handler answers with a value, or fails.\<close>

definition demo_host :: "js_error option \<Rightarrow> block_host" where
  "demo_host err = \<lparr>bh_canHandle = \<lambda>_. True, bh_validate = \<lambda>_ _. None, bh_resolve = \<lambda>_ _ _. Inr [],
     bh_invoke = \<lambda>_ _ _ _ w. (case err of None \<Rightarrow> Inr \<lparr>ho_result = Value (JObj [(''v'', JNum 1)]), ho_cost = None\<rparr>
       | Some e \<Rightarrow> Inl e, w),
     bh_finish = \<lambda>_ out. Inr out, bh_abortedFailed = \<lambda>_. False, bh_abortedWaited = \<lambda>_. False, bh_aborted = False,
     bh_timedOut = False, bh_resumeLinks = \<lambda>_ _. Some (''ui'', ''api''), bh_duration = 0\<rparr>"

definition port_node :: dag_node where
  "port_node = snd (demo_node ''a'' [] [(''x'', ERROR), (''b'', SOURCE)] no_meta)"

lemma live_state: "w_state live_world = \<lparr>blockStates = [], executedBlocks = []\<rparr>"
  by (simp add: live_world_def)

theorem self_reference_leaves_no_trace_witness:
  "cleanupSelfReference (demo_host None) port_node live_world
     (preparePauseResumeSelfReference (demo_host None) port_node live_world) = live_world \<and>
   getBlockOutput (w_state (preparePauseResumeSelfReference (demo_host None) port_node live_world)) (node_id port_node) None =
     Some [(''url'', JStr ''ui''), (''resumeEndpoint'', JStr ''api'')]"
proof -
  have "bh_resumeLinks (demo_host None) live_world port_node = Some (''ui'', ''api'')" by (simp add: demo_host_def)
  moreover have "state_wf (w_state live_world)" by (simp add: live_state state_wf_def)
  moreover have "\<not> hasExecuted (w_state live_world) (node_id port_node)" "stored (w_state live_world) (node_id port_node) = None"
    by (simp_all add: live_state hasExecuted_def stored_def)
  ultimately show ?thesis
    using self_reference_leaves_no_trace [of live_world "demo_host None" port_node] by (simp add: Let_def)
qed

section \<open>Where an output is stored\<close>

lemma put_output_as_state:
  "put_output d i out w =
     upd_state (setBlockState i \<lparr>bs_output = out, bs_executed = True, bs_time = d, bs_provenance = None\<rparr>) w"
  by (simp add: put_output_def upd_state_def setBlockOutput_def setBlockState_def Let_def split: option.split)

lemma stored_put_output [simp]:
  "stored (w_state (put_output d i out w)) j =
     (if j = i then Some \<lparr>bs_output = out, bs_executed = True, bs_time = d, bs_provenance = None\<rparr> else stored (w_state w) j)"
  by (simp add: put_output_as_state upd_state_def)

lemma run_wf_put_output: "run_wf w \<Longrightarrow> run_wf (put_output d i out w)"
  by (simp add: run_wf_def world_wf_def put_output_as_state upd_state_def w_dag_def wf_setBlockState)

lemma run_wf_setNodeOutput: "run_wf w \<Longrightarrow> run_wf (setNodeOutput d n out w)"
  by (simp add: setNodeOutput_def Let_def run_wf_put_output split: option.split)

lemma stored_setNodeOutput:
  "stored (w_state (setNodeOutput d n out w)) (node_id n) =
     Some \<lparr>bs_output = out, bs_executed = True, bs_time = d, bs_provenance = None\<rparr>"
  by (simp add: setNodeOutput_def Let_def split: option.split)

lemma executed_put_output: "hasExecuted (w_state (put_output d i out w)) j \<longleftrightarrow> j = i \<or> hasExecuted (w_state w) j"
  by (simp add: put_output_as_state upd_state_def hasExecuted_def)

lemma executed_setNodeOutput: "hasExecuted (w_state (setNodeOutput d n out w)) (node_id n)"
  by (simp add: setNodeOutput_def Let_def executed_put_output split: option.split)

section \<open>Error ports\<close>

lemma get_prop_mput: "get_prop (mput k v obj) k' = (if k' = k then v else get_prop obj k')"
  by (simp add: get_prop_def)

lemma get_child_entries:
  "k \<noteq> ''childWorkflowName'' \<Longrightarrow> k \<noteq> ''childWorkflowSnapshotId'' \<Longrightarrow>
   get_prop (child_entries b e out) k = get_prop out k"
  by (cases e) (simp_all add: child_entries_def Let_def get_prop_mput split: option.split)

lemma error_output_props:
  "get_prop (error_output b e partial c) ''error'' = JStr (error_message e)"
  "get_prop (error_output b e partial c) ''selectedRoute'' = JUndef"
  "get_prop (error_output b e partial c) ''selectedOption'' = JUndef"
  by (cases "readTrustedExecutionCost e"; cases c; cases "get_prop partial ''content''";
      simp add: error_output_def Let_def get_child_entries get_prop_mput; simp add: get_prop_def)+

lemma error_not_source: "ERROR \<noteq> SOURCE"
  by (simp add: edge_handle_defs)

text \<open>
  C27: A failing block with an error port returns its error output, without one it throws; in both cases
  the error output is stored as the output of the executed block. Of the edges that leave the
  block, the returned output activates the error edges exactly when the message of the error is not
  empty, the source edges exactly when it is empty, plain edges, and no branch or control edge.
\<close>

theorem error_port_routes:
  assumes "\<not> soft_stop h b e" and "handleBlockError h n b e partial c w = (r, w')"
  shows "\<exists>out. get_prop out ''error'' = JStr (error_message e) \<and>
    r = (if hasErrorPortEdge n then Inr out else Inl (blockExecutionError b (error_message e))) \<and>
    map_option bs_output (stored (w_state w') (node_id n)) = Some out \<and> hasExecuted (w_state w') (node_id n) \<and>
    (\<forall>edge. shouldActivateEdge edge out \<longleftrightarrow>
      (case normalizeWorkflowEdgeSourceHandle (edge_sourceHandle edge) of
         None \<Rightarrow> True
       | Some s \<Rightarrow>
           (case handle_group s of
              Outcome \<Rightarrow> s = (if error_message e = [] then SOURCE else ERROR)
            | Plain \<Rightarrow> True
            | _ \<Rightarrow> False)))"
proof -
  let ?out = "error_output b e partial c"
  have w': "w' = setNodeOutput (bh_duration h) n ?out w"
    and r: "r = (if hasErrorPortEdge n then Inr ?out else Inl (blockExecutionError b (error_message e)))"
    using assms by (auto simp: handleBlockError_def Let_def split: if_splits)
  have edges: "shouldActivateEdge edge ?out \<longleftrightarrow>
      (case normalizeWorkflowEdgeSourceHandle (edge_sourceHandle edge) of
         None \<Rightarrow> True
       | Some s \<Rightarrow>
           (case handle_group s of
              Outcome \<Rightarrow> s = (if error_message e = [] then SOURCE else ERROR)
            | Plain \<Rightarrow> True
            | _ \<Rightarrow> False))" for edge
    by (cases "normalizeWorkflowEdgeSourceHandle (edge_sourceHandle edge)")
      (use error_not_source in \<open>simp_all add: shouldActivateEdge_def Let_def error_output_props handle_group_def isSubflowControlEdge_def\<close>)
  show ?thesis
    unfolding r w'
    by (intro exI [of _ ?out]) (simp add: error_output_props stored_setNodeOutput executed_setNodeOutput edges)
qed

text \<open>An error without a message leaves a block with both ports through its source edge.\<close>

definition silent_error :: js_error where
  "silent_error = ErrorObj ''Error'' [] None None False None None"

theorem error_port_routes_witness:
  "\<exists>out. fst (handleBlockError (demo_host None) port_node (node_block port_node) silent_error [] None live_world) = Inr out \<and>
     map edge_target (filter (\<lambda>e. shouldActivateEdge e out) (out_edges port_node)) = [''b'']"
proof -
  have s: "\<not> soft_stop (demo_host None) (node_block port_node) silent_error" "hasErrorPortEdge port_node" by code_simp+
  obtain r w' where h: "handleBlockError (demo_host None) port_node (node_block port_node) silent_error [] None live_world = (r, w')"
    by fastforce
  have m: "error_message silent_error = []" by code_simp
  from error_port_routes [OF s(1) h] s(2) m obtain out where r: "r = Inr out"
    and act: "\<And>e. shouldActivateEdge e out \<longleftrightarrow>
      (case normalizeWorkflowEdgeSourceHandle (edge_sourceHandle e) of None \<Rightarrow> True
       | Some s \<Rightarrow> (case handle_group s of Outcome \<Rightarrow> s = SOURCE | Plain \<Rightarrow> True | _ \<Rightarrow> False))" by auto
  have "map edge_target (filter (\<lambda>e. case normalizeWorkflowEdgeSourceHandle (edge_sourceHandle e) of None \<Rightarrow> True
       | Some s \<Rightarrow> (case handle_group s of Outcome \<Rightarrow> s = SOURCE | Plain \<Rightarrow> True | _ \<Rightarrow> False)) (out_edges port_node)) = [''b'']"
    by code_simp
  with h r show ?thesis by (simp add: act)
qed

section \<open>The contract of the block executor\<close>

definition host_ok :: "block_host \<Rightarrow> bool" where
  "host_ok h \<longleftrightarrow> (\<forall>n b inputs a w. run_wf w \<longrightarrow> run_wf (snd (bh_invoke h n b inputs a w)))"

lemma before_try_keeps:
  assumes "\<And>a w. P w \<Longrightarrow> P (snd (invoke a w))" and "P w"
  shows "P (before_try invoke m k w)"
  by (induction k) (simp_all add: assms)

lemma runHandlerWithRetry_keeps:
  assumes "\<And>a w. P w \<Longrightarrow> P (snd (invoke a w))" and "P w"
    and "runHandlerWithRetry invoke failed waited b w = (r, t, w')"
  shows "P w'"
proof (cases "resolveBlockRetryPolicy b")
  case None
  with assms(1) [OF assms(2), of None] assms(3) show ?thesis by (auto simp: runHandlerWithRetry_def split: prod.splits)
next
  case (Some p)
  let ?m = "rp_maxTries p" and ?f = "blk_type b = Some ''function''"
  have "retry_loop invoke failed waited ?f ?m (if ?f then spent invoke ?m 0 w else None) (int (Suc 0))
      (before_try invoke ?m 0 w) = (r, t, w')"
    using assms(3) Some by (cases ?f) (simp_all add: runHandlerWithRetry_def)
  from retry_loop_ends [OF this] policy_bounds(1) [OF Some] obtain n where "w' = before_try invoke ?m n w"
    by (auto simp: ends_at_def)
  then show ?thesis using before_try_keeps [of P, OF assms(1,2)] by simp
qed

definition settled :: "block_host \<Rightarrow> dag_node \<Rightarrow> sblock \<Rightarrow> run_error + jobj \<Rightarrow> world \<Rightarrow> bool" where
  "settled h n b r w \<longleftrightarrow>
     (\<exists>out. map_option bs_output (stored (w_state w) (node_id n)) = Some out \<and> hasExecuted (w_state w) (node_id n) \<and>
       (case r of
          Inr out' \<Rightarrow> out' = out
        | Inl err \<Rightarrow> \<not> hasErrorPortEdge n \<and> (\<exists>msg. err = blockExecutionError b msg \<and> get_prop out ''error'' = JStr msg)))"

lemma settled_stored: "settled h n b (Inr out) (setNodeOutput d n out w)"
  by (simp add: settled_def stored_setNodeOutput executed_setNodeOutput)

lemma settled_error: "run_wf w \<Longrightarrow>
    run_wf (snd (handleBlockError h n b e partial c w)) \<and>
    settled h n b (fst (handleBlockError h n b e partial c w)) (snd (handleBlockError h n b e partial c w))"
  by (auto simp: handleBlockError_def Let_def run_wf_setNodeOutput settled_stored settled_def stored_setNodeOutput
      executed_setNodeOutput error_output_props)

lemma settled_handler:
  assumes "host_ok h" and "run_wf w"
  shows "run_wf (snd (execute_handler h n b inputs w)) \<and>
    settled h n b (fst (execute_handler h n b inputs w)) (snd (execute_handler h n b inputs w))"
proof -
  obtain x t w1 where run: "runHandlerWithRetry (bh_invoke h n b inputs) (bh_abortedFailed h) (bh_abortedWaited h) b w = (x, t, w1)"
    by (metis prod_cases3)
  have "run_wf w1"
    by (rule runHandlerWithRetry_keeps [where P = run_wf, OF _ assms(2) run]) (use assms(1) in \<open>simp add: host_ok_def\<close>)
  then show ?thesis
    by (cases x) (auto simp: execute_handler_def run settled_error settled_stored run_wf_setNodeOutput split: sum.split)
qed

lemma settled_execute:
  assumes "host_ok h" and "run_wf w" and "bh_canHandle h b"
  shows "run_wf (snd (execute_block h n b w)) \<and>
    settled h n b (fst (execute_block h n b w)) (snd (execute_block h n b w))"
proof -
  have "state_wf (w_state w)" using assms(2) by (simp add: run_wf_def world_wf_def)
  note undone = self_reference_undone [OF this, of h n]
  show ?thesis
    by (cases "isHumanInTheLoopBlock (blk_type b)")
      (simp_all add: execute_block_def Let_def assms(3) undone settled_error [OF assms(2)] settled_handler [OF assms(1,2)]
        split: sum.split)
qed

text \<open>
  C14: The block executor meets the contract that the theorems about nodes and runs assume of it:
  with a handler that keeps the invariant of a run it keeps it too. When it returns an
  output, this is the output stored for the node, which is marked as executed. When it
  throws, there was no handler and nothing happened, or the node has no error port and its stored
  output carries the message of the thrown error.
\<close>

theorem block_executor_contract:
  assumes "host_ok h"
  shows "runner_ok (block_run h) \<and>
    (\<forall>w n. run_wf w \<longrightarrow>
      (case block_run h w n of
         (Inr out, w') \<Rightarrow> map_option bs_output (stored (w_state w') (node_id n)) = Some out \<and> hasExecuted (w_state w') (node_id n)
       | (Inl err, w') \<Rightarrow> \<exists>msg. err = blockExecutionError (node_block n) msg \<and>
           (\<not> bh_canHandle h (node_block n) \<and> w' = w \<or>
            \<not> hasErrorPortEdge n \<and> hasExecuted (w_state w') (node_id n) \<and>
            (\<exists>out. map_option bs_output (stored (w_state w') (node_id n)) = Some out \<and> get_prop out ''error'' = JStr msg))))"
proof -
  have "run_wf (snd (block_run h w n)) \<and>
      (case block_run h w n of
         (Inr out, w') \<Rightarrow> map_option bs_output (stored (w_state w') (node_id n)) = Some out \<and> hasExecuted (w_state w') (node_id n)
       | (Inl err, w') \<Rightarrow> \<exists>msg. err = blockExecutionError (node_block n) msg \<and>
           (\<not> bh_canHandle h (node_block n) \<and> w' = w \<or>
            \<not> hasErrorPortEdge n \<and> hasExecuted (w_state w') (node_id n) \<and>
            (\<exists>out. map_option bs_output (stored (w_state w') (node_id n)) = Some out \<and> get_prop out ''error'' = JStr msg)))"
    if w: "run_wf w" for w n
  proof (cases "bh_canHandle h (node_block n)")
    case False
    with w show ?thesis by (auto simp: block_run_def execute_block_def)
  next
    case True
    obtain r w' where e: "execute_block h n (node_block n) w = (r, w')" by fastforce
    from settled_execute [OF assms w True, of n] show ?thesis
      unfolding block_run_def e by (cases r) (auto simp: settled_def)
  qed
  then show ?thesis by (simp add: runner_ok_def)
qed

theorem block_executor_contract_witness:
  "run_wf (snd (block_run (demo_host None) live_world port_node)) \<and>
   hasExecuted (w_state (snd (block_run (demo_host None) live_world port_node))) ''a''"
proof -
  have h: "host_ok (demo_host None)" by (simp add: host_ok_def demo_host_def)
  obtain r w' where r: "block_run (demo_host None) live_world port_node = (r, w')" by fastforce
  have "case fst (block_run (demo_host None) live_world port_node) of Inl _ \<Rightarrow> False | Inr _ \<Rightarrow> True" by code_simp
  with r obtain out where r: "block_run (demo_host None) live_world port_node = (Inr out, w')" by (cases r) auto
  from block_executor_contract [OF h] live_wf r show ?thesis
    by (auto simp: runner_ok_def port_node_def demo_node_def dest!: spec [of _ live_world] spec [of _ port_node])
qed

section \<open>Reading the output of a branch\<close>

definition plain_block_id :: "string \<Rightarrow> bool" where
  "plain_block_id b \<longleftrightarrow> b \<noteq> [] \<and> plain_outer b \<and> \<not> sublist BRANCH_PREFIX b \<and> \<not> sublist ''_loop'' b"

lemma show_nat_chars: "c \<in> set (show_nat n) \<Longrightarrow> is_digit c"
  using show_nat_digits by (auto simp: list_all_iff)

lemma foreign_chars: "\<not> is_digit (CHR ''p'')" "\<not> is_digit (CHR ''-'')" "\<not> is_digit (CHR 0x8D)"
  by code_simp+

lemma plain_base: "plain_block_id b \<Longrightarrow> extractBaseBlockId b = b"
proof -
  assume b: "plain_block_id b"
  have "match_branch_end b = None"
  proof (rule ccontr)
    let ?r = "rev (take (length b - length BRANCH_SUFFIX) b)"
    assume "match_branch_end b \<noteq> None"
    then have "prefix (rev BRANCH_PREFIX) (dropWhile is_digit ?r)"
      by (auto simp: match_branch_end_def Let_def split: if_splits)
    then have "sublist (rev BRANCH_PREFIX) ?r"
      by (meson prefix_imp_sublist sublist_order.order_trans suffix_dropWhile suffix_imp_sublist)
    then have "sublist BRANCH_PREFIX (take (length b - length BRANCH_SUFFIX) b)" by simp
    then have "sublist BRANCH_PREFIX b"
      by (meson prefix_imp_sublist sublist_order.order_trans take_is_prefix)
    with b show False by (simp add: plain_block_id_def)
  qed
  then show ?thesis by (simp add: extractBaseBlockId_def)
qed

lemma plain_lookup: "plain_block_id b \<Longrightarrow> normalizeLookupId b = b"
  by (simp add: plain_block_id_def normalizeLookupId_def strip_all_absent seg_pattern_defs)

lemma alias_in_scope:
  assumes "plain_block_id b"
  shows "in_same_scope b i [] [] (buildOuterBranchScopedId b i)"
proof -
  let ?outer = "b @ OBRANCH_LIT @ show_nat i"
  have outer: "plain_outer b" using assms by (simp add: plain_block_id_def)
  have "\<not> sublist BRANCH_PREFIX ?outer" "\<not> sublist ''_loop'' ?outer"
    using assms sublist_append_foreign [of BRANCH_PREFIX b "OBRANCH_LIT @ show_nat i"]
      sublist_append_foreign [of "''_loop''" b "OBRANCH_LIT @ show_nat i"] foreign_chars show_nat_chars
    by (auto simp: plain_block_id_def BRANCH_PREFIX_def OBRANCH_LIT_def)
  then have "extractBranchSuffix ?outer = []" "extractLoopSuffix ?outer = []"
    by (simp_all add: extractBranchSuffix_def extractLoopSuffix_def first_match_absent seg_pattern_defs)
  then show ?thesis
    using stripOuterBranchSuffix_build [OF outer, of i] extractOuterBranchIndex_build [OF outer, of i] plain_base [OF assms]
    by (simp add: in_same_scope_def stripCloneSuffixes_def stripOuterBranchSuffix_def buildOuterBranchScopedId_def)
qed

lemma branch_id_no_outer:
  assumes "plain_block_id b"
  shows "extractOuterBranchIndex (buildBranchNodeId b i) = None"
proof -
  have "\<not> sublist OBRANCH_LIT (b @ BRANCH_PREFIX @ show_nat i @ BRANCH_SUFFIX)"
    using assms sublist_append_foreign [of OBRANCH_LIT b "BRANCH_PREFIX @ show_nat i @ BRANCH_SUFFIX"] foreign_chars show_nat_chars
    by (auto simp: plain_block_id_def plain_outer_def BRANCH_PREFIX_def BRANCH_SUFFIX_def OBRANCH_LIT_def)
  then show ?thesis
    by (simp add: extractOuterBranchIndex_def buildBranchNodeId_def first_match_absent OUTER_BRANCH_def)
qed

text \<open>The states that an output of a branch is written to.\<close>

lemma stored_branch_output:
  assumes "m_isParallelBranch (metadata n)" and "m_originalBlockId (metadata n) = Some b"
    and "m_branchIndex (metadata n) = Some i" and "extractOuterBranchIndex (node_id n) = None" and "b \<noteq> []"
  shows "stored (w_state (setNodeOutput d n out w)) k =
    (if k \<in> {node_id n, buildBranchNodeId b i, buildOuterBranchScopedId b i}
     then Some \<lparr>bs_output = out, bs_executed = True, bs_time = d, bs_provenance = None\<rparr> else stored (w_state w) k)"
  using assms by (simp add: setNodeOutput_def Let_def)

lemma state_wf_setNodeOutput: "state_wf (w_state w) \<Longrightarrow> state_wf (w_state (setNodeOutput d n out w))"
  by (simp add: setNodeOutput_def Let_def put_output_as_state upd_state_def wf_setBlockState split: option.split)

lemma scoped_find_unique:
  assumes "state_wf st" and "stored st k = Some s" and "P k" and "\<And>k' s'. stored st k' = Some s' \<Longrightarrow> P k' \<Longrightarrow> k' = k"
  shows "List.find (\<lambda>(k, s). P k) (blockStates st) = Some (k, s)"
proof (cases "List.find (\<lambda>(k, s). P k) (blockStates st)")
  case None
  then show ?thesis
    using assms(2,3) by (auto simp: find_None_iff stored_def dest: mget_in_set)
next
  case (Some x)
  obtain k' s' where x: "x = (k', s')" by fastforce
  from find_stored [OF assms(1) Some [unfolded x]] assms(2,4) show ?thesis
    using Some x by auto
qed

text \<open>
  The output of a branch of a parallel is read where it is needed: a node inside a clone of a nested
  container reads it through the index of its outer branch, and a node of the same branch
  reads it through its own branch subscript. Both name the block by its plain id.
\<close>

theorem branch_output_readable:
  assumes "m_isParallelBranch (metadata n)" and "m_originalBlockId (metadata n) = Some b"
    and "m_branchIndex (metadata n) = Some i" and "extractOuterBranchIndex (node_id n) = None"
    and "plain_block_id b" and "state_wf (w_state w)" and "cur \<noteq> []"
    and "extractOuterBranchIndex cur = Some i \<and> extractBranchSuffix cur = [] \<and> extractLoopSuffix cur = [] \<and>
        (\<forall>k. stored (w_state w) k \<noteq> None \<and> in_same_scope b i [] [] k \<longrightarrow> k = buildOuterBranchScopedId b i) \<or>
      extractOuterBranchIndex cur = None \<and> node_id n = b @ extractBranchSuffix cur @ extractLoopSuffix cur"
  shows "getBlockOutput (w_state (setNodeOutput d n out w)) b (Some cur) = Some out"
proof -
  let ?st = "w_state (setNodeOutput d n out w)" and ?outer = "buildOuterBranchScopedId b i"
  have ne: "b \<noteq> []" using assms(5) by (simp add: plain_block_id_def)
  note st = stored_branch_output [OF assms(1-4) ne, of d out w]
  from assms(8) have "\<exists>s. getScopedBlockState ?st b cur = Some s \<and> bs_output s = out"
  proof
    assume outer: "extractOuterBranchIndex cur = Some i \<and> extractBranchSuffix cur = [] \<and> extractLoopSuffix cur = [] \<and>
        (\<forall>k. stored (w_state w) k \<noteq> None \<and> in_same_scope b i [] [] k \<longrightarrow> k = ?outer)"
    have "k' = ?outer" if "stored ?st k' = Some s'" "in_same_scope b i [] [] k'" for k' s'
    proof (cases "k' \<in> {node_id n, buildBranchNodeId b i}")
      case True
      then have "extractOuterBranchIndex k' = None"
        using assms(4) branch_id_no_outer [OF assms(5), of i] by blast
      with that(2) show ?thesis by (simp add: in_same_scope_def)
    next
      case False
      with that outer show ?thesis by (auto simp: st split: if_splits)
    qed
    moreover have "stored ?st ?outer = Some \<lparr>bs_output = out, bs_executed = True, bs_time = d, bs_provenance = None\<rparr>"
      by (simp add: st)
    ultimately have "List.find (\<lambda>(k, s). in_same_scope b i [] [] k) (blockStates ?st) =
        Some (?outer, \<lparr>bs_output = out, bs_executed = True, bs_time = d, bs_provenance = None\<rparr>)"
      using scoped_find_unique [where P = "in_same_scope b i [] []", OF state_wf_setNodeOutput [OF assms(6)] _
          alias_in_scope [OF assms(5)]] by blast
    with outer show ?thesis by (simp add: getScopedBlockState_def Let_def)
  next
    assume own: "extractOuterBranchIndex cur = None \<and> node_id n = b @ extractBranchSuffix cur @ extractLoopSuffix cur"
    with stored_setNodeOutput [of d n out w] show ?thesis by (simp add: getScopedBlockState_def Let_def)
  qed
  with assms(7) plain_lookup [OF assms(5)] show ?thesis
    by (auto simp: getBlockOutput_def getBlockState_def)
qed

text \<open>Branch 7 of a parallel, run as the local branch 2; a clone in outer branch 7 reads its output.\<close>

definition branch_node :: dag_node where
  "branch_node = (snd (demo_node (buildBranchNodeId ''b'' 2) [] []
     (no_meta\<lparr>m_isParallelBranch := True, m_originalBlockId := Some ''b'', m_branchIndex := Some 7\<rparr>)))"

theorem branch_output_readable_witness:
  "getBlockOutput (w_state (setNodeOutput 0 branch_node [(''v'', JNum 3)] live_world)) ''b'' (Some ''c__obranch-7'') =
     Some [(''v'', JNum 3)]"
proof -
  have n: "m_isParallelBranch (metadata branch_node)" "m_originalBlockId (metadata branch_node) = Some ''b''"
    "m_branchIndex (metadata branch_node) = Some 7"
    by (simp_all add: branch_node_def demo_node_def)
  have b: "plain_block_id ''b''"
    by (simp add: plain_block_id_def plain_outer_def sublist_code OBRANCH_LIT_def BRANCH_PREFIX_def)
  have noout: "extractOuterBranchIndex (node_id branch_node) = None"
    using branch_id_no_outer [OF b] by (simp add: branch_node_def demo_node_def)
  have c: "extractOuterBranchIndex ''c__obranch-7'' = Some 7" "extractBranchSuffix ''c__obranch-7'' = []"
    "extractLoopSuffix ''c__obranch-7'' = []"
    by code_simp+
  show ?thesis
    by (rule branch_output_readable [OF n noout b]) (simp_all add: live_state state_wf_def stored_def c)
qed

end
