(* ===== verification/Handlers.thy ===== *)
theory Handlers
  imports BlockExec
begin

text \<open>
  The handlers that decide where a run goes on: the condition block
  (\<open>handlers/condition/condition-handler.ts\<close>), the two router blocks
  (\<open>handlers/router/router-handler.ts\<close>) and the trigger block
  (\<open>handlers/trigger/trigger-handler.ts\<close>).

  Parameters are the tool that runs code (\<open>run\<close>, given the evaluation context and the script), the
  model that answers a router with the billing of its cost, and \<open>JSON.parse\<close>. The environment and the
  secrets that the tool is given, the prompts, and the projection of secrets are not part of
  the model; neither is the record of decisions in the context, which is only kept for logs.
\<close>

definition str_prop :: "jobj \<Rightarrow> string \<Rightarrow> string" where
  "str_prop obj k = (case get_prop obj k of JStr s \<Rightarrow> s | _ \<Rightarrow> [])"

definition plainError :: "string \<Rightarrow> js_error option \<Rightarrow> js_error" where
  "plainError msg cause = ErrorObj ''Error'' msg None None False None cause"

definition NonRetryableExecutionError :: "string \<Rightarrow> js_error" where
  "NonRetryableExecutionError msg = ErrorObj ''NonRetryableExecutionError'' msg (Some False) None False None None"

definition getErrorMessage :: "js_error \<Rightarrow> string \<Rightarrow> string" where
  "getErrorMessage e fallback =
     (case e of ErrorObj _ m _ _ _ _ _ \<Rightarrow> m | OtherThrown s \<Rightarrow> if s \<noteq> [] then s else fallback)"

definition DEFAULT_BLOCK_TYPE :: string where "DEFAULT_BLOCK_TYPE = ''unknown''"

definition DEFAULT_BLOCK_TITLE :: string where "DEFAULT_BLOCK_TITLE = ''Untitled Block''"

definition or_default :: "string option \<Rightarrow> string \<Rightarrow> string" where
  "or_default s d = (if falsy_str s then d else the s)"

definition selected_path :: "sblock \<Rightarrow> jval" where
  "selected_path b = JObj [(''blockId'', JStr (blk_id b)), (''blockType'', JStr (or_default (blk_type b) DEFAULT_BLOCK_TYPE)),
     (''blockTitle'', JStr (or_default (blk_name b) DEFAULT_BLOCK_TITLE))]"

section \<open>Scripts\<close>

text \<open>What an expression does when it is tested, and the value of the script that
  \<open>buildConditionScript\<close> makes of a list of expressions: it stops at the first that is true or throws.\<close>

datatype verdict = Truthy | Falsy | Throws string

fun run_script :: "(string \<Rightarrow> verdict) \<Rightarrow> nat \<Rightarrow> string list \<Rightarrow> jval" where
  "run_script ev i [] = JObj [(''matchedIndex'', JNum (-1))]"
| "run_script ev i (e # es) =
     (case ev e of
        Truthy \<Rightarrow> JObj [(''matchedIndex'', JNum (int i))]
      | Falsy \<Rightarrow> run_script ev (Suc i) es
      | Throws m \<Rightarrow> JObj [(''matchedIndex'', JNum (-1)), (''threwAtIndex'', JNum (int i)), (''message'', JStr m)])"

text \<open>A call of the tool throws, or answers without success (with the message and the \<open>retryable\<close>
  mark, where there are any), or answers with a result.\<close>

datatype tool_response = ToolThrew js_error | ToolFailed "string option" "bool option" | ToolDone jval

datatype script = Batch "string list" | Single string

type_synonym code_runner = "jobj \<Rightarrow> script \<Rightarrow> tool_response"

section \<open>Conditions\<close>

record condition_entry =
  ce_id :: string
  ce_title :: string
  ce_value :: string

fun condition_entry_of :: "jval \<Rightarrow> condition_entry" where
  "condition_entry_of (JObj f) = \<lparr>ce_id = str_prop f ''id'', ce_title = str_prop f ''title'', ce_value = str_prop f ''value''\<rparr>"
| "condition_entry_of _ = \<lparr>ce_id = [], ce_title = [], ce_value = []\<rparr>"

definition parseConditions :: "(string \<Rightarrow> jval option) \<Rightarrow> jval \<Rightarrow> js_error + condition_entry list" where
  "parseConditions parse input =
     (case input of
        JArr xs \<Rightarrow> Inr (map condition_entry_of xs)
      | _ \<Rightarrow>
          (case (if truthy input then (case input of JStr s \<Rightarrow> parse s | _ \<Rightarrow> None) else Some (JArr [])) of
             Some (JArr xs) \<Rightarrow> Inr (map condition_entry_of xs)
           | _ \<Rightarrow> Inl (plainError ''Invalid conditions format'' None)))"

definition isElseConditionTitle :: "string \<Rightarrow> bool" where
  "isElseConditionTitle title \<longleftrightarrow> map ascii_lower (js_trim title) = ''else''"

datatype evaluation = Matched nat | NoMatch | ExpressionThrew nat string | NoVerdict string bool bool

definition isTimeoutFailure :: "string option \<Rightarrow> bool" where
  "isTimeoutFailure error \<longleftrightarrow>
     (if falsy_str error then False
      else let message = map ascii_lower (the error)
           in includes_str message ''timed out'' \<or> includes_str message ''timeout'')"

definition read_verdict :: "nat \<Rightarrow> jval \<Rightarrow> evaluation" where
  "read_verdict n v =
     (case v of
        JObj out \<Rightarrow>
          (case get_prop out ''threwAtIndex'' of
             JNum t \<Rightarrow>
               if t \<ge> 0 then
                 (if t \<ge> int n then NoVerdict ''Condition evaluation reported an unknown branch'' True False
                  else ExpressionThrew (nat t)
                         (if str_prop out ''message'' \<noteq> [] then str_prop out ''message'' else ''Unknown evaluation error''))
               else (case get_prop out ''matchedIndex'' of
                       JNum m \<Rightarrow> if m < 0 then NoMatch
                                 else if m \<ge> int n then NoVerdict ''Condition evaluation matched an unknown branch'' True False
                                 else Matched (nat m)
                     | _ \<Rightarrow> NoVerdict ''Condition evaluation returned an unrecognized verdict'' True False)
           | _ \<Rightarrow>
               (case get_prop out ''matchedIndex'' of
                  JNum m \<Rightarrow> if m < 0 then NoMatch
                            else if m \<ge> int n then NoVerdict ''Condition evaluation matched an unknown branch'' True False
                            else Matched (nat m)
                | _ \<Rightarrow> NoVerdict ''Condition evaluation returned an unrecognized verdict'' True False))
      | JArr _ \<Rightarrow> NoVerdict ''Condition evaluation returned an unrecognized verdict'' True False
      | _ \<Rightarrow> NoVerdict ''Condition evaluation returned no verdict'' True False)"

definition evaluateConditionList :: "code_runner \<Rightarrow> jobj \<Rightarrow> condition_entry list \<Rightarrow> js_error + evaluation" where
  "evaluateConditionList run ctx conditions =
     (case run ctx (Batch (map ce_value conditions)) of
        ToolThrew e \<Rightarrow> Inl e
      | ToolFailed error retryable \<Rightarrow>
          Inr (NoVerdict (case error of None \<Rightarrow> ''Condition evaluation failed'' | Some m \<Rightarrow> m) (retryable \<noteq> Some False)
            (isTimeoutFailure error))
      | ToolDone v \<Rightarrow> Inr (read_verdict (length conditions) v))"

definition evaluateSingleCondition :: "code_runner \<Rightarrow> jobj \<Rightarrow> condition_entry \<Rightarrow> js_error + bool" where
  "evaluateSingleCondition run ctx c =
     (case run ctx (Single (ce_value c)) of
        ToolThrew e \<Rightarrow> Inl e
      | ToolFailed error retryable \<Rightarrow>
          if retryable = Some False
          then Inl (NonRetryableExecutionError (case error of None \<Rightarrow> ''Condition evaluation is indeterminate'' | Some m \<Rightarrow> m))
          else Inl (plainError (case error of None \<Rightarrow> ''Condition evaluation failed'' | Some m \<Rightarrow> m) None)
      | ToolDone v \<Rightarrow> Inr (truthy v))"

definition conditionError :: "condition_entry \<Rightarrow> string \<Rightarrow> js_error option \<Rightarrow> js_error" where
  "conditionError c msg cause =
     plainError (''Evaluation error in condition \"'' @ ce_title c @ ''\": '' @ msg) cause"

fun findMatchingConditionIndividually ::
  "code_runner \<Rightarrow> jobj \<Rightarrow> condition_entry list \<Rightarrow> js_error + condition_entry option" where
  "findMatchingConditionIndividually run ctx [] = Inr None"
| "findMatchingConditionIndividually run ctx (c # cs) =
     (case evaluateSingleCondition run ctx c of
        Inl e \<Rightarrow> Inl (conditionError c (getErrorMessage e ''Condition evaluation failed'') (Some e))
      | Inr met \<Rightarrow> if met then Inr (Some c) else findMatchingConditionIndividually run ctx cs)"

definition findMatchingCondition ::
  "code_runner \<Rightarrow> bool \<Rightarrow> jobj \<Rightarrow> condition_entry list \<Rightarrow> js_error + condition_entry option" where
  "findMatchingCondition run aborted ctx conditions =
     (if conditions = [] then Inr None
      else case (case evaluateConditionList run ctx conditions of
                   Inr ev \<Rightarrow> Inr ev
                 | Inl e \<Rightarrow> if isNonRetryableExecutionError e then Inl e
                            else Inr (NoVerdict (getErrorMessage e ''Condition evaluation failed'') True False)) of
             Inl e \<Rightarrow> Inl e
           | Inr (Matched i) \<Rightarrow> Inr (Some (conditions ! i))
           | Inr NoMatch \<Rightarrow> Inr None
           | Inr (ExpressionThrew i m) \<Rightarrow> Inl (conditionError (conditions ! i) m None)
           | Inr (NoVerdict m retryable timedOut) \<Rightarrow>
               if \<not> retryable then Inl (NonRetryableExecutionError
                 (''Evaluation error in condition \"'' @ ce_title (hd conditions) @ ''\": '' @ m))
               else if timedOut \<or> aborted then Inl (conditionError (hd conditions) m None)
               else findMatchingConditionIndividually run ctx conditions)"

definition findConnectionForCondition :: "sconnection list \<Rightarrow> string \<Rightarrow> sconnection option" where
  "findConnectionForCondition cs i = List.find (\<lambda>c. con_sourceHandle c = Some (CONDITION_PREFIX @ i)) cs"

definition evaluateConditions ::
  "code_runner \<Rightarrow> bool \<Rightarrow> jobj \<Rightarrow> condition_entry list \<Rightarrow> js_error + condition_entry option" where
  "evaluateConditions run aborted ctx conditions =
     (let testable = takeWhile (\<lambda>c. \<not> isElseConditionTitle (ce_title c)) conditions;
          elseCondition = List.find (\<lambda>c. isElseConditionTitle (ce_title c)) conditions
      in case findMatchingCondition run aborted ctx testable of
           Inl e \<Rightarrow> Inl e
         | Inr (Some c) \<Rightarrow> Inr (Some c)
         | Inr None \<Rightarrow> Inr elseCondition)"

definition filterSourceOutput :: "jobj \<Rightarrow> jobj" where
  "filterSourceOutput out =
     filter (\<lambda>(k, _). k \<notin> {''_pauseMetadata'', ''error'', ''providerTiming'', ''tokens'', ''toolCalls'', ''model'', ''cost''}) out"

text \<open>The block whose output a condition works on: the source of the first connection into the block, or
  its copy in the same branch when that has a state.\<close>

definition condition_source :: "sworkflow \<Rightarrow> sblock \<Rightarrow> world \<Rightarrow> string option" where
  "condition_source flow b w =
     (case List.find (\<lambda>c. con_target c = extractBaseBlockId (blk_id b)) (wf_connections flow) of
        None \<Rightarrow> None
      | Some c \<Rightarrow>
          (case (if isBranchNodeId (blk_id b) then extractBranchIndex (blk_id b) else None) of
             Some i \<Rightarrow> if con_source c \<noteq> [] \<and> mhas (blockStates (w_state w)) (buildBranchNodeId (con_source c) i)
                       then Some (buildBranchNodeId (con_source c) i) else Some (con_source c)
           | None \<Rightarrow> Some (con_source c)))"

definition source_output :: "sworkflow \<Rightarrow> sblock \<Rightarrow> world \<Rightarrow> jobj" where
  "source_output flow b w =
     (case condition_source flow b w of
        None \<Rightarrow> []
      | Some i \<Rightarrow> if i = [] then [] else case stored (w_state w) i of None \<Rightarrow> [] | Some s \<Rightarrow> bs_output s)"

definition put_result :: "jobj \<Rightarrow> bool \<Rightarrow> jval \<Rightarrow> jval \<Rightarrow> jobj" where
  "put_result out result path option =
     mput ''selectedOption'' option (mput ''selectedPath'' path (mput ''conditionResult'' (JBool result) out))"

definition condition_execute ::
  "(string \<Rightarrow> jval option) \<Rightarrow> code_runner \<Rightarrow> bool \<Rightarrow> sworkflow \<Rightarrow> sblock \<Rightarrow> jobj \<Rightarrow> world \<Rightarrow> js_error + jobj" where
  "condition_execute parse run aborted flow b inputs w =
     (case parseConditions parse (get_prop inputs ''conditions'') of
        Inl e \<Rightarrow> Inl e
      | Inr conditions \<Rightarrow>
          (let out = filterSourceOutput (source_output flow b w);
               outgoing = filter (\<lambda>c. con_source c = extractBaseBlockId (blk_id b)) (wf_connections flow)
           in case evaluateConditions run aborted (source_output flow b w) conditions of
                Inl e \<Rightarrow> Inl e
              | Inr None \<Rightarrow> Inr (put_result out False JNull JNull)
              | Inr (Some c) \<Rightarrow>
                  (case findConnectionForCondition outgoing (ce_id c) of
                     None \<Rightarrow> Inr (put_result out True JNull (JStr (ce_id c)))
                   | Some con \<Rightarrow>
                       (case block_by_id flow (con_target con) of
                          None \<Rightarrow> Inl (plainError (''Target block '' @ con_target con @ '' not found'') None)
                        | Some t \<Rightarrow> Inr (put_result out True (selected_path t) (JStr (ce_id c)))))))"

section \<open>Routers\<close>

text \<open>The answer of a model, with the cost that the billing policy leaves of it.\<close>

record model_result =
  mr_content :: string
  mr_model :: jval
  mr_tokens :: jval
  mr_cost :: jval

definition token_count :: "jval \<Rightarrow> string \<Rightarrow> jval" where
  "token_count tokens k =
     (case tokens of JObj t \<Rightarrow> if truthy (get_prop t k) then get_prop t k else JNum 0 | _ \<Rightarrow> JNum 0)"

definition token_counts :: "jval \<Rightarrow> jval" where
  "token_counts tokens = JObj [(''input'', token_count tokens ''input''), (''output'', token_count tokens ''output''),
     (''total'', token_count tokens ''total'')]"

definition cost_counts :: "jval \<Rightarrow> jval" where
  "cost_counts c = (case c of
     JObj v \<Rightarrow> JObj [(''input'', get_prop v ''input''), (''output'', get_prop v ''output''), (''total'', get_prop v ''total'')]
   | _ \<Rightarrow> JObj [(''input'', JUndef), (''output'', JUndef), (''total'', JUndef)])"

fun target_blocks :: "sworkflow \<Rightarrow> sconnection list \<Rightarrow> js_error + sblock list" where
  "target_blocks flow [] = Inr []"
| "target_blocks flow (c # cs) =
     (case block_by_id flow (con_target c) of
        None \<Rightarrow> Inl (plainError (''Target block '' @ con_target c @ '' not found'') None)
      | Some b \<Rightarrow> (case target_blocks flow cs of Inl e \<Rightarrow> Inl e | Inr bs \<Rightarrow> Inr (b # bs)))"

definition getTargetBlocks :: "sworkflow \<Rightarrow> sblock \<Rightarrow> js_error + sblock list" where
  "getTargetBlocks flow b = target_blocks flow (filter (\<lambda>c. con_source c = blk_id b) (wf_connections flow))"

text \<open>The legacy router: the model names one of the target blocks.\<close>

definition executeLegacy ::
  "(sblock list \<Rightarrow> js_error + model_result) \<Rightarrow> sworkflow \<Rightarrow> sblock \<Rightarrow> jobj \<Rightarrow> js_error + jobj" where
  "executeLegacy ask flow b inputs =
     (case getTargetBlocks flow b of
        Inl e \<Rightarrow> Inl e
      | Inr targets \<Rightarrow>
          (case ask targets of
             Inl e \<Rightarrow> Inl e
           | Inr result \<Rightarrow>
               (let chosen = map ascii_lower (js_trim (mr_content result))
                in case List.find (\<lambda>t. blk_id t = chosen) targets of
                     None \<Rightarrow> Inl (plainError (''Invalid routing decision: '' @ chosen) None)
                   | Some t \<Rightarrow>
                       Inr [(''prompt'', get_prop inputs ''prompt''), (''model'', mr_model result),
                            (''tokens'', token_counts (mr_tokens result)), (''cost'', cost_counts (mr_cost result)),
                            (''selectedPath'', selected_path t), (''selectedRoute'', JStr (blk_id t))])))"

record route_definition =
  rd_id :: string
  rd_title :: string

fun route_of :: "jval \<Rightarrow> route_definition" where
  "route_of (JObj f) = \<lparr>rd_id = str_prop f ''id'', rd_title = str_prop f ''title''\<rparr>"
| "route_of _ = \<lparr>rd_id = [], rd_title = []\<rparr>"

definition parseRoutes :: "(string \<Rightarrow> jval option) \<Rightarrow> jval \<Rightarrow> route_definition list" where
  "parseRoutes parse input =
     (case input of
        JStr s \<Rightarrow> (case parse s of Some (JArr xs) \<Rightarrow> map route_of xs | _ \<Rightarrow> [])
      | JArr xs \<Rightarrow> map route_of xs
      | _ \<Rightarrow> [])"

text \<open>The route that an answer names, with the reason; an answer that is not the object that was asked for
  is taken as the name itself.\<close>

definition read_route :: "(string \<Rightarrow> jval option) \<Rightarrow> string \<Rightarrow> string \<times> string" where
  "read_route parse content =
     (case parse content of
        None \<Rightarrow> (js_trim content, [])
      | Some JNull \<Rightarrow> (js_trim content, [])
      | Some (JObj f) \<Rightarrow>
          (case get_prop f ''route'' of
             JStr s \<Rightarrow> (js_trim s, str_prop f ''reasoning'')
           | JUndef \<Rightarrow> ([], str_prop f ''reasoning'')
           | JNull \<Rightarrow> ([], str_prop f ''reasoning'')
           | _ \<Rightarrow> (js_trim content, []))
      | Some _ \<Rightarrow> ([], []))"

definition ascii_upper :: "char \<Rightarrow> char" where
  "ascii_upper c =
     (if (97::nat) \<le> of_char c \<and> of_char c \<le> (122::nat) then char_of (of_char c - (32::nat)) else c)"

fun join_ids :: "route_definition list \<Rightarrow> string" where
  "join_ids [] = []"
| "join_ids [r] = rd_id r"
| "join_ids (r # rs) = rd_id r @ '', '' @ join_ids rs"

definition no_match_error :: "string \<Rightarrow> js_error" where
  "no_match_error reasoning =
     plainError (if reasoning \<noteq> [] then ''Router could not determine a matching route: '' @ reasoning
                 else ''Router could not determine a matching route for the given context'') None"

definition route_path :: "sworkflow \<Rightarrow> sblock \<Rightarrow> route_definition \<Rightarrow> jval" where
  "route_path flow b r =
     (case List.find (\<lambda>c. con_source c = blk_id b \<and> con_sourceHandle c = Some (ROUTER_PREFIX @ rd_id r)) (wf_connections flow) of
        Some c \<Rightarrow>
          (case block_by_id flow (con_target c) of
             Some t \<Rightarrow> selected_path t
           | None \<Rightarrow> JObj [(''blockId'', JStr []), (''blockType'', JStr DEFAULT_BLOCK_TYPE), (''blockTitle'', JStr (rd_title r))])
      | None \<Rightarrow> JObj [(''blockId'', JStr []), (''blockType'', JStr DEFAULT_BLOCK_TYPE), (''blockTitle'', JStr (rd_title r))])"

definition executeV2 ::
  "(string \<Rightarrow> jval option) \<Rightarrow> (route_definition list \<Rightarrow> js_error + model_result) \<Rightarrow> sworkflow \<Rightarrow> sblock \<Rightarrow> jobj \<Rightarrow> js_error + jobj" where
  "executeV2 parse ask flow b inputs =
     (let routes = parseRoutes parse (get_prop inputs ''routes'')
      in if routes = [] then Inl (plainError ''No routes defined for router'' None)
         else case ask routes of
                Inl e \<Rightarrow> Inl e
              | Inr result \<Rightarrow>
                  (case read_route parse (mr_content result) of
                     (chosen, reasoning) \<Rightarrow>
                       if map ascii_upper chosen = ''NO_MATCH'' then Inl (no_match_error reasoning)
                       else case List.find (\<lambda>r. rd_id r = chosen) routes of
                              None \<Rightarrow> Inl (plainError (''Router could not determine a valid route. LLM response: \"'' @
                                       mr_content result @ ''\". Available route IDs: '' @ join_ids routes) None)
                            | Some r \<Rightarrow>
                                Inr [(''context'', get_prop inputs ''context''), (''model'', mr_model result),
                                     (''tokens'', token_counts (mr_tokens result)), (''cost'', cost_counts (mr_cost result)),
                                     (''selectedRoute'', JStr (rd_id r)), (''reasoning'', JStr reasoning),
                                     (''selectedPath'', route_path flow b r)]))"

section \<open>Triggers\<close>

definition isTriggerBehavior :: "sblock \<Rightarrow> bool" where
  "isTriggerBehavior b \<longleftrightarrow>
     blk_category b = Some ''triggers'' \<or> get_prop (blk_params b) ''triggerMode'' = JBool True \<or> blk_type b = Some ''starter''"

definition isTriggerInternalKey :: "string \<Rightarrow> bool" where
  "isTriggerInternalKey k \<longleftrightarrow> k \<in> {''webhook'', ''workflowId''}"

definition executeStarterBlock :: "sblock \<Rightarrow> jobj \<Rightarrow> world \<Rightarrow> jobj" where
  "executeStarterBlock b inputs w =
     (case stored (w_state w) (blk_id b) of
        Some s \<Rightarrow>
          if bs_output s \<noteq> [] then bs_output s
          else [(''input'', if truthy (get_prop inputs ''input'') then get_prop inputs ''input'' else JStr [])]
      | None \<Rightarrow> [(''input'', if truthy (get_prop inputs ''input'') then get_prop inputs ''input'' else JStr [])])"

definition starter_output :: "sworkflow \<Rightarrow> world \<Rightarrow> jobj" where
  "starter_output flow w =
     (case List.find (\<lambda>b. blk_type b = Some ''starter'') (wf_blocks flow) of
        None \<Rightarrow> []
      | Some b \<Rightarrow> (case stored (w_state w) (blk_id b) of None \<Rightarrow> [] | Some s \<Rightarrow> bs_output s))"

definition trigger_execute :: "sworkflow \<Rightarrow> sblock \<Rightarrow> jobj \<Rightarrow> world \<Rightarrow> jobj" where
  "trigger_execute flow b inputs w =
     (if blk_type b = Some ''starter'' then executeStarterBlock b inputs w
      else case stored (w_state w) (blk_id b) of
             Some s \<Rightarrow> bs_output s
           | None \<Rightarrow>
               (let starter = starter_output flow w
                in if starter \<noteq> []
                   then (case get_prop starter ''webhook'' of
                           JObj hook \<Rightarrow> if truthy (get_prop hook ''data'')
                                       then filter (\<lambda>(k, _). \<not> isTriggerInternalKey k) starter else starter
                         | _ \<Rightarrow> starter)
                   else inputs))"

end
