(* ===== verification/StartProps.thy ===== *)
theory StartProps
  imports StartBlock EdgeManager
begin

text \<open>
  Properties of the start of a workflow: the block that is chosen, that no input can steer
  the edges that leave the start block, where the fields of its output come from, and which files
  of the input are let in.
\<close>

section \<open>The chosen block\<close>

definition flagged :: "(sblock \<Rightarrow> bool) \<Rightarrow> sblock \<Rightarrow> sblock" where
  "flagged e b = b\<lparr>blk_enabled := e b\<rparr>"

definition reflag :: "(sblock \<Rightarrow> bool) \<Rightarrow> string \<times> start_wrapper \<Rightarrow> string \<times> start_wrapper" where
  "reflag e x = (fst x, (snd x)\<lparr>sw_original := flagged e (sw_original (snd x))\<rparr>)"

lemma start_candidates_map:
  "start_candidates h k ch (map (reflag e) es) =
    map (\<lambda>(i, c, p). (fst (reflag e (i, c)), snd (reflag e (i, c)), p)) (start_candidates h k ch es)"
  by (induction es) (auto simp: start_candidates_def classifyStartBlock_def reflag_def split: option.split)

lemma mput_reflag: "mput k (snd (reflag e (k, c))) (map (reflag e) m) = map (reflag e) (mput k c m)"
  by (induction m) (auto simp: mput_def reflag_def)

lemma add_wrapper_flagged: "add_wrapper (flagged e b) (map (reflag e) m) = map (reflag e) (add_wrapper b m)"
  using mput_reflag [of "blk_id b" e "\<lparr>sw_type = the (blk_type b), sw_original = b\<rparr>" m]
  by (simp add: add_wrapper_def flagged_def reflag_def)

lemma start_wrappers_map: "start_wrappers (map (flagged e) bs) = map (reflag e) (start_wrappers bs)"
proof -
  have "fold add_wrapper (map (flagged e) bs) (map (reflag e) m) = map (reflag e) (fold add_wrapper bs m)" for m
    by (induction bs arbitrary: m) (simp_all add: add_wrapper_flagged)
  from this [of "[]"] show ?thesis by (simp add: start_wrappers_def)
qed

lemma insort_key_map: "(\<And>x. f (g x) = f' x) \<Longrightarrow> insort_key f (g x) (map g xs) = map g (insort_key f' x xs)"
  by (induction xs) auto

lemma sort_key_map: "(\<And>x. f (g x) = f' x) \<Longrightarrow> sort_key f (map g xs) = map g (sort_key f' xs)"
proof -
  assume fg: "\<And>x. f (g x) = f' x"
  have "foldr (insort_key f) (map g xs) [] = map g (foldr (insort_key f') xs [])"
    by (induction xs) (simp_all add: insort_key_map [of f g f', OF fg])
  then show ?thesis by (simp add: sort_key_def)
qed

text \<open>
  The resolution of the start block of a run does not depend on which blocks are enabled: whatever
  the flags are, the block of the same id is chosen, on the same path.
\<close>

theorem start_ignores_enabled:
  "resolveExecutorStartBlock h k isChild (map (flagged e) bs) =
     map_sum id (map_option (\<lambda>(b, path). (flagged e b, path))) (resolveExecutorStartBlock h k isChild bs)"
proof -
  let ?g = "\<lambda>(i, c, p). (fst (reflag e (i, c)), snd (reflag e (i, c)), p)"
  have "resolveStartCandidates h k isChild (start_wrappers (map (flagged e) bs)) =
      map ?g (resolveStartCandidates h k isChild (start_wrappers bs))"
    unfolding start_wrappers_map resolveStartCandidates_def Let_def start_candidates_map
    by (rule sort_key_map) (simp add: case_prod_beta)
  then show ?thesis
    by (auto simp: resolveExecutorStartBlock_def reflag_def split: list.split)
qed

definition typed_blocks :: "sblock list \<Rightarrow> sblock list" where
  "typed_blocks bs = filter (\<lambda>b. \<not> falsy_str (blk_type b)) bs"

lemma wrappers_distinct:
  assumes "distinct (map blk_id bs)"
  shows "start_wrappers bs = map (\<lambda>b. (blk_id b, \<lparr>sw_type = the (blk_type b), sw_original = b\<rparr>)) (typed_blocks bs)"
  using assms
proof (induction bs rule: rev_induct)
  case Nil
  then show ?case by (simp add: start_wrappers_def typed_blocks_def)
next
  case (snoc b bs)
  let ?w = "\<lambda>b. (blk_id b, \<lparr>sw_type = the (blk_type b), sw_original = b\<rparr>)"
  have fresh: "\<not> mhas (map ?w (typed_blocks bs)) (blk_id b)"
    using snoc.prems by (auto simp: mhas_def mget_def typed_blocks_def map_of_eq_None_iff)
  have "mput k v m = m @ [(k, v)]" if "\<not> mhas m k" for k and v :: start_wrapper and m
    using that by (induction m) (auto simp: mput_def)
  from this [OF fresh] snoc show ?case
    by (simp add: start_wrappers_def add_wrapper_def typed_blocks_def)
qed

text \<open>The blocks that may start a run, each with its path.\<close>

definition may_start :: "start_host \<Rightarrow> execution_kind \<Rightarrow> bool \<Rightarrow> sblock \<Rightarrow> start_path \<Rightarrow> bool" where
  "may_start h k isChild b path \<longleftrightarrow>
     \<not> falsy_str (blk_type b) \<and>
     classifyStartBlockType (the (blk_type b)) (sh_registry h (the (blk_type b))) False = Some path \<and>
     (if isChild then path \<in> set CHILD_PRIORITIES else supportsExecution path k)"

lemma candidates_may_start:
  assumes "distinct (map blk_id bs)"
  shows "(i, c, path) \<in> set (start_candidates h k isChild (start_wrappers bs)) \<longleftrightarrow>
    (\<exists>b \<in> set bs. i = blk_id b \<and> c = \<lparr>sw_type = the (blk_type b), sw_original = b\<rparr> \<and> may_start h k isChild b path)"
  unfolding wrappers_distinct [OF assms]
  by (force simp: start_candidates_def typed_blocks_def may_start_def classifyStartBlock_def split: option.splits if_splits)

text \<open>
  The start block that is resolved is one that may start such a run, and none that may do so has a higher
  priority; none is resolved only if there is none, and the resolution of a child workflow fails
  only if it has two.
\<close>

theorem start_resolution:
  assumes "distinct (map blk_id bs)"
  shows "case resolveExecutorStartBlock h k isChild bs of
      Inr (Some (b, path)) \<Rightarrow> b \<in> set bs \<and> may_start h k isChild b path \<and>
        (\<forall>b' \<in> set bs. \<forall>path'. may_start h k isChild b' path' \<longrightarrow>
          position (if isChild then CHILD_PRIORITIES else EXECUTION_PRIORITIES k) path
            \<le> position (if isChild then CHILD_PRIORITIES else EXECUTION_PRIORITIES k) path')
    | Inr None \<Rightarrow> \<forall>b \<in> set bs. \<forall>path. \<not> may_start h k isChild b path
    | Inl e \<Rightarrow> isChild \<and> e = MultipleTriggers \<and> 1 < length (start_candidates h k isChild (start_wrappers bs))"
proof -
  let ?order = "if isChild then CHILD_PRIORITIES else EXECUTION_PRIORITIES k"
  let ?key = "\<lambda>(i, c, path). position ?order path" and ?cs = "start_candidates h k isChild (start_wrappers bs)"
  note may = candidates_may_start [OF assms, of _ _ _ h k isChild]
  have r: "resolveStartCandidates h k isChild (start_wrappers bs) = sort_key ?key ?cs"
    by (simp add: resolveStartCandidates_def)
  show ?thesis
  proof (cases "sort_key ?key ?cs")
    case Nil
    then have "?cs = []" by (metis set_empty set_sort)
    with Nil may show ?thesis by (auto simp: resolveExecutorStartBlock_def r)
  next
    case (Cons x rest)
    obtain i c path where x: "x = (i, c, path)" by (cases x)
    have all: "set ?cs = set (x # rest)" using Cons set_sort [of ?key ?cs] by simp
    have "\<forall>y \<in> set (x # rest). ?key x \<le> ?key y"
      using sorted_sort_key [of ?key ?cs] unfolding Cons by auto
    with all have first: "?key x \<le> ?key y" if "y \<in> set ?cs" for y using that by blast
    have "x \<in> set ?cs" using all by simp
    with may x obtain b where b: "b \<in> set bs" "c = \<lparr>sw_type = the (blk_type b), sw_original = b\<rparr>" "may_start h k isChild b path"
      by blast
    have least: "position ?order path \<le> position ?order path'" if "b' \<in> set bs" "may_start h k isChild b' path'" for b' path'
    proof -
      have "(blk_id b', \<lparr>sw_type = the (blk_type b'), sw_original = b'\<rparr>, path') \<in> set ?cs"
        using may that by blast
      from first [OF this] show ?thesis by (simp add: x)
    qed
    have res: "resolveExecutorStartBlock h k isChild bs =
        (if isChild \<and> rest \<noteq> [] then Inl MultipleTriggers else Inr (Some (sw_original c, path)))"
      unfolding resolveExecutorStartBlock_def r Cons x by simp
    show ?thesis
    proof (cases "isChild \<and> rest \<noteq> []")
      case True
      have "length (sort_key ?key ?cs) = length ?cs" by simp
      with Cons True have "1 < length ?cs" by (cases rest) auto
      with True show ?thesis unfolding res by simp
    next
      case False
      then have "resolveExecutorStartBlock h k isChild bs = Inr (Some (b, path))" unfolding res by (auto simp: b(2))
      with b(1,3) least show ?thesis by simp
    qed
  qed
qed

section \<open>Control fields\<close>

lemma set_collect:
  "set (collectExecutionControlFieldNames names) =
     {n. Some n \<in> set names \<and> n \<in> set EXECUTION_CONTROL_OUTPUT_FIELD_NAMES}"
proof -
  have "set (fold (\<lambda>n acc. if \<not> falsy_str n \<and> the n \<in> set EXECUTION_CONTROL_OUTPUT_FIELD_NAMES then sadd (the n) acc else acc)
      names acc) = set acc \<union> {n. Some n \<in> set names \<and> n \<in> set EXECUTION_CONTROL_OUTPUT_FIELD_NAMES}" for acc
  proof (induction names arbitrary: acc)
    case (Cons n names)
    show ?case
    proof (cases n)
      case (Some s)
      then show ?thesis
        unfolding fold.simps comp_def Cons.IH by (auto simp: EXECUTION_CONTROL_OUTPUT_FIELD_NAMES_def)
    qed (simp add: Cons.IH)
  qed simp
  then show ?thesis by (simp add: collectExecutionControlFieldNames_def)
qed

lemma start_output_unreserved:
  assumes "buildStartBlockOutput h res = Inr out" and "k \<in> set EXECUTION_CONTROL_OUTPUT_FIELD_NAMES"
  shows "\<not> mhas out k"
proof -
  obtain b where "assertNoReservedStartOutputFields out b = None"
    using assms(1) by (auto simp: buildStartBlockOutput_def Let_def split: prod.splits option.splits)
  then have "collectExecutionControlFieldNames (map Some (mkeys out)) = []"
    by (simp add: assertNoReservedStartOutputFields_def Let_def split: if_splits)
  then have "\<not> (Some k \<in> set (map Some (mkeys out)))"
    using set_collect [of "map Some (mkeys out)"] assms(2) by auto
  then show ?thesis by (simp add: image_iff)
qed


section \<open>Files\<close>

definition owned_file :: "start_host \<Rightarrow> jobj \<Rightarrow> bool" where
  "owned_file h f \<longleftrightarrow>
     (\<exists>k ws. get_prop f ''key'' = JStr k \<and> k \<noteq> [] \<and> sh_workspaceId h = Some ws \<and> sh_keyWorkspace h k = Some ws)"

lemma resolved_key_owned:
  "resolveOwnedStartFileKey h sk url ws = k \<Longrightarrow> k \<noteq> [] \<Longrightarrow> sh_keyWorkspace h k = Some ws"
  by (auto simp: resolveOwnedStartFileKey_def split: if_splits option.splits)

lemma user_file_key: "get_prop (user_file f url key context) ''key'' = JStr key"
  by (simp add: user_file_def get_prop_def)

lemma normalized_owned:
  assumes "normalizeStartFile h ws file = Some f" and "sh_workspaceId h = Some ws"
  shows "owned_file h f"
proof -
  obtain r key where "f = user_file r (file_url r) key (sh_keyContext h key)" "key \<noteq> []"
    "key = resolveOwnedStartFileKey h (get_prop r ''key'') (file_url r) ws"
    using assms(1) by (auto simp: normalizeStartFile_def Let_def split: jval.splits if_splits)
  with resolved_key_owned assms(2) show ?thesis by (auto simp: owned_file_def user_file_key)
qed

lemma files_owned:
  assumes "getFilesFromWorkflowInput h = Some fs" and "f \<in> set fs"
  shows "owned_file h f"
proof -
  obtain ws files where ws: "fs = map the (map (\<lambda>f. if falsy_str (sh_workspaceId h) then None
      else normalizeStartFile h (the (sh_workspaceId h)) f) files)"
    "None \<notin> set (map (\<lambda>f. if falsy_str (sh_workspaceId h) then None
      else normalizeStartFile h (the (sh_workspaceId h)) f) files)"
    using assms(1) by (auto simp: getFilesFromWorkflowInput_def Let_def split: jval.splits if_splits)
  with assms(2) obtain x where "x \<in> set files" "f = the (if falsy_str (sh_workspaceId h) then None
      else normalizeStartFile h (the (sh_workspaceId h)) x)" by auto
  moreover from this(1) ws(2) have "(if falsy_str (sh_workspaceId h) then None
      else normalizeStartFile h (the (sh_workspaceId h)) x) \<noteq> None"
    unfolding set_map image_iff by metis
  ultimately have "\<not> falsy_str (sh_workspaceId h)" "normalizeStartFile h (the (sh_workspaceId h)) x = Some f"
    by (auto split: if_splits)
  then show ?thesis
    by (intro normalized_owned [of h "the (sh_workspaceId h)" x f]) (auto elim!: falsy_str.elims)
qed

lemma get_mdel: "get_prop (mdel k m) k' = (if k' = k then JUndef else get_prop m k')"
  by (simp add: get_prop_def)

lemma get_mput: "get_prop (mput k v m) k' = (if k' = k then v else get_prop m k')"
  by (simp add: get_prop_def)

lemma get_put_metadata: "k \<noteq> ''metadata'' \<Longrightarrow> get_prop (put_metadata h b out) k = get_prop out k"
  by (simp add: put_metadata_def START_BLOCK_METADATA_FIELD_def get_mdel get_mput Let_def split: option.split)

lemma start_output_passes:
  assumes "buildStartBlockOutput h (b, path) = Inr out"
  shows "out = put_metadata h b (mergeFilesIntoOutput h
    (path_output h path (if path = LEGACY_STARTER then getSerializedLegacyStarterMode b else None) (extractInputFormat b)))"
  using assms by (auto simp: buildStartBlockOutput_def Let_def split: option.splits)

text \<open>
  When the input of a run has files of its own, the files of the start block's output are either absent
  or all carry a storage key that names the workspace of the run.
\<close>

theorem start_files_owned:
  assumes "buildStartBlockOutput h (b, path) = Inr out"
    and "sh_workflowInput h = JObj r" and "mhas r ''files''"
  shows "get_prop out ''files'' = JUndef \<or>
    (\<exists>fs. get_prop out ''files'' = JArr (map JObj fs) \<and>
      (\<forall>f \<in> set fs. \<exists>k ws. get_prop f ''key'' = JStr k \<and> k \<noteq> [] \<and> sh_workspaceId h = Some ws \<and> sh_keyWorkspace h k = Some ws))"
proof -
  let ?p = "path_output h path (if path = LEGACY_STARTER then getSerializedLegacyStarterMode b else None) (extractInputFormat b)"
  have "get_prop out ''files'' = get_prop (mergeFilesIntoOutput h ?p) ''files''"
    unfolding start_output_passes [OF assms(1)] by (rule get_put_metadata) simp
  then show ?thesis
    using assms(2,3) files_owned [of h]
    by (cases "getFilesFromWorkflowInput h") (auto simp: mergeFilesIntoOutput_def get_mput owned_file_def)
qed

text \<open>
  Files that come in the nested \<open>input\<close> object of an API run without an input format are not
  checked: they are in the output of the start block as the caller sent them.
\<close>

theorem nested_files_unchecked:
  assumes "buildStartBlockOutput h (b, SPLIT_API) = Inr out" and "extractInputFormat b = []"
    and "sh_workflowInput h = JObj r" and "\<not> mhas r ''files''" and "get_prop r ''input'' = JObj c"
  shows "get_prop out ''files'' = get_prop c ''files''"
proof -
  have "mhas r ''input''" using assms(5) by (auto simp: get_prop_def mhas_def split: option.splits)
  moreover have "getFilesFromWorkflowInput h = None"
    using assms(3,4) by (auto simp: getFilesFromWorkflowInput_def get_prop_def mhas_def)
  ultimately show ?thesis
    unfolding start_output_passes [OF assms(1)]
    using assms(2-5)
    by (simp add: get_put_metadata mergeFilesIntoOutput_def path_output_def deriveInputFromFormat_def
        getRawInputCandidate_def buildApiOrInputOutput_def get_mput)
qed

section \<open>Where the fields come from\<close>

lemma mproper_ConsD: "mproper ((k, v) # m) \<Longrightarrow> mproper m \<and> mget m k = None"
  by (auto simp: mproper_def mget_def map_of_eq_None_iff image_iff)

lemma mproper_structured: "mproper (structured_input h fs)"
proof -
  have "mproper (fold (\<lambda>f acc. let name = readInputFormatFieldName f
      in if falsy_str name then acc else mput (the name) (field_value h f (the name)) acc) fs m)" if "mproper m" for m
    using that by (induction fs arbitrary: m) (simp_all add: Let_def)
  then show ?thesis by (simp add: structured_input_def)
qed

lemma mget_structured:
  assumes "n \<noteq> []"
  shows "mget (structured_input h fs) n =
    (case filter (\<lambda>f. readInputFormatFieldName f = Some n) fs of [] \<Rightarrow> None | f # gs \<Rightarrow> Some (field_value h (last (f # gs)) n))"
proof (induction fs rule: rev_induct)
  case Nil
  then show ?case by (simp add: structured_input_def)
next
  case (snoc f fs)
  let ?gs = "filter (\<lambda>f. readInputFormatFieldName f = Some n) fs"
  have step: "structured_input h (fs @ [f]) = (let name = readInputFormatFieldName f
      in if falsy_str name then structured_input h fs else mput (the name) (field_value h f (the name)) (structured_input h fs))"
    by (simp add: structured_input_def Let_def)
  show ?case
  proof (cases "readInputFormatFieldName f = Some n")
    case True
    with assms show ?thesis unfolding step by (cases ?gs) (simp_all add: Let_def)
  next
    case False
    then have "mget (structured_input h (fs @ [f])) n = mget (structured_input h fs) n"
      unfolding step by (cases "readInputFormatFieldName f") (auto simp: Let_def)
    with False snoc show ?thesis by simp
  qed
qed

lemma mget_put_entries:
  "mproper es \<Longrightarrow> mget (put_entries es out) k = (case mget es k of Some v \<Rightarrow> Some v | None \<Rightarrow> mget out k)"
proof (induction es arbitrary: out)
  case (Cons e es)
  obtain a v where e: "e = (a, v)" by fastforce
  from mproper_ConsD [OF Cons.prems [unfolded e]] Cons.IH [of "mput a v out"] show ?case
    by (auto simp: put_entries_def e split: option.split)
qed (simp add: put_entries_def)

lemma mget_put_runtime:
  "mget (put_runtime kept (a, v) out) k =
    (if k = a \<and> k \<notin> set kept \<and> (v \<noteq> JUndef \<and> v \<noteq> JNull \<or> mget out k = None) then Some v else mget out k)"
  by (auto simp: put_runtime_def mhas_def)

lemma mget_runtime:
  assumes "mproper r"
  shows "mget (fold (\<lambda>e out. if fst e = x then out else put_runtime kept e out) r out) k =
    (case mget r k of
       None \<Rightarrow> mget out k
     | Some v \<Rightarrow> if k \<noteq> x \<and> k \<notin> set kept \<and> (v \<noteq> JUndef \<and> v \<noteq> JNull \<or> mget out k = None) then Some v else mget out k)"
  using assms
proof (induction r arbitrary: out)
  case (Cons e r)
  obtain a v where e: "e = (a, v)" by fastforce
  note tail = mproper_ConsD [OF Cons.prems [unfolded e]]
  show ?case
  proof (cases "k = a")
    case True
    with tail Cons.IH show ?thesis by (auto simp: e mget_put_runtime)
  next
    case False
    with tail Cons.IH show ?thesis by (cases "mget r k") (auto simp: e mget_put_runtime)
  qed
qed simp

lemma get_fill: "k \<noteq> ''input'' \<Longrightarrow> get_prop (fill_input v out) k = get_prop out k"
  "k \<noteq> ''conversationId'' \<Longrightarrow> get_prop (fill_conversation v out) k = get_prop out k"
  by (simp_all add: fill_input_def fill_conversation_def get_mput Let_def)

lemma get_merge: "k \<noteq> ''files'' \<Longrightarrow> get_prop (mergeFilesIntoOutput h out) k = get_prop out k"
  by (simp add: mergeFilesIntoOutput_def get_mput split: option.split jval.split)

text \<open>
  A field of the output of a unified start block comes from the input format if it is named there: the
  coerced value of its last definition, from the nested input, else the input, else the default. Otherwise it
  is what the input has under that name.
\<close>

theorem start_input_precedence:
  assumes "buildStartBlockOutput h (b, UNIFIED) = Inr out" and "sh_workflowInput h = JObj r" and "mproper r"
    and "n \<noteq> []" and "n \<notin> {''input'', ''conversationId'', ''files'', ''metadata'', ''onUploadError''}"
  shows "get_prop out n =
    (case filter (\<lambda>f. readInputFormatFieldName f = Some n) (extractInputFormat b) of
       [] \<Rightarrow> get_prop r n
     | f # fs \<Rightarrow> field_value h (last (f # fs)) n)"
proof -
  let ?fs = "extractInputFormat b" and ?s = "structured_input h (extractInputFormat b)"
  obtain st fin has where d: "deriveInputFromFormat h ?fs = (st, fin, has)" by (metis prod_cases3)
  have st: "st = ?s" "has \<longleftrightarrow> ?s \<noteq> []"
    using d by (auto simp: deriveInputFromFormat_def Let_def structured_input_def split: if_splits)
  have n: "n \<noteq> ''input''" "n \<noteq> ''conversationId''" "n \<noteq> ''files''" "n \<noteq> ''metadata''" "n \<noteq> ''onUploadError''"
    using assms(5) by auto
  have "get_prop out n = get_prop (buildUnifiedStartOutput (JObj r) ?s (?s \<noteq> [])) n"
    unfolding start_output_passes [OF assms(1)]
    by (simp add: get_put_metadata get_merge n path_output_def d st assms(2))
  also have "\<dots> = (case mget ?s n of
      None \<Rightarrow> get_prop r n
    | Some v \<Rightarrow> v)"
  proof -
    have kept: "n \<in> set (mkeys ?s) \<longleftrightarrow> mget ?s n \<noteq> None" by (simp add: mhas_def)
    have out0: "mget (if ?s \<noteq> [] then put_entries ?s [] else []) n = mget ?s n"
      by (auto simp: mget_put_entries [OF mproper_structured] split: option.split)
    have keptset: "set (if ?s \<noteq> [] then mkeys ?s else []) = set (mkeys ?s)" by (cases ?s) (simp_all add: mkeys_def)
    let ?F = "fold (\<lambda>e out. if fst e = ''onUploadError'' then out else put_runtime (if ?s \<noteq> [] then mkeys ?s else []) e out) r
        (if ?s \<noteq> [] then put_entries ?s [] else [])"
    have "mget ?F n =
      (case mget ?s n of None \<Rightarrow> mget r n | Some v \<Rightarrow> Some v)"
      unfolding mget_runtime [OF assms(3)] out0 keptset kept
      using n(5) by (auto split: option.split)
    then have "get_prop ?F n = (case mget ?s n of None \<Rightarrow> get_prop r n | Some v \<Rightarrow> v)"
      by (simp only: get_prop_def) (simp split: option.split)
    moreover have "get_prop (buildUnifiedStartOutput (JObj r) ?s (?s \<noteq> [])) n = get_prop ?F n"
      unfolding buildUnifiedStartOutput_def Let_def jval.case get_fill(2) [OF n(2)] get_fill(1) [OF n(1)] ..
    ultimately show ?thesis by simp
  qed
  also have "\<dots> = (case filter (\<lambda>f. readInputFormatFieldName f = Some n) ?fs of
      [] \<Rightarrow> get_prop r n | f # fs \<Rightarrow> field_value h (last (f # fs)) n)"
    unfolding mget_structured [OF assms(4)] by (simp split: list.split)
  finally show ?thesis .
qed

section \<open>Concrete runs\<close>

text \<open>A start block with a number field, called with the number as text, a file and another field.\<close>

definition order_block :: sblock where
  "order_block = (demo_block ''s'' ''start_trigger'' True)\<lparr>blk_params := [(''inputFormat'',
     JArr [JObj [(''name'', JStr '' n ''), (''type'', JStr ''number''), (''value'', JNum 5)]])]\<rparr>"

definition order_file :: jval where
  "order_file = JObj [(''id'', JStr ''f''), (''name'', JStr ''a''), (''url'', JStr ''u''), (''size'', JNum 1),
     (''type'', JStr ''t''), (''key'', JStr ''workspace/w/a'')]"

definition order_host :: start_host where
  "order_host = \<lparr>sh_registry = (\<lambda>_. None),
     sh_workflowInput = JObj [(''n'', JStr ''7''), (''q'', JStr ''x''), (''files'', JArr [order_file])],
     sh_runMetadata = None, sh_workspaceId = Some ''w'', sh_parse = (\<lambda>_. None),
     sh_number = (\<lambda>v. if v = JStr ''7'' then Some (JNum 7) else None), sh_string = (\<lambda>_. []),
     sh_keyWorkspace = (\<lambda>k. if k = ''workspace/w/a'' then Some ''w'' else None),
     sh_keyContext = (\<lambda>_. Some ''workspace''), sh_urlKey = (\<lambda>_. None)\<rparr>"

definition started :: "start_error + jobj \<Rightarrow> jobj" where
  "started x = (case x of Inl _ \<Rightarrow> [] | Inr out \<Rightarrow> out)"

definition accepted :: "start_error + jobj \<Rightarrow> bool" where
  "accepted x = (case x of Inl _ \<Rightarrow> False | Inr _ \<Rightarrow> True)"

lemma accepted_iff: "accepted x \<longleftrightarrow> x = Inr (started x)"
  by (cases x) (simp_all add: accepted_def started_def)

lemma order_accepted: "accepted (buildStartBlockOutput order_host (order_block, UNIFIED))"
  by code_simp


theorem start_input_precedence_witness:
  "get_prop (started (buildStartBlockOutput order_host (order_block, UNIFIED))) ''n'' = JNum 7"
proof -
  have w: "sh_workflowInput order_host = JObj [(''n'', JStr ''7''), (''q'', JStr ''x''), (''files'', JArr [order_file])]"
    by (simp add: order_host_def)
  have m: "mproper [(''n'', JStr ''7''), (''q'', JStr ''x''), (''files'', JArr [order_file])]"
    by (simp add: mproper_def)
  have v: "(case filter (\<lambda>f. readInputFormatFieldName f = Some ''n'') (extractInputFormat order_block) of
       [] \<Rightarrow> JNull | f # fs \<Rightarrow> field_value order_host (last (f # fs)) ''n'') = JNum 7"
    by code_simp
  from start_input_precedence [OF order_accepted [unfolded accepted_iff] w m, of "''n''"] v show ?thesis
    by (cases "filter (\<lambda>f. readInputFormatFieldName f = Some ''n'') (extractInputFormat order_block)") simp_all
qed

theorem start_files_owned_witness:
  "\<exists>f k. get_prop (started (buildStartBlockOutput order_host (order_block, UNIFIED))) ''files'' = JArr [JObj f] \<and>
     get_prop f ''key'' = JStr k \<and> sh_keyWorkspace order_host k = Some ''w''"
proof -
  let ?f = "[(''id'', JStr ''f''), (''name'', JStr ''a''), (''url'', JStr ''u''), (''size'', JNum 1),
     (''type'', JStr ''t''), (''key'', JStr ''workspace/w/a''), (''context'', JStr ''workspace'')]"
  have w: "sh_workflowInput order_host = JObj [(''n'', JStr ''7''), (''q'', JStr ''x''), (''files'', JArr [order_file])]"
    by (simp add: order_host_def)
  have files: "get_prop (started (buildStartBlockOutput order_host (order_block, UNIFIED))) ''files'' = JArr [JObj ?f]"
    by code_simp
  have "mhas [(''n'', JStr ''7''), (''q'', JStr ''x''), (''files'', JArr [order_file])] ''files''" by simp
  from start_files_owned [OF order_accepted [unfolded accepted_iff] w this] files obtain k ws where
    "get_prop ?f ''key'' = JStr k" "sh_workspaceId order_host = Some ws" "sh_keyWorkspace order_host k = Some ws"
    by (auto simp: map_eq_Cons_conv)
  with files show ?thesis by (auto simp: order_host_def)
qed

definition nested_host :: start_host where
  "nested_host = order_host\<lparr>sh_workflowInput := JObj [(''input'', JObj [(''files'', JArr [JStr ''anything''])])],
     sh_workspaceId := None\<rparr>"

lemma nested_accepted: "accepted (buildStartBlockOutput nested_host (demo_block ''s'' ''api_trigger'' True, SPLIT_API))"
  by code_simp

theorem nested_files_unchecked_witness:
  "get_prop (started (buildStartBlockOutput nested_host (demo_block ''s'' ''api_trigger'' True, SPLIT_API))) ''files'' =
     JArr [JStr ''anything'']"
proof -
  have "extractInputFormat (demo_block ''s'' ''api_trigger'' True) = []" by code_simp
  from nested_files_unchecked [OF nested_accepted [unfolded accepted_iff] this,
      of "[(''input'', JObj [(''files'', JArr [JStr ''anything''])])]" "[(''files'', JArr [JStr ''anything''])]"]
  show ?thesis by (simp add: nested_host_def get_prop_def)
qed

theorem start_resolution_witness:
  "\<exists>b path. resolveExecutorStartBlock order_host ManualRun False
      [demo_block ''a'' ''api_trigger'' True, order_block, demo_block ''x'' ''agent'' True] = Inr (Some (b, path)) \<and>
    path = UNIFIED \<and> may_start order_host ManualRun False b path"
proof -
  let ?bs = "[demo_block ''a'' ''api_trigger'' True, order_block, demo_block ''x'' ''agent'' True]"
  have d: "distinct (map blk_id ?bs)" by code_simp
  have "case resolveExecutorStartBlock order_host ManualRun False ?bs of
      Inr (Some (b, path)) \<Rightarrow> path = UNIFIED | _ \<Rightarrow> False" by code_simp
  with start_resolution [OF d, where h = order_host and k = ManualRun and isChild = False] show ?thesis
    by (auto split: sum.splits option.splits)
qed

end
