(* ===== verification/HandlerProps.thy ===== *)
theory HandlerProps
  imports Handlers StartProps
begin

text \<open>
  Properties of the handlers that decide where a run goes on: a condition takes the first branch whose
  expression is true, whether its expressions are tested in one script or one by one; what a
  condition or a router has selected activates the edges of that branch and no other; and
  where the decision fails in copies of a block.
\<close>

section \<open>The first condition that is met\<close>

text \<open>What the tool is relied on: a script with an expression that does not parse fails and may be tried again
  (and the failure does not look like a timeout); otherwise a script has the value of its program.\<close>

definition sandbox_ok :: "code_runner \<Rightarrow> (string \<Rightarrow> bool) \<Rightarrow> (string \<Rightarrow> verdict) \<Rightarrow> jobj \<Rightarrow> bool" where
  "sandbox_ok run parses ev ctx \<longleftrightarrow>
     (\<forall>es. if list_all parses es then run ctx (Batch es) = ToolDone (run_script ev 0 es)
           else \<exists>m r. run ctx (Batch es) = ToolFailed (Some m) r \<and> r \<noteq> Some False \<and> \<not> isTimeoutFailure (Some m)) \<and>
     (\<forall>e. if \<not> parses e then \<exists>m r. run ctx (Single e) = ToolFailed (Some m) r
          else case ev e of
                 Truthy \<Rightarrow> run ctx (Single e) = ToolDone (JBool True)
               | Falsy \<Rightarrow> run ctx (Single e) = ToolDone (JBool False)
               | Throws _ \<Rightarrow> \<exists>m r. run ctx (Single e) = ToolFailed (Some m) r)"

text \<open>The reference: the conditions are tested in order; the first that fails is the left result.\<close>

fun first_met :: "(string \<Rightarrow> bool) \<Rightarrow> (string \<Rightarrow> verdict) \<Rightarrow> condition_entry list \<Rightarrow> condition_entry + condition_entry option" where
  "first_met parses ev [] = Inr None"
| "first_met parses ev (c # cs) =
     (if \<not> parses (ce_value c) then Inl c
      else case ev (ce_value c) of
             Truthy \<Rightarrow> Inr (Some c)
           | Falsy \<Rightarrow> first_met parses ev cs
           | Throws _ \<Rightarrow> Inl c)"

lemma read_script:
  assumes "list_all parses (map ce_value cs)"
  shows "case first_met parses ev cs of
      Inr None \<Rightarrow> read_verdict (i + length cs) (run_script ev i (map ce_value cs)) = NoMatch
    | Inr (Some c) \<Rightarrow> \<exists>j < length cs. cs ! j = c \<and> read_verdict (i + length cs) (run_script ev i (map ce_value cs)) = Matched (i + j)
    | Inl c \<Rightarrow> \<exists>j m. j < length cs \<and> cs ! j = c \<and>
        read_verdict (i + length cs) (run_script ev i (map ce_value cs)) = ExpressionThrew (i + j) m"
  using assms
proof (induction cs arbitrary: i)
  case Nil
  then show ?case by (simp add: read_verdict_def get_prop_def)
next
  case (Cons c cs)
  then have p: "parses (ce_value c)" and ps: "list_all parses (map ce_value cs)" by simp_all
  show ?case
  proof (cases "ev (ce_value c)")
    case Truthy
    with p show ?thesis
      by (auto simp: read_verdict_def get_prop_def intro!: exI [of _ 0])
  next
    case (Throws m)
    with p show ?thesis
      by (auto simp: read_verdict_def get_prop_def intro!: exI [of _ 0])
  next
    case Falsy
    have shift: "\<exists>j' < length (c # cs). (c # cs) ! j' = x \<and> Suc i + j = i + j'" if "j < length cs" "cs ! j = x" for j x
      using that by (intro exI [of _ "Suc j"]) simp
    note IH = Cons.IH [OF ps, of "Suc i"]
    show ?thesis
    proof (cases "first_met parses ev cs")
      case (Inl x)
      with IH obtain j m where "j < length cs" "cs ! j = x"
        "read_verdict (Suc i + length cs) (run_script ev (Suc i) (map ce_value cs)) = ExpressionThrew (Suc i + j) m" by auto
      with shift [of j x] p Falsy Inl show ?thesis by fastforce
    next
      case (Inr o1)
      show ?thesis
      proof (cases o1)
        case None
        with IH Inr p Falsy show ?thesis by simp
      next
        case (Some x)
        with IH Inr obtain j where "j < length cs" "cs ! j = x"
          "read_verdict (Suc i + length cs) (run_script ev (Suc i) (map ce_value cs)) = Matched (Suc i + j)" by auto
        with shift [of j x] p Falsy Inr Some show ?thesis by fastforce
      qed
    qed
  qed
qed

lemma individually:
  assumes "sandbox_ok run parses ev ctx"
  shows "case first_met parses ev cs of
      Inr r \<Rightarrow> findMatchingConditionIndividually run ctx cs = Inr r
    | Inl c \<Rightarrow> \<exists>m cause. findMatchingConditionIndividually run ctx cs = Inl (conditionError c m cause)"
proof (induction cs)
  case Nil
  then show ?case by simp
next
  case (Cons c cs)
  have s: "if \<not> parses (ce_value c) then \<exists>m r. run ctx (Single (ce_value c)) = ToolFailed (Some m) r
      else case ev (ce_value c) of
             Truthy \<Rightarrow> run ctx (Single (ce_value c)) = ToolDone (JBool True)
           | Falsy \<Rightarrow> run ctx (Single (ce_value c)) = ToolDone (JBool False)
           | Throws _ \<Rightarrow> \<exists>m r. run ctx (Single (ce_value c)) = ToolFailed (Some m) r"
    using assms by (simp add: sandbox_ok_def)
  have failed: "\<exists>m cause. findMatchingConditionIndividually run ctx (c # cs) = Inl (conditionError c m cause)"
    if "run ctx (Single (ce_value c)) = ToolFailed (Some m) r" for m r
    using that by (auto simp: evaluateSingleCondition_def)
  show ?case
  proof (cases "parses (ce_value c)")
    case False
    with s failed show ?thesis by auto
  next
    case True
    show ?thesis
    proof (cases "ev (ce_value c)")
      case Falsy
      with True s have "findMatchingConditionIndividually run ctx (c # cs) = findMatchingConditionIndividually run ctx cs"
        by (simp add: evaluateSingleCondition_def)
      with Cons.IH Falsy True show ?thesis by (simp only: first_met.simps not_True_eq_False if_False verdict.case)
    next
      case Truthy
      with True s show ?thesis by (simp add: evaluateSingleCondition_def)
    next
      case (Throws m)
      with True s failed show ?thesis by auto
    qed
  qed
qed

lemma conditions_met:
  assumes "sandbox_ok run parses ev ctx" and "aborted \<longrightarrow> list_all parses (map ce_value cs)"
  shows "case first_met parses ev cs of
      Inr r \<Rightarrow> findMatchingCondition run aborted ctx cs = Inr r
    | Inl c \<Rightarrow> \<exists>m cause. findMatchingCondition run aborted ctx cs = Inl (conditionError c m cause)"
proof (cases "cs = []")
  case True
  then show ?thesis by (simp add: findMatchingCondition_def)
next
  case ne: False
  show ?thesis
  proof (cases "list_all parses (map ce_value cs)")
    case True
    then have "evaluateConditionList run ctx cs = Inr (read_verdict (length cs) (run_script ev 0 (map ce_value cs)))"
      using assms(1) by (simp add: sandbox_ok_def evaluateConditionList_def)
    with read_script [OF True, where ev = ev and i = 0] ne show ?thesis
      by (fastforce simp: findMatchingCondition_def split: sum.splits option.splits)
  next
    case False
    then obtain m r where "run ctx (Batch (map ce_value cs)) = ToolFailed (Some m) r" "r \<noteq> Some False"
      "\<not> isTimeoutFailure (Some m)"
      using assms(1) unfolding sandbox_ok_def by meson
    then have "evaluateConditionList run ctx cs = Inr (NoVerdict m True False)"
      by (simp add: evaluateConditionList_def)
    with False assms(2) ne have same: "findMatchingCondition run aborted ctx cs = findMatchingConditionIndividually run ctx cs"
      by (simp add: findMatchingCondition_def)
    show ?thesis unfolding same by (rule individually [OF assms(1)])
  qed
qed

text \<open>
  C12: A condition block takes the first condition, before the first else, whose expression is true, and the
  else when there is none: the single script and the fallback that tests one by one agree with testing
  in order. It fails only on a condition that is reached and throws or does not parse, and
  names it.
\<close>

theorem conditions_first_match:
  assumes "sandbox_ok run parses ev ctx" and "aborted \<longrightarrow> list_all parses (map ce_value cs)"
  shows "case first_met parses ev (takeWhile (\<lambda>c. \<not> isElseConditionTitle (ce_title c)) cs) of
      Inr (Some c) \<Rightarrow> evaluateConditions run aborted ctx cs = Inr (Some c)
    | Inr None \<Rightarrow> evaluateConditions run aborted ctx cs = Inr (List.find (\<lambda>c. isElseConditionTitle (ce_title c)) cs)
    | Inl c \<Rightarrow> \<exists>m cause. evaluateConditions run aborted ctx cs = Inl (conditionError c m cause)"
proof -
  let ?cs = "takeWhile (\<lambda>c. \<not> isElseConditionTitle (ce_title c)) cs"
  have "aborted \<longrightarrow> list_all parses (map ce_value ?cs)"
    using assms(2) by (auto simp: list_all_iff dest: set_takeWhileD)
  note met = conditions_met [OF assms(1) this]
  show ?thesis
  proof (cases "first_met parses ev ?cs")
    case (Inl c)
    with met obtain m cause where "findMatchingCondition run aborted ctx ?cs = Inl (conditionError c m cause)" by auto
    with Inl show ?thesis by (auto simp: evaluateConditions_def)
  next
    case (Inr r)
    with met show ?thesis by (cases r) (simp_all add: evaluateConditions_def)
  qed
qed

section \<open>The edges of a condition\<close>

lemma get_put_result:
  "get_prop (put_result out r p sel) k =
     (if k = ''selectedOption'' then sel else if k = ''selectedPath'' then p else if k = ''conditionResult'' then JBool r
      else get_prop out k)"
  by (simp add: put_result_def get_mput)

lemma get_filtered: "get_prop (filterSourceOutput out) ''selectedRoute'' = get_prop out ''selectedRoute''"
  by (induction out) (auto simp: filterSourceOutput_def get_prop_def)

lemma condition_result:
  assumes "condition_execute parse run aborted flow b inputs w = Inr out"
  shows "\<exists>conditions sel r p.
    parseConditions parse (get_prop inputs ''conditions'') = Inr conditions \<and>
    evaluateConditions run aborted (source_output flow b w) conditions = Inr sel \<and>
    out = put_result (filterSourceOutput (source_output flow b w)) r p
      (case sel of None \<Rightarrow> JNull | Some c \<Rightarrow> JStr (ce_id c))"
  using assms
  by (auto simp: condition_execute_def Let_def split: sum.splits option.splits)

text \<open>
  C13: What a condition block has selected activates, of the edges of its branches, exactly those of the
  selected branch, and none when nothing is selected, provided that its source did not leave a
  control route in the output that is passed on.
\<close>

theorem condition_routes:
  assumes "condition_execute parse run aborted flow b inputs w = Inr out"
    and "\<not> control_route (source_output flow b w)"
    and "normalizeWorkflowEdgeSourceHandle (edge_sourceHandle e) = Some (CONDITION_PREFIX @ i)"
    and "CONDITION_PREFIX @ i \<notin> set SUBFLOW_CONTROL_EDGE_HANDLES"
  shows "\<exists>conditions sel. parseConditions parse (get_prop inputs ''conditions'') = Inr conditions \<and>
    evaluateConditions run aborted (source_output flow b w) conditions = Inr sel \<and>
    (shouldActivateEdge e out \<longleftrightarrow> map_option ce_id sel = Some i)"
proof -
  from condition_result [OF assms(1)] obtain conditions sel r p where c:
    "parseConditions parse (get_prop inputs ''conditions'') = Inr conditions"
    "evaluateConditions run aborted (source_output flow b w) conditions = Inr sel"
    and out: "out = put_result (filterSourceOutput (source_output flow b w)) r p
      (case sel of None \<Rightarrow> JNull | Some c \<Rightarrow> JStr (ce_id c))" by blast
  have route: "get_prop out ''selectedRoute'' = get_prop (source_output flow b w) ''selectedRoute''"
    and option: "get_prop out ''selectedOption'' = (case sel of None \<Rightarrow> JNull | Some c \<Rightarrow> JStr (ce_id c))"
    by (simp_all add: out get_put_result get_filtered)
  have nc: "get_prop out ''selectedRoute'' \<noteq> JStr LOOP_EXIT" "get_prop out ''selectedRoute'' \<noteq> JStr LOOP_CONTINUE"
    "get_prop out ''selectedRoute'' \<noteq> JStr PARALLEL_EXIT" "get_prop out ''selectedRoute'' \<noteq> JStr PARALLEL_CONTINUE"
    using assms(2) by (auto simp: route control_route_def)
  have "shouldActivateEdge e out \<longleftrightarrow> get_prop out ''selectedOption'' = JStr i"
    using assms(3,4) nc by (simp add: shouldActivateEdge_def isSubflowControlEdge_def starts_with_def)
  then have "shouldActivateEdge e out \<longleftrightarrow> map_option ce_id sel = Some i"
    by (cases sel) (auto simp: option)
  with c show ?thesis by blast
qed

text \<open>
  A copy of a condition block whose id is not the branch copy of a block with incoming connections, as in a
  clone of a nested container, works without its source: its result is the same whatever any block has
  put out, and the expressions are tested in the empty context.
\<close>

theorem cloned_condition_blind:
  assumes "\<forall>c \<in> set (wf_connections flow). con_target c \<noteq> extractBaseBlockId (blk_id b)"
  shows "condition_execute parse run aborted flow b inputs w = condition_execute parse run aborted flow b inputs w' \<and>
    source_output flow b w = []"
proof -
  have "List.find (\<lambda>c. con_target c = extractBaseBlockId (blk_id b)) (wf_connections flow) = None"
    using assms by (simp add: find_None_iff)
  then have empty: "source_output flow b v = []" for v
    by (simp add: source_output_def condition_source_def)
  show ?thesis unfolding condition_execute_def empty by simp
qed

section \<open>Routers\<close>

text \<open>
  A router that returns has selected one of its routes, the one its model named, and of the edges of its
  routes exactly those of this route are activated, unless the id of the route is a control route.
\<close>

theorem router_v2_routes:
  assumes "executeV2 parse ask flow b inputs = Inr out"
  shows "\<exists>r result reasoning. r \<in> set (parseRoutes parse (get_prop inputs ''routes'')) \<and>
    ask (parseRoutes parse (get_prop inputs ''routes'')) = Inr result \<and>
    read_route parse (mr_content result) = (rd_id r, reasoning) \<and>
    get_prop out ''selectedRoute'' = JStr (rd_id r) \<and>
    (rd_id r \<notin> set SUBFLOW_CONTROL_EDGE_HANDLES \<longrightarrow>
      (\<forall>e i. normalizeWorkflowEdgeSourceHandle (edge_sourceHandle e) = Some (ROUTER_PREFIX @ i) \<longrightarrow>
        (shouldActivateEdge e out \<longleftrightarrow> i = rd_id r)))"
proof -
  let ?routes = "parseRoutes parse (get_prop inputs ''routes'')"
  obtain result where ask: "ask ?routes = Inr result"
    using assms by (auto simp: executeV2_def Let_def split: if_splits sum.splits)
  obtain chosen reasoning where read: "read_route parse (mr_content result) = (chosen, reasoning)" by fastforce
  obtain r where r: "List.find (\<lambda>r. rd_id r = chosen) ?routes = Some r"
    and out: "get_prop out ''selectedRoute'' = JStr (rd_id r)"
    using assms ask read by (auto simp: executeV2_def Let_def get_prop_def split: if_splits option.splits)
  have chosen: "r \<in> set ?routes" "chosen = rd_id r"
    using r by (auto simp: find_Some_iff)
  have prefix: "\<not> starts_with (ROUTER_PREFIX @ i) CONDITION_PREFIX" "ROUTER_PREFIX @ i \<notin> set SUBFLOW_CONTROL_EDGE_HANDLES" for i
    by (simp_all add: edge_handle_defs starts_with_def)
  have "shouldActivateEdge e out \<longleftrightarrow> i = rd_id r"
    if "rd_id r \<notin> set SUBFLOW_CONTROL_EDGE_HANDLES"
      "normalizeWorkflowEdgeSourceHandle (edge_sourceHandle e) = Some (ROUTER_PREFIX @ i)" for e i
  proof -
    have "rd_id r \<notin> {LOOP_EXIT, LOOP_CONTINUE, PARALLEL_EXIT, PARALLEL_CONTINUE}"
      using that(1) by (auto simp: SUBFLOW_CONTROL_EDGE_HANDLES_def)
    with that(2) prefix [of i] show ?thesis
      by (auto simp: shouldActivateEdge_def isSubflowControlEdge_def out starts_with_def)
  qed
  with ask read out chosen show ?thesis by blast
qed

text \<open>
  A legacy router runs only under the id its connections start from: under any other id, as that of a branch
  copy or a clone, it has no target blocks, and every answer of its model is an invalid decision.
\<close>

theorem copied_router_fails:
  assumes "\<forall>c \<in> set (wf_connections flow). con_source c \<noteq> blk_id b"
  shows "\<exists>e. executeLegacy ask flow b inputs = Inl e \<and>
    (case ask [] of Inl e' \<Rightarrow> e = e' | Inr result \<Rightarrow>
      e = plainError (''Invalid routing decision: '' @ map ascii_lower (js_trim (mr_content result))) None)"
proof -
  have "filter (\<lambda>c. con_source c = blk_id b) (wf_connections flow) = []"
    using assms by (simp add: filter_empty_conv)
  then have "getTargetBlocks flow b = Inr []" by (simp add: getTargetBlocks_def)
  then show ?thesis by (simp add: executeLegacy_def split: sum.split)
qed

lemma target_blocks_mem:
  "target_blocks flow cs = Inr ts \<Longrightarrow> c \<in> set cs \<Longrightarrow> block_by_id flow (con_target c) = Some t \<Longrightarrow> t \<in> set ts"
  by (induction cs arbitrary: ts) (auto split: option.splits sum.splits)

text \<open>
  A legacy router may decide for the block behind its error port: when the model names it, the router returns
  it as the selected route, but the error edge that leads there is not activated.
\<close>

theorem router_error_choice:
  assumes "con \<in> set (wf_connections flow)" and "con_source con = blk_id b" and "con_sourceHandle con = Some ERROR"
    and "block_by_id flow (con_target con) = Some t" and "getTargetBlocks flow b = Inr ts"
    and "ask ts = Inr result" and "map ascii_lower (js_trim (mr_content result)) = con_target con"
    and "con_target con \<notin> set SUBFLOW_CONTROL_EDGE_HANDLES" and "edge_sourceHandle e = con_sourceHandle con"
  shows "\<exists>out. executeLegacy ask flow b inputs = Inr out \<and> get_prop out ''selectedRoute'' = JStr (con_target con) \<and>
    \<not> shouldActivateEdge e out"
proof -
  have id_t: "blk_id t = con_target con" using assms(4) by (auto simp: block_by_id_def find_Some_iff)
  have "t \<in> set ts"
    by (rule target_blocks_mem [of flow "filter (\<lambda>c. con_source c = blk_id b) (wf_connections flow)" ts con])
      (use assms in \<open>simp_all add: getTargetBlocks_def\<close>)
  with id_t have "List.find (\<lambda>x. blk_id x = con_target con) ts \<noteq> None" by (auto simp: find_None_iff)
  then obtain t' where t': "List.find (\<lambda>x. blk_id x = con_target con) ts = Some t'" by blast
  then have id': "blk_id t' = con_target con" by (auto simp: find_Some_iff)
  then obtain out where out: "executeLegacy ask flow b inputs = Inr out" "get_prop out ''selectedRoute'' = JStr (con_target con)"
      "get_prop out ''error'' = JUndef"
    using assms(5-7) t' by (simp add: executeLegacy_def get_prop_def)
  have "con_target con \<notin> {LOOP_EXIT, LOOP_CONTINUE, PARALLEL_EXIT, PARALLEL_CONTINUE}"
    using assms(8) by (auto simp: SUBFLOW_CONTROL_EDGE_HANDLES_def)
  moreover have "normalizeWorkflowEdgeSourceHandle (Some ERROR) = Some ERROR" by code_simp
  moreover have "\<not> starts_with ERROR CONDITION_PREFIX" "\<not> starts_with ERROR ROUTER_PREFIX"
    by (simp_all add: edge_handle_defs starts_with_def)
  ultimately have "\<not> shouldActivateEdge e out"
    using assms(3,9) out(2,3) by (simp add: shouldActivateEdge_def isSubflowControlEdge_def)
  with out show ?thesis by blast
qed

section \<open>Concrete decisions\<close>

definition lamp :: "string \<Rightarrow> verdict" where
  "lamp e = (if e = ''on'' then Truthy else if e = ''bad'' then Throws ''bad'' else Falsy)"

text \<open>A tool in which ``?'' does not parse.\<close>

definition lamp_parses :: "string \<Rightarrow> bool" where
  "lamp_parses e \<longleftrightarrow> e \<noteq> ''?''"

definition lamp_run :: code_runner where
  "lamp_run ctx s =
     (case s of
        Batch es \<Rightarrow> if list_all lamp_parses es then ToolDone (run_script lamp 0 es) else ToolFailed (Some ''syntax'') None
      | Single e \<Rightarrow>
          if \<not> lamp_parses e then ToolFailed (Some ''syntax'') None
          else (case lamp e of Truthy \<Rightarrow> ToolDone (JBool True) | Falsy \<Rightarrow> ToolDone (JBool False)
                | Throws m \<Rightarrow> ToolFailed (Some m) None))"

lemma lamp_ok: "sandbox_ok lamp_run lamp_parses lamp ctx"
proof -
  have "\<not> isTimeoutFailure (Some ''syntax'')"
    by (simp add: isTimeoutFailure_def includes_str_def ascii_lower_def sublist_code)
  then show ?thesis
    by (auto simp: sandbox_ok_def lamp_run_def split: verdict.split)
qed

definition lamp_conditions :: "condition_entry list" where
  "lamp_conditions = [\<lparr>ce_id = ''1'', ce_title = ''if'', ce_value = ''off''\<rparr>, \<lparr>ce_id = ''2'', ce_title = ''else if'', ce_value = ''on''\<rparr>,
     \<lparr>ce_id = ''3'', ce_title = ''else if'', ce_value = ''?''\<rparr>, \<lparr>ce_id = ''4'', ce_title = ''else'', ce_value = []\<rparr>]"

text \<open>The third condition does not parse, but it is not reached.\<close>

theorem conditions_first_match_witness:
  "evaluateConditions lamp_run False [] lamp_conditions = Inr (Some \<lparr>ce_id = ''2'', ce_title = ''else if'', ce_value = ''on''\<rparr>)"
proof -
  have "first_met lamp_parses lamp (takeWhile (\<lambda>c. \<not> isElseConditionTitle (ce_title c)) lamp_conditions) =
      Inr (Some \<lparr>ce_id = ''2'', ce_title = ''else if'', ce_value = ''on''\<rparr>)"
    by code_simp
  with conditions_first_match [OF lamp_ok, of False lamp_conditions "[]"] show ?thesis by simp
qed

definition lamp_flow :: sworkflow where
  "lamp_flow = \<lparr>wf_blocks = [demo_block ''s'' ''starter'' True, demo_block ''c'' ''condition'' True, demo_block ''a'' ''agent'' True,
       demo_block ''r'' ''router'' True],
     wf_connections = [demo_con ''s'' ''c'' None, demo_con ''c'' ''a'' (Some ''condition-2''), demo_con ''c'' ''r'' (Some ''condition-1''),
       demo_con ''r'' ''a'' (Some ERROR)],
     wf_loops = [], wf_parallels = []\<rparr>"

definition lamp_inputs :: jobj where
  "lamp_inputs = [(''conditions'', JArr [JObj [(''id'', JStr ''1''), (''title'', JStr ''if''), (''value'', JStr ''off'')],
     JObj [(''id'', JStr ''2''), (''title'', JStr ''else'')]])]"

definition decided :: "js_error + jobj \<Rightarrow> jobj" where
  "decided x = (case x of Inl _ \<Rightarrow> [] | Inr out \<Rightarrow> out)"

lemma decided_iff: "(case x of Inl _ \<Rightarrow> False | Inr _ \<Rightarrow> True) \<longleftrightarrow> x = Inr (decided x)"
  by (cases x) (simp_all add: decided_def)

theorem condition_routes_witness:
  "shouldActivateEdge \<lparr>edge_target = ''a'', edge_sourceHandle = Some ''condition-2'', edge_targetHandle = None\<rparr>
     (decided (condition_execute (\<lambda>_. None) lamp_run False lamp_flow (demo_block ''c'' ''condition'' True) lamp_inputs live_world))"
proof -
  let ?x = "condition_execute (\<lambda>_. None) lamp_run False lamp_flow (demo_block ''c'' ''condition'' True) lamp_inputs live_world"
  have r: "?x = Inr (decided ?x)" unfolding decided_iff [symmetric] by code_simp
  have src: "source_output lamp_flow (demo_block ''c'' ''condition'' True) live_world = []" by code_simp
  have nc: "\<not> control_route (source_output lamp_flow (demo_block ''c'' ''condition'' True) live_world)"
    unfolding src by (auto simp: control_route_def get_prop_def)
  have h: "normalizeWorkflowEdgeSourceHandle (Some ''condition-2'') = Some (CONDITION_PREFIX @ ''2'')"
    "CONDITION_PREFIX @ ''2'' \<notin> set SUBFLOW_CONTROL_EDGE_HANDLES" by code_simp+
  have "case parseConditions (\<lambda>_. None) (get_prop lamp_inputs ''conditions'') of
      Inl _ \<Rightarrow> False | Inr cs \<Rightarrow> (case evaluateConditions lamp_run False [] cs of
        Inr (Some c) \<Rightarrow> ce_id c = ''2'' | _ \<Rightarrow> False)" by code_simp
  with condition_routes [OF r nc, of "\<lparr>edge_target = ''a'', edge_sourceHandle = Some ''condition-2'', edge_targetHandle = None\<rparr>" "''2''"] h
  show ?thesis by (auto simp: src split: sum.splits option.splits)
qed

theorem cloned_condition_blind_witness:
  "source_output lamp_flow (demo_block ''c__obranch-1'' ''condition'' True)
     (put_output 0 ''s__obranch-1'' [(''v'', JNum 1)] live_world) = []"
proof -
  have "list_all (\<lambda>c. con_target c \<noteq> extractBaseBlockId (blk_id (demo_block ''c__obranch-1'' ''condition'' True))) (wf_connections lamp_flow)"
    by code_simp
  then show ?thesis using cloned_condition_blind [of lamp_flow "demo_block ''c__obranch-1'' ''condition'' True"] by (simp add: list_all_iff)
qed

definition says :: "string \<Rightarrow> 'a \<Rightarrow> js_error + model_result" where
  "says s x = Inr \<lparr>mr_content = s, mr_model = JUndef, mr_tokens = JUndef, mr_cost = JUndef\<rparr>"

theorem router_v2_routes_witness:
  "get_prop (decided (executeV2 (\<lambda>s. if s = ''{}'' then Some (JObj [(''route'', JStr ''2'')]) else None) (says ''{}'') lamp_flow
     (demo_block ''r'' ''router_v2'' True) [(''routes'', JArr [JObj [(''id'', JStr ''1'')], JObj [(''id'', JStr ''2'')]])])) ''selectedRoute'' = JStr ''2''"
proof -
  let ?parse = "\<lambda>s. if s = ''{}'' then Some (JObj [(''route'', JStr ''2'')]) else None"
  let ?x = "executeV2 ?parse (says ''{}'') lamp_flow
     (demo_block ''r'' ''router_v2'' True) [(''routes'', JArr [JObj [(''id'', JStr ''1'')], JObj [(''id'', JStr ''2'')]])]"
  have r: "?x = Inr (decided ?x)" unfolding decided_iff [symmetric] by code_simp
  have read: "read_route ?parse ''{}'' = (''2'', [])" by code_simp
  from router_v2_routes [OF r] read show ?thesis by (auto simp: says_def)
qed

theorem copied_router_fails_witness:
  "executeLegacy (says ''a'') lamp_flow (demo_block (buildBranchNodeId ''r'' 1) ''router'' True) [] =
     Inl (plainError ''Invalid routing decision: a'' None)"
proof -
  have "list_all (\<lambda>c. con_source c \<noteq> blk_id (demo_block (buildBranchNodeId ''r'' 1) ''router'' True)) (wf_connections lamp_flow)"
    by code_simp
  moreover have "map ascii_lower (js_trim ''a'') = ''a''" by code_simp
  ultimately show ?thesis
    using copied_router_fails [of lamp_flow "demo_block (buildBranchNodeId ''r'' 1) ''router'' True" "says ''a''" "[]"]
    by (simp add: list_all_iff says_def)
qed

theorem router_error_choice_witness:
  "\<exists>out. executeLegacy (says ''a'') lamp_flow (demo_block ''r'' ''router'' True) [] = Inr out \<and>
     \<not> shouldActivateEdge \<lparr>edge_target = ''a'', edge_sourceHandle = Some ERROR, edge_targetHandle = None\<rparr> out"
proof -
  let ?con = "demo_con ''r'' ''a'' (Some ERROR)" and ?b = "demo_block ''r'' ''router'' True" and ?a = "demo_block ''a'' ''agent'' True"
  let ?e = "\<lparr>edge_target = ''a'', edge_sourceHandle = Some ERROR, edge_targetHandle = None\<rparr>"
  have con: "?con \<in> set (wf_connections lamp_flow)" by (simp add: lamp_flow_def)
  have fields: "con_source ?con = blk_id ?b" "con_sourceHandle ?con = Some ERROR" "con_target ?con = ''a''"
    by (simp_all add: demo_con_def demo_block_def)
  have target: "block_by_id lamp_flow (con_target ?con) = Some ?a" "getTargetBlocks lamp_flow ?b = Inr [?a]" by code_simp+
  have ask: "says ''a'' [?a] = Inr \<lparr>mr_content = ''a'', mr_model = JUndef, mr_tokens = JUndef, mr_cost = JUndef\<rparr>"
    by (simp add: says_def)
  have name: "map ascii_lower (js_trim (mr_content \<lparr>mr_content = ''a'', mr_model = JUndef, mr_tokens = JUndef, mr_cost = JUndef\<rparr>)) =
      con_target ?con" by code_simp
  have plain: "con_target ?con \<notin> set SUBFLOW_CONTROL_EDGE_HANDLES" by code_simp
  have handle: "edge_sourceHandle ?e = con_sourceHandle ?con" by (simp add: fields)
  from router_error_choice [where ask = "says ''a''", OF con fields(1,2) target ask name plain handle] show ?thesis by blast
qed

end
