(* ===== verification/References.thy ===== *)
theory References
  imports World Paths
begin

text \<open>
  References into the values of a run: their syntax (\<open>executor/constants.ts\<close>), large values that
  are kept outside (\<open>lib/execution/payloads/large-value-ref.ts\<close>, \<open>large-array-manifest-metadata.ts\<close>),
  navigation along a path (\<open>variables/resolvers/reference.ts\<close>, \<open>reference-async.server.ts\<close>), and
  references to the output of a block checked against its schema (\<open>utils/block-reference.ts\<close>).

  Parameters are the record \<open>value_host\<close>: what the storage of large values returns, the hydration
  of the bytes of a file, and the members that every object and array inherits from the
  language. Strings are UTF-8; letters are folded in the ASCII range.
\<close>

section \<open>Errors\<close>

datatype resolve_error =
    InvalidField string string "string list"
  | TooLarge int
  | HostError string

definition and_then :: "'e + 'a \<Rightarrow> ('a \<Rightarrow> 'e + 'b) \<Rightarrow> 'e + 'b" where
  "and_then r f = (case r of Inl e \<Rightarrow> Inl e | Inr v \<Rightarrow> f v)"

lemma and_then_simps [simp]: "and_then (Inl e) f = Inl e" "and_then (Inr v) f = f v"
  by (simp_all add: and_then_def)

lemma and_then_Inr_iff: "and_then r f = Inr b \<longleftrightarrow> (\<exists>a. r = Inr a \<and> f a = Inr b)"
  by (cases r) auto

section \<open>Syntax\<close>

definition LOOP_REF :: string where "LOOP_REF = ''loop''"
definition PARALLEL_REF :: string where "PARALLEL_REF = ''parallel''"
definition VARIABLE_REF :: string where "VARIABLE_REF = ''variable''"

definition SPECIAL_REFERENCE_PREFIXES :: "string list" where
  "SPECIAL_REFERENCE_PREFIXES = [LOOP_REF, PARALLEL_REF, VARIABLE_REF]"

lemmas reference_prefix_defs = LOOP_REF_def PARALLEL_REF_def VARIABLE_REF_def SPECIAL_REFERENCE_PREFIXES_def

definition isReference :: "string \<Rightarrow> bool" where
  "isReference v \<longleftrightarrow> starts_with v ''<'' \<and> ends_with v ''>''"

definition isEnvVarReference :: "string \<Rightarrow> bool" where
  "isEnvVarReference v \<longleftrightarrow> starts_with v ''{{'' \<and> ends_with v ''}}''"

definition extractEnvVarName :: "string \<Rightarrow> string" where
  "extractEnvVarName r = take (length r - 4) (drop 2 r)"

definition extractReferenceContent :: "string \<Rightarrow> string" where
  "extractReferenceContent r = take (length r - 2) (drop 1 r)"

fun split_dots :: "string \<Rightarrow> string list" where
  "split_dots [] = [[]]"
| "split_dots (c # cs) =
     (if c = CHR ''.'' then [] # split_dots cs
      else case split_dots cs of [] \<Rightarrow> [[c]] | p # ps \<Rightarrow> (c # p) # ps)"

definition parseReferencePath :: "string \<Rightarrow> string list" where
  "parseReferencePath r = split_dots (extractReferenceContent r)"

text \<open>\<open>replace(/\s+/g, '')\<close>.\<close>

function strip_spaces :: "string \<Rightarrow> string" where
  "strip_spaces s =
     (case skip_space s of
        Some r \<Rightarrow> strip_spaces r
      | None \<Rightarrow> (case s of [] \<Rightarrow> [] | c # cs \<Rightarrow> c # strip_spaces cs))"
  by pat_completeness auto
termination by (relation "measure length") (auto dest: skip_space_shorter)

declare strip_spaces.simps [simp del]

definition normalizeName :: "string \<Rightarrow> string" where
  "normalizeName name = filter (\<lambda>c. c \<noteq> CHR ''.'') (strip_spaces (map ascii_lower name))"

definition all_digits :: "string \<Rightarrow> bool" where
  "all_digits s \<longleftrightarrow> s \<noteq> [] \<and> list_all is_digit s"

definition INDEX_SEG :: seg_pattern where
  "INDEX_SEG = \<lparr>seg_fold = id, seg_lit = ''['', seg_class = is_digit, seg_close = '']''\<rparr>"

text \<open>A path part \<open>property[1][2]\<close>: the text up to the first bracket, and the rest.\<close>

definition split_bracket :: "string \<Rightarrow> string \<times> string" where
  "split_bracket part = (takeWhile (\<lambda>c. c \<noteq> CHR ''['') part, dropWhile (\<lambda>c. c \<noteq> CHR ''['') part)"

definition splitLeadingBracketPath :: "string \<Rightarrow> string \<times> string list" where
  "splitLeadingBracketPath part =
     (case split_bracket part of
        (property, brackets) \<Rightarrow>
          (let indices = all_matches INDEX_SEG brackets
           in if property \<noteq> [] \<and> indices \<noteq> [] \<and> concat (map (\<lambda>d. ''['' @ d @ '']'') indices) = brackets
              then (property, indices) else (part, [])))"

definition array_part :: "string \<Rightarrow> (string \<times> string list) option" where
  "array_part part =
     (case split_bracket part of
        (property, brackets) \<Rightarrow>
          if property \<noteq> [] \<and> length brackets \<ge> 2 \<and> dot_run (tl brackets) = tl brackets
          then Some (property, all_matches INDEX_SEG brackets) else None)"

definition indexed_part :: "string \<Rightarrow> string option" where
  "indexed_part part =
     (case split_bracket part of
        (property, brackets) \<Rightarrow>
          (case all_matches INDEX_SEG brackets of
             [d] \<Rightarrow> if property \<noteq> [] \<and> brackets = ''['' @ d @ '']'' then Some property else None
           | _ \<Rightarrow> None))"

section \<open>Large values\<close>

definition LARGE_VALUE_REF_MARKER :: string where "LARGE_VALUE_REF_MARKER = ''__simLargeValueRef''"
definition LARGE_ARRAY_MANIFEST_MARKER :: string where "LARGE_ARRAY_MANIFEST_MARKER = ''__simLargeArrayManifest''"
definition LARGE_VALUE_KINDS :: "string list" where "LARGE_VALUE_KINDS = [''array'', ''object'', ''string'', ''json'']"

definition id_char :: "char \<Rightarrow> bool" where
  "id_char c \<longleftrightarrow> is_digit c \<or> (97::nat) \<le> of_char (ascii_lower c) \<and> of_char (ascii_lower c) \<le> (122::nat) \<or>
     c = CHR ''_'' \<or> c = CHR ''-''"

definition isLargeValueStorageKey :: "string \<Rightarrow> string \<Rightarrow> string option \<Rightarrow> bool" where
  "isLargeValueStorageKey key i executionId \<longleftrightarrow>
     starts_with key ''execution/'' \<and> ends_with key (''/large-value-'' @ i @ ''.json'') \<and>
     (falsy_str executionId \<or> includes_str key (''/'' @ the executionId @ ''/''))"

definition isLargeValueRef :: "jval \<Rightarrow> bool" where
  "isLargeValueRef v =
     (case v of
        JObj f \<Rightarrow>
          get_prop f LARGE_VALUE_REF_MARKER = JBool True \<and> get_prop f ''version'' = JNum 1 \<and>
          (case (get_prop f ''id'', get_prop f ''kind'', get_prop f ''size'') of
             (JStr i, JStr kind, JNum n) \<Rightarrow>
               starts_with i ''lv_'' \<and> length i = 15 \<and> list_all id_char (drop 3 i) \<and>
               kind \<in> set LARGE_VALUE_KINDS \<and> n > 0 \<and>
               (case get_prop f ''executionId'' of
                  JUndef \<Rightarrow> (case get_prop f ''key'' of JUndef \<Rightarrow> True | JStr k \<Rightarrow> isLargeValueStorageKey k i None | _ \<Rightarrow> False)
                | JStr x \<Rightarrow> (case get_prop f ''key'' of JUndef \<Rightarrow> True | JStr k \<Rightarrow> isLargeValueStorageKey k i (Some x) | _ \<Rightarrow> False)
                | _ \<Rightarrow> False)
           | _ \<Rightarrow> False)
      | _ \<Rightarrow> False)"

definition ref_size :: "jval \<Rightarrow> int" where
  "ref_size v = (case v of JObj f \<Rightarrow> (case get_prop f ''size'' of JNum n \<Rightarrow> n | _ \<Rightarrow> 0) | _ \<Rightarrow> 0)"

fun containsLargeValueRef :: "jval \<Rightarrow> jval option"
  and first_in_items :: "jval list \<Rightarrow> jval option"
  and first_in_entries :: "(string \<times> jval) list \<Rightarrow> jval option" where
  "containsLargeValueRef (JArr xs) = first_in_items xs"
| "containsLargeValueRef (JObj f) = (if isLargeValueRef (JObj f) then Some (JObj f) else first_in_entries f)"
| "containsLargeValueRef v = None"
| "first_in_items [] = None"
| "first_in_items (x # xs) = (case containsLargeValueRef x of Some r \<Rightarrow> Some r | None \<Rightarrow> first_in_items xs)"
| "first_in_entries [] = None"
| "first_in_entries ((k, x) # kvs) = (case containsLargeValueRef x of Some r \<Rightarrow> Some r | None \<Rightarrow> first_in_entries kvs)"

definition assertNoLargeValueRefs :: "jval \<Rightarrow> resolve_error + unit" where
  "assertNoLargeValueRefs v = (case containsLargeValueRef v of Some r \<Rightarrow> Inl (TooLarge (ref_size r)) | None \<Rightarrow> Inr ())"

text \<open>The count and the size of a chunk of a manifest, if it is valid.\<close>

definition chunk_of :: "jval \<Rightarrow> (jval \<times> int \<times> int) option" where
  "chunk_of v =
     (case v of
        JObj f \<Rightarrow>
          (case (get_prop f ''count'', get_prop f ''byteSize'') of
             (JNum n, JNum b) \<Rightarrow>
               if isLargeValueRef (get_prop f ''ref'') \<and> n > 0 \<and> b > 0 \<and> b = ref_size (get_prop f ''ref'')
               then Some (get_prop f ''ref'', n, b) else None
           | _ \<Rightarrow> None)
      | _ \<Rightarrow> None)"

fun chunks_of :: "jval list \<Rightarrow> (jval \<times> int \<times> int) list option" where
  "chunks_of [] = Some []"
| "chunks_of (v # vs) =
     (case chunk_of v of None \<Rightarrow> None | Some c \<Rightarrow> map_option (\<lambda>cs. c # cs) (chunks_of vs))"

definition isLargeArrayManifest :: "jval \<Rightarrow> bool" where
  "isLargeArrayManifest v =
     (case v of
        JObj f \<Rightarrow>
          get_prop f LARGE_ARRAY_MANIFEST_MARKER = JBool True \<and> get_prop f ''version'' = JNum 2 \<and>
          get_prop f ''kind'' = JStr ''array'' \<and>
          (case (get_prop f ''totalCount'', get_prop f ''chunkCount'', get_prop f ''byteSize'') of
             (JNum t, JNum c, JNum b) \<Rightarrow> t \<ge> 0 \<and> c \<ge> 0 \<and> b \<ge> 0 \<and>
               (case (get_prop f ''chunks'', get_prop f ''preview'') of
                  (JArr cs, JArr ps) \<Rightarrow> length ps \<le> 3 \<and> c = int (length cs) \<and>
                    (case chunks_of cs of
                       None \<Rightarrow> False
                     | Some ks \<Rightarrow> t = sum_list (map (fst \<circ> snd) ks) \<and> b = sum_list (map (snd \<circ> snd) ks))
                | _ \<Rightarrow> False)
           | _ \<Rightarrow> False)
      | _ \<Rightarrow> False)"

text \<open>A value that contains neither references to large values nor manifests.\<close>

fun plain_value :: "jval \<Rightarrow> bool" where
  "plain_value (JArr xs) = list_all plain_value xs"
| "plain_value (JObj f) =
     (\<not> isLargeValueRef (JObj f) \<and> \<not> isLargeArrayManifest (JObj f) \<and> list_all (\<lambda>(k, v). plain_value v) f)"
| "plain_value v = True"

section \<open>Navigation\<close>

text \<open>What is outside: \<open>vh_load\<close> reads a large value from storage (\<open>JUndef\<close> when it is not there),
  \<open>vh_cached\<close> reads it from the memory of the process, \<open>vh_slice\<close> reads an item of a manifest,
  \<open>vh_base64\<close> the bytes of a file, and \<open>vh_inherited\<close> is a member of an object or array that is not
  its own.\<close>

record value_host =
  vh_load :: "jval \<Rightarrow> string + jval"
  vh_cached :: "jval \<Rightarrow> jval"
  vh_slice :: "jval \<Rightarrow> nat \<Rightarrow> string + jval"
  vh_base64 :: "jval \<Rightarrow> string + string"
  vh_inherited :: "jval \<Rightarrow> string \<Rightarrow> jval"

definition array_item :: "jval \<Rightarrow> nat \<Rightarrow> jval" where
  "array_item v i = (case v of JArr xs \<Rightarrow> if i < length xs then xs ! i else JUndef | _ \<Rightarrow> JUndef)"

text \<open>\<open>typeof v === 'object' && v !== null ? v[k] : undefined\<close>.\<close>

definition js_member :: "value_host \<Rightarrow> jval \<Rightarrow> string \<Rightarrow> jval" where
  "js_member h v k =
     (case v of
        JObj f \<Rightarrow> (case mget f k of Some x \<Rightarrow> x | None \<Rightarrow> vh_inherited h v k)
      | JArr xs \<Rightarrow>
          if k = ''length'' then JNum (int (length xs))
          else if all_digits k \<and> show_nat (parse_nat k) = k \<and> parse_nat k < length xs then xs ! parse_nat k
          else vh_inherited h v k
      | _ \<Rightarrow> JUndef)"

definition is_nullish :: "jval \<Rightarrow> bool" where
  "is_nullish v \<longleftrightarrow> v = JNull \<or> v = JUndef"

definition isUserFileWithMetadata :: "jval \<Rightarrow> bool" where
  "isUserFileWithMetadata v =
     (case v of
        JObj f \<Rightarrow>
          (case (get_prop f ''id'', get_prop f ''key'', get_prop f ''url'', get_prop f ''name'', get_prop f ''size'', get_prop f ''type'') of
             (JStr _, JStr _, JStr _, JStr _, JNum _, JStr _) \<Rightarrow> True | _ \<Rightarrow> False)
      | _ \<Rightarrow> False)"

text \<open>The metadata of a manifest, or an item of it, which \<open>item\<close> reads.\<close>

definition manifest_part :: "(nat \<Rightarrow> resolve_error + jval) \<Rightarrow> jval \<Rightarrow> string \<Rightarrow> resolve_error + jval" where
  "manifest_part item v part =
     (case v of
        JObj f \<Rightarrow>
          if part = ''length'' \<or> part = ''totalCount'' then Inr (get_prop f ''totalCount'')
          else if part \<in> {''chunkCount'', ''byteSize'', ''preview''} then Inr (get_prop f part)
          else if all_digits part then item (parse_nat part) else Inr JUndef
      | _ \<Rightarrow> Inr JUndef)"

subsection \<open>With what is in memory\<close>

fun read_chunks :: "value_host \<Rightarrow> (jval \<times> int \<times> int) list \<Rightarrow> int \<Rightarrow> resolve_error + jval" where
  "read_chunks h [] i = Inr JUndef"
| "read_chunks h ((ref, n, b) # cs) i =
     (if i < n
      then (case vh_cached h ref of
              JUndef \<Rightarrow> Inr JUndef
            | JArr xs \<Rightarrow> if int (length xs) = n then Inr (array_item (JArr xs) (nat i))
                        else Inl (HostError ''Large array manifest chunk count does not match materialized data.'')
            | _ \<Rightarrow> Inl (HostError ''Large array manifest chunk must materialize to an array.''))
      else read_chunks h cs (i - n))"

definition readManifestIndexSync :: "value_host \<Rightarrow> jval \<Rightarrow> nat \<Rightarrow> resolve_error + jval" where
  "readManifestIndexSync h v i =
     (case v of
        JObj f \<Rightarrow>
          (case (get_prop f ''totalCount'', get_prop f ''chunks'') of
             (JNum t, JArr cs) \<Rightarrow>
               if int i \<ge> t then Inr JUndef
               else (case chunks_of cs of None \<Rightarrow> Inr JUndef | Some ks \<Rightarrow> read_chunks h ks (int i))
           | _ \<Rightarrow> Inr JUndef)
      | _ \<Rightarrow> Inr JUndef)"

definition materialize_sync :: "value_host \<Rightarrow> jval \<Rightarrow> resolve_error + jval" where
  "materialize_sync h v =
     (if isLargeValueRef v then (if vh_cached h v = JUndef then Inl (TooLarge (ref_size v)) else Inr (vh_cached h v))
      else Inr v)"

fun indices_sync :: "value_host \<Rightarrow> jval \<Rightarrow> string list \<Rightarrow> resolve_error + jval" where
  "indices_sync h v [] = Inr v"
| "indices_sync h v (i # is) =
     (if is_nullish v then Inr JUndef
      else and_then (materialize_sync h v) (\<lambda>v.
        if isLargeArrayManifest v
        then and_then (manifest_part (readManifestIndexSync h v) v i) (\<lambda>v. indices_sync h v is)
        else indices_sync h (array_item v (parse_nat i)) is))"

text \<open>One part of a path. The code returns \<open>undefined\<close> at once where there is nothing to go on from;
  going on from \<open>undefined\<close> comes to the same.\<close>

definition part_sync :: "value_host \<Rightarrow> jval \<Rightarrow> string \<Rightarrow> resolve_error + jval" where
  "part_sync h v part =
     and_then (materialize_sync h v) (\<lambda>v.
       if is_nullish v then Inr JUndef
       else if isLargeArrayManifest v then manifest_part (readManifestIndexSync h v) v part
       else (case array_part part of
               Some (property, indices) \<Rightarrow>
                 and_then (materialize_sync h (js_member h v property)) (\<lambda>c.
                   if is_nullish c then Inr JUndef else indices_sync h c indices)
             | None \<Rightarrow> if all_digits part then Inr (array_item v (parse_nat part)) else Inr (js_member h v part)))"

fun along :: "(jval \<Rightarrow> string \<Rightarrow> resolve_error + jval) \<Rightarrow> jval \<Rightarrow> string list \<Rightarrow> resolve_error + jval" where
  "along step v [] = Inr v"
| "along step v (p # ps) = and_then (step v p) (\<lambda>v. along step v ps)"

definition navigatePath :: "value_host \<Rightarrow> bool \<Rightarrow> jval \<Rightarrow> string list \<Rightarrow> resolve_error + jval" where
  "navigatePath h allow v path =
     and_then (along (part_sync h) v path) (\<lambda>r.
       if allow then Inr r else and_then (assertNoLargeValueRefs r) (\<lambda>_. Inr r))"

subsection \<open>With what is in storage\<close>

definition of_host :: "string + 'a \<Rightarrow> resolve_error + 'a" where
  "of_host r = map_sum HostError id r"

definition materializeLargeValueRefOrThrow :: "value_host \<Rightarrow> jval \<Rightarrow> resolve_error + jval" where
  "materializeLargeValueRefOrThrow h v =
     (if isLargeValueRef v
      then and_then (of_host (vh_load h v)) (\<lambda>r. if r = JUndef then Inl (TooLarge (ref_size v)) else Inr r)
      else Inr v)"

definition hydrateExplicitBase64 :: "value_host \<Rightarrow> jval \<Rightarrow> resolve_error + jval" where
  "hydrateExplicitBase64 h v =
     and_then (of_host (vh_base64 h v)) (\<lambda>b.
       if b = [] then Inl (HostError ''Base64 content is unavailable or exceeds the configured inline limit.'')
       else Inr (JStr b))"

definition readManifestIndexAsync :: "value_host \<Rightarrow> jval \<Rightarrow> nat \<Rightarrow> resolve_error + jval" where
  "readManifestIndexAsync h v i = of_host (vh_slice h v i)"

fun indices_async :: "value_host \<Rightarrow> jval \<Rightarrow> string list \<Rightarrow> resolve_error + jval" where
  "indices_async h v [] = Inr v"
| "indices_async h v (i # is) =
     and_then (materializeLargeValueRefOrThrow h v) (\<lambda>v.
       if is_nullish v then Inr JUndef
       else if isLargeArrayManifest v
       then and_then (manifest_part (readManifestIndexAsync h v) v (show_nat (parse_nat i))) (\<lambda>v. indices_async h v is)
       else indices_async h (array_item v (parse_nat i)) is)"

definition part_async :: "value_host \<Rightarrow> jval \<Rightarrow> string \<Rightarrow> resolve_error + jval" where
  "part_async h v part =
     and_then (materializeLargeValueRefOrThrow h v) (\<lambda>v.
       if is_nullish v then Inr JUndef
       else if part = ''base64'' \<and> isUserFileWithMetadata v then hydrateExplicitBase64 h v
       else if isLargeArrayManifest v then manifest_part (readManifestIndexAsync h v) v part
       else (case array_part part of
               Some (property, indices) \<Rightarrow>
                 and_then (materializeLargeValueRefOrThrow h (js_member h v property)) (\<lambda>c.
                   if is_nullish c then Inr JUndef else indices_async h c indices)
             | None \<Rightarrow> if all_digits part then Inr (array_item v (parse_nat part)) else Inr (js_member h v part)))"

definition navigatePathAsync :: "value_host \<Rightarrow> bool \<Rightarrow> jval \<Rightarrow> string list \<Rightarrow> resolve_error + jval" where
  "navigatePathAsync h allow v path =
     and_then (along (part_async h) v path) (\<lambda>r.
       if allow then Inr r else and_then (assertNoLargeValueRefs r) (\<lambda>_. Inr r))"

section \<open>References checked against a schema\<close>

definition USER_FILE_ACCESSIBLE_PROPERTIES :: "string list" where
  "USER_FILE_ACCESSIBLE_PROPERTIES = [''id'', ''name'', ''url'', ''size'', ''type'', ''base64'', ''path'', ''version'']"

definition is_object :: "jval \<Rightarrow> bool" where
  "is_object v = (case v of JObj _ \<Rightarrow> True | JArr _ \<Rightarrow> True | _ \<Rightarrow> False)"

definition isFileType :: "value_host \<Rightarrow> jval \<Rightarrow> bool" where
  "isFileType h v \<longleftrightarrow> js_member h v ''type'' \<in> {JStr ''file'', JStr ''file[]''}"

definition isArrayType :: "value_host \<Rightarrow> jval \<Rightarrow> bool" where
  "isArrayType h v \<longleftrightarrow> js_member h v ''type'' = JStr ''array''"

definition getArrayItems :: "value_host \<Rightarrow> jval \<Rightarrow> jval" where
  "getArrayItems h v = js_member h v ''items''"

definition js_in :: "value_host \<Rightarrow> string \<Rightarrow> jval \<Rightarrow> bool" where
  "js_in h k v =
     (case v of
        JObj f \<Rightarrow> mhas f k \<or> vh_inherited h v k \<noteq> JUndef
      | JArr xs \<Rightarrow> k = ''length'' \<or> all_digits k \<and> show_nat (parse_nat k) = k \<and> parse_nat k < length xs \<or>
                  vh_inherited h v k \<noteq> JUndef
      | _ \<Rightarrow> False)"

definition lookupField :: "value_host \<Rightarrow> jval \<Rightarrow> string \<Rightarrow> jval" where
  "lookupField h schema fieldName =
     (if \<not> is_object schema then JUndef
      else if js_in h fieldName schema then js_member h schema fieldName
      else (let props = js_member h schema ''properties''
            in if is_object props \<and> js_in h fieldName props then js_member h props fieldName else JUndef))"

definition isOpaqueSchemaNode :: "value_host \<Rightarrow> jval \<Rightarrow> bool" where
  "isOpaqueSchemaNode h v \<longleftrightarrow>
     is_object v \<and>
     (js_member h v ''type'' = JStr ''any'' \<or>
      js_member h v ''type'' \<in> {JStr ''json'', JStr ''object''} \<and> js_member h v ''properties'' = JUndef)"

text \<open>What may follow a file, and what may follow a field that is a file.\<close>

fun file_part_ok :: "string list \<Rightarrow> bool" where
  "file_part_ok [] = True"
| "file_part_ok (p # ps) = (p = [] \<or> p \<in> set USER_FILE_ACCESSIBLE_PROPERTIES)"

fun file_field_ok :: "string list \<Rightarrow> bool" where
  "file_field_ok [] = True"
| "file_field_ok (p # ps) =
     (p = [] \<or> (if all_digits p then file_part_ok ps else p \<in> set USER_FILE_ACCESSIBLE_PROPERTIES))"

fun path_in_schema :: "value_host \<Rightarrow> jval \<Rightarrow> string list \<Rightarrow> bool" where
  "path_in_schema h current [] = True"
| "path_in_schema h current (part # rest) =
     (if is_nullish current then False
      else if isOpaqueSchemaNode h current then True
      else if all_digits part then
        (if isFileType h current then file_part_ok rest
         else path_in_schema h (if isArrayType h current then getArrayItems h current else current) rest)
      else case indexed_part part of
        Some property \<Rightarrow>
          (let fieldDef = lookupField h current property
           in if \<not> truthy fieldDef then False
              else if isFileType h fieldDef then file_part_ok rest
              else path_in_schema h (if isArrayType h fieldDef then getArrayItems h fieldDef else fieldDef) rest)
      | None \<Rightarrow>
          if isFileType h current \<and> part \<in> set USER_FILE_ACCESSIBLE_PROPERTIES then True
          else if lookupField h current part \<noteq> JUndef then
            (if isFileType h (lookupField h current part) then file_field_ok rest
             else path_in_schema h (lookupField h current part) rest)
          else if isArrayType h current \<and> lookupField h (getArrayItems h current) part \<noteq> JUndef
          then path_in_schema h (lookupField h (getArrayItems h current) part) rest
          else False)"

definition isPathInSchema :: "value_host \<Rightarrow> jobj option \<Rightarrow> string list \<Rightarrow> bool" where
  "isPathInSchema h schema parts =
     (case schema of None \<Rightarrow> True | Some s \<Rightarrow> path_in_schema h (JObj s) parts)"

definition getSchemaFieldNames :: "jobj option \<Rightarrow> string list" where
  "getSchemaFieldNames schema = (case schema of None \<Rightarrow> [] | Some s \<Rightarrow> mkeys s)"

fun join_dots :: "string list \<Rightarrow> string" where
  "join_dots [] = []"
| "join_dots [p] = p"
| "join_dots (p # ps) = p @ ''.'' @ join_dots ps"

text \<open>The two variants, for either navigation: the name of the block, the parts of the path, the ids
  of the names, the outputs and the schemas of the blocks.\<close>

definition resolveBlockReference ::
  "value_host \<Rightarrow> (jval \<Rightarrow> string list \<Rightarrow> resolve_error + jval) \<Rightarrow> string \<Rightarrow> string list \<Rightarrow>
   (string, string) jsmap \<Rightarrow> (string, jval) jsmap \<Rightarrow> (string, jobj) jsmap \<Rightarrow> resolve_error + (jval \<times> string) option" where
  "resolveBlockReference h navigate blockName pathParts names outputs schemas =
     (if falsy_str (mget names (normalizeName blockName)) then Inr None
      else (let blockId = the (mget names (normalizeName blockName))
            in if get_prop outputs blockId = JUndef then Inr (Some (JUndef, blockId))
               else if pathParts = [] then Inr (Some (get_prop outputs blockId, blockId))
               else and_then (navigate (get_prop outputs blockId) pathParts) (\<lambda>v.
                 if v = JUndef \<and> \<not> isPathInSchema h (mget schemas blockId) pathParts
                 then Inl (InvalidField blockName (join_dots pathParts) (getSchemaFieldNames (mget schemas blockId)))
                 else Inr (Some (v, blockId)))))"

end
