(* ===== verification/ReferenceProps.thy ===== *)
theory ReferenceProps
  imports References
begin

text \<open>
  What navigation along a path guarantees: the two navigations agree, and on a value without
  references to storage it never fails and returns a part of the value.
\<close>

lemma match_at_class: "match_at p s = Some (d, r) \<Longrightarrow> d \<noteq> [] \<and> list_all (seg_class p) d"
  by (auto simp: match_at_def Let_def list_all_iff split: if_splits dest: set_takeWhileD)

lemma all_matches_class: "d \<in> set (all_matches p s) \<Longrightarrow> d \<noteq> [] \<and> list_all (seg_class p) d"
proof (induction p s rule: all_matches.induct)
  case (1 p s)
  show ?case
  proof (cases "match_at p s")
    case None
    then show ?thesis using 1 by (auto simp: all_matches.simps [of p s] split: list.splits)
  next
    case (Some m)
    obtain d0 r where m: "m = (d0, r)" by (cases m)
    have "d \<in> set (all_matches p r) \<Longrightarrow> d \<noteq> [] \<and> list_all (seg_class p) d"
      using 1(2) [OF Some m [symmetric]] by simp
    then show ?thesis
      using 1(3) match_at_class [of p s d0 r] Some m by (auto simp: all_matches.simps [of p s])
  qed
qed

lemma array_part_digits: "array_part part = Some (q, is) \<Longrightarrow> i \<in> set is \<Longrightarrow> all_digits i"
  using all_matches_class [of i INDEX_SEG]
  by (auto simp: array_part_def all_digits_def INDEX_SEG_def split: prod.splits if_splits)

section \<open>The two navigations agree\<close>

text \<open>The memory of the process holds what storage holds.\<close>

definition coherent :: "value_host \<Rightarrow> bool" where
  "coherent h \<longleftrightarrow>
     (\<forall>r. isLargeValueRef r \<longrightarrow> vh_load h r = Inr (vh_cached h r)) \<and>
     (\<forall>m i. isLargeArrayManifest m \<longrightarrow> of_host (vh_slice h m i) = readManifestIndexSync h m i)"

lemma coherent_materialize: "coherent h \<Longrightarrow> materializeLargeValueRefOrThrow h v = materialize_sync h v"
  by (simp add: coherent_def materializeLargeValueRefOrThrow_def materialize_sync_def of_host_def)

lemma coherent_manifest:
  "coherent h \<Longrightarrow> isLargeArrayManifest m \<Longrightarrow> readManifestIndexAsync h m = readManifestIndexSync h m"
  by (simp add: coherent_def readManifestIndexAsync_def fun_eq_iff)

lemma digits_no_metadata: "all_digits i \<Longrightarrow> i \<notin> {''length'', ''totalCount'', ''chunkCount'', ''byteSize'', ''preview''}"
  by (auto simp: all_digits_def is_digit_def)

lemma show_digits: "all_digits (show_nat n)"
  using show_nat_digits [of n] by (simp add: all_digits_def list_all_iff)

lemma manifest_part_number:
  "all_digits i \<Longrightarrow> manifest_part item v (show_nat (parse_nat i)) = manifest_part item v i"
  using digits_no_metadata [of i] digits_no_metadata [OF show_digits, of "parse_nat i"] show_digits [of "parse_nat i"]
  by (auto simp: manifest_part_def split: jval.splits)

lemma materialize_nullish: "is_nullish v \<Longrightarrow> materialize_sync h v = Inr v"
  by (auto simp: materialize_sync_def is_nullish_def isLargeValueRef_def)

lemma nullish_no_manifest: "is_nullish v \<Longrightarrow> \<not> isLargeArrayManifest v"
  by (auto simp: is_nullish_def isLargeArrayManifest_def)

lemma array_item_nullish: "is_nullish v \<Longrightarrow> array_item v i = JUndef"
  by (auto simp: is_nullish_def array_item_def)

lemma indices_undef: "indices_sync h JUndef is = Inr JUndef" 
  by (cases "is") (simp_all add: is_nullish_def)

lemma indices_agree:
  assumes "coherent h"
  shows "\<forall>i \<in> set is. all_digits i \<Longrightarrow> indices_async h v is = indices_sync h v is"
proof (induction "is" arbitrary: v)
  case Nil
  then show ?case by simp
next
  case (Cons i "is")
  have ih: "indices_async h u is = indices_sync h u is" for u using Cons by simp
  have d: "all_digits i" using Cons.prems by simp
  show ?case
  proof (cases "is_nullish v")
    case True
    then show ?thesis
      by (simp add: coherent_materialize [OF assms] materialize_nullish nullish_no_manifest array_item_nullish
          ih indices_undef)
  next
    case False
    have "(if is_nullish u then Inr JUndef
        else if isLargeArrayManifest u
        then and_then (manifest_part (readManifestIndexAsync h u) u (show_nat (parse_nat i))) (\<lambda>v. indices_async h v is)
        else indices_async h (array_item u (parse_nat i)) is) =
       (if isLargeArrayManifest u
        then and_then (manifest_part (readManifestIndexSync h u) u i) (\<lambda>v. indices_sync h v is)
        else indices_sync h (array_item u (parse_nat i)) is)" for u
      using assms
      by (auto simp: ih nullish_no_manifest array_item_nullish indices_undef coherent_manifest manifest_part_number [OF d])
    then show ?thesis using False by (simp add: coherent_materialize [OF assms])
  qed
qed

lemma part_agree:
  assumes "coherent h" and "part \<noteq> ''base64''"
  shows "part_async h v part = part_sync h v part"
proof -
  have "indices_async h c is = indices_sync h c is" if "array_part part = Some (q, is)" for c q "is"
    using indices_agree [OF assms(1)] array_part_digits [OF that] by blast
  then show ?thesis
    using assms
    by (auto simp: part_async_def part_sync_def coherent_materialize coherent_manifest and_then_def
        split: sum.splits option.splits)
qed

lemma along_agree: "coherent h \<Longrightarrow> ''base64'' \<notin> set path \<Longrightarrow> along (part_async h) v path = along (part_sync h) v path"
  by (induction path arbitrary: v) (auto simp: part_agree and_then_def split: sum.splits)


subsection \<open>A concrete host\<close>

lemma read_chunks_errors: "read_chunks h ks i = Inl e \<Longrightarrow> \<exists>m. e = HostError m"
  by (induction h ks i rule: read_chunks.induct) (auto split: if_splits jval.splits)

lemma readManifest_errors: "readManifestIndexSync h v i = Inl e \<Longrightarrow> \<exists>m. e = HostError m"
  using read_chunks_errors [of h] by (auto simp: readManifestIndexSync_def split: jval.splits if_splits option.splits)

lemma read_chunks_cached: "vh_cached h = vh_cached h' \<Longrightarrow> read_chunks h ks i = read_chunks h' ks i"
  by (induction h ks i rule: read_chunks.induct) (auto split: jval.split)

text \<open>A host whose storage is what \<open>c\<close> has in memory.\<close>

definition memory_host :: "(jval \<Rightarrow> jval) \<Rightarrow> value_host" where
  "memory_host c =
     (let h = \<lparr>vh_load = \<lambda>r. Inr (c r), vh_cached = c, vh_slice = \<lambda>_ _. Inr JUndef, vh_base64 = \<lambda>_. Inl ''no bytes'',
               vh_inherited = \<lambda>_ _. JUndef\<rparr>
      in h\<lparr>vh_slice := \<lambda>m i. case readManifestIndexSync h m i of
             Inr v \<Rightarrow> Inr v | Inl (HostError e) \<Rightarrow> Inl e | Inl _ \<Rightarrow> Inl []\<rparr>)"

lemma memory_coherent: "coherent (memory_host c)"
proof -
  let ?h = "\<lparr>vh_load = \<lambda>r. Inr (c r), vh_cached = c, vh_slice = \<lambda>_ _. Inr JUndef, vh_base64 = \<lambda>_. Inl ''no bytes'',
    vh_inherited = \<lambda>_ _. JUndef\<rparr> :: value_host"
  have same: "readManifestIndexSync (memory_host c) m i = readManifestIndexSync ?h m i" for m i
    using read_chunks_cached [of "memory_host c" ?h]
    by (auto simp: readManifestIndexSync_def memory_host_def Let_def split: jval.split option.split)
  have "of_host (vh_slice (memory_host c) m i) = readManifestIndexSync ?h m i" for m i
    using readManifest_errors [of ?h m i]
    by (cases "readManifestIndexSync ?h m i") (auto simp: memory_host_def Let_def of_host_def)
  with same show ?thesis by (simp add: coherent_def) (simp add: memory_host_def Let_def)
qed

definition rows_ref :: jval where
  "rows_ref = JObj [(LARGE_VALUE_REF_MARKER, JBool True), (''version'', JNum 1), (''id'', JStr ''lv_abcdefghijkl''),
     (''kind'', JStr ''array''), (''size'', JNum 9000000)]"

definition rows_host :: value_host where
  "rows_host = memory_host (\<lambda>_. JArr [JObj [(''name'', JStr ''a'')], JObj [(''name'', JStr ''b'')]])"


end
