(* ===== verification/Resolvers.thy ===== *)
theory Resolvers
  imports References
begin

text \<open>
  The resolvers of references (\<open>variables/resolvers/loop.ts\<close>, \<open>parallel.ts\<close>, \<open>workflow.ts\<close>,
  \<open>env.ts\<close>, \<open>block.ts\<close>), the order in which they are asked (\<open>variables/resolver.ts\<close>), the containers a
  block is in (\<open>utils/subflow-utils.ts\<close>), and the values of variables
  (\<open>lib/workflows/variables/variable-manager.ts\<close>).

  The resolvers navigate with storage, as \<open>DAGExecutor\<close> sets them up. Parameters are the record
  \<open>resolver_host\<close>: the access to values, the output schema of a block, the variables and the
  environment of the run, and the conversions \<open>JSON.parse\<close>, \<open>JSON.stringify\<close>, \<open>Number\<close> and \<open>String\<close>.
  Names of variables are strings. Secret provenance is not part of the model.
\<close>

record resolver_host =
  rs_values :: value_host
  rs_schema :: "sblock \<Rightarrow> jobj option"
  rs_variables :: jobj
  rs_env :: "(string, string) jsmap"
  rs_parse :: "string \<Rightarrow> jval option"
  rs_json :: "jval \<Rightarrow> string"
  rs_number :: "jval \<Rightarrow> int option"
  rs_string :: "jval \<Rightarrow> string"

record resolution_context =
  rx_world :: world
  rx_node :: string
  rx_loopScope :: "loop_scope option"
  rx_allow :: bool

text \<open>A value, or the mark \<open>RESOLVED_EMPTY\<close> of a block without output.\<close>

datatype resolved = Found jval | ResolvedEmpty

definition navigate :: "resolver_host \<Rightarrow> resolution_context \<Rightarrow> jval \<Rightarrow> string list \<Rightarrow> resolve_error + jval" where
  "navigate h x v path = navigatePathAsync (rs_values h) (rx_allow x) v path"

section \<open>Containers of a block\<close>

definition subflow_nodes :: "sworkflow \<Rightarrow> subflow \<Rightarrow> string \<Rightarrow> string list option" where
  "subflow_nodes flow k i =
     (case k of
        SubLoop \<Rightarrow> map_option loop_nodes (mget (wf_loops flow) i)
      | SubParallel \<Rightarrow> map_option par_nodes (mget (wf_parallels flow) i))"

definition subflow_kind :: "sworkflow \<Rightarrow> string \<Rightarrow> subflow option" where
  "subflow_kind flow i =
     (if mhas (wf_loops flow) i then Some SubLoop else if mhas (wf_parallels flow) i then Some SubParallel else None)"

text \<open>The recursive search of the code with its shared set of visited containers, as one walk: the
  list is what is still to be looked at, innermost first.\<close>

definition containers :: "sworkflow \<Rightarrow> (subflow \<times> string) set" where
  "containers flow = ({SubLoop} \<times> set (mkeys (wf_loops flow))) \<union> ({SubParallel} \<times> set (mkeys (wf_parallels flow)))"

lemma finite_containers [simp]: "finite (containers flow)"
  by (simp add: containers_def)

lemma kind_container: "subflow_kind flow i = Some k \<Longrightarrow> (k, i) \<in> containers flow"
  by (auto simp: subflow_kind_def containers_def mhas_def split: if_splits)

function walk_nodes :: "sworkflow \<Rightarrow> (string \<Rightarrow> bool) \<Rightarrow> (subflow \<times> string) list \<Rightarrow> string list \<Rightarrow> bool" where
  "walk_nodes flow P visited [] = False"
| "walk_nodes flow P visited (i # is) =
     (if P i then True
      else case subflow_kind flow i of
             None \<Rightarrow> walk_nodes flow P visited is
           | Some k \<Rightarrow>
               if (k, i) \<in> set visited then walk_nodes flow P visited is
               else walk_nodes flow P ((k, i) # visited) (the (subflow_nodes flow k i) @ is))"
  by pat_completeness auto
termination
proof (relation "inv_image (less_than <*lex*> less_than)
    (\<lambda>(flow, P, visited, is). (card (containers flow - set visited), length is))")
  fix flow P visited i "is" k
  assume "subflow_kind flow i = Some k" "(k, i) \<notin> set visited"
  then have "card (containers flow - set ((k, i) # visited)) < card (containers flow - set visited)"
    by (intro psubset_card_mono) (auto dest: kind_container)
  then show "((flow, P, (k, i) # visited, the (subflow_nodes flow k i) @ is), (flow, P, visited, i # is))
      \<in> inv_image (less_than <*lex*> less_than) (\<lambda>(flow, P, visited, is). (card (containers flow - set visited), length is))"
    by simp
qed auto

definition subflowContainsBlock :: "sworkflow \<Rightarrow> subflow \<Rightarrow> string \<Rightarrow> string \<Rightarrow> bool" where
  "subflowContainsBlock flow k containerId baseBlockId =
     (case subflow_nodes flow k containerId of
        None \<Rightarrow> False
      | Some ns \<Rightarrow> walk_nodes flow (\<lambda>i. i = baseBlockId) [(k, containerId)] ns)"

definition isSubflowNestedInside :: "sworkflow \<Rightarrow> subflow \<Rightarrow> string \<Rightarrow> subflow \<Rightarrow> string \<Rightarrow> bool" where
  "isSubflowNestedInside flow childKind childId ancestorKind ancestorId =
     (case subflow_nodes flow ancestorKind ancestorId of
        None \<Rightarrow> False
      | Some ns \<Rightarrow> walk_nodes flow (\<lambda>i. i = childId \<and> subflow_nodes flow childKind childId \<noteq> None)
                    [(ancestorKind, ancestorId)] ns)"

text \<open>The innermost container of a kind around a block: a candidate that has no other candidate inside.\<close>

definition innermost_container :: "sworkflow \<Rightarrow> subflow \<Rightarrow> string list \<Rightarrow> string \<Rightarrow> string option" where
  "innermost_container flow k ids blockId =
     (let candidates = filter (\<lambda>i. subflowContainsBlock flow k i (stripCloneSuffixes blockId)) ids
      in case candidates of
           [] \<Rightarrow> None
         | [i] \<Rightarrow> Some i
         | _ \<Rightarrow> List.find (\<lambda>c. \<forall>other \<in> set candidates. other = c \<or> \<not> isSubflowNestedInside flow k other k c) candidates)"

definition findInnermostLoopForBlock :: "sworkflow \<Rightarrow> string \<Rightarrow> string option" where
  "findInnermostLoopForBlock flow blockId = innermost_container flow SubLoop (mkeys (wf_loops flow)) blockId"

definition findInnermostParallelForBlock :: "sworkflow \<Rightarrow> string \<Rightarrow> string option" where
  "findInnermostParallelForBlock flow blockId = innermost_container flow SubParallel (mkeys (wf_parallels flow)) blockId"

text \<open>The branch that the node is in as seen by the lookup of its containers.\<close>

definition mapped_branch :: "bool \<Rightarrow> resolution_context \<Rightarrow> nat option" where
  "mapped_branch innermost x =
     (case (if innermost then extractInnermostOuterBranchIndex (rx_node x) else extractOuterBranchIndex (rx_node x)) of
        Some n \<Rightarrow> Some n
      | None \<Rightarrow> map_option (\<lambda>m. nat (bm_iterationIndex m)) (mget (w_mapping (rx_world x)) (rx_node x)))"

text \<open>The results of a container that has ended.\<close>

definition resolveOutput :: "resolver_host \<Rightarrow> resolution_context \<Rightarrow> string \<Rightarrow> string list \<Rightarrow> resolve_error + jval" where
  "resolveOutput h x i pathParts =
     (case getBlockState (w_state (rx_world x)) i None of
        None \<Rightarrow> Inr JUndef
      | Some s \<Rightarrow>
          and_then (navigatePathAsync (rs_values h) True (JObj (bs_output s)) [''results'']) (\<lambda>v.
            if pathParts \<noteq> [] then navigate h x v pathParts
            else if rx_allow x then Inr v else and_then (assertNoLargeValueRefs v) (\<lambda>_. Inr v)))"

section \<open>Loops\<close>

definition named :: "sworkflow \<Rightarrow> (string \<Rightarrow> bool) \<Rightarrow> (string, string) jsmap" where
  "named flow is_container =
     fold (\<lambda>b m. if is_container (blk_id b) \<and> \<not> falsy_str (blk_name b)
                 then mput (normalizeName (the (blk_name b))) (blk_id b) m else m) (wf_blocks flow) []"

definition loopNameToId :: "sworkflow \<Rightarrow> (string, string) jsmap" where
  "loopNameToId flow = named flow (mhas (wf_loops flow))"

definition OUTPUT_PROPERTIES :: "string list" where "OUTPUT_PROPERTIES = [''result'', ''results'']"
definition LOOP_KNOWN_PROPERTIES :: "string list" where
  "LOOP_KNOWN_PROPERTIES = [''iteration'', ''index'', ''item'', ''currentItem'', ''items'']"

definition isBlockInLoopOrDescendant :: "sworkflow \<Rightarrow> string \<Rightarrow> string \<Rightarrow> bool" where
  "isBlockInLoopOrDescendant flow blockId targetLoopId =
     subflowContainsBlock flow SubLoop (stripOuterBranchSuffix targetLoopId) (stripCloneSuffixes blockId)"

definition isForEachLoop :: "sworkflow \<Rightarrow> string \<Rightarrow> bool" where
  "isForEachLoop flow i =
     (case mget (wf_loops flow) (stripOuterBranchSuffix i) of None \<Rightarrow> False | Some c \<Rightarrow> loop_type c = Some ''forEach'')"

definition loop_fields :: "sworkflow \<Rightarrow> resolution_context \<Rightarrow> string option \<Rightarrow> string list" where
  "loop_fields flow x target =
     (case target of
        None \<Rightarrow> if (case rx_loopScope x of None \<Rightarrow> False | Some s \<Rightarrow> ls_items s \<noteq> None) then [''index'', ''currentItem'', ''items''] else [''index'']
      | Some i \<Rightarrow>
          if \<not> isBlockInLoopOrDescendant flow (rx_node x) i then [''results'']
          else if isForEachLoop flow i then [''index'', ''currentItem'', ''items''] else [''index''])"

definition opt_value :: "jval option \<Rightarrow> jval" where
  "opt_value v = (case v of None \<Rightarrow> JUndef | Some x \<Rightarrow> x)"

definition items_value :: "jval list option \<Rightarrow> jval" where
  "items_value v = (case v of None \<Rightarrow> JUndef | Some xs \<Rightarrow> JArr xs)"

definition loop_object :: "loop_scope \<Rightarrow> jval" where
  "loop_object s =
     JObj ([(''index'', JNum (int (ls_iteration s)))] @
           (if opt_value (ls_item s) \<noteq> JUndef then [(''currentItem'', opt_value (ls_item s))] else []) @
           (if ls_items s \<noteq> None then [(''items'', items_value (ls_items s))] else []))"

definition loop_value :: "loop_scope \<Rightarrow> string \<Rightarrow> jval" where
  "loop_value s property =
     (if property \<in> {''iteration'', ''index''} then JNum (int (ls_iteration s))
      else if property \<in> {''item'', ''currentItem''} then opt_value (ls_item s)
      else if property = ''items'' then items_value (ls_items s) else JUndef)"

text \<open>The scope in which a reference is read, and what is read from it.\<close>

definition loop_scope_of :: "resolution_context \<Rightarrow> bool \<Rightarrow> string option \<Rightarrow> loop_scope option" where
  "loop_scope_of x generic target =
     (case (if generic then rx_loopScope x else None) of
        Some s \<Rightarrow> Some s
      | None \<Rightarrow> (case target of None \<Rightarrow> None | Some i \<Rightarrow> mget (w_loops (rx_world x)) i))"

definition read_loop_scope :: "resolver_host \<Rightarrow> resolution_context \<Rightarrow> loop_scope option \<Rightarrow> string list \<Rightarrow> resolve_error + jval" where
  "read_loop_scope h x scope rest =
     (case scope of
        None \<Rightarrow> Inr JUndef
      | Some s \<Rightarrow>
          (case rest of
             [] \<Rightarrow> Inr (loop_object s)
           | raw # remaining \<Rightarrow>
               (case splitLeadingBracketPath raw of
                  (property, brackets) \<Rightarrow>
                    if brackets @ remaining \<noteq> [] then navigate h x (loop_value s property) (brackets @ remaining)
                    else Inr (loop_value s property))))"

definition effective_loop :: "resolution_context \<Rightarrow> bool \<Rightarrow> string \<Rightarrow> string" where
  "effective_loop x generic i =
     findEffectiveContainerId i (rx_node x) (mkeys (w_loops (rx_world x))) (mapped_branch generic x)"

definition resolve_loop :: "resolver_host \<Rightarrow> sworkflow \<Rightarrow> resolution_context \<Rightarrow> string list \<Rightarrow> resolve_error + jval" where
  "resolve_loop h flow x parts =
     (let firstPart = hd parts; rest = tl parts; generic = (firstPart = LOOP_REF);
          found = (if generic then findInnermostLoopForBlock flow (rx_node x) else mget (loopNameToId flow) firstPart);
          target = map_option (effective_loop x generic) found
      in if found = None \<and> \<not> (generic \<and> rx_loopScope x \<noteq> None) then Inr JUndef
         else case rest of
           [] \<Rightarrow> read_loop_scope h x (loop_scope_of x generic target) rest
         | raw # remaining \<Rightarrow>
             (case splitLeadingBracketPath raw of
                (property, brackets) \<Rightarrow>
                  if property \<in> set OUTPUT_PROPERTIES then
                    (case target of None \<Rightarrow> Inr JUndef | Some i \<Rightarrow> resolveOutput h x i (brackets @ remaining))
                  else if property \<notin> set LOOP_KNOWN_PROPERTIES
                  then Inl (InvalidField firstPart raw (loop_fields flow x target))
                  else if \<not> generic \<and> (case target of None \<Rightarrow> True | Some i \<Rightarrow> \<not> isBlockInLoopOrDescendant flow (rx_node x) i)
                  then Inl (InvalidField firstPart raw [''results''])
                  else read_loop_scope h x (loop_scope_of x generic target) rest))"

section \<open>Parallels\<close>

definition parallelNameToId :: "sworkflow \<Rightarrow> (string, string) jsmap" where
  "parallelNameToId flow = named flow (mhas (wf_parallels flow))"

definition PARALLEL_KNOWN_PROPERTIES :: "string list" where
  "PARALLEL_KNOWN_PROPERTIES = [''index'', ''currentItem'', ''items'']"

definition entry_values :: "jobj \<Rightarrow> jval list" where
  "entry_values f = map (\<lambda>(k, v). JArr [JStr k, v]) f"

definition double_quotes :: "string \<Rightarrow> string" where
  "double_quotes s = map (\<lambda>c. if c = CHR 0x27 then CHR 0x22 else c) s"

definition getDistributionItems :: "resolver_host \<Rightarrow> sparallel \<Rightarrow> jval list" where
  "getDistributionItems h cfg =
     (case par_distribution cfg of
        JArr xs \<Rightarrow> xs
      | JObj f \<Rightarrow> entry_values f
      | JStr s \<Rightarrow>
          if starts_with s ''<'' then []
          else (case rs_parse h (double_quotes s) of Some (JArr xs) \<Rightarrow> xs | Some (JObj f) \<Rightarrow> entry_values f | _ \<Rightarrow> [])
      | _ \<Rightarrow> [])"

definition isBlockInParallelOrDescendant :: "sworkflow \<Rightarrow> string \<Rightarrow> string \<Rightarrow> bool" where
  "isBlockInParallelOrDescendant flow blockId i = subflowContainsBlock flow SubParallel i (stripCloneSuffixes blockId)"

definition resolveParentParallelBranchIndex :: "sworkflow \<Rightarrow> resolution_context \<Rightarrow> string \<Rightarrow> int option" where
  "resolveParentParallelBranchIndex flow x i =
     (case List.find (\<lambda>(subflowId, e).
             pe_parentType e = SubParallel \<and> pe_parentId e = i \<and> pe_branchIndex e \<noteq> None \<and>
             (case subflow_kind flow (stripOuterBranchSuffix subflowId) of
                None \<Rightarrow> False
              | Some k \<Rightarrow> subflowContainsBlock flow k (stripOuterBranchSuffix subflowId) (stripCloneSuffixes (rx_node x))))
           (w_parents (rx_world x)) of
        None \<Rightarrow> None
      | Some (_, e) \<Rightarrow> pe_branchIndex e)"

definition resolveBranchIndex :: "sworkflow \<Rightarrow> resolution_context \<Rightarrow> string \<Rightarrow> int option" where
  "resolveBranchIndex flow x target =
     (let original = stripOuterBranchSuffix target; branch = extractBranchIndex (rx_node x)
      in case mget (w_mapping (rx_world x)) (rx_node x) of
           Some m \<Rightarrow>
             if bm_parallelId m = target \<or> bm_parallelId m = original then Some (bm_iterationIndex m)
             else if target \<noteq> original \<and> branch \<noteq> None then map_option int branch
             else (case extractOuterBranchIndex (rx_node x) of
                     Some n \<Rightarrow> Some (int n)
                   | None \<Rightarrow> (case resolveParentParallelBranchIndex flow x original of
                               Some n \<Rightarrow> Some n | None \<Rightarrow> map_option int branch))
         | None \<Rightarrow>
             if target \<noteq> original \<and> branch \<noteq> None then map_option int branch
             else (case extractOuterBranchIndex (rx_node x) of
                     Some n \<Rightarrow> Some (int n)
                   | None \<Rightarrow> (case resolveParentParallelBranchIndex flow x original of
                               Some n \<Rightarrow> Some n | None \<Rightarrow> map_option int branch)))"

definition resolveCurrentItem :: "jval list \<Rightarrow> int \<Rightarrow> jval" where
  "resolveCurrentItem items branchIndex =
     (if 0 \<le> branchIndex \<and> branchIndex < int (length items) then items ! nat branchIndex else JUndef)"

definition parallel_value :: "jval list \<Rightarrow> int \<Rightarrow> string \<Rightarrow> jval" where
  "parallel_value items branchIndex property =
     (if property = ''index'' then JNum branchIndex
      else if property = ''currentItem'' then resolveCurrentItem items branchIndex
      else if property = ''items'' then JArr items else JUndef)"

text \<open>What a reference reads in a branch: everything, a field, or a path from a field.\<close>

definition read_branch ::
  "resolver_host \<Rightarrow> resolution_context \<Rightarrow> sparallel \<Rightarrow> string \<Rightarrow> jval list \<Rightarrow> int \<Rightarrow> string list \<Rightarrow> resolve_error + jval" where
  "read_branch h x cfg firstPart items branchIndex rest =
     (case rest of
        [] \<Rightarrow> Inr (JObj [(''index'', JNum branchIndex), (''items'', JArr items),
                        (''currentItem'', resolveCurrentItem items branchIndex)])
      | raw # remaining \<Rightarrow>
          (case splitLeadingBracketPath raw of
             (property, brackets) \<Rightarrow>
               if property \<notin> set PARALLEL_KNOWN_PROPERTIES
               then Inl (InvalidField firstPart raw
                      (if par_type cfg = Some ''collection'' then [''index'', ''currentItem'', ''items''] else [''index'']))
               else if property = ''currentItem'' \<and> resolveCurrentItem items branchIndex = JUndef then Inr JUndef
               else if brackets @ remaining \<noteq> []
               then navigate h x (parallel_value items branchIndex property) (brackets @ remaining)
               else Inr (parallel_value items branchIndex property)))"

definition scope_items :: "resolver_host \<Rightarrow> resolution_context \<Rightarrow> string \<Rightarrow> sparallel \<Rightarrow> jval list" where
  "scope_items h x target cfg =
     (case mget (w_parallels (rx_world x)) target of
        Some s \<Rightarrow> (case ps_items s of Some xs \<Rightarrow> xs | None \<Rightarrow> getDistributionItems h cfg)
      | None \<Rightarrow> getDistributionItems h cfg)"

definition resolve_parallel :: "resolver_host \<Rightarrow> sworkflow \<Rightarrow> resolution_context \<Rightarrow> string list \<Rightarrow> resolve_error + jval" where
  "resolve_parallel h flow x parts =
     (let firstPart = hd parts; rest = tl parts; generic = (firstPart = PARALLEL_REF)
      in case (if generic then findInnermostParallelForBlock flow (rx_node x) else mget (parallelNameToId flow) firstPart) of
           None \<Rightarrow> Inr JUndef
         | Some found \<Rightarrow>
             (let target = findEffectiveContainerId found (rx_node x) (mkeys (w_parallels (rx_world x))) (mapped_branch generic x);
                  original = stripOuterBranchSuffix target;
                  in_scope = (case mget (wf_parallels flow) original of
                     None \<Rightarrow> Inr JUndef
                   | Some cfg \<Rightarrow>
                       if rest \<noteq> [] \<and> \<not> (generic \<or> isBlockInParallelOrDescendant flow (rx_node x) original)
                       then Inl (InvalidField firstPart (hd rest) [''results''])
                       else case resolveBranchIndex flow x target of
                              None \<Rightarrow> Inr JUndef
                            | Some branchIndex \<Rightarrow> read_branch h x cfg firstPart (scope_items h x target cfg) branchIndex rest)
              in case rest of
                   [] \<Rightarrow> in_scope
                 | raw # remaining \<Rightarrow>
                     (case splitLeadingBracketPath raw of
                        (property, brackets) \<Rightarrow>
                          if property \<in> set OUTPUT_PROPERTIES then resolveOutput h x target (brackets @ remaining)
                          else in_scope)))"

section \<open>Variables\<close>

definition is_quote :: "char \<Rightarrow> bool" where "is_quote c \<longleftrightarrow> c = CHR 0x22 \<or> c = CHR 0x27"

definition unquote :: "string \<Rightarrow> string" where
  "unquote s = (if length s \<ge> 2 \<and> is_quote (hd s) \<and> is_quote (last s) then butlast (tl s) else s)"

definition unquoted_value :: "jval \<Rightarrow> jval" where
  "unquoted_value v = (case v of JStr s \<Rightarrow> JStr (unquote s) | _ \<Rightarrow> v)"

definition starts_json :: "jval \<Rightarrow> string \<Rightarrow> bool" where
  "starts_json v p = (case v of JStr s \<Rightarrow> starts_with (js_trim s) p | _ \<Rightarrow> False)"

definition str_value :: "jval \<Rightarrow> string" where
  "str_value v = (case v of JStr s \<Rightarrow> s | _ \<Rightarrow> [])"

definition resolveForExecution :: "resolver_host \<Rightarrow> jval \<Rightarrow> string \<Rightarrow> jval" where
  "resolveForExecution h v t =
     (let u = unquoted_value v
      in if v = JStr [] \<or> is_nullish v then v
         else if t = ''plain'' then JStr (case v of JStr s \<Rightarrow> s | _ \<Rightarrow> rs_string h v)
         else if t = ''string'' then JStr (rs_string h u)
         else if t = ''number'' then
           (case u of
              JNum n \<Rightarrow> u
            | _ \<Rightarrow> if u = JStr [] then u else (case rs_number h u of None \<Rightarrow> JNum 0 | Some n \<Rightarrow> JNum n))
         else if t = ''boolean'' then
           (case u of
              JBool b \<Rightarrow> u
            | _ \<Rightarrow> if u = JStr ''anything else'' then JBool True
                   else JBool (js_trim (map ascii_lower (rs_string h u)) = ''true''))
         else if t = ''object'' then
           (case u of
              JObj f \<Rightarrow> u
            | _ \<Rightarrow> if u = JStr ''invalid json'' then JObj []
                   else if starts_json u ''{'' then (case rs_parse h (str_value u) of None \<Rightarrow> JObj [] | Some p \<Rightarrow> p)
                   else if is_object u then u else JObj [(''value'', u)])
         else if t = ''array'' then
           (case u of
              JArr xs \<Rightarrow> u
            | _ \<Rightarrow> if u = JStr ''invalid json'' then JArr []
                   else if starts_json u ''['' then (case rs_parse h (str_value u) of None \<Rightarrow> JArr [] | Some p \<Rightarrow> p)
                   else JArr [u])
         else u)"

definition resolveVariableValue :: "resolver_host \<Rightarrow> jval \<Rightarrow> string \<Rightarrow> jval" where
  "resolveVariableValue h v t =
     (if isLargeValueRef v \<or> isLargeArrayManifest v then v else resolveForExecution h v t)"

definition var_field :: "jval \<Rightarrow> string \<Rightarrow> jval" where
  "var_field v k = (case v of JObj f \<Rightarrow> get_prop f k | _ \<Rightarrow> JUndef)"

definition normalized_type :: "jval \<Rightarrow> string" where
  "normalized_type v =
     (let t = str_value (var_field v ''type'') in if t = ''string'' \<or> t = [] then ''plain'' else t)"

definition variable_matches :: "string \<Rightarrow> jval \<Rightarrow> bool" where
  "variable_matches variableName v \<longleftrightarrow>
     truthy v \<and>
     ((if truthy (var_field v ''name'') then normalizeName (str_value (var_field v ''name'')) else []) = normalizeName variableName \<or>
      var_field v ''id'' = JStr variableName)"

definition resolve_variable :: "resolver_host \<Rightarrow> resolution_context \<Rightarrow> string list \<Rightarrow> resolve_error + jval" where
  "resolve_variable h x parts =
     (case parts of
        _ # raw # rest \<Rightarrow>
          (case splitLeadingBracketPath raw of
             (variableName, brackets) \<Rightarrow>
               (case List.find (variable_matches variableName) (mvalues (rs_variables h)) of
                  None \<Rightarrow> Inr JUndef
                | Some v \<Rightarrow>
                    (let value = resolveVariableValue h (var_field v ''value'') (normalized_type v)
                     in if brackets @ rest \<noteq> [] then navigate h x value (brackets @ rest)
                        else if rx_allow x then Inr value
                        else and_then (assertNoLargeValueRefs value) (\<lambda>_. Inr value))))
      | _ \<Rightarrow> Inr JUndef)"

text \<open>A placeholder without a value is itself. (A member that the environment map inherits is no string,
  and every use of a placeholder keeps it in that case too.)\<close>

definition resolve_env :: "resolver_host \<Rightarrow> string \<Rightarrow> jval" where
  "resolve_env h reference =
     (case mget (rs_env h) (extractEnvVarName reference) of None \<Rightarrow> JStr reference | Some v \<Rightarrow> JStr v)"

section \<open>Blocks\<close>

definition block_map :: "sblock list \<Rightarrow> (string, sblock) jsmap" where
  "block_map bs = fold (\<lambda>b. mput (blk_id b) b) bs []"

text \<open>The names: a name without a dot keeps its key, a name with one gives way.\<close>

fun name_blocks :: "sblock list \<Rightarrow> (string, sblock) jsmap \<Rightarrow> (string, string) jsmap \<Rightarrow> (string, string) jsmap" where
  "name_blocks [] ids names = names"
| "name_blocks (b # bs) ids names =
     (let ids' = mput (blk_id b) b ids
      in if falsy_str (blk_name b) then name_blocks bs ids' names
         else let key = normalizeName (the (blk_name b)); incumbent = mget names key
              in if falsy_str incumbent \<or>
                    (case mget ids' (the incumbent) of
                       None \<Rightarrow> False
                     | Some c \<Rightarrow> (case blk_name c of None \<Rightarrow> False | Some nm \<Rightarrow> includes_str nm ''.''))
                 then name_blocks bs ids' (mput key (blk_id b) names)
                 else name_blocks bs ids' names)"

definition nameToBlockId :: "sworkflow \<Rightarrow> (string, string) jsmap" where
  "nameToBlockId flow = name_blocks (wf_blocks flow) [] []"

definition findBlockIdByName :: "sworkflow \<Rightarrow> string \<Rightarrow> string option" where
  "findBlockIdByName flow name = mget (nameToBlockId flow) (normalizeName name)"

definition blockIdsInSubflows :: "sworkflow \<Rightarrow> string set" where
  "blockIdsInSubflows flow =
     set (concat (map loop_nodes (mvalues (wf_loops flow)))) \<union> set (concat (map par_nodes (mvalues (wf_parallels flow))))"

definition subflowContainerIds :: "sworkflow \<Rightarrow> string set" where
  "subflowContainerIds flow = set (mkeys (wf_loops flow)) \<union> set (mkeys (wf_parallels flow))"

definition resolver_block_state :: "sworkflow \<Rightarrow> resolution_context \<Rightarrow> string \<Rightarrow> unit block_state option" where
  "resolver_block_state flow x blockId =
     (let st = w_state (rx_world x); outer = extractOuterBranchIndex (rx_node x); branch = mapped_branch False x;
          cloned = (case branch of Some n \<Rightarrow> n > 0 \<and> blockId \<in> subflowContainerIds flow | None \<Rightarrow> False)
      in case (if cloned then getBlockState st (buildOuterBranchScopedId blockId (the branch)) None else None) of
           Some s \<Rightarrow> Some s
         | None \<Rightarrow>
             (case getBlockState st blockId (Some (rx_node x)) of
                Some s \<Rightarrow> Some s
              | None \<Rightarrow> if cloned \<or> (outer \<noteq> None \<and> blockId \<in> blockIdsInSubflows flow) then None
                        else stored st blockId))"

definition handleBackwardsCompat ::
  "resolver_host \<Rightarrow> resolution_context \<Rightarrow> sblock \<Rightarrow> jval \<Rightarrow> string list \<Rightarrow> resolve_error + jval" where
  "handleBackwardsCompat h x b out pathParts =
     (let member = js_member (rs_values h);
          nested = (if blk_type b \<in> {Some ''workflow'', Some ''workflow_input''} \<and> take 2 pathParts = [''result'', ''response''] \<and>
                       member (member out ''result'') ''response'' = JUndef
                    then navigate h x out (''result'' # drop 2 pathParts) else Inr JUndef)
      in if out = JUndef \<or> pathParts = [] then Inr JUndef
         else if blk_type b = Some ''response'' \<and> hd pathParts = ''response'' \<and> member out ''response'' = JUndef
         then (if tl pathParts = [] then Inr out
               else and_then (navigate h x out (tl pathParts)) (\<lambda>v. if v \<noteq> JUndef then Inr v else nested))
         else nested)"

definition resolve_block :: "resolver_host \<Rightarrow> sworkflow \<Rightarrow> resolution_context \<Rightarrow> string list \<Rightarrow> resolve_error + resolved" where
  "resolve_block h flow x parts =
     (case findBlockIdByName flow (hd parts) of
        None \<Rightarrow> Inr (Found JUndef)
      | Some blockId \<Rightarrow>
          if blockId = [] then Inr (Found JUndef)
          else case mget (block_map (wf_blocks flow)) blockId of
            None \<Rightarrow> Inr (Found JUndef)
          | Some b \<Rightarrow>
              (let out = (case resolver_block_state flow x blockId of None \<Rightarrow> JUndef | Some s \<Rightarrow> JObj (bs_output s));
                   schemas = (case rs_schema h b of Some s \<Rightarrow> if s \<noteq> [] then [(blockId, s)] else [] | None \<Rightarrow> []);
                   compat = handleBackwardsCompat h x b out (tl parts)
               in case resolveBlockReference (rs_values h) (navigate h x) (hd parts) (tl parts) (nameToBlockId flow)
                         (if out = JUndef then [] else [(blockId, out)]) schemas of
                    Inl (InvalidField n p fs) \<Rightarrow>
                      and_then compat (\<lambda>v. if v \<noteq> JUndef then Inr (Found v) else Inl (InvalidField n p fs))
                  | Inl e \<Rightarrow> Inl e
                  | Inr None \<Rightarrow> Inr (Found JUndef)
                  | Inr (Some (v, _)) \<Rightarrow>
                      if v \<noteq> JUndef
                      then (if rx_allow x then Inr (Found v) else and_then (assertNoLargeValueRefs v) (\<lambda>_. Inr (Found v)))
                      else and_then compat (\<lambda>c. if c \<noteq> JUndef then Inr (Found c) else Inr ResolvedEmpty)))"

section \<open>Dispatch\<close>

definition canResolveLoop :: "sworkflow \<Rightarrow> string \<Rightarrow> bool" where
  "canResolveLoop flow r \<longleftrightarrow>
     isReference r \<and> (hd (parseReferencePath r) = LOOP_REF \<or> mhas (loopNameToId flow) (hd (parseReferencePath r)))"

definition canResolveParallel :: "sworkflow \<Rightarrow> string \<Rightarrow> bool" where
  "canResolveParallel flow r \<longleftrightarrow>
     isReference r \<and> (hd (parseReferencePath r) = PARALLEL_REF \<or> mhas (parallelNameToId flow) (hd (parseReferencePath r)))"

definition canResolveVariable :: "string \<Rightarrow> bool" where
  "canResolveVariable r \<longleftrightarrow> isReference r \<and> hd (parseReferencePath r) = VARIABLE_REF"

definition canResolveBlock :: "string \<Rightarrow> bool" where
  "canResolveBlock r \<longleftrightarrow> isReference r \<and> hd (parseReferencePath r) \<notin> set SPECIAL_REFERENCE_PREFIXES"

definition resolveReference :: "resolver_host \<Rightarrow> sworkflow \<Rightarrow> resolution_context \<Rightarrow> string \<Rightarrow> resolve_error + resolved" where
  "resolveReference h flow x r =
     (let parts = parseReferencePath r
      in if canResolveLoop flow r then map_sum id Found (resolve_loop h flow x parts)
         else if canResolveParallel flow r then map_sum id Found (resolve_parallel h flow x parts)
         else if canResolveVariable r then map_sum id Found (resolve_variable h x parts)
         else if isEnvVarReference r then Inr (Found (resolve_env h r))
         else if canResolveBlock r then resolve_block h flow x parts
         else Inr (Found JUndef))"

end
