(* ===== verification/CodeScan.thy ===== *)
theory CodeScan
  imports References
begin

text \<open>
  The scanners of \<open>variables/resolver.ts\<close>: in which string context of a piece of code a position lies, for
  JavaScript, Python and the shell; whether code imports modules; whether an expression reads the environment; and
  the expressions that stand in for a value in each context.

  A scan moves an index over the text and keeps a stack of modes, the innermost first. Text is UTF-8; the
  characters that the scanners look for are ASCII, except white space, for which \<open>space_at\<close> recognises every byte of
  a white space character.
\<close>

section \<open>Characters\<close>

definition char_at :: "string \<Rightarrow> nat \<Rightarrow> char option" where
  "char_at t i = (if i < length t then Some (t ! i) else None)"

definition is_letter :: "char \<Rightarrow> bool" where
  "is_letter c \<longleftrightarrow> (65::nat) \<le> of_char c \<and> of_char c \<le> (90::nat) \<or> (97::nat) \<le> of_char c \<and> of_char c \<le> (122::nat)"

definition is_word :: "char \<Rightarrow> bool" where
  "is_word c \<longleftrightarrow> is_letter c \<or> is_digit c \<or> c = CHR ''_''"

definition isJavaScriptIdentifierChar :: "char \<Rightarrow> bool" where
  "isJavaScriptIdentifierChar c \<longleftrightarrow> is_word c \<or> c = CHR ''$''"

text \<open>The white space character that starts \<open>d\<close> bytes before the position reaches over it.\<close>

definition space_from :: "string \<Rightarrow> nat \<Rightarrow> nat \<Rightarrow> bool" where
  "space_from t i d \<longleftrightarrow>
     d \<le> i \<and> (case skip_space (drop (i - d) t) of None \<Rightarrow> False | Some r \<Rightarrow> length r + d < length t - (i - d))"

definition space_at :: "string \<Rightarrow> nat \<Rightarrow> bool" where
  "space_at t i \<longleftrightarrow> space_from t i 0 \<or> space_from t i 1 \<or> space_from t i 2"

section \<open>State\<close>

datatype scan_mode =
    NormalMode
  | SingleMode
  | DoubleMode
  | TripleSingleMode
  | TripleDoubleMode
  | TemplateMode
  | ExpressionMode nat
  | LineComment
  | BlockComment
  | RegexMode bool

record scan_state =
  sc_modes :: "scan_mode list"
  sc_last :: "nat option"
  sc_parens :: "bool list"
  sc_afterDot :: bool
  sc_heads :: "nat list"
  sc_regexes :: "nat list"

definition scan_start :: scan_state where
  "scan_start = \<lparr>sc_modes = [NormalMode], sc_last = None, sc_parens = [], sc_afterDot = False, sc_heads = [], sc_regexes = []\<rparr>"

definition pop_mode :: "scan_state \<Rightarrow> scan_state" where
  "pop_mode st = st\<lparr>sc_modes := tl (sc_modes st)\<rparr>"

definition push_mode :: "scan_mode \<Rightarrow> scan_state \<Rightarrow> scan_state" where
  "push_mode m st = st\<lparr>sc_modes := m # sc_modes st\<rparr>"

definition set_mode :: "scan_mode \<Rightarrow> scan_state \<Rightarrow> scan_state" where
  "set_mode m st = st\<lparr>sc_modes := m # tl (sc_modes st)\<rparr>"

lemmas mode_defs = pop_mode_def push_mode_def set_mode_def

section \<open>Regular expressions and heads\<close>

definition JAVASCRIPT_REGEX_ALLOWED_AFTER :: string where
  "JAVASCRIPT_REGEX_ALLOWED_AFTER = ''(,=:[!&|?{};+-*%^~<>/''"

definition CONTROL_FLOW_HEAD_KEYWORDS :: "string list" where
  "CONTROL_FLOW_HEAD_KEYWORDS = [''if'', ''while'', ''for'', ''switch'', ''catch'', ''with'']"

definition JAVASCRIPT_REGEX_ALLOWED_AFTER_KEYWORDS :: "string list" where
  "JAVASCRIPT_REGEX_ALLOWED_AFTER_KEYWORDS =
     [''return'', ''typeof'', ''instanceof'', ''in'', ''of'', ''new'', ''delete'', ''void'', ''case'', ''throw'', ''do'',
      ''else'', ''yield'', ''await'']"

text \<open>The identifier that ends at a position.\<close>

definition identifier_to :: "string \<Rightarrow> nat \<Rightarrow> string" where
  "identifier_to t i = rev (takeWhile isJavaScriptIdentifierChar (rev (take (Suc i) t)))"

definition canStartJavaScriptRegex :: "string \<Rightarrow> nat option \<Rightarrow> scan_state \<Rightarrow> bool" where
  "canStartJavaScriptRegex t previous st =
     (case previous of
        None \<Rightarrow> True
      | Some p \<Rightarrow>
          let c = t ! p
          in if c = CHR '')'' then p \<in> set (sc_heads st)
             else if c = CHR ''/'' \<and> p \<in> set (sc_regexes st) then False
             else if (c = CHR ''+'' \<or> c = CHR ''-'') \<and> 0 < p \<and> t ! (p - 1) = c then False
             else if c \<in> set JAVASCRIPT_REGEX_ALLOWED_AFTER then True
             else if \<not> isJavaScriptIdentifierChar c then False
             else identifier_to t p \<in> set JAVASCRIPT_REGEX_ALLOWED_AFTER_KEYWORDS)"

definition opensControlFlowHead :: "string \<Rightarrow> nat option \<Rightarrow> bool \<Rightarrow> bool" where
  "opensControlFlowHead t previous precededByPropertyAccess =
     (case previous of
        None \<Rightarrow> False
      | Some p \<Rightarrow> \<not> precededByPropertyAccess \<and> isJavaScriptIdentifierChar (t ! p) \<and>
          identifier_to t p \<in> set CONTROL_FLOW_HEAD_KEYWORDS)"

section \<open>Steps\<close>

text \<open>Each takes the index and the state, in the mode it is named after, and returns both.\<close>

definition scan_line_comment :: "string \<Rightarrow> nat \<Rightarrow> scan_state \<Rightarrow> nat \<times> scan_state" where
  "scan_line_comment t i st = (if t ! i = CHR 0x0A then (Suc i, pop_mode st) else (Suc i, st))"

definition scan_block_comment :: "string \<Rightarrow> nat \<Rightarrow> scan_state \<Rightarrow> nat \<times> scan_state" where
  "scan_block_comment t i st =
     (if t ! i = CHR ''*'' \<and> char_at t (i + 1) = Some (CHR ''/'') then (i + 2, pop_mode st) else (Suc i, st))"

definition scan_regex :: "bool \<Rightarrow> string \<Rightarrow> nat \<Rightarrow> scan_state \<Rightarrow> nat \<times> scan_state" where
  "scan_regex inCharacterClass t i st =
     (let c = t ! i
      in if c = CHR 0x5C then (i + 2, st)
         else if c = CHR 0x0A then (Suc i, pop_mode st)
         else if c = CHR ''['' then (Suc i, set_mode (RegexMode True) st)
         else if c = CHR '']'' then (Suc i, set_mode (RegexMode False) st)
         else if c = CHR ''/'' \<and> \<not> inCharacterClass
         then (Suc i, (pop_mode st)\<lparr>sc_regexes := i # sc_regexes st, sc_last := Some i\<rparr>)
         else (Suc i, st))"

definition scan_string :: "char \<Rightarrow> string \<Rightarrow> nat \<Rightarrow> scan_state \<Rightarrow> nat \<times> scan_state" where
  "scan_string quote t i st =
     (let c = t ! i
      in if c = CHR 0x5C then (i + 2, st)
         else if c = quote \<or> c = CHR 0x0A then (Suc i, pop_mode st)
         else (Suc i, st))"

definition triple_at :: "char \<Rightarrow> string \<Rightarrow> nat \<Rightarrow> bool" where
  "triple_at quote t i \<longleftrightarrow> t ! i = quote \<and> char_at t (i + 1) = Some quote \<and> char_at t (i + 2) = Some quote"

definition scan_triple :: "char \<Rightarrow> string \<Rightarrow> nat \<Rightarrow> scan_state \<Rightarrow> nat \<times> scan_state" where
  "scan_triple quote t i st =
     (if t ! i = CHR 0x5C then (i + 2, st)
      else if triple_at quote t i then (i + 3, pop_mode st)
      else (Suc i, st))"

definition scan_template :: "string \<Rightarrow> nat \<Rightarrow> scan_state \<Rightarrow> nat \<times> scan_state" where
  "scan_template t i st =
     (let c = t ! i
      in if c = CHR 0x5C then (i + 2, st)
         else if c = CHR 0x60 then (Suc i, pop_mode st)
         else if c = CHR ''$'' \<and> char_at t (i + 1) = Some (CHR ''{'') then (i + 2, push_mode (ExpressionMode 1) st)
         else (Suc i, st))"

text \<open>What a character of code leaves behind for those after it.\<close>

definition note_char :: "string \<Rightarrow> nat \<Rightarrow> scan_state \<Rightarrow> scan_state" where
  "note_char t i st =
     (let c = t ! i; previous = sc_last st; st1 = (if space_at t i then st else st\<lparr>sc_last := Some i\<rparr>)
      in if isJavaScriptIdentifierChar c then
           (if i = 0 \<or> \<not> isJavaScriptIdentifierChar (t ! (i - 1))
            then st1\<lparr>sc_afterDot := (case previous of None \<Rightarrow> False | Some p \<Rightarrow> t ! p = CHR ''.'')\<rparr> else st1)
         else if c = CHR ''('' then st1\<lparr>sc_parens := opensControlFlowHead t previous (sc_afterDot st) # sc_parens st\<rparr>
         else if c = CHR '')'' then
           st1\<lparr>sc_parens := tl (sc_parens st),
               sc_heads := (case sc_parens st of True # _ \<Rightarrow> i # sc_heads st | _ \<Rightarrow> sc_heads st)\<rparr>
         else st1)"

text \<open>The openings of strings and regular expressions, which both code modes share.\<close>

definition opened_mode :: "bool \<Rightarrow> string \<Rightarrow> nat \<Rightarrow> scan_state \<Rightarrow> (nat \<times> scan_mode) option" where
  "opened_mode python t i st =
     (let c = t ! i
      in if \<not> python \<and> c = CHR ''/'' \<and> canStartJavaScriptRegex t (sc_last st) (note_char t i st) then Some (Suc i, RegexMode False)
         else if python \<and> triple_at (CHR 0x27) t i then Some (i + 3, TripleSingleMode)
         else if python \<and> triple_at (CHR 0x22) t i then Some (i + 3, TripleDoubleMode)
         else if c = CHR 0x27 then Some (Suc i, SingleMode)
         else if c = CHR 0x22 then Some (Suc i, DoubleMode)
         else if \<not> python \<and> c = CHR 0x60 then Some (Suc i, TemplateMode)
         else None)"

definition opened_comment :: "bool \<Rightarrow> string \<Rightarrow> nat \<Rightarrow> (nat \<times> scan_mode) option" where
  "opened_comment python t i =
     (let c = t ! i; next = char_at t (i + 1)
      in if \<not> python \<and> c = CHR ''/'' \<and> next = Some (CHR ''/'') then Some (i + 2, LineComment)
         else if \<not> python \<and> c = CHR ''/'' \<and> next = Some (CHR ''*'') then Some (i + 2, BlockComment)
         else None)"

definition scan_expression :: "bool \<Rightarrow> nat \<Rightarrow> string \<Rightarrow> nat \<Rightarrow> scan_state \<Rightarrow> nat \<times> scan_state" where
  "scan_expression python depth t i st =
     (case opened_comment python t i of
        Some (j, m) \<Rightarrow> (j, push_mode m st)
      | None \<Rightarrow>
          (case opened_mode python t i st of
             Some (j, m) \<Rightarrow> (j, push_mode m (note_char t i st))
           | None \<Rightarrow>
               (Suc i,
                if t ! i = CHR ''{'' then set_mode (ExpressionMode (depth + 1)) (note_char t i st)
                else if t ! i = CHR ''}'' then
                  (if depth - 1 = 0 then pop_mode (note_char t i st)
                   else set_mode (ExpressionMode (depth - 1)) (note_char t i st))
                else note_char t i st)))"

definition scan_normal :: "bool \<Rightarrow> string \<Rightarrow> nat \<Rightarrow> scan_state \<Rightarrow> nat \<times> scan_state" where
  "scan_normal python t i st =
     (if python \<and> t ! i = CHR ''#'' then (Suc i, push_mode LineComment st)
      else case opened_comment python t i of
        Some (j, m) \<Rightarrow> (j, push_mode m st)
      | None \<Rightarrow>
          (case opened_mode python t i st of
             Some (j, m) \<Rightarrow> (j, push_mode m (note_char t i st))
           | None \<Rightarrow> (Suc i, note_char t i st)))"

definition scan_step :: "bool \<Rightarrow> string \<Rightarrow> nat \<Rightarrow> scan_state \<Rightarrow> nat \<times> scan_state" where
  "scan_step python t i st =
     (case hd (sc_modes st) of
        LineComment \<Rightarrow> scan_line_comment t i st
      | BlockComment \<Rightarrow> scan_block_comment t i st
      | RegexMode inCharacterClass \<Rightarrow> scan_regex inCharacterClass t i st
      | SingleMode \<Rightarrow> scan_string (CHR 0x27) t i st
      | DoubleMode \<Rightarrow> scan_string (CHR 0x22) t i st
      | TripleSingleMode \<Rightarrow> scan_triple (CHR 0x27) t i st
      | TripleDoubleMode \<Rightarrow> scan_triple (CHR 0x22) t i st
      | TemplateMode \<Rightarrow> scan_template t i st
      | ExpressionMode depth \<Rightarrow> scan_expression python depth t i st
      | NormalMode \<Rightarrow> scan_normal python t i st)"

lemmas scan_mode_steps =
  scan_line_comment_def scan_block_comment_def scan_regex_def scan_string_def scan_triple_def scan_template_def
  scan_expression_def scan_normal_def

lemma opened_advances:
  "opened_comment python t i = Some (j, m) \<Longrightarrow> i < j" "opened_mode python t i st = Some (j, m) \<Longrightarrow> i < j"
  by (auto simp: opened_comment_def opened_mode_def Let_def split: if_splits)

lemma scan_step_advances: "scan_step python t i st = (j, st') \<Longrightarrow> i < j"
  by (auto simp: scan_step_def scan_mode_steps Let_def split: scan_mode.splits if_splits option.splits dest: opened_advances)

text \<open>The loop up to the index; an index lies inside the text or at its end.\<close>

function scan :: "bool \<Rightarrow> string \<Rightarrow> nat \<Rightarrow> nat \<Rightarrow> scan_state \<Rightarrow> scan_state" where
  "scan python t index i st =
     (if i < index \<and> i < length t
      then (case scan_step python t i st of (j, st') \<Rightarrow> scan python t index j st') else st)"
  by pat_completeness auto
termination by (relation "measure (\<lambda>(python, t, index, i, st). index - i)") (auto split: prod.split dest: scan_step_advances intro: diff_less_mono2 less_trans)

declare scan.simps [simp del]

datatype quote_context = SingleContext | DoubleContext | TripleSingleContext | TripleDoubleContext | TemplateContext | RegexContext

definition mode_context :: "scan_mode \<Rightarrow> quote_context option" where
  "mode_context m =
     (case m of
        RegexMode _ \<Rightarrow> Some RegexContext
      | SingleMode \<Rightarrow> Some SingleContext
      | DoubleMode \<Rightarrow> Some DoubleContext
      | TripleSingleMode \<Rightarrow> Some TripleSingleContext
      | TripleDoubleMode \<Rightarrow> Some TripleDoubleContext
      | TemplateMode \<Rightarrow> Some TemplateContext
      | _ \<Rightarrow> None)"

definition getCodeStringQuoteContext :: "string \<Rightarrow> nat \<Rightarrow> string option \<Rightarrow> quote_context option" where
  "getCodeStringQuoteContext t index language =
     mode_context (hd (sc_modes (scan (language = Some ''python'') t index 0 scan_start)))"

section \<open>Keywords\<close>

definition matchesKeywordAt :: "string \<Rightarrow> nat \<Rightarrow> string \<Rightarrow> bool" where
  "matchesKeywordAt t i keyword \<longleftrightarrow>
     starts_with (drop i t) keyword \<and>
     \<not> (0 < i \<and> isJavaScriptIdentifierChar (t ! (i - 1))) \<and>
     (case char_at t (i + length keyword) of None \<Rightarrow> True | Some c \<Rightarrow> \<not> isJavaScriptIdentifierChar c)"

definition startsWithStaticImport :: "string \<Rightarrow> nat \<Rightarrow> bool" where
  "startsWithStaticImport t i \<longleftrightarrow>
     matchesKeywordAt t i ''import'' \<and>
     (let rest = drop (i + 6) t in trim_start rest \<noteq> rest \<and> \<not> starts_with (trim_start rest) ''('')"

definition startsWithRequireCall :: "string \<Rightarrow> nat \<Rightarrow> bool" where
  "startsWithRequireCall t i \<longleftrightarrow>
     matchesKeywordAt t i ''require'' \<and>
     (case trim_start (drop (i + 7) t) of
        c # rest \<Rightarrow> c = CHR ''('' \<and>
          (case trim_start rest of q # _ \<Rightarrow> q = CHR 0x27 \<or> q = CHR 0x22 \<or> q = CHR 0x60 | [] \<Rightarrow> False)
      | [] \<Rightarrow> False)"

text \<open>The same walk without regular expressions: \<open>None\<close> when a module is imported here.\<close>

definition module_code :: "scan_mode list \<Rightarrow> string \<Rightarrow> nat \<Rightarrow> (nat \<times> scan_mode list) option" where
  "module_code modes t i =
     (let c = t ! i; next = char_at t (i + 1)
      in if c = CHR ''/'' \<and> next = Some (CHR ''/'') then Some (i + 2, LineComment # modes)
         else if c = CHR ''/'' \<and> next = Some (CHR ''*'') then Some (i + 2, BlockComment # modes)
         else if c = CHR 0x27 then Some (Suc i, SingleMode # modes)
         else if c = CHR 0x22 then Some (Suc i, DoubleMode # modes)
         else if c = CHR 0x60 then Some (Suc i, TemplateMode # modes)
         else (case hd modes of
                 ExpressionMode depth \<Rightarrow>
                   if c = CHR ''{'' then Some (Suc i, ExpressionMode (depth + 1) # tl modes)
                   else if c = CHR ''}'' then
                     Some (Suc i, if depth - 1 = 0 then tl modes else ExpressionMode (depth - 1) # tl modes)
                   else if startsWithStaticImport t i \<or> startsWithRequireCall t i then None else Some (Suc i, modes)
               | _ \<Rightarrow> if startsWithStaticImport t i \<or> startsWithRequireCall t i then None else Some (Suc i, modes)))"

definition module_step :: "scan_mode list \<Rightarrow> string \<Rightarrow> nat \<Rightarrow> (nat \<times> scan_mode list) option" where
  "module_step modes t i =
     (let c = t ! i; next = char_at t (i + 1)
      in case hd modes of
           LineComment \<Rightarrow> Some (Suc i, if c = CHR 0x0A then tl modes else modes)
         | BlockComment \<Rightarrow> if c = CHR ''*'' \<and> next = Some (CHR ''/'') then Some (i + 2, tl modes) else Some (Suc i, modes)
         | SingleMode \<Rightarrow>
             if c = CHR 0x5C then Some (i + 2, modes)
             else Some (Suc i, if c = CHR 0x27 \<or> c = CHR 0x0A then tl modes else modes)
         | DoubleMode \<Rightarrow>
             if c = CHR 0x5C then Some (i + 2, modes)
             else Some (Suc i, if c = CHR 0x22 \<or> c = CHR 0x0A then tl modes else modes)
         | TemplateMode \<Rightarrow>
             if c = CHR 0x5C then Some (i + 2, modes)
             else if c = CHR 0x60 then Some (Suc i, tl modes)
             else if c = CHR ''$'' \<and> next = Some (CHR ''{'') then Some (i + 2, ExpressionMode 1 # modes)
             else Some (Suc i, modes)
         | NormalMode \<Rightarrow> module_code modes t i
         | ExpressionMode depth \<Rightarrow> module_code modes t i
         | _ \<Rightarrow> Some (Suc i, modes))"

lemma module_step_advances: "module_step modes t i = Some (j, modes') \<Longrightarrow> i < j"
  by (auto simp: module_step_def module_code_def Let_def split: scan_mode.splits if_splits)

function module_scan :: "scan_mode list \<Rightarrow> string \<Rightarrow> nat \<Rightarrow> bool" where
  "module_scan modes t i =
     (if i < length t
      then (case module_step modes t i of None \<Rightarrow> True | Some (j, modes') \<Rightarrow> module_scan modes' t j) else False)"
  by pat_completeness auto
termination by (relation "measure (\<lambda>(modes, t, i). length t - i)") (auto dest: module_step_advances)

declare module_scan.simps [simp del]

definition hasJavaScriptModuleDependencySyntax :: "string \<Rightarrow> bool" where
  "hasJavaScriptModuleDependencySyntax t = module_scan [NormalMode] t 0"

definition canUseJavaScriptRuntimeHelpers :: "string option \<Rightarrow> string \<Rightarrow> bool" where
  "canUseJavaScriptRuntimeHelpers language t \<longleftrightarrow>
     language = Some ''javascript'' \<and> \<not> hasJavaScriptModuleDependencySyntax t"

definition ENVIRONMENT_MAP_IDENTIFIER :: string where
  "ENVIRONMENT_MAP_IDENTIFIER = ''environmentVariables''"

definition environment_at :: "string \<Rightarrow> nat \<Rightarrow> bool" where
  "environment_at t i \<longleftrightarrow>
     starts_with (drop i t) ENVIRONMENT_MAP_IDENTIFIER \<and>
     \<not> (0 < i \<and> is_word (t ! (i - 1))) \<and>
     (case char_at t (i + length ENVIRONMENT_MAP_IDENTIFIER) of None \<Rightarrow> True | Some c \<Rightarrow> \<not> is_word c)"

definition readsEnvironmentMap :: "string \<Rightarrow> bool" where
  "readsEnvironmentMap expression \<longleftrightarrow>
     list_ex (\<lambda>i. environment_at expression i \<and> getCodeStringQuoteContext expression i (Some ''javascript'') = None)
       [0..<length expression]"

section \<open>Shell\<close>

definition isShellCommentStart :: "string \<Rightarrow> nat \<Rightarrow> bool" where
  "isShellCommentStart t i \<longleftrightarrow>
     t ! i = CHR ''#'' \<and> (i = 0 \<or> space_at t (i - 1) \<or> t ! (i - 1) \<in> set '';&|()<>'')"

definition newline_from :: "string \<Rightarrow> nat \<Rightarrow> nat" where
  "newline_from t i = i + length (takeWhile (\<lambda>c. c \<noteq> CHR 0x0A) (drop i t))"

function shell_scan :: "string \<Rightarrow> nat \<Rightarrow> nat \<Rightarrow> quote_context option \<Rightarrow> quote_context option" where
  "shell_scan t index i ctx =
     (if i < index \<and> i < length t then
        (if ctx = None \<and> isShellCommentStart t i then
           (if length t \<le> newline_from t (i + 1) \<or> index \<le> newline_from t (i + 1) then ctx
            else shell_scan t index (newline_from t (i + 1) + 1) ctx)
         else if t ! i = CHR 0x5C \<and> ctx \<noteq> Some SingleContext then shell_scan t index (i + 2) ctx
         else if t ! i = CHR 0x27 \<and> ctx \<noteq> Some DoubleContext then
           shell_scan t index (i + 1) (if ctx = Some SingleContext then None else Some SingleContext)
         else if t ! i = CHR 0x22 \<and> ctx \<noteq> Some SingleContext then
           shell_scan t index (i + 1) (if ctx = Some DoubleContext then None else Some DoubleContext)
         else shell_scan t index (i + 1) ctx)
      else ctx)"
  by pat_completeness auto
termination by (relation "measure (\<lambda>(t, index, i, ctx). index - i)") (auto simp: newline_from_def)

declare shell_scan.simps [simp del]

definition getShellQuoteContext :: "string \<Rightarrow> nat \<Rightarrow> quote_context option" where
  "getShellQuoteContext t index = shell_scan t index 0 None"

section \<open>Access to a value\<close>

text \<open>The names are ASCII without characters that \<open>JSON.stringify\<close> escapes.\<close>

definition quoted_name :: "string \<Rightarrow> string" where
  "quoted_name v = [CHR 0x22] @ v @ [CHR 0x22]"

definition getCodeStringQuoteToken :: "quote_context \<Rightarrow> string" where
  "getCodeStringQuoteToken q =
     (if q = SingleContext then [CHR 0x27]
      else if q = DoubleContext then [CHR 0x22]
      else if q = TripleSingleContext then replicate 3 (CHR 0x27)
      else replicate 3 (CHR 0x22))"

definition isPythonStringQuoteContext :: "quote_context option \<Rightarrow> bool" where
  "isPythonStringQuoteContext q \<longleftrightarrow>
     q \<in> {Some SingleContext, Some DoubleContext, Some TripleSingleContext, Some TripleDoubleContext}"

text \<open>An expression in the middle of a string: the string is closed, concatenated and opened again.\<close>

definition concatenated :: "quote_context \<Rightarrow> string \<Rightarrow> string" where
  "concatenated q e = getCodeStringQuoteToken q @ '' + '' @ e @ '' + '' @ getCodeStringQuoteToken q"

definition interpolated :: "string \<Rightarrow> string" where
  "interpolated e = ''${'' @ e @ ''}''"

definition python_access :: "string \<Rightarrow> string" where
  "python_access v = ''globals()['' @ quoted_name v @ '']''"

definition javascript_access :: "string \<Rightarrow> string" where
  "javascript_access v = ''globalThis['' @ quoted_name v @ '']''"

definition called :: "string \<Rightarrow> string \<Rightarrow> string" where
  "called f e = f @ ''('' @ e @ '')''"

definition shell_expansion :: "string \<Rightarrow> string" where
  "shell_expansion v = ''${'' @ v @ ''}''"

definition formatShellContextVariableReference :: "string \<Rightarrow> string \<Rightarrow> nat \<Rightarrow> jval \<Rightarrow> string" where
  "formatShellContextVariableReference v t i value =
     (let ctx = getShellQuoteContext t i; quoted = [CHR 0x22] @ shell_expansion v @ [CHR 0x22]
      in if ctx = Some DoubleContext then shell_expansion v
         else if ctx = Some SingleContext then [CHR 0x27] @ quoted @ [CHR 0x27]
         else if (case value of JStr _ \<Rightarrow> True | _ \<Rightarrow> is_object value) then quoted
         else shell_expansion v)"

definition formatContextVariableReference :: "string \<Rightarrow> string option \<Rightarrow> string \<Rightarrow> nat \<Rightarrow> jval \<Rightarrow> string" where
  "formatContextVariableReference v language t i value =
     (let ctx = getCodeStringQuoteContext t i language
      in if language = Some ''python'' then
           (if isPythonStringQuoteContext ctx then concatenated (the ctx) (called ''json.dumps'' (python_access v))
            else python_access v)
         else if language = Some ''shell'' then formatShellContextVariableReference v t i value
         else if ctx = Some TemplateContext then interpolated (called ''JSON.stringify'' (javascript_access v))
         else if ctx = Some SingleContext \<or> ctx = Some DoubleContext
         then concatenated (the ctx) (called ''JSON.stringify'' (javascript_access v))
         else javascript_access v)"

definition formatContextVariablePathReference :: "string \<Rightarrow> string option \<Rightarrow> string \<Rightarrow> nat \<Rightarrow> string" where
  "formatContextVariablePathReference v language t i =
     (let ctx = getCodeStringQuoteContext t i language
      in if language = Some ''shell'' then formatShellContextVariableReference v t i (JStr [])
         else if language = Some ''python'' then
           (if isPythonStringQuoteContext ctx then concatenated (the ctx) (python_access v) else python_access v)
         else if ctx = Some TemplateContext then interpolated (javascript_access v)
         else if ctx = Some SingleContext \<or> ctx = Some DoubleContext then concatenated (the ctx) (javascript_access v)
         else javascript_access v)"

definition formatJavaScriptAsyncExpression :: "string \<Rightarrow> string \<Rightarrow> nat \<Rightarrow> bool \<Rightarrow> string" where
  "formatJavaScriptAsyncExpression e t i stringify =
     (let ctx = getCodeStringQuoteContext t i (Some ''javascript''); s = (if stringify then called ''JSON.stringify'' e else e)
      in if ctx = Some TemplateContext then interpolated s
         else if ctx = Some SingleContext \<or> ctx = Some DoubleContext then concatenated (the ctx) s
         else e)"

definition lazy_read :: "string \<Rightarrow> string \<Rightarrow> string" where
  "lazy_read operation v = ''(await '' @ called operation (javascript_access v) @ '')''"

definition formatLazyLargeValueReference :: "string \<Rightarrow> string option \<Rightarrow> string \<Rightarrow> nat \<Rightarrow> string option" where
  "formatLazyLargeValueReference v language t i =
     (if canUseJavaScriptRuntimeHelpers language t
      then Some (formatJavaScriptAsyncExpression (lazy_read ''sim.values.read'' v) t i True) else None)"

definition formatLazyLargeArrayManifestReference :: "string \<Rightarrow> string option \<Rightarrow> string \<Rightarrow> nat \<Rightarrow> string option" where
  "formatLazyLargeArrayManifestReference v language t i =
     (if canUseJavaScriptRuntimeHelpers language t
      then Some (formatJavaScriptAsyncExpression (lazy_read ''sim.values.readArray'' v) t i True) else None)"

end
