(* ===== verification/Templates.thy ===== *)
theory Templates
  imports Resolvers CodeScan
begin

text \<open>
  The inputs of a block (\<open>variables/resolver.ts\<close>): references and placeholders in a text
  (\<open>utils/reference-validation.ts\<close>, \<open>packages/utils/src/workflow-references.ts\<close>) are replaced by
  what they resolve to, formatted for the kind of block (\<open>utils/code-formatting.ts\<close>); and the
  collections that loops and parallels run over (\<open>utils/subflow-utils.server.ts\<close>).

  A parameter is the storage of manifests. Values that the code
  resolves concurrently are resolved in order, so that of several errors the first is thrown.
\<close>

record template_host = resolver_host +
  th_loadManifest :: "jval \<Rightarrow> string + jval list"

abbreviation resolver_of :: "template_host \<Rightarrow> resolver_host" where
  "resolver_of h \<equiv> resolver_host.truncate h"

section \<open>Text that looks like a reference\<close>

definition invalid_reference_char :: "char \<Rightarrow> bool" where
  "invalid_reference_char c \<longleftrightarrow> c \<in> set ''+*/=<>!&|''"

definition comparison_char :: "char \<Rightarrow> bool" where
  "comparison_char c \<longleftrightarrow> c \<in> set ''<>=!''"

fun some_suffix :: "(string \<Rightarrow> bool) \<Rightarrow> string \<Rightarrow> bool" where
  "some_suffix P [] = P []"
| "some_suffix P (c # cs) = (P (c # cs) \<or> some_suffix P cs)"

fun last_open :: "string \<Rightarrow> (string \<times> string) option" where
  "last_open [] = None"
| "last_open (c # cs) =
     (case last_open cs of
        Some (a, b) \<Rightarrow> Some (c # a, b)
      | None \<Rightarrow> if c = CHR ''<'' then Some ([], c # cs) else None)"

definition splitWorkflowReferenceSegment :: "string \<Rightarrow> (string \<times> string) option" where
  "splitWorkflowReferenceSegment s =
     (if starts_with s ''<'' \<and> ends_with s ''>'' then last_open s else None)"

definition likely_inner :: "string \<Rightarrow> bool" where
  "likely_inner inner \<longleftrightarrow>
     inner \<noteq> [] \<and> \<not> starts_with inner '' '' \<and>
     \<not> (js_trim inner \<noteq> [] \<and> list_all comparison_char (js_trim inner)) \<and>
     \<not> some_suffix (\<lambda>s. case skip_space s of None \<Rightarrow> False | Some r \<Rightarrow>
          takeWhile comparison_char r \<noteq> [] \<and> skip_space (dropWhile comparison_char r) \<noteq> None) inner \<and>
     \<not> (takeWhile comparison_char inner \<noteq> [] \<and> skip_space (dropWhile comparison_char inner) \<noteq> None) \<and>
     (if CHR ''.'' \<in> set inner
      then CHR '' '' \<notin> set (tl (dropWhile (\<lambda>c. c \<noteq> CHR ''.'') inner)) \<and>
           \<not> list_ex invalid_reference_char (takeWhile (\<lambda>c. c \<noteq> CHR ''.'') inner) \<and>
           \<not> list_ex invalid_reference_char (tl (dropWhile (\<lambda>c. c \<noteq> CHR ''.'') inner))
      else \<not> list_ex invalid_reference_char inner \<and> \<not> all_digits inner \<and>
           \<not> some_suffix (\<lambda>s. case skip_space s of Some (c # _) \<Rightarrow> is_digit c | _ \<Rightarrow> False) inner)"

definition isLikelyWorkflowReferenceSegment :: "string \<Rightarrow> bool" where
  "isLikelyWorkflowReferenceSegment segment =
     (case splitWorkflowReferenceSegment segment of
        None \<Rightarrow> False
      | Some (leading, reference) \<Rightarrow>
          list_all comparison_char (strip_spaces leading) \<and> likely_inner (extractReferenceContent reference))"

section \<open>Scanning\<close>

text \<open>A text as what lies between the matches of a pattern, one character at a time, and the matches.\<close>

datatype piece = Char char | Hit string

text \<open>\<open>/<([^<>]+)>/g\<close>.\<close>

definition reference_at :: "string \<Rightarrow> (string \<times> string) option" where
  "reference_at s =
     (case s of
        c # cs \<Rightarrow>
          (let body = takeWhile (\<lambda>c. c \<noteq> CHR ''<'' \<and> c \<noteq> CHR ''>'') cs;
               rest = dropWhile (\<lambda>c. c \<noteq> CHR ''<'' \<and> c \<noteq> CHR ''>'') cs
           in if c = CHR ''<'' \<and> body \<noteq> [] \<and> starts_with rest ''>'' then Some (''<'' @ body @ ''>'', tl rest) else None)
      | [] \<Rightarrow> None)"

text \<open>\<open>/\{\{([^{}]+)\}\}/g\<close>.\<close>

definition env_at :: "string \<Rightarrow> (string \<times> string) option" where
  "env_at s =
     (let body = takeWhile (\<lambda>c. c \<noteq> CHR ''{'' \<and> c \<noteq> CHR ''}'') (drop 2 s);
          rest = dropWhile (\<lambda>c. c \<noteq> CHR ''{'' \<and> c \<noteq> CHR ''}'') (drop 2 s)
      in if starts_with s ''{{'' \<and> body \<noteq> [] \<and> starts_with rest ''}}'' then Some (''{{'' @ body @ ''}}'', drop 2 rest) else None)"

lemma if_some_iff: "(if P then Some a else None) = Some b \<longleftrightarrow> P \<and> a = b"
  by simp

lemma delimited:
  assumes "prefix close (dropWhile P cs)" and "r = drop (length close) (dropWhile P cs)"
  shows "cs = takeWhile P cs @ close @ r"
proof -
  from assms have "dropWhile P cs = close @ r" by (auto simp: prefix_def)
  then show ?thesis by (metis takeWhile_dropWhile_id)
qed

lemma reference_at_Cons:
  "reference_at (c # cs) = Some (m, r) \<longleftrightarrow>
     (c = CHR ''<'' \<and> takeWhile (\<lambda>c. c \<noteq> CHR ''<'' \<and> c \<noteq> CHR ''>'') cs \<noteq> [] \<and>
      starts_with (dropWhile (\<lambda>c. c \<noteq> CHR ''<'' \<and> c \<noteq> CHR ''>'') cs) ''>'') \<and>
     (''<'' @ takeWhile (\<lambda>c. c \<noteq> CHR ''<'' \<and> c \<noteq> CHR ''>'') cs @ ''>'',
      tl (dropWhile (\<lambda>c. c \<noteq> CHR ''<'' \<and> c \<noteq> CHR ''>'') cs)) = (m, r)"
  unfolding reference_at_def Let_def list.case if_some_iff ..

lemma reference_at_split:
  assumes "reference_at s = Some (m, r)"
  shows "s = m @ r \<and> m \<noteq> []"
proof (cases s)
  case Nil
  with assms show ?thesis by (simp add: reference_at_def)
next
  case (Cons c cs)
  let ?P = "\<lambda>c. c \<noteq> CHR ''<'' \<and> c \<noteq> CHR ''>''"
  note a = assms [unfolded Cons reference_at_Cons starts_with_def prod.inject]
  have "cs = takeWhile ?P cs @ ''>'' @ r"
    by (rule delimited) (use a in \<open>simp_all add: drop_Suc\<close>)
  moreover have m: "''<'' @ takeWhile ?P cs @ ''>'' = m" and c: "c = CHR ''<''" using a by blast+
  ultimately have "s = m @ r" unfolding Cons m [symmetric] c by (metis append.assoc append_Cons append_Nil)
  then show ?thesis using m by blast
qed

lemma env_at_iff:
  "env_at s = Some (m, r) \<longleftrightarrow>
     (starts_with s ''{{'' \<and> takeWhile (\<lambda>c. c \<noteq> CHR ''{'' \<and> c \<noteq> CHR ''}'') (drop 2 s) \<noteq> [] \<and>
      starts_with (dropWhile (\<lambda>c. c \<noteq> CHR ''{'' \<and> c \<noteq> CHR ''}'') (drop 2 s)) ''}}'') \<and>
     (''{{'' @ takeWhile (\<lambda>c. c \<noteq> CHR ''{'' \<and> c \<noteq> CHR ''}'') (drop 2 s) @ ''}}'',
      drop 2 (dropWhile (\<lambda>c. c \<noteq> CHR ''{'' \<and> c \<noteq> CHR ''}'') (drop 2 s))) = (m, r)"
  unfolding env_at_def Let_def if_some_iff ..

lemma env_at_split:
  assumes "env_at s = Some (m, r)"
  shows "s = m @ r \<and> m \<noteq> []"
proof -
  let ?P = "\<lambda>c. c \<noteq> CHR ''{'' \<and> c \<noteq> CHR ''}''"
  note a = assms [unfolded env_at_iff starts_with_def prod.inject]
  have "drop 2 s = takeWhile ?P (drop 2 s) @ ''}}'' @ r"
    by (rule delimited) (use a in \<open>auto simp: numeral_2_eq_2\<close>)
  moreover have m: "''{{'' @ takeWhile ?P (drop 2 s) @ ''}}'' = m" and p: "prefix ''{{'' s" using a by blast+
  moreover from p obtain t where t: "s = ''{{'' @ t" unfolding prefix_def by blast
  moreover have "drop 2 s = t" unfolding t by simp
  ultimately have "s = m @ r" unfolding m [symmetric] by (metis append.assoc)
  then show ?thesis using m by blast
qed

locale scanner =
  fixes at :: "string \<Rightarrow> (string \<times> string) option"
  assumes at_split: "at s = Some (m, r) \<Longrightarrow> s = m @ r \<and> m \<noteq> []"
begin

lemma at_shorter: "at s = Some (m, r) \<Longrightarrow> length r < length s"
  using at_split by fastforce

end

interpretation reference_scanner: scanner reference_at
  by unfold_locales (rule reference_at_split)

interpretation env_scanner: scanner env_at
  by unfold_locales (rule env_at_split)

function reference_pieces :: "string \<Rightarrow> piece list" where
  "reference_pieces s =
     (case reference_at s of
        Some (m, r) \<Rightarrow> Hit m # reference_pieces r
      | None \<Rightarrow> (case s of [] \<Rightarrow> [] | c # cs \<Rightarrow> Char c # reference_pieces cs))"
  by pat_completeness auto
termination by (relation "measure length") (auto dest: reference_scanner.at_shorter)

function env_pieces :: "string \<Rightarrow> piece list" where
  "env_pieces s =
     (case env_at s of
        Some (m, r) \<Rightarrow> Hit m # env_pieces r
      | None \<Rightarrow> (case s of [] \<Rightarrow> [] | c # cs \<Rightarrow> Char c # env_pieces cs))"
  by pat_completeness auto
termination by (relation "measure length") (auto dest: env_scanner.at_shorter)

declare reference_pieces.simps [simp del] env_pieces.simps [simp del]

text \<open>Replacing the matches, left to right, each with its position; the first error stops.\<close>

fun replace_hits :: "(nat \<Rightarrow> string \<Rightarrow> 'e + string) \<Rightarrow> nat \<Rightarrow> piece list \<Rightarrow> 'e + string" where
  "replace_hits f i [] = Inr []"
| "replace_hits f i (Char c # ps) = map_sum id (\<lambda>t. c # t) (replace_hits f (Suc i) ps)"
| "replace_hits f i (Hit m # ps) =
     and_then (f i m) (\<lambda>t. map_sum id (\<lambda>u. t @ u) (replace_hits f (i + length m) ps))"

definition replaceValidReferencesAsync ::
  "string \<Rightarrow> (nat \<Rightarrow> string \<Rightarrow> 'e + string) \<Rightarrow> 'e + string" where
  "replaceValidReferencesAsync template replacer =
     replace_hits (\<lambda>i m. if isLikelyWorkflowReferenceSegment m then replacer i m else Inr m) 0 (reference_pieces template)"

definition replaceEnvVarsAsync :: "string \<Rightarrow> (string \<Rightarrow> 'e + string) \<Rightarrow> 'e + string" where
  "replaceEnvVarsAsync template replacer = replace_hits (\<lambda>_ m. replacer m) 0 (env_pieces template)"

section \<open>Formatting\<close>

text \<open>\<open>escapeInertStringContent\<close>: its replacements act on disjoint characters, the backslash first.\<close>

fun escapeInertStringContent :: "string \<Rightarrow> string" where
  "escapeInertStringContent [] = []"
| "escapeInertStringContent (c # cs) =
     (if c = CHR 0x5C \<or> c \<in> {CHR 0x27, CHR 0x22, CHR 0x60, CHR ''$'', CHR ''/''} then [CHR 0x5C, c] @ escapeInertStringContent cs
      else if c = CHR 0x0A then [CHR 0x5C, CHR ''n''] @ escapeInertStringContent cs
      else if c = CHR 0x0D then [CHR 0x5C, CHR ''r''] @ escapeInertStringContent cs
      else if c = CHR 0xE2 \<and> take 2 cs = [CHR 0x80, CHR 0xA8] then [CHR 0x5C] @ ''u2028'' @ escapeInertStringContent (drop 2 cs)
      else if c = CHR 0xE2 \<and> take 2 cs = [CHR 0x80, CHR 0xA9] then [CHR 0x5C] @ ''u2029'' @ escapeInertStringContent (drop 2 cs)
      else c # escapeInertStringContent cs)"

definition formatInertStringLiteral :: "string \<Rightarrow> char \<Rightarrow> string" where
  "formatInertStringLiteral v quote = [quote] @ escapeInertStringContent v @ [quote]"

definition formatLiteralForCode :: "('a) resolver_host_scheme \<Rightarrow> jval \<Rightarrow> bool \<Rightarrow> string" where
  "formatLiteralForCode h v python =
     (case v of
        JUndef \<Rightarrow> if python then ''None'' else ''undefined''
      | JNull \<Rightarrow> if python then ''None'' else ''null''
      | JBool b \<Rightarrow> if python then (if b then ''True'' else ''False'') else rs_string h v
      | JNum n \<Rightarrow> rs_string h v
      | JStr s \<Rightarrow> rs_json h v
      | _ \<Rightarrow> if python then ''json.loads('' @ rs_json h (JStr (rs_json h v)) @ '')'' else rs_json h v)"

definition stringifyForCondition :: "('a) resolver_host_scheme \<Rightarrow> jval \<Rightarrow> string" where
  "stringifyForCondition h v =
     (case v of
        JStr s \<Rightarrow> formatInertStringLiteral s (CHR 0x22)
      | JNull \<Rightarrow> ''null''
      | JUndef \<Rightarrow> ''undefined''
      | _ \<Rightarrow> if is_object v then rs_json h v else rs_string h v)"

definition formatValueForBlock :: "('a) resolver_host_scheme \<Rightarrow> jval \<Rightarrow> string option \<Rightarrow> string option \<Rightarrow> string" where
  "formatValueForBlock h v blockType language =
     (if blockType = Some ''condition'' then stringifyForCondition h v
      else if blockType = Some ''function'' then formatLiteralForCode h v (language = Some ''python'')
      else if blockType = Some ''response'' then
        (case v of JStr s \<Rightarrow> s | _ \<Rightarrow> if is_object v then rs_json h v else rs_string h v)
      else if is_object v then rs_json h v else rs_string h v)"

section \<open>Templates\<close>

definition env_text :: "resolver_host \<Rightarrow> sworkflow \<Rightarrow> resolution_context \<Rightarrow> string \<Rightarrow> resolve_error + string" where
  "env_text h flow x m =
     and_then (resolveReference h flow x m) (\<lambda>r. Inr (case r of Found (JStr s) \<Rightarrow> s | _ \<Rightarrow> m))"

definition block_language :: "sblock option \<Rightarrow> string option" where
  "block_language b =
     (case b of
        Some c \<Rightarrow>
          if blk_type c = Some ''function''
          then (case get_prop (blk_params c) ''language'' of JStr s \<Rightarrow> Some s | _ \<Rightarrow> None) else None
      | None \<Rightarrow> None)"

definition block_type :: "sblock option \<Rightarrow> string option" where
  "block_type b = (case b of None \<Rightarrow> None | Some c \<Rightarrow> blk_type c)"

definition reference_text ::
  "template_host \<Rightarrow> sworkflow \<Rightarrow> resolution_context \<Rightarrow> sblock option \<Rightarrow> string \<Rightarrow> resolve_error + string" where
  "reference_text h flow x b m =
     and_then (resolveReference (resolver_of h) flow x m) (\<lambda>r. Inr (case r of
        Found JUndef \<Rightarrow> m
      | ResolvedEmpty \<Rightarrow>
          if block_type b = Some ''function'' then formatValueForBlock h JNull (block_type b) (block_language b) else []
      | Found v \<Rightarrow> formatValueForBlock h v (block_type b) (block_language b)))"

definition resolveTemplate ::
  "template_host \<Rightarrow> sworkflow \<Rightarrow> resolution_context \<Rightarrow> sblock option \<Rightarrow> string \<Rightarrow> resolve_error + string" where
  "resolveTemplate h flow x b template =
     and_then (replaceValidReferencesAsync template (\<lambda>_. reference_text h flow x b)) (\<lambda>t.
       replaceEnvVarsAsync t (env_text (resolver_of h) flow x))"

subsection \<open>Conditions\<close>

definition is_blank :: "char \<Rightarrow> bool" where "is_blank c \<longleftrightarrow> c = CHR '' '' \<or> c = CHR 0x09"

definition exponent_ok :: "string \<Rightarrow> bool" where
  "exponent_ok s =
     (case s of
        [] \<Rightarrow> True
      | c # cs \<Rightarrow> (c = CHR ''e'' \<or> c = CHR ''E'') \<and>
          (case cs of
             d # ds \<Rightarrow> all_digits (if d = CHR ''+'' \<or> d = CHR ''-'' then ds else cs)
           | [] \<Rightarrow> False))"

definition number_ok :: "string \<Rightarrow> bool" where
  "number_ok s =
     (let t = (if starts_with s ''-'' then tl s else s); ds = takeWhile is_digit t; r = dropWhile is_digit t
      in if ds \<noteq> [] then exponent_ok (if starts_with r ''.'' then dropWhile is_digit (tl r) else r)
         else starts_with r ''.'' \<and> takeWhile is_digit (tl r) \<noteq> [] \<and> exponent_ok (dropWhile is_digit (tl r)))"

definition strip_blanks :: "string \<Rightarrow> string" where
  "strip_blanks s = rev (dropWhile is_blank (rev (dropWhile is_blank s)))"

definition isStructurallyInertConditionLiteral :: "string \<Rightarrow> bool" where
  "isStructurallyInertConditionLiteral s \<longleftrightarrow>
     strip_blanks s \<in> {''true'', ''false'', ''null''} \<or> number_ok (strip_blanks s)"

definition formatConditionJson :: "template_host \<Rightarrow> jval \<Rightarrow> string \<Rightarrow> nat \<Rightarrow> string" where
  "formatConditionJson h v template i =
     (let escaped = escapeInertStringContent (rs_json h v)
      in if getCodeStringQuoteContext template i (Some ''javascript'') \<noteq> None then escaped else ''JSON.parse('' @ [CHR 0x27] @ escaped @ [CHR 0x27] @ '')'')"

definition condition_text ::
  "template_host \<Rightarrow> sworkflow \<Rightarrow> resolution_context \<Rightarrow> string \<Rightarrow> nat \<Rightarrow> string \<Rightarrow> resolve_error + string" where
  "condition_text h flow x template i m =
     and_then (resolveReference (resolver_of h) flow x m) (\<lambda>r. Inr (case r of
        ResolvedEmpty \<Rightarrow> ''null''
      | Found v \<Rightarrow>
          (case v of
             JUndef \<Rightarrow> m
           | JStr s \<Rightarrow> formatInertStringLiteral s (CHR 0x27)
           | _ \<Rightarrow> if is_object v then formatConditionJson h v template i else rs_string h v)))"

definition condition_env_text :: "resolver_host \<Rightarrow> sworkflow \<Rightarrow> resolution_context \<Rightarrow> string \<Rightarrow> resolve_error + string" where
  "condition_env_text h flow x m =
     and_then (resolveReference h flow x m) (\<lambda>r. Inr (case r of
        Found (JStr s) \<Rightarrow> if isStructurallyInertConditionLiteral s then s else m
      | _ \<Rightarrow> m))"

definition resolveTemplateWithoutConditionFormatting ::
  "template_host \<Rightarrow> sworkflow \<Rightarrow> resolution_context \<Rightarrow> string \<Rightarrow> resolve_error + string" where
  "resolveTemplateWithoutConditionFormatting h flow x template =
     and_then (replaceValidReferencesAsync template (condition_text h flow x template)) (\<lambda>t.
       replaceEnvVarsAsync t (condition_env_text (resolver_of h) flow x))"

section \<open>Inputs\<close>

text \<open>\<open>resolveValue\<close>: every text inside a value is resolved.\<close>

fun resolveValue :: "template_host \<Rightarrow> sworkflow \<Rightarrow> resolution_context \<Rightarrow> sblock option \<Rightarrow> jval \<Rightarrow> resolve_error + jval"
  and resolve_items :: "template_host \<Rightarrow> sworkflow \<Rightarrow> resolution_context \<Rightarrow> sblock option \<Rightarrow> jval list \<Rightarrow> resolve_error + jval list"
  and resolve_entries :: "template_host \<Rightarrow> sworkflow \<Rightarrow> resolution_context \<Rightarrow> sblock option \<Rightarrow> (string \<times> jval) list \<Rightarrow>
     resolve_error + (string \<times> jval) list" where
  "resolveValue h flow x b (JArr xs) = map_sum id JArr (resolve_items h flow x b xs)"
| "resolveValue h flow x b (JObj f) = map_sum id JObj (resolve_entries h flow x b f)"
| "resolveValue h flow x b (JStr s) = map_sum id JStr (resolveTemplate h flow x b s)"
| "resolveValue h flow x b v = Inr v"
| "resolve_items h flow x b [] = Inr []"
| "resolve_items h flow x b (v # vs) =
     and_then (resolveValue h flow x b v) (\<lambda>u. map_sum id (\<lambda>us. u # us) (resolve_items h flow x b vs))"
| "resolve_entries h flow x b [] = Inr []"
| "resolve_entries h flow x b ((k, v) # kvs) =
     and_then (resolveValue h flow x b v) (\<lambda>u. map_sum id (\<lambda>us. (k, u) # us) (resolve_entries h flow x b kvs))"

definition canResolveInputToLargeValueRef :: "sblock option \<Rightarrow> string \<Rightarrow> bool" where
  "canResolveInputToLargeValueRef b key =
     (if block_type b = Some ''variables'' then key = ''variables''
      else if block_type b = Some ''response'' then key \<in> {''data'', ''builderData''} else False)"

definition node_context :: "world \<Rightarrow> string \<Rightarrow> loop_scope option \<Rightarrow> bool \<Rightarrow> resolution_context" where
  "node_context w node scope allow = \<lparr>rx_world = w, rx_node = node, rx_loopScope = scope, rx_allow = allow\<rparr>"

definition CONDITION_READS_ENVIRONMENT_KEY :: string where
  "CONDITION_READS_ENVIRONMENT_KEY = ''_readsEnvironmentVariables''"

text \<open>One condition of a condition block; its expression is resolved as code.\<close>

definition resolve_condition ::
  "template_host \<Rightarrow> sworkflow \<Rightarrow> resolution_context \<Rightarrow> jval \<Rightarrow> resolve_error + jval" where
  "resolve_condition h flow x c =
     (case c of
        JObj f \<Rightarrow>
          (case get_prop f ''value'' of
             JStr s \<Rightarrow>
               and_then (resolveTemplateWithoutConditionFormatting h flow x s) (\<lambda>t. Inr (JObj
                 (mput ''value'' (JStr t) (mput CONDITION_READS_ENVIRONMENT_KEY (JBool (readsEnvironmentMap s)) f))))
           | v \<Rightarrow> Inr (JObj (mput ''value'' v (mput CONDITION_READS_ENVIRONMENT_KEY (JBool False) f))))
      | JArr xs \<Rightarrow>
          Inr (JObj (map (\<lambda>(i, v). (show_nat i, v)) (enumerate 0 xs) @
                     [(CONDITION_READS_ENVIRONMENT_KEY, JBool False), (''value'', JUndef)]))
      | _ \<Rightarrow> Inr c)"

fun resolve_conditions ::
  "template_host \<Rightarrow> sworkflow \<Rightarrow> resolution_context \<Rightarrow> jval list \<Rightarrow> resolve_error + jval list" where
  "resolve_conditions h flow x [] = Inr []"
| "resolve_conditions h flow x (c # cs) =
     and_then (resolve_condition h flow x c) (\<lambda>u. map_sum id (\<lambda>us. u # us) (resolve_conditions h flow x cs))"

definition conditions_input :: "template_host \<Rightarrow> sworkflow \<Rightarrow> world \<Rightarrow> string \<Rightarrow> jobj \<Rightarrow> sblock option \<Rightarrow> resolve_error + jval" where
  "conditions_input h flow w node params b =
     (let c = (case get_prop params ''conditions'' of
                 JStr s \<Rightarrow> (case rs_parse h s of Some (JArr xs) \<Rightarrow> JArr xs | _ \<Rightarrow> JStr s)
               | v \<Rightarrow> v)
      in case c of
           JArr xs \<Rightarrow> map_sum id JArr (resolve_conditions h flow (node_context w node None False) xs)
         | _ \<Rightarrow> resolveValue h flow (node_context w node None False) b c)"

fun resolve_params ::
  "template_host \<Rightarrow> sworkflow \<Rightarrow> world \<Rightarrow> string \<Rightarrow> sblock option \<Rightarrow> jobj \<Rightarrow> resolve_error + jobj" where
  "resolve_params h flow w node b [] = Inr []"
| "resolve_params h flow w node b ((k, v) # kvs) =
     and_then (resolveValue h flow (node_context w node None (canResolveInputToLargeValueRef b k)) b v) (\<lambda>u.
       map_sum id (\<lambda>us. (k, u) # us) (resolve_params h flow w node b kvs))"

definition resolveInputs ::
  "template_host \<Rightarrow> sworkflow \<Rightarrow> world \<Rightarrow> string \<Rightarrow> jobj \<Rightarrow> sblock option \<Rightarrow> resolve_error + jobj" where
  "resolveInputs h flow w node params b =
     (if block_type b = Some ''condition''
      then and_then (conditions_input h flow w node params b) (\<lambda>c.
        map_sum id (\<lambda>rest. (''conditions'', c) # rest)
          (resolve_params h flow w node b (filter (\<lambda>(k, _). k \<noteq> ''conditions'') params)))
      else resolve_params h flow w node b params)"

section \<open>Collections\<close>

definition single_reference :: "string \<Rightarrow> bool" where
  "single_reference s \<longleftrightarrow>
     isReference s \<and> extractReferenceContent s \<noteq> [] \<and>
     list_all (\<lambda>c. c \<noteq> CHR ''<'' \<and> c \<noteq> CHR ''>'') (extractReferenceContent s)"

definition resolveSingleReference ::
  "template_host \<Rightarrow> sworkflow \<Rightarrow> world \<Rightarrow> string \<Rightarrow> string \<Rightarrow> loop_scope option \<Rightarrow> bool \<Rightarrow> resolve_error + jval" where
  "resolveSingleReference h flow w node reference scope allow =
     (if single_reference (js_trim reference)
      then and_then (resolveReference (resolver_of h) flow (node_context w node scope allow) (js_trim reference))
             (\<lambda>r. Inr (case r of Found v \<Rightarrow> v | ResolvedEmpty \<Rightarrow> JNull))
      else resolveValue h flow (node_context w node scope allow) None (JStr reference))"

fun join_commas :: "string list \<Rightarrow> string" where
  "join_commas [] = []"
| "join_commas [s] = s"
| "join_commas (s # ss) = s @ '', '' @ join_commas ss"

definition formatLargeValueSize :: "int \<Rightarrow> string" where
  "formatLargeValueSize bytes =
     (let tenths = (20 * bytes + 1048576) div 2097152 in show_int (tenths div 10) @ ''.'' @ show_int (tenths mod 10) @ '' MB'')"

definition error_text :: "resolve_error \<Rightarrow> string" where
  "error_text e =
     (case e of
        InvalidField blockName path available \<Rightarrow>
          [CHR 0x22] @ path @ [CHR 0x22] @ '' doesn'' @ [CHR 0x27] @ ''t exist on block '' @ [CHR 0x22] @ blockName @ [CHR 0x22] @
          ''. Available fields: '' @ (if available \<noteq> [] then join_commas available else ''none'')
      | TooLarge n \<Rightarrow> ''This execution value is too large to inline ('' @ formatLargeValueSize n @
          ''). Select a nested field or reduce the amount of data passed between blocks.''
      | HostError m \<Rightarrow> m)"

text \<open>A value that storage returns is normalized in turn; \<open>depth\<close> bounds how often.\<close>

fun normalizeCollectionValue :: "nat \<Rightarrow> template_host \<Rightarrow> jval \<Rightarrow> string + jval list" where
  "normalizeCollectionValue 0 h v = Inl ''Maximum call stack size exceeded''"
| "normalizeCollectionValue (Suc depth) h v =
     (case v of
        JArr xs \<Rightarrow> Inr xs
      | JObj f \<Rightarrow>
          if isLargeArrayManifest v then th_loadManifest h v
          else if isLargeValueRef v then
            (case vh_load (rs_values h) v of
               Inl e \<Rightarrow> Inl e
             | Inr JUndef \<Rightarrow> Inl ''Large execution value is unavailable.''
             | Inr u \<Rightarrow> normalizeCollectionValue depth h u)
          else if get_prop f LARGE_ARRAY_MANIFEST_MARKER = JBool True then Inl ''Invalid large array manifest.''
          else if get_prop f LARGE_VALUE_REF_MARKER = JBool True then Inl ''Invalid large value ref.''
          else Inr (entry_values f)
      | JNull \<Rightarrow> Inr []
      | _ \<Rightarrow> Inl ''Value did not resolve to an array or object'')"

definition resolveArrayInputAsync ::
  "nat \<Rightarrow> template_host \<Rightarrow> sworkflow \<Rightarrow> world \<Rightarrow> jval \<Rightarrow> string \<Rightarrow> string + jval list" where
  "resolveArrayInputAsync depth h flow w items node =
     (case items of
        JStr s \<Rightarrow>
          if starts_with s ''<'' \<and> ends_with s ''>'' then
            (case resolveSingleReference h flow w node s None True of
               Inl e \<Rightarrow> Inl (''Failed to resolve reference '' @ [CHR 0x22] @ s @ [CHR 0x22] @ '': '' @ error_text e)
             | Inr v \<Rightarrow> normalizeCollectionValue depth h v)
          else (case rs_parse h (double_quotes s) of
                  None \<Rightarrow> Inl (''Failed to parse items as JSON: '' @ [CHR 0x22] @ s @ [CHR 0x22])
                | Some v \<Rightarrow> normalizeCollectionValue depth h v)
      | JNull \<Rightarrow> Inr []
      | JArr xs \<Rightarrow> normalizeCollectionValue depth h items
      | JObj f \<Rightarrow> normalizeCollectionValue depth h items
      | _ \<Rightarrow>
          (case resolveInputs h flow w node [(''items'', items)] None of
             Inl e \<Rightarrow> Inl (''Failed to resolve items: '' @ error_text e)
           | Inr r \<Rightarrow> normalizeCollectionValue depth h (get_prop r ''items'')))"

text \<open>The environment of the orchestrators with the collections resolved by this model.\<close>

definition resolving_env :: "nat \<Rightarrow> template_host \<Rightarrow> sworkflow \<Rightarrow> exec_env \<Rightarrow> exec_env" where
  "resolving_env depth h flow env = env\<lparr>resolveArray := resolveArrayInputAsync depth h flow\<rparr>"

end
