(* ===== verification/FunctionInputs.thy ===== *)
theory FunctionInputs
  imports Templates
begin

text \<open>
  The inputs of a function block (\<open>variables/resolver.ts\<close>): in its code a reference becomes an expression that reads a
  variable of the run, to which the value is bound, so that values are not spliced into code.

  Parameters are the record \<open>function_host\<close>: the storage of large values and whether the run can be
  identified to it. The keys that a run may read from storage are not part of the model.
\<close>

record function_host = template_host +
  fh_identified :: bool
  fh_store :: "jval \<Rightarrow> jval option"

record code_state =
  cs_vars :: jobj
  cs_budget :: int
  cs_display :: string

definition FUNCTION_CONTEXT_INLINE_BUDGET_BYTES :: int where
  "FUNCTION_CONTEXT_INLINE_BUDGET_BYTES = 6 * 1024 * 1024"

definition context_var :: "nat \<Rightarrow> string" where
  "context_var n = ''__blockRef_'' @ show_nat n"

definition next_var :: "code_state \<Rightarrow> string" where
  "next_var st = context_var (length (cs_vars st))"

definition bind_var :: "string \<Rightarrow> jval \<Rightarrow> code_state \<Rightarrow> code_state" where
  "bind_var v value st = st\<lparr>cs_vars := mput v value (cs_vars st)\<rparr>"

definition show_code :: "string \<Rightarrow> code_state \<Rightarrow> code_state" where
  "show_code s st = st\<lparr>cs_display := cs_display st @ s\<rparr>"

section \<open>Files\<close>

text \<open>The reference to the file of which a reference asks for a part.\<close>

definition file_reference :: "string \<Rightarrow> string \<Rightarrow> string option" where
  "file_reference part r =
     (let parts = parseReferencePath r
      in if 3 \<le> length parts \<and> last parts = part then Some (''<'' @ join_dots (butlast parts) @ ''>'') else None)"

definition file_fields :: "resolved \<Rightarrow> jobj option" where
  "file_fields r =
     (case r of
        Found (JObj f) \<Rightarrow> if isUserFileWithMetadata (JObj f) \<and> get_prop f ''key'' \<noteq> JStr [] then Some f else None
      | _ \<Rightarrow> None)"

definition without_bytes :: "jobj \<Rightarrow> jobj" where
  "without_bytes f = filter (\<lambda>(k, _). k \<noteq> ''base64'') f"

definition SANDBOX_FILE_MOUNT_REF_MARKER :: string where
  "SANDBOX_FILE_MOUNT_REF_MARKER = ''__simSandboxFileMount''"

definition createSandboxFileMountRef :: "jobj \<Rightarrow> jval" where
  "createSandboxFileMountRef f = JObj [(SANDBOX_FILE_MOUNT_REF_MARKER, JBool True), (''version'', JNum 1), (''file'', JObj f)]"

definition isSandboxFileMountRef :: "jval \<Rightarrow> bool" where
  "isSandboxFileMountRef v =
     (case v of
        JObj f \<Rightarrow> get_prop f SANDBOX_FILE_MOUNT_REF_MARKER = JBool True \<and> get_prop f ''version'' = JNum 1 \<and>
          isUserFileWithMetadata (get_prop f ''file'')
      | _ \<Rightarrow> False)"

definition mounts_key :: "jval \<Rightarrow> jval \<Rightarrow> bool" where
  "mounts_key key v \<longleftrightarrow> isSandboxFileMountRef v \<and> var_field (var_field v ''file'') ''key'' = key"

definition resolveSandboxFilePathReference ::
  "function_host \<Rightarrow> sworkflow \<Rightarrow> resolution_context \<Rightarrow> string option \<Rightarrow> string \<Rightarrow> nat \<Rightarrow> string \<Rightarrow> code_state \<Rightarrow>
   resolve_error + (string \<times> code_state) option" where
  "resolveSandboxFilePathReference h flow x language t i r st =
     (case file_reference ''path'' r of
        None \<Rightarrow> Inr None
      | Some file \<Rightarrow>
          and_then (resolveReference (resolver_host.truncate h) flow x file) (\<lambda>v. Inr (case file_fields v of
            None \<Rightarrow> None
          | Some f \<Rightarrow>
              (case List.find (\<lambda>(_, u). mounts_key (get_prop f ''key'') u) (cs_vars st) of
                 Some (v, _) \<Rightarrow> Some (formatContextVariablePathReference v language t i, st)
               | None \<Rightarrow> Some (formatContextVariablePathReference (next_var st) language t i,
                              bind_var (next_var st) (createSandboxFileMountRef (without_bytes f)) st)))))"

definition resolveLazyFileBase64Reference ::
  "function_host \<Rightarrow> sworkflow \<Rightarrow> resolution_context \<Rightarrow> string option \<Rightarrow> string \<Rightarrow> nat \<Rightarrow> string \<Rightarrow> code_state \<Rightarrow>
   resolve_error + (string \<times> code_state) option" where
  "resolveLazyFileBase64Reference h flow x language t i r st =
     (case (if canUseJavaScriptRuntimeHelpers language t then file_reference ''base64'' r else None) of
        None \<Rightarrow> Inr None
      | Some file \<Rightarrow>
          and_then (resolveReference (resolver_host.truncate h) flow x file) (\<lambda>v. Inr (case file_fields v of
            None \<Rightarrow> None
          | Some f \<Rightarrow> Some (formatJavaScriptAsyncExpression (lazy_read ''sim.files.readBase64'' (next_var st)) t i False,
                           bind_var (next_var st) (JObj (without_bytes f)) st))))"

section \<open>Display\<close>

definition shell_escape :: "string \<Rightarrow> string" where
  "shell_escape s = concat (map (\<lambda>c. if c = CHR 0x22 \<or> c = CHR 0x5C \<or> c = CHR ''$'' \<or> c = CHR 0x60 then [CHR 0x5C, c] else [c]) s)"

definition stringifyShellDisplayValue :: "function_host \<Rightarrow> jval \<Rightarrow> string" where
  "stringifyShellDisplayValue h v =
     (case v of
        JNull \<Rightarrow> [] | JUndef \<Rightarrow> [] | JStr s \<Rightarrow> s | JNum n \<Rightarrow> rs_string h v | JBool b \<Rightarrow> rs_string h v
      | _ \<Rightarrow> rs_json h v)"

definition formatShellDisplayValue :: "function_host \<Rightarrow> jval \<Rightarrow> string \<Rightarrow> nat \<Rightarrow> string" where
  "formatShellDisplayValue h v t i =
     (let text = shell_escape (stringifyShellDisplayValue h v)
      in if getShellQuoteContext t i = Some DoubleContext then text else [CHR 0x22] @ text @ [CHR 0x22])"

definition middle_dot :: string where "middle_dot = '' '' @ [CHR 0xC2, CHR 0xB7] @ '' ''"

definition formatDisplayValueForCodeContext :: "function_host \<Rightarrow> jval \<Rightarrow> string option \<Rightarrow> string \<Rightarrow> nat \<Rightarrow> string" where
  "formatDisplayValueForCodeContext h v language t i =
     (if isLargeValueRef v then
        ''/* large '' @ rs_string h (var_field v ''kind'') @ middle_dot @ formatLargeValueSize (ref_size v) @
        '', fetched at runtime */''
      else if isLargeArrayManifest v then
        ''/* large array'' @ middle_dot @ rs_string h (var_field v ''totalCount'') @ '' items'' @ middle_dot @
        formatLargeValueSize (case var_field v ''byteSize'' of JNum n \<Rightarrow> n | _ \<Rightarrow> 0) @ '', fetched at runtime */''
      else if language = Some ''shell'' then formatShellDisplayValue h v t i
      else formatValueForBlock h v (Some ''function'') language)"

section \<open>Code\<close>

definition nested_large_value :: resolve_error where
  "nested_large_value = HostError (''This execution value contains nested large values. Reference the nested field '' @
     ''directly so it can be lazy-loaded.'')"

text \<open>The reference under which a value that exceeds the budget is stored, or none.\<close>

definition maybeOffloadInlineFunctionContextValue ::
  "function_host \<Rightarrow> jval \<Rightarrow> string option \<Rightarrow> string \<Rightarrow> code_state \<Rightarrow> jval option \<times> code_state" where
  "maybeOffloadInlineFunctionContextValue h v language t st =
     (if \<not> canUseJavaScriptRuntimeHelpers language t \<or> \<not> fh_identified h \<or> v = JUndef then (None, st)
      else let footprint = int (length (rs_json h v)) * 2
           in if footprint \<le> cs_budget st then (None, st\<lparr>cs_budget := cs_budget st - footprint\<rparr>)
              else (fh_store h v, st))"

text \<open>A string stays in the code only when it holds a placeholder and nothing that closes a string.\<close>

definition closes_string :: "char \<Rightarrow> bool" where
  "closes_string c \<longleftrightarrow> c \<in> {CHR 0x27, CHR 0x22, CHR 0x60, CHR ''$'', CHR 0x5C, CHR 0x0A, CHR 0x0D}"

fun has_line_separator :: "string \<Rightarrow> bool" where
  "has_line_separator (c # d # e # s) =
     (c = CHR 0xE2 \<and> d = CHR 0x80 \<and> (e = CHR 0xA8 \<or> e = CHR 0xA9) \<or> has_line_separator (d # e # s))"
| "has_line_separator _ = False"

definition canInlineResolvedCodeLiteral :: "jval \<Rightarrow> string \<Rightarrow> bool" where
  "canInlineResolvedCodeLiteral v r =
     (case v of
        JNull \<Rightarrow> True
      | JNum n \<Rightarrow> True
      | JBool b \<Rightarrow> True
      | JStr s \<Rightarrow> hd (parseReferencePath r) = VARIABLE_REF \<and>
          list_ex (\<lambda>p. case p of Hit _ \<Rightarrow> True | Char _ \<Rightarrow> False) (env_pieces s) \<and>
          \<not> list_ex closes_string s \<and> \<not> has_line_separator s
      | _ \<Rightarrow> False)"

definition shown :: "function_host \<Rightarrow> string option \<Rightarrow> string \<Rightarrow> nat \<Rightarrow> jval \<Rightarrow> code_state \<Rightarrow> code_state" where
  "shown h language t i v st = show_code (formatDisplayValueForCodeContext h v language t i) st"

text \<open>A value that is bound as it is.\<close>

definition bound_value ::
  "function_host \<Rightarrow> string option \<Rightarrow> string \<Rightarrow> nat \<Rightarrow> jval \<Rightarrow> code_state \<Rightarrow> string \<times> code_state" where
  "bound_value h language t i v st =
     (formatContextVariableReference (next_var st) language t i v, shown h language t i v (bind_var (next_var st) v st))"

text \<open>A reference into storage or a manifest, which the code reads when it runs.\<close>

definition bound_large ::
  "function_host \<Rightarrow> string option \<Rightarrow> string \<Rightarrow> nat \<Rightarrow> jval \<Rightarrow> code_state \<Rightarrow> resolve_error + (string \<times> code_state)" where
  "bound_large h language t i v st =
     (if isLargeValueRef v then
        (case formatLazyLargeValueReference (next_var st) language t i of
           None \<Rightarrow> Inl (TooLarge (ref_size v))
         | Some s \<Rightarrow> Inr (s, shown h language t i v (bind_var (next_var st) v st)))
      else
        (case formatLazyLargeArrayManifestReference (next_var st) language t i of
           None \<Rightarrow> Inl nested_large_value
         | Some s \<Rightarrow> Inr (s, shown h language t i v (bind_var (next_var st) v st))))"

definition block_code ::
  "function_host \<Rightarrow> string option \<Rightarrow> string \<Rightarrow> nat \<Rightarrow> jval \<Rightarrow> code_state \<Rightarrow> resolve_error + (string \<times> code_state)" where
  "block_code h language t i v st =
     (if isLargeValueRef v \<or> isLargeArrayManifest v then bound_large h language t i v st
      else if containsLargeValueRef v \<noteq> None then Inl nested_large_value
      else (case maybeOffloadInlineFunctionContextValue h v language t st of
              (None, st1) \<Rightarrow> Inr (bound_value h language t i v st1)
            | (Some ref, st1) \<Rightarrow>
                Inr ((case formatLazyLargeValueReference (next_var st1) language t i of
                        Some s \<Rightarrow> s
                      | None \<Rightarrow> formatContextVariableReference (next_var st1) language t i v),
                     shown h language t i ref (bind_var (next_var st1) ref st1))))"

definition other_code ::
  "function_host \<Rightarrow> string option \<Rightarrow> string \<Rightarrow> nat \<Rightarrow> string \<Rightarrow> jval \<Rightarrow> code_state \<Rightarrow> resolve_error + (string \<times> code_state)" where
  "other_code h language t i r v st =
     (if isLargeValueRef v \<or> isLargeArrayManifest v then bound_large h language t i v st
      else if containsLargeValueRef v \<noteq> None then Inl nested_large_value
      else if canInlineResolvedCodeLiteral v r
      then (let s = formatValueForBlock h v (Some ''function'') language in Inr (s, show_code s st))
      else Inr (bound_value h language t i v st))"

definition code_value ::
  "function_host \<Rightarrow> string option \<Rightarrow> string \<Rightarrow> nat \<Rightarrow> string \<Rightarrow> resolved \<Rightarrow> code_state \<Rightarrow> resolve_error + (string \<times> code_state)" where
  "code_value h language t i r res st =
     (if res = Found JUndef then Inr (r, show_code r st)
      else let v = (case res of Found u \<Rightarrow> u | ResolvedEmpty \<Rightarrow> JNull)
           in if canResolveBlock r then block_code h language t i v st else other_code h language t i r v st)"

definition code_reference ::
  "function_host \<Rightarrow> sworkflow \<Rightarrow> resolution_context \<Rightarrow> string option \<Rightarrow> string \<Rightarrow> nat \<Rightarrow> string \<Rightarrow> code_state \<Rightarrow>
   resolve_error + (string \<times> code_state)" where
  "code_reference h flow x language t i r st =
     and_then (resolveSandboxFilePathReference h flow x language t i r st) (\<lambda>path. case path of
       Some (s, st1) \<Rightarrow> Inr (s, show_code r st1)
     | None \<Rightarrow>
         and_then (resolveLazyFileBase64Reference h flow x language t i r st) (\<lambda>bytes. case bytes of
           Some (s, st1) \<Rightarrow> Inr (s, show_code r st1)
         | None \<Rightarrow>
             and_then (resolveReference (resolver_host.truncate h) flow x r) (\<lambda>res. code_value h language t i r res st)))"

fun code_pieces ::
  "function_host \<Rightarrow> sworkflow \<Rightarrow> resolution_context \<Rightarrow> string option \<Rightarrow> string \<Rightarrow> nat \<Rightarrow> piece list \<Rightarrow> code_state \<Rightarrow>
   resolve_error + (string \<times> code_state)" where
  "code_pieces h flow x language t i [] st = Inr ([], st)"
| "code_pieces h flow x language t i (Char c # ps) st =
     map_sum id (\<lambda>(s, st1). (c # s, st1)) (code_pieces h flow x language t (Suc i) ps (show_code [c] st))"
| "code_pieces h flow x language t i (Hit m # ps) st =
     and_then (if isLikelyWorkflowReferenceSegment m then code_reference h flow x language t i m st
               else Inr (m, show_code m st))
       (\<lambda>(u, st1). map_sum id (\<lambda>(s, st2). (u @ s, st2)) (code_pieces h flow x language t (i + length m) ps st1))"

definition resolveCodeWithContextVars ::
  "function_host \<Rightarrow> sworkflow \<Rightarrow> world \<Rightarrow> string \<Rightarrow> string option \<Rightarrow> string \<Rightarrow> code_state \<Rightarrow> resolve_error + (string \<times> code_state)" where
  "resolveCodeWithContextVars h flow w node language t st =
     code_pieces h flow (node_context w node None True) language t 0 (reference_pieces t) (st\<lparr>cs_display := []\<rparr>)"

section \<open>Inputs\<close>

fun code_items ::
  "function_host \<Rightarrow> sworkflow \<Rightarrow> world \<Rightarrow> string \<Rightarrow> string option \<Rightarrow> jval list \<Rightarrow> code_state \<Rightarrow>
   resolve_error + (jval list \<times> jval list \<times> code_state)" where
  "code_items h flow w node language [] st = Inr ([], [], st)"
| "code_items h flow w node language (v # vs) st =
     (case v of
        JObj f \<Rightarrow>
          (case get_prop f ''content'' of
             JStr s \<Rightarrow>
               and_then (resolveCodeWithContextVars h flow w node language s st) (\<lambda>(code, st1).
                 map_sum id (\<lambda>(rs, ds, st2). (JObj (mput ''content'' (JStr code) f) # rs,
                                            JObj (mput ''content'' (JStr (cs_display st1)) f) # ds, st2))
                   (code_items h flow w node language vs st1))
           | _ \<Rightarrow> map_sum id (\<lambda>(rs, ds, st2). (v # rs, v # ds, st2)) (code_items h flow w node language vs st))
      | _ \<Rightarrow> map_sum id (\<lambda>(rs, ds, st2). (v # rs, v # ds, st2)) (code_items h flow w node language vs st))"

text \<open>One input: what the block runs with, what is shown, and the state after it.\<close>

definition function_input ::
  "function_host \<Rightarrow> sworkflow \<Rightarrow> world \<Rightarrow> string \<Rightarrow> sblock \<Rightarrow> string \<Rightarrow> jval \<Rightarrow> code_state \<Rightarrow>
   resolve_error + (jval \<times> jval \<times> code_state)" where
  "function_input h flow w node b key value st =
     (let language = (case get_prop (blk_params b) ''language'' of JStr s \<Rightarrow> Some s | _ \<Rightarrow> None);
          plain = and_then (resolveValue (template_host.truncate h) flow (node_context w node None False) (Some b) value)
                    (\<lambda>v. Inr (v, v, st))
      in if key \<noteq> ''code'' then plain
         else case value of
                JStr s \<Rightarrow> and_then (resolveCodeWithContextVars h flow w node language s st)
                            (\<lambda>(code, st1). Inr (JStr code, JStr (cs_display st1), st1))
              | JArr vs \<Rightarrow> map_sum id (\<lambda>(rs, ds, st1). (JArr rs, JArr ds, st1)) (code_items h flow w node language vs st)
              | _ \<Rightarrow> plain)"

fun function_inputs ::
  "function_host \<Rightarrow> sworkflow \<Rightarrow> world \<Rightarrow> string \<Rightarrow> sblock \<Rightarrow> jobj \<Rightarrow> code_state \<Rightarrow>
   resolve_error + (jobj \<times> jobj \<times> code_state)" where
  "function_inputs h flow w node b [] st = Inr ([], [], st)"
| "function_inputs h flow w node b ((k, v) # kvs) st =
     and_then (function_input h flow w node b k v st) (\<lambda>(r, d, st1).
       map_sum id (\<lambda>(rs, ds, st2). ((k, r) # rs, (k, d) # ds, st2)) (function_inputs h flow w node b kvs st1))"

definition code_start :: code_state where
  "code_start = \<lparr>cs_vars = [], cs_budget = FUNCTION_CONTEXT_INLINE_BUDGET_BYTES, cs_display = []\<rparr>"

text \<open>The inputs, what is shown of them, and the variables of the run.\<close>

definition resolveInputsForFunctionBlock ::
  "function_host \<Rightarrow> sworkflow \<Rightarrow> world \<Rightarrow> string \<Rightarrow> jobj \<Rightarrow> sblock \<Rightarrow> resolve_error + (jobj \<times> jobj \<times> jobj)" where
  "resolveInputsForFunctionBlock h flow w node params b =
     map_sum id (\<lambda>(rs, ds, st). (rs, ds, cs_vars st)) (function_inputs h flow w node b params code_start)"

end
