(* ===== verification/ReferenceDemo.thy ===== *)
theory ReferenceDemo
  imports FunctionInputs
begin

text \<open>Concrete hosts, workflows and worlds on which the results about references are applied.\<close>

text \<open>\<open>JSON.stringify\<close> and \<open>String\<close> on values whose strings need no escapes.\<close>

fun demo_json :: "jval \<Rightarrow> string" and json_items :: "jval list \<Rightarrow> string" and json_entries :: "(string \<times> jval) list \<Rightarrow> string" where
  "demo_json JUndef = []"
| "demo_json JNull = ''null''"
| "demo_json (JBool b) = (if b then ''true'' else ''false'')"
| "demo_json (JNum n) = show_int n"
| "demo_json (JStr s) = [CHR 0x22] @ s @ [CHR 0x22]"
| "demo_json (JArr xs) = ''['' @ json_items xs @ '']''"
| "demo_json (JObj f) = ''{'' @ json_entries f @ ''}''"
| "json_items [] = []"
| "json_items [v] = demo_json v"
| "json_items (v # vs) = demo_json v @ '','' @ json_items vs"
| "json_entries [] = []"
| "json_entries [(k, v)] = [CHR 0x22] @ k @ [CHR 0x22] @ '':'' @ demo_json v"
| "json_entries ((k, v) # kvs) = [CHR 0x22] @ k @ [CHR 0x22] @ '':'' @ demo_json v @ '','' @ json_entries kvs"

definition demo_string :: "jval \<Rightarrow> string" where
  "demo_string v = (case v of JStr s \<Rightarrow> s | JUndef \<Rightarrow> ''undefined'' | _ \<Rightarrow> demo_json v)"

definition demo_values :: value_host where
  "demo_values = \<lparr>vh_load = \<lambda>_. Inr JUndef, vh_cached = \<lambda>_. JUndef, vh_slice = \<lambda>_ _. Inr JUndef,
     vh_base64 = \<lambda>_. Inl ''no bytes'', vh_inherited = \<lambda>_ _. JUndef\<rparr>"

definition demo_variable :: "string \<Rightarrow> jval \<Rightarrow> string \<times> jval" where
  "demo_variable n v = (n, JObj [(''id'', JStr n), (''name'', JStr n), 
     (''type'', JStr (case v of JNum _ \<Rightarrow> ''number'' | _ \<Rightarrow> ''plain'')), (''value'', v)])"

definition demo_resolver :: "jobj \<Rightarrow> (string, string) jsmap \<Rightarrow> resolver_host" where
  "demo_resolver vars env = \<lparr>rs_values = demo_values, rs_schema = \<lambda>_. None, rs_variables = vars, rs_env = env,
     rs_parse = \<lambda>_. None, rs_json = demo_json, rs_number = \<lambda>_. None, rs_string = demo_string\<rparr>"

definition demo_templates :: "jobj \<Rightarrow> (string, string) jsmap \<Rightarrow> template_host" where
  "demo_templates vars env = resolver_host.extend (demo_resolver vars env) \<lparr>th_loadManifest = \<lambda>_. Inl ''no storage''\<rparr>"

definition demo_functions :: "jobj \<Rightarrow> (string, string) jsmap \<Rightarrow> function_host" where
  "demo_functions vars env = template_host.extend (demo_templates vars env) \<lparr>fh_identified = False, fh_store = \<lambda>_. None\<rparr>"

lemmas demo_hosts = demo_resolver_def demo_templates_def demo_functions_def

definition quiet_world :: world where
  "quiet_world = \<lparr>w_em = \<lparr>em_dag = \<lparr>dag_nodes = [], loopConfigs = [], parallelConfigs = []\<rparr>, deactivatedEdges = [],
       nodesWithActivatedEdge = []\<rparr>,
     w_state = \<lparr>blockStates = [], executedBlocks = []\<rparr>, w_loops = [], w_parallels = [], w_parents = [],
     w_mapping = [], w_dirty = None\<rparr>"

definition empty_flow :: sworkflow where
  "empty_flow = \<lparr>wf_blocks = [], wf_connections = [], wf_loops = [], wf_parallels = []\<rparr>"

text \<open>A block \<open>Fetch\<close> that has stored a text of someone else.\<close>

definition fetch_flow :: sworkflow where
  "fetch_flow = empty_flow\<lparr>wf_blocks := [(demo_block ''b1'' ''api'' True)\<lparr>blk_name := Some ''Fetch''\<rparr>]\<rparr>"

definition fetched :: "string \<Rightarrow> world" where
  "fetched text = quiet_world\<lparr>w_state := setBlockOutput False ''b1'' [(''text'', JStr text)] 0 None (w_state quiet_world)\<rparr>"

end
