(* ===== verification/TemplateProps.thy ===== *)
theory TemplateProps
  imports ReferenceDemo
begin

text \<open>
  What resolution guarantees: a text keeps everything but its references, the strings that are spliced into
  an expression are read back as data, and where that fails.
\<close>

section \<open>Templates\<close>

primrec piece_text :: "piece \<Rightarrow> string" where
  "piece_text (Char c) = [c]"
| "piece_text (Hit m) = m"

context scanner
begin

lemma splits_text:
  assumes pieces: "\<And>s. pieces s =
    (case at s of Some (m, r) \<Rightarrow> Hit m # pieces r | None \<Rightarrow> (case s of [] \<Rightarrow> [] | c # cs \<Rightarrow> Char c # pieces cs))"
  shows "concat (map piece_text (pieces s)) = s"
proof (induction s rule: length_induct)
  case (1 s)
  show ?case
  proof (cases "at s")
    case None
    then have "pieces s = (case s of [] \<Rightarrow> [] | c # cs \<Rightarrow> Char c # pieces cs)" by (simp add: pieces [of s])
    with 1 show ?thesis by (cases s) simp_all
  next
    case (Some a)
    obtain m r where "at s = Some (m, r)" using Some by (cases a) auto
    then have "pieces s = Hit m # pieces r" by (simp add: pieces [of s])
    with 1 \<open>at s = Some (m, r)\<close> show ?thesis using at_shorter [of s m r] at_split [of s m r] by simp
  qed
qed

end

lemma pieces_text: "concat (map piece_text (reference_pieces s)) = s"
  by (rule reference_scanner.splits_text) (rule reference_pieces.simps)

lemma env_pieces_text: "concat (map piece_text (env_pieces s)) = s"
  by (rule env_scanner.splits_text) (rule env_pieces.simps)

section \<open>Strings in expressions\<close>

text \<open>How the language reads a string: from behind the opening quote up to the closing one. The value,
  and what follows. Escapes that no operation here writes are not read.\<close>

datatype js_quote = SingleQuote | DoubleQuote | Backtick

primrec quote_char :: "js_quote \<Rightarrow> char" where
  "quote_char SingleQuote = CHR 0x27"
| "quote_char DoubleQuote = CHR 0x22"
| "quote_char Backtick = CHR 0x60"

fun read_escape :: "string \<Rightarrow> (string \<times> string) option" where
  "read_escape [] = None"
| "read_escape (c # cs) =
     (if c = CHR ''n'' then Some ([CHR 0x0A], cs)
      else if c = CHR ''r'' then Some ([CHR 0x0D], cs)
      else if c = CHR ''u'' then
        (if take 4 cs = ''2028'' then Some ([CHR 0xE2, CHR 0x80, CHR 0xA8], drop 4 cs)
         else if take 4 cs = ''2029'' then Some ([CHR 0xE2, CHR 0x80, CHR 0xA9], drop 4 cs) else None)
      else if c \<in> set ''bfvtx0123456789'' \<or> c = CHR 0x0A \<or> c = CHR 0x0D then None
      else Some ([c], cs))"

lemma read_escape_shorter: "read_escape s = Some (t, r) \<Longrightarrow> length r < length s"
  by (cases s) (auto split: if_splits)

function read_string :: "js_quote \<Rightarrow> string \<Rightarrow> (string \<times> string) option" where
  "read_string q [] = None"
| "read_string q (c # cs) =
     (if c = quote_char q then Some ([], cs)
      else if c = CHR 0x5C
      then (case read_escape cs of None \<Rightarrow> None | Some (t, r) \<Rightarrow> map_option (\<lambda>(u, z). (t @ u, z)) (read_string q r))
      else if c = CHR 0x0A \<or> c = CHR 0x0D \<or> (q = Backtick \<and> c = CHR ''$'' \<and> starts_with cs ''{'') then None
      else map_option (\<lambda>(u, z). (c # u, z)) (read_string q cs))"
  by pat_completeness auto
termination by (relation "measure (\<lambda>(q, s). length s)") (auto dest: read_escape_shorter)

lemma quote_not_backslash: "CHR 0x5C \<noteq> quote_char q" by (cases q) simp_all

lemma map_prepend: "map_option (\<lambda>(u, r). ((a @ b) @ u, r)) z = map_option (\<lambda>(u, r). (a @ u, r)) (map_option (\<lambda>(u, r). (b @ u, r)) z)"
  by (cases z) auto

lemma read_backslash:
  "read_escape s = Some (t, r) \<Longrightarrow>
   read_string q (CHR 0x5C # s) = map_option (\<lambda>(u, z). (t @ u, z)) (read_string q r)"
  using quote_not_backslash [of q] by simp

text \<open>The characters that are escaped by a backslash.\<close>

definition backslashed :: "char \<Rightarrow> bool" where
  "backslashed c \<longleftrightarrow> c \<in> {CHR 0x5C, CHR 0x27, CHR 0x22, CHR 0x60, CHR ''$'', CHR ''/''}"

lemma read_plain:
  assumes "\<not> backslashed c" "c \<noteq> CHR 0x0A" "c \<noteq> CHR 0x0D"
  shows "read_string q (c # s) = map_option (\<lambda>(u, z). (c # u, z)) (read_string q s)"
proof -
  have "c \<noteq> quote_char q" "c \<noteq> CHR 0x5C" "c \<noteq> CHR ''$''"
    using assms(1) unfolding backslashed_def by (cases q; auto)+
  with assms(2,3) show ?thesis unfolding read_string.simps(2) by (simp only: if_False simp_thms)
qed

lemma escape_plain:
  assumes "\<not> backslashed c" "c \<noteq> CHR 0x0A" "c \<noteq> CHR 0x0D" "\<not> (c = CHR 0xE2 \<and> take 2 cs = [CHR 0x80, CHR 0xA8])"
    "\<not> (c = CHR 0xE2 \<and> take 2 cs = [CHR 0x80, CHR 0xA9])"
  shows "escapeInertStringContent (c # cs) = c # escapeInertStringContent cs"
proof -
  have "\<not> (c = CHR 0x5C \<or> c \<in> {CHR 0x27, CHR 0x22, CHR 0x60, CHR ''$'', CHR ''/''})"
    using assms(1) unfolding backslashed_def by blast
  with assms(2-5) show ?thesis unfolding escapeInertStringContent.simps(2) by (simp only: if_False simp_thms)
qed

text \<open>One escaped character, and how it is read.\<close>

lemma read_special:
  assumes "backslashed c"
  shows "escapeInertStringContent (c # cs) = [CHR 0x5C, c] @ escapeInertStringContent cs" "read_escape (c # s) = Some ([c], s)"
  using assms unfolding backslashed_def by (elim insertE emptyE; simp)+

lemma escape_line:
  "escapeInertStringContent (CHR 0x0A # cs) = [CHR 0x5C, CHR ''n''] @ escapeInertStringContent cs"
  "escapeInertStringContent (CHR 0x0D # cs) = [CHR 0x5C, CHR ''r''] @ escapeInertStringContent cs"
  "escapeInertStringContent ([CHR 0xE2, CHR 0x80, CHR 0xA8] @ cs) = [CHR 0x5C] @ ''u2028'' @ escapeInertStringContent cs"
  "escapeInertStringContent ([CHR 0xE2, CHR 0x80, CHR 0xA9] @ cs) = [CHR 0x5C] @ ''u2029'' @ escapeInertStringContent cs"
  by simp_all

lemma read_line:
  "read_escape (''n'' @ s) = Some ([CHR 0x0A], s)" "read_escape (''r'' @ s) = Some ([CHR 0x0D], s)"
  "read_escape (''u2028'' @ s) = Some ([CHR 0xE2, CHR 0x80, CHR 0xA8], s)"
  "read_escape (''u2029'' @ s) = Some ([CHR 0xE2, CHR 0x80, CHR 0xA9], s)"
  by simp_all

lemma prepend_escaped:
  assumes "read_string q (t @ s) = map_option (\<lambda>(u, r). (v @ u, r)) z"
    and "read_escape (e @ t @ s) = Some (w, t @ s)"
  shows "read_string q (([CHR 0x5C] @ e @ t) @ s) = map_option (\<lambda>(u, r). ((w @ v) @ u, r)) z"
proof -
  have "read_string q (CHR 0x5C # e @ t @ s) = map_option (\<lambda>(u, z). (w @ u, z)) (read_string q (t @ s))"
    by (rule read_backslash [OF assms(2)])
  then show ?thesis unfolding assms(1) map_prepend by (simp only: append.simps append_assoc)
qed

lemma escaped_step:
  assumes "escapeInertStringContent v = [CHR 0x5C] @ e @ escapeInertStringContent r" and "v = w @ r"
    and "\<And>t. read_escape (e @ t) = Some (w, t)"
    and "read_string q (escapeInertStringContent r @ s) = map_option (\<lambda>(u, z). (r @ u, z)) (read_string q s)"
  shows "read_string q (escapeInertStringContent v @ s) = map_option (\<lambda>(u, z). (v @ u, z)) (read_string q s)"
proof -
  have "read_string q (escapeInertStringContent v @ s) = map_option (\<lambda>(u, z). ((w @ r) @ u, z)) (read_string q s)"
    unfolding assms(1) by (rule prepend_escaped [OF assms(4) assms(3)])
  then show ?thesis by (simp only: assms(2) [symmetric])
qed

lemma read_escaped:
  "read_string q (escapeInertStringContent v @ s) = map_option (\<lambda>(u, r). (v @ u, r)) (read_string q s)"
proof (induction v rule: length_induct)
  case (1 v)
  show ?case
  proof (cases v)
    case Nil
    show ?thesis unfolding Nil by (cases "read_string q s") auto
  next
    case (Cons c cs)
    have ih: "length w < length v \<Longrightarrow>
        read_string q (escapeInertStringContent w @ s) = map_option (\<lambda>(u, r). (w @ u, r)) (read_string q s)" for w
      using 1 by blast
    have split: "v = c # t @ drop 2 cs" if "take 2 cs = t" for t
      using that Cons by (metis append_take_drop_id)
    consider (esc) "backslashed c" | (nl) "c = CHR 0x0A" | (cr) "c = CHR 0x0D"
      | (ls) "c = CHR 0xE2" "take 2 cs = [CHR 0x80, CHR 0xA8]" | (ps) "c = CHR 0xE2" "take 2 cs = [CHR 0x80, CHR 0xA9]"
      | (plain) "\<not> backslashed c" "c \<noteq> CHR 0x0A" "c \<noteq> CHR 0x0D"
          "\<not> (c = CHR 0xE2 \<and> take 2 cs = [CHR 0x80, CHR 0xA8])" "\<not> (c = CHR 0xE2 \<and> take 2 cs = [CHR 0x80, CHR 0xA9])"
      by blast
    then show ?thesis
    proof cases
      case esc
      show ?thesis
      proof (rule escaped_step)
        show "escapeInertStringContent v = [CHR 0x5C] @ [c] @ escapeInertStringContent cs"
          unfolding Cons read_special(1) [OF esc] by (simp only: append.simps)
        show "v = [c] @ cs" using Cons by (simp only: append.simps)
        show "read_escape ([c] @ t) = Some ([c], t)" for t using read_special(2) [OF esc] by (simp only: append.simps)
      qed (rule ih, simp add: Cons)
    next
      case nl
      show ?thesis
      proof (rule escaped_step)
        show "escapeInertStringContent v = [CHR 0x5C] @ ''n'' @ escapeInertStringContent cs"
          unfolding Cons nl escape_line by (simp only: append.simps)
        show "v = [CHR 0x0A] @ cs" using Cons nl by (simp only: append.simps)
      qed (rule read_line, rule ih, simp add: Cons)
    next
      case cr
      show ?thesis
      proof (rule escaped_step)
        show "escapeInertStringContent v = [CHR 0x5C] @ ''r'' @ escapeInertStringContent cs"
          unfolding Cons cr escape_line by (simp only: append.simps)
        show "v = [CHR 0x0D] @ cs" using Cons cr by (simp only: append.simps)
      qed (rule read_line, rule ih, simp add: Cons)
    next
      case ls
      have v: "v = [CHR 0xE2, CHR 0x80, CHR 0xA8] @ drop 2 cs" using split [OF ls(2)] ls(1) by simp
      show ?thesis
        by (rule escaped_step [OF _ v]) (simp only: v escape_line, rule read_line, rule ih, simp add: Cons)
    next
      case ps
      have v: "v = [CHR 0xE2, CHR 0x80, CHR 0xA9] @ drop 2 cs" using split [OF ps(2)] ps(1) by simp
      show ?thesis
        by (rule escaped_step [OF _ v]) (simp only: v escape_line, rule read_line, rule ih, simp add: Cons)
    next
      case plain
      have e: "escapeInertStringContent v = c # escapeInertStringContent cs"
        unfolding Cons by (rule escape_plain [OF plain])
      have "read_string q (c # escapeInertStringContent cs @ s) =
          map_option (\<lambda>(u, z). (c # u, z)) (map_option (\<lambda>(u, r). (cs @ u, r)) (read_string q s))"
        unfolding read_plain [OF plain(1-3)] by (subst ih) (simp_all add: Cons)
      also have "\<dots> = map_option (\<lambda>(u, r). (v @ u, r)) (read_string q s)"
        unfolding Cons by (cases "read_string q s") auto
      finally show ?thesis unfolding e by (simp only: append.simps)
    qed
  qed
qed

text \<open>
  A string that is spliced into an expression is read back as exactly that string: as a literal of its
  own it denotes the value and what follows is read on, and inside a string of the author, whichever
  quotes it has, it neither closes the string nor changes its value.
\<close>

theorem spliced_string_inert:
  "read_string q (tl (formatInertStringLiteral v (quote_char q)) @ s) = Some (v, s) \<and>
   hd (formatInertStringLiteral v (quote_char q)) = quote_char q \<and>
   read_string q (escapeInertStringContent v @ s) = map_option (\<lambda>(u, r). (v @ u, r)) (read_string q s)"
  using read_escaped [of q v "quote_char q # s"] by (simp add: formatInertStringLiteral_def read_escaped)

section \<open>Conditions\<close>

text \<open>
  C19: A text that a condition refers to is data wherever the author wrote the reference, except in single quotes. On its own
  it is a literal with the value of the text. In double quotes or backticks it neither ends the string nor
  changes: the text stands there, in the single quotes of its literal. But in single quotes the quote of the literal
  ends the author's string at once, and what follows the empty string as code is the text itself.
\<close>

theorem condition_string_contexts:
  assumes "resolveReference (resolver_of h) flow x m = Inr (Found (JStr v))"
  shows "\<exists>s. condition_text h flow x t i m = Inr s \<and>
    hd s = quote_char SingleQuote \<and> read_string SingleQuote (tl s @ rest) = Some (v, rest) \<and>
    (\<forall>q \<in> {DoubleQuote, Backtick}.
       read_string q (s @ rest) = map_option (\<lambda>(u, r). ([CHR 0x27] @ v @ [CHR 0x27] @ u, r)) (read_string q rest)) \<and>
    read_string SingleQuote (s @ rest) = Some ([], escapeInertStringContent v @ [CHR 0x27] @ rest)"
proof -
  let ?s = "formatInertStringLiteral v (CHR 0x27)"
  have quoted: "read_string q (CHR 0x27 # s) = map_option (\<lambda>(u, r). (CHR 0x27 # u, r)) (read_string q s)"
    if "q \<noteq> SingleQuote" for q s using that by (cases q) simp_all
  have "condition_text h flow x t i m = Inr ?s" using assms by (simp add: condition_text_def)
  moreover have "read_string SingleQuote (tl ?s @ rest) = Some (v, rest)" "hd ?s = quote_char SingleQuote"
    using read_escaped [of SingleQuote v "CHR 0x27 # rest"] by (simp_all add: formatInertStringLiteral_def)
  moreover have "read_string q (?s @ rest) = map_option (\<lambda>(u, r). ([CHR 0x27] @ v @ [CHR 0x27] @ u, r)) (read_string q rest)"
    if "q \<noteq> SingleQuote" for q
  proof -
    have "read_string q (?s @ rest) =
        map_option (\<lambda>(u, r). (CHR 0x27 # u, r)) (map_option (\<lambda>(u, r). (v @ u, r)) (map_option (\<lambda>(u, r). (CHR 0x27 # u, r)) (read_string q rest)))"
      unfolding formatInertStringLiteral_def append_Cons append_Nil append_assoc quoted [OF that] read_escaped ..
    then show ?thesis by (cases "read_string q rest") auto
  qed
  moreover have "read_string SingleQuote (?s @ rest) = Some ([], escapeInertStringContent v @ [CHR 0x27] @ rest)"
    by (simp add: formatInertStringLiteral_def)
  ultimately show ?thesis by blast
qed

definition condition_host :: template_host where
  "condition_host = demo_templates [demo_variable ''v'' (JStr '' || steal() || '')] [(''COUNT'', ''3''), (''KEY'', ''k'')]"

definition condition_context :: resolution_context where
  "condition_context = node_context quiet_world ''cond'' None False"

theorem condition_string_contexts_witness:
  "\<exists>s. condition_text condition_host empty_flow condition_context [] 0 ''<variable.v>'' = Inr s \<and>
     read_string SingleQuote (s @ [CHR 0x27]) = Some ([], '' || steal() || '' @ [CHR 0x27, CHR 0x27])"
proof -
  have r: "resolveReference (resolver_of condition_host) empty_flow condition_context ''<variable.v>'' =
      Inr (Found (JStr '' || steal() || ''))" by code_simp
  have "escapeInertStringContent '' || steal() || '' = '' || steal() || ''" by code_simp
  with condition_string_contexts [OF r, of "[]" 0 "[CHR 0x27]"] show ?thesis by auto
qed

text \<open>The whole condition: the text of a variable, in the single quotes of the author, is evaluated.\<close>

lemma single_quoted_condition:
  "resolveTemplateWithoutConditionFormatting condition_host empty_flow condition_context
     ([CHR 0x27] @ ''<variable.v>'' @ [CHR 0x27] @ '' === '' @ [CHR 0x27] @ ''x'' @ [CHR 0x27]) =
   Inr ([CHR 0x27, CHR 0x27] @ '' || steal() || '' @ [CHR 0x27, CHR 0x27] @ '' === '' @ [CHR 0x27] @ ''x'' @ [CHR 0x27])"
  by code_simp

section \<open>Placeholders in conditions\<close>

text \<open>The characters of numbers, of the three keywords and of padding.\<close>

definition literal_char :: "char \<Rightarrow> bool" where
  "literal_char c \<longleftrightarrow> is_digit c \<or> is_blank c \<or> c \<in> set ''-+.eEtrufalsn''"

lemma digits_literal: "list_all is_digit s \<Longrightarrow> list_all literal_char s"
  by (auto simp: literal_char_def list_all_iff)

lemma all_digits_literal: "all_digits s \<Longrightarrow> list_all literal_char s"
  by (simp add: all_digits_def digits_literal)

lemma take_drop_literal:
  "list_all literal_char (dropWhile is_digit s) \<Longrightarrow> list_all literal_char s"
  "list_all literal_char (dropWhile is_blank s) \<Longrightarrow> list_all literal_char s"
  by (induction s) (auto simp: literal_char_def split: if_splits)

lemma exponent_literal: "exponent_ok s \<Longrightarrow> list_all literal_char s"
  by (auto simp: exponent_ok_def literal_char_def split: list.splits if_splits dest: all_digits_literal)

lemma literal_head: "literal_char (CHR ''.'')" "literal_char (CHR ''-'')"
  by (simp_all add: literal_char_def)

lemma starts_single: "starts_with s [c] \<longleftrightarrow> (\<exists>r. s = c # r)"
  by (auto simp: starts_with_def prefix_def)

lemma fraction_literal:
  assumes "starts_with s ''.''" "exponent_ok (dropWhile is_digit (tl s))"
  shows "list_all literal_char s"
  using assms literal_head(1) take_drop_literal(1) [OF exponent_literal [OF assms(2)]] by (auto simp: starts_single)

lemma number_literal:
  assumes "number_ok s"
  shows "list_all literal_char s"
proof -
  define t where "t = (if starts_with s ''-'' then tl s else s)"
  have "list_all literal_char t"
  proof (cases "takeWhile is_digit t = []")
    case True
    with assms have "starts_with (dropWhile is_digit t) ''.''" "exponent_ok (dropWhile is_digit (tl (dropWhile is_digit t)))"
      unfolding number_ok_def Let_def t_def [symmetric] by simp_all
    from take_drop_literal(1) [OF fraction_literal [OF this]] show ?thesis .
  next
    case False
    with assms have e: "exponent_ok (if starts_with (dropWhile is_digit t) ''.'' then dropWhile is_digit (tl (dropWhile is_digit t))
        else dropWhile is_digit t)" unfolding number_ok_def Let_def t_def [symmetric] by simp
    show ?thesis
      by (rule take_drop_literal(1)) (cases "starts_with (dropWhile is_digit t) ''.''";
          use e in \<open>simp add: fraction_literal exponent_literal\<close>)
  qed
  then show ?thesis using literal_head(2) unfolding t_def by (auto simp: starts_single split: if_splits)
qed

lemma strip_literal: "list_all literal_char (strip_blanks s) \<Longrightarrow> list_all literal_char s"
  unfolding strip_blanks_def by (rule take_drop_literal(2)) (use take_drop_literal(2) [of "rev (dropWhile is_blank s)"] in simp)

lemma inert_literal: "isStructurallyInertConditionLiteral s \<Longrightarrow> list_all literal_char s"
  unfolding isStructurallyInertConditionLiteral_def
  by (rule strip_literal) (auto simp: literal_char_def dest: number_literal)

text \<open>
  C20: What a condition takes from the environment into its source is a literal, padded at most by blanks: every character of it is
  one of a number or a keyword, so that it holds no quote, operator, bracket, comment or line end, and inside a string, whichever quotes
  it has, it is read as itself. Every other value of the environment leaves its placeholder in place.
\<close>

theorem condition_placeholder_inert:
  assumes "condition_env_text h flow x m = Inr s"
  shows "s = m \<or> resolveReference h flow x m = Inr (Found (JStr s)) \<and> list_all literal_char s \<and>
    (\<forall>q rest. read_string q (s @ rest) = map_option (\<lambda>(u, r). (s @ u, r)) (read_string q rest))"
proof -
  have plain: "read_string q (s @ rest) = map_option (\<lambda>(u, r). (s @ u, r)) (read_string q rest)"
    if "list_all literal_char s" for q and s rest :: string
    using that
  proof (induction s)
    case Nil
    then show ?case by (cases "read_string q rest") auto
  next
    case (Cons c s)
    then have c: "\<not> backslashed c" "c \<noteq> CHR 0x0A" "c \<noteq> CHR 0x0D"
      by (auto simp: literal_char_def backslashed_def is_digit_def is_blank_def)
    have "read_string q ((c # s) @ rest) = map_option (\<lambda>(u, z). (c # u, z)) (read_string q (s @ rest))"
      using read_plain [OF c] by simp
    with Cons show ?case by (cases "read_string q rest") auto
  qed
  from assms obtain r where "resolveReference h flow x m = Inr r"
    "s = (case r of Found (JStr u) \<Rightarrow> if isStructurallyInertConditionLiteral u then u else m | _ \<Rightarrow> m)"
    by (auto simp: condition_env_text_def and_then_Inr_iff)
  then have "s = m \<or> resolveReference h flow x m = Inr (Found (JStr s)) \<and> isStructurallyInertConditionLiteral s"
    by (auto split: resolved.splits jval.splits if_splits)
  then show ?thesis using inert_literal plain by blast
qed

theorem condition_placeholder_inert_witness:
  "list_all literal_char ''3'' \<and>
   read_string DoubleQuote (''3'' @ [CHR 0x22]) = map_option (\<lambda>(u, r). (''3'' @ u, r)) (read_string DoubleQuote [CHR 0x22])"
proof -
  have "condition_env_text (resolver_of condition_host) empty_flow condition_context ''{{COUNT}}'' = Inr ''3''" by code_simp
  from condition_placeholder_inert [OF this] show ?thesis by simp
qed

end
