(* ===== verification/InputProps.thy ===== *)
theory InputProps
  imports TemplateProps
begin

text \<open>
  The inputs of a block: what resolution leaves alone, and what it replaces twice.
\<close>

section \<open>Plain values\<close>

definition is_hit :: "piece \<Rightarrow> bool" where
  "is_hit p = (case p of Hit m \<Rightarrow> True | Char c \<Rightarrow> False)"

text \<open>A text without a likely reference and without a placeholder, and a value with no other texts.\<close>

definition plain_text :: "string \<Rightarrow> bool" where
  "plain_text s \<longleftrightarrow>
     list_all (\<lambda>p. case p of Hit m \<Rightarrow> \<not> isLikelyWorkflowReferenceSegment m | Char c \<Rightarrow> True) (reference_pieces s) \<and>
     \<not> list_ex is_hit (env_pieces s)"

fun plain_value :: "jval \<Rightarrow> bool" and plain_items :: "jval list \<Rightarrow> bool" and plain_entries :: "(string \<times> jval) list \<Rightarrow> bool" where
  "plain_value (JStr s) = plain_text s"
| "plain_value (JArr xs) = plain_items xs"
| "plain_value (JObj f) = plain_entries f"
| "plain_value v = True"
| "plain_items [] = True"
| "plain_items (v # vs) = (plain_value v \<and> plain_items vs)"
| "plain_entries [] = True"
| "plain_entries ((k, v) # kvs) = (plain_value v \<and> plain_entries kvs)"

lemma replace_none:
  "(\<And>j m. Hit m \<in> set ps \<Longrightarrow> f j m = Inr m) \<Longrightarrow> replace_hits f i ps = Inr (concat (map piece_text ps))"
proof (induction ps arbitrary: i)
  case (Cons p ps)
  have f: "f j m = Inr m" if "Hit m \<in> set (p # ps)" for j m using Cons.prems that by blast
  have "replace_hits f i' ps = Inr (concat (map piece_text ps))" for i' by (rule Cons.IH) (simp add: f)
  then show ?case using f by (cases p) simp_all
qed simp

lemma plain_template:
  assumes "plain_text s"
  shows "resolveTemplate h flow x b s = Inr s"
proof -
  have "replaceValidReferencesAsync s (\<lambda>_. reference_text h flow x b) = Inr (concat (map piece_text (reference_pieces s)))"
    unfolding replaceValidReferencesAsync_def
    by (rule replace_none) (use assms in \<open>auto simp: plain_text_def list_all_iff\<close>)
  moreover have "replaceEnvVarsAsync s (env_text (resolver_of h) flow x) = Inr (concat (map piece_text (env_pieces s)))"
    unfolding replaceEnvVarsAsync_def
    by (rule replace_none) (use assms in \<open>auto simp: plain_text_def list_ex_iff is_hit_def\<close>)
  ultimately show ?thesis by (simp add: resolveTemplate_def pieces_text env_pieces_text)
qed

lemma plain_resolves:
  "plain_value v \<Longrightarrow> resolveValue h flow x b v = Inr v"
  "plain_items vs \<Longrightarrow> resolve_items h flow x b vs = Inr vs"
  "plain_entries kvs \<Longrightarrow> resolve_entries h flow x b kvs = Inr kvs"
  by (induction v and vs and kvs rule: plain_value_plain_items_plain_entries.induct) (simp_all add: plain_template)

text \<open>
  Resolution changes nothing but references and placeholders: an input in which no text, at any depth, has a likely reference or a
  placeholder is what the block receives, and a text such as a comparison, whose angle brackets are no reference, counts as such.
\<close>

theorem literal_inputs_unchanged:
  assumes "plain_entries params" and "block_type b \<noteq> Some ''condition''"
  shows "resolveInputs h flow w node params b = Inr params"
proof -
  have "resolve_params h flow w node b params = Inr params"
    using assms(1) by (induction params) (auto simp: plain_resolves(1))
  with assms(2) show ?thesis by (simp add: resolveInputs_def)
qed

theorem literal_inputs_unchanged_witness:
  "resolveInputs condition_host empty_flow quiet_world ''n'' [(''a'', JArr [JStr ''x < 3 and y > 2'', JNum 1])] None =
   Inr [(''a'', JArr [JStr ''x < 3 and y > 2'', JNum 1])]"
proof -
  have "plain_entries [(''a'', JArr [JStr ''x < 3 and y > 2'', JNum 1])]" by code_simp
  then show ?thesis by (rule literal_inputs_unchanged) (simp add: block_type_def)
qed

section \<open>Values with placeholders\<close>

text \<open>
  A placeholder in a value is replaced as if the author had written it: the placeholders of an input are looked for after its
  references have been replaced, so that whoever supplies the text a reference leads to chooses which value
  of the environment the block receives.
\<close>

theorem value_placeholder_expanded:
  assumes "resolveReference (resolver_of h) flow x m = Inr (Found (JStr p))"
    and "reference_pieces m = [Hit m]" and "isLikelyWorkflowReferenceSegment m" and "env_pieces p = [Hit p]"
    and "isEnvVarReference p" and "mget (rs_env h) (extractEnvVarName p) = Some v"
    and "block_type b \<notin> {Some ''condition'', Some ''function''}"
    and "rs_string h (JStr p) = p"
  shows "resolveTemplate h flow x b m = Inr v"
proof -
  have "reference_text h flow x b m = Inr p"
    using assms(1,7,8) by (simp add: reference_text_def formatValueForBlock_def is_object_def)
  moreover have "\<not> isReference p" using assms(5) by (auto simp: isEnvVarReference_def isReference_def starts_with_def prefix_def)
  then have "env_text (resolver_of h) flow x p = Inr v"
    using assms(5,6) by (simp add: env_text_def resolveReference_def canResolveLoop_def canResolveParallel_def
        canResolveVariable_def resolve_env_def resolver_host.truncate_def)
  ultimately show ?thesis
    using assms(2,3,4) by (simp add: resolveTemplate_def replaceValidReferencesAsync_def replaceEnvVarsAsync_def)
qed

definition fetched_context :: "string \<Rightarrow> resolution_context" where
  "fetched_context text = node_context (fetched text) ''mail'' None False"

theorem value_placeholder_expanded_witness:
  "resolveTemplate (demo_templates [] [(''KEY'', ''secret'')]) fetch_flow (fetched_context ''{{KEY}}'') None ''<fetch.text>'' =
   Inr ''secret''"
  by (rule value_placeholder_expanded [where p = "''{{KEY}}''"]) (code_simp | simp add: block_type_def)+

end
