(* ===== verification/ScanProps.thy ===== *)
theory ScanProps
  imports TemplateProps
begin

text \<open>
  The scanner against the reading of strings: where a string of the code stands, the scanner reports a string.
\<close>

section \<open>Walking\<close>

text \<open>Where a scan stops: at the index, or behind it when the last step skipped characters.\<close>

function scan_stop :: "bool \<Rightarrow> string \<Rightarrow> nat \<Rightarrow> nat \<Rightarrow> scan_state \<Rightarrow> nat" where
  "scan_stop python t index i st =
     (if i < index \<and> i < length t
      then (case scan_step python t i st of (j, st') \<Rightarrow> scan_stop python t index j st') else i)"
  by pat_completeness auto
termination by (relation "measure (\<lambda>(python, t, index, i, st). index - i)")
  (auto split: prod.split dest: scan_step_advances intro: diff_less_mono2 less_trans)

declare scan_stop.simps [simp del]

lemma scan_done [simp]: "\<not> i < index \<Longrightarrow> scan python t index i st = st" "\<not> i < index \<Longrightarrow> scan_stop python t index i st = i"
  by (simp_all add: scan.simps scan_stop.simps)

lemma scan_at_end: "\<not> (i < index \<and> i < length t) \<Longrightarrow> scan python t index i st = st \<and> scan_stop python t index i st = i"
  by (subst scan.simps, subst scan_stop.simps) (simp only: if_False simp_thms)

lemma scan_go:
  assumes "i < index" "i < length t" "scan_step python t i st = (j, st')"
  shows "scan python t index i st = scan python t index j st'" "scan_stop python t index i st = scan_stop python t index j st'"
  using assms by (simp_all add: scan.simps [of python t index i st] scan_stop.simps [of python t index i st])

text \<open>A scan to an index at which it stops can be resumed there.\<close>

lemma scan_split:
  assumes "scan_stop python t j i st = j" "j \<le> k"
  shows "scan python t k i st = scan python t k j (scan python t j i st) \<and>
    scan_stop python t k i st = scan_stop python t k j (scan python t j i st)"
  using assms
proof (induction python t j i st rule: scan.induct)
  case (1 python t j i st)
  show ?case
  proof (cases "i < j \<and> i < length t")
    case True
    obtain i' st' where s: "scan_step python t i st = (i', st')" by fastforce
    have go: "i < n \<Longrightarrow> scan python t n i st = scan python t n i' st' \<and> scan_stop python t n i st = scan_stop python t n i' st'" for n
      using scan_go [of i n t python st i' st'] True s by simp
    have "scan_stop python t j i' st' = j" using 1(2) go [of j] True by simp
    with 1(1) [OF True s [symmetric]] 1(3) show ?thesis using go [of k] go [of j] True by simp
  next
    case False
    then have "i = j" "scan python t j i st = st" using 1(2) scan_at_end [OF False] by simp_all
    then show ?thesis by simp
  qed
qed

section \<open>Strings\<close>

primrec quote_mode :: "js_quote \<Rightarrow> scan_mode" where
  "quote_mode SingleQuote = SingleMode"
| "quote_mode DoubleQuote = DoubleMode"
| "quote_mode Backtick = TemplateMode"

lemma drop_cons: "drop i t = c # cs \<Longrightarrow> i < length t \<and> t ! i = c \<and> drop (Suc i) t = cs"
  by (metis Cons_nth_drop_Suc drop_all linorder_not_less list.distinct(1) list.inject)

lemma drop_next: "drop i t = c # d # cs \<Longrightarrow> char_at t (Suc i) = Some d"
  using drop_cons [of i t c "d # cs"] drop_cons [of "Suc i" t d cs] by (simp add: char_at_def)

lemma char_at_drop: "char_at t i = Some c \<Longrightarrow> \<exists>r. drop i t = c # r"
  by (auto simp: char_at_def Cons_nth_drop_Suc [symmetric] split: if_splits)

text \<open>Inside a string the scanner keeps its state up to the closing quote.\<close>

definition stays :: "string \<Rightarrow> nat \<Rightarrow> nat \<Rightarrow> scan_state \<Rightarrow> bool" where
  "stays t i j st \<longleftrightarrow> i < j \<and> j \<le> length t \<and> (\<forall>k. i \<le> k \<and> k < j \<longrightarrow> scan False t k i st = st) \<and>
     scan False t j i st = pop_mode st \<and> scan_stop False t j i st = j"

lemma stays_step:
  assumes "scan_step False t i st = (i', st)" "i < length t" "i < i'" "stays t i' j st"
  shows "stays t i j st"
proof -
  have j: "i' < j" using assms(4) by (simp add: stays_def)
  have "scan False t k i st = st" if "i \<le> k" "k < j" for k
  proof (cases "i < k")
    case True
    then have "scan False t k i st = scan False t k i' st" by (rule scan_go(1) [OF _ assms(2,1)])
    also have "\<dots> = st" using assms(4) that by (cases "i' \<le> k") (simp_all add: stays_def)
    finally show ?thesis .
  next
    case False
    then show ?thesis by simp
  qed
  moreover have "i < j" using assms(3) j by simp
  ultimately show ?thesis
    using assms(4) scan_go [OF \<open>i < j\<close> assms(2,1)] by (simp add: stays_def)
qed

lemma stays_close: "scan_step False t i st = (Suc i, pop_mode st) \<Longrightarrow> i < length t \<Longrightarrow> stays t i (Suc i) st"
  using scan_go [of i "Suc i" t False st "Suc i" "pop_mode st"] by (simp add: stays_def less_Suc_eq_le)

text \<open>The steps of the three kinds of string.\<close>

lemma quoted_close: "hd (sc_modes st) = quote_mode q \<Longrightarrow> t ! i = quote_char q \<Longrightarrow> scan_step False t i st = (Suc i, pop_mode st)"
  by (cases q) (simp_all add: scan_step_def scan_string_def scan_template_def)

lemma quoted_escape: "hd (sc_modes st) = quote_mode q \<Longrightarrow> t ! i = CHR 0x5C \<Longrightarrow> scan_step False t i st = (i + 2, st)"
  by (cases q) (simp_all add: scan_step_def scan_string_def scan_template_def)

lemma quoted_plain:
  assumes "hd (sc_modes st) = quote_mode q" "t ! i \<noteq> quote_char q" "t ! i \<noteq> CHR 0x5C" "t ! i \<noteq> CHR 0x0A"
    "\<not> (q = Backtick \<and> t ! i = CHR ''$'' \<and> char_at t (Suc i) = Some (CHR ''{''))"
  shows "scan_step False t i st = (Suc i, st)"
  using assms by (cases q) (auto simp: scan_step_def scan_string_def scan_template_def Let_def)

lemma stays_plain:
  assumes "drop i t = p @ r" "stays t (i + length p) j st" "hd (sc_modes st) = quote_mode q"
    and "\<And>c. c \<in> set p \<Longrightarrow> is_digit c"
  shows "stays t i j st"
  using assms
proof (induction p arbitrary: i)
  case Nil
  then show ?case by simp
next
  case (Cons c p)
  have c: "i < length t" "t ! i = c" "drop (Suc i) t = p @ r" using drop_cons [of i t c "p @ r"] Cons.prems(1) by simp_all
  have d: "is_digit (t ! i)" using Cons.prems(4) c(2) by simp
  have "t ! i \<noteq> quote_char q" "t ! i \<noteq> CHR 0x5C" "t ! i \<noteq> CHR 0x0A" "t ! i \<noteq> CHR ''$''"
    using d by (cases q; auto simp: is_digit_def)+
  then have "scan_step False t i st = (Suc i, st)" using quoted_plain [OF Cons.prems(3)] by blast
  moreover have "stays t (Suc i) j st" using Cons.IH [OF c(3)] Cons.prems(2-4) by simp
  ultimately show ?case using stays_step [OF _ c(1)] by simp
qed

lemma read_escape_cases:
  assumes "read_escape cs = Some (w, r)"
  obtains (one) c where "cs = c # r" | (separator) p where "cs = CHR ''u'' # p @ r" "p = ''2028'' \<or> p = ''2029''"
proof (cases cs)
  case Nil
  with assms show ?thesis by simp
next
  case (Cons c ds)
  show ?thesis
  proof (cases "c = CHR ''u''")
    case True
    with assms Cons have "take 4 ds = ''2028'' \<or> take 4 ds = ''2029''" "r = drop 4 ds" by (auto split: if_splits)
    then show ?thesis using separator [of "take 4 ds"] Cons True by (metis append_take_drop_id)
  next
    case False
    with assms Cons have "r = ds" by (auto split: if_splits)
    with Cons show ?thesis by (intro one) simp
  qed
qed

lemma reads_stays:
  assumes "read_string q s = Some (v, r)" "drop i t = s" "hd (sc_modes st) = quote_mode q"
  shows "stays t i (length t - length r) st \<and> drop (length t - length r) t = r"
  using assms
proof (induction q s arbitrary: i v rule: read_string.induct)
  case (1 q)
  then show ?case by simp
next
  case (2 q c cs)
  have c: "i < length t" "t ! i = c" "drop (Suc i) t = cs" using drop_cons [OF 2(4)] by simp_all
  consider (close) "c = quote_char q" | (escape) "c \<noteq> quote_char q" "c = CHR 0x5C"
    | (plain) "c \<noteq> quote_char q" "c \<noteq> CHR 0x5C" by blast
  then show ?case
  proof cases
    case close
    with 2(3) have r: "r = cs" by simp
    then have e: "length t - length r = Suc i" using c by auto
    have "stays t i (Suc i) st" by (rule stays_close [OF quoted_close [OF 2(5)] c(1)]) (simp add: c close)
    with c(3) r show ?thesis unfolding e by simp
  next
    case escape
    with 2(3) obtain w z u where w: "read_escape cs = Some (w, z)" and u: "read_string q z = Some (u, r)"
      by (auto split: option.splits prod.splits)
    have step: "scan_step False t i st = (i + 2, st)" by (rule quoted_escape [OF 2(5)]) (simp add: c escape)
    have ih: "drop i' t = z \<Longrightarrow> stays t i' (length t - length r) st \<and> drop (length t - length r) t = r" for i'
      by (rule 2(1) [OF escape w refl u _ 2(5)])
    from w show ?thesis
    proof (cases rule: read_escape_cases)
      case (one d)
      then have "drop (i + 2) t = z" using drop_cons [of "Suc i" t d z] c(3) by simp
      from ih [OF this] stays_step [OF step c(1)] show ?thesis by simp
    next
      case (separator p)
      then have p: "drop (i + 2) t = p @ z" using drop_cons [of "Suc i" t "CHR ''u''" "p @ z"] c(3) by simp
      then have "drop (i + 2 + length p) t = z" by (metis append_eq_conv_conj drop_drop add.commute)
      from ih [OF this] have s: "stays t (i + 2 + length p) (length t - length r) st" "drop (length t - length r) t = r" by simp_all
      have "stays t (i + 2) (length t - length r) st"
        by (rule stays_plain [OF p s(1) 2(5)]) (use separator(2) in \<open>auto simp: is_digit_def\<close>)
      with s(2) stays_step [OF step c(1)] show ?thesis by simp
    qed
  next
    case plain
    with 2(3) have p: "\<not> (c = CHR 0x0A \<or> c = CHR 0x0D \<or> q = Backtick \<and> c = CHR ''$'' \<and> starts_with cs ''{'')"
      and u: "\<exists>u. read_string q cs = Some (u, r)" by (auto split: if_splits)
    have "\<not> (q = Backtick \<and> t ! i = CHR ''$'' \<and> char_at t (Suc i) = Some (CHR ''{''))"
      using p c(2) c(3) [symmetric] by (auto simp: starts_with_def dest!: char_at_drop)
    then have step: "scan_step False t i st = (Suc i, st)"
      using quoted_plain [OF 2(5), of t i] plain p c by simp
    from u obtain u where "read_string q cs = Some (u, r)" by blast
    from 2(2) [OF plain p this c(3) 2(5)] stays_step [OF step c(1)] show ?thesis by simp
  qed
qed

section \<open>Contexts\<close>

text \<open>The scanner stops at the position, in code.\<close>

definition in_code :: "string \<Rightarrow> nat \<Rightarrow> bool" where
  "in_code t i \<longleftrightarrow> scan_stop False t i 0 scan_start = i \<and>
     (case hd (sc_modes (scan False t i 0 scan_start)) of NormalMode \<Rightarrow> True | ExpressionMode _ \<Rightarrow> True | _ \<Rightarrow> False)"

primrec quote_context_of :: "js_quote \<Rightarrow> quote_context" where
  "quote_context_of SingleQuote = SingleContext"
| "quote_context_of DoubleQuote = DoubleContext"
| "quote_context_of Backtick = TemplateContext"

lemma modes_note [simp]: "sc_modes (note_char t i st) = sc_modes st"
  by (simp add: note_char_def Let_def)

lemma push_pop [simp]: "sc_modes (pop_mode (push_mode m st)) = sc_modes st" "hd (sc_modes (push_mode m st)) = m"
  by (simp_all add: mode_defs)

lemma quote_context_mode [simp]: "mode_context (quote_mode q) = Some (quote_context_of q)"
  by (cases q) (simp_all add: mode_context_def)

lemma quoted_open:
  assumes "case hd (sc_modes st) of NormalMode \<Rightarrow> True | ExpressionMode _ \<Rightarrow> True | _ \<Rightarrow> False" "t ! i = quote_char q"
  shows "scan_step False t i st = (Suc i, push_mode (quote_mode q) (note_char t i st))"
proof -
  have "opened_comment False t i = None" using assms(2) by (cases q) (simp_all add: opened_comment_def)
  moreover have "opened_mode False t i st = Some (Suc i, quote_mode q)" using assms(2) by (cases q) (simp_all add: opened_mode_def)
  ultimately show ?thesis
    using assms(1) by (cases "hd (sc_modes st)") (simp_all add: scan_step_def scan_normal_def scan_expression_def)
qed

lemma string_context:
  assumes "in_code t i" and "i < length t" and "t ! i = quote_char q"
    and "read_string q (drop (Suc i) t) = Some (v, r)"
  shows "i < k \<Longrightarrow> k < length t - length r \<Longrightarrow>
      getCodeStringQuoteContext t k (Some ''javascript'') = Some (quote_context_of q)"
    and "in_code t (length t - length r)"
    and "getCodeStringQuoteContext t (length t - length r) (Some ''javascript'') =
      getCodeStringQuoteContext t i (Some ''javascript'')"
    and "drop (length t - length r) t = r"
proof -
  let ?st = "scan False t i 0 scan_start" and ?j = "length t - length r"
  let ?in = "push_mode (quote_mode q) (note_char t i ?st)"
  from assms(1) have c: "scan_stop False t i 0 scan_start = i"
    "case hd (sc_modes ?st) of NormalMode \<Rightarrow> True | ExpressionMode _ \<Rightarrow> True | _ \<Rightarrow> False"
    by (simp_all add: in_code_def)
  have s: "stays t (Suc i) ?j ?in" and d: "drop ?j t = r"
    using reads_stays [OF assms(4) refl, of ?in] by simp_all
  have at: "scan False t k 0 scan_start = scan False t k (Suc i) ?in \<and>
      scan_stop False t k 0 scan_start = scan_stop False t k (Suc i) ?in" if "i < k" for k
    using scan_split [OF c(1), of k] scan_go [OF that assms(2) quoted_open [OF c(2) assms(3)]] that by simp
  have j: "i < ?j" using s by (simp add: stays_def)
  have modes: "sc_modes (scan False t ?j 0 scan_start) = sc_modes ?st"
    using at [OF j] s by (simp add: stays_def)
  show "drop ?j t = r" by (rule d)
  show "in_code t ?j" using at [OF j] s modes c(2) by (simp add: in_code_def stays_def)
  show "getCodeStringQuoteContext t ?j (Some ''javascript'') = getCodeStringQuoteContext t i (Some ''javascript'')"
    by (simp add: getCodeStringQuoteContext_def modes)
  show "getCodeStringQuoteContext t k (Some ''javascript'') = Some (quote_context_of q)" if "i < k" "k < ?j"
    using at [OF that(1)] s that by (simp add: getCodeStringQuoteContext_def stays_def)
qed


text \<open>A string with an escaped quote, behind a comment and a regular expression with a quote in it.\<close>

definition scanned_code :: string where
  "scanned_code = ''/*'' @ [CHR 0x27] @ ''*/ /['' @ [CHR 0x22] @ '']/.test(x) && '' @ [CHR 0x22] @ ''a'' @
     [CHR 0x5C, CHR 0x22] @ ''b'' @ [CHR 0x22] @ '' + c''"


section \<open>Objects in conditions\<close>

lemma context_text:
  assumes "resolveReference (resolver_of h) flow x m = Inr (Found v)" "is_object v"
  shows "condition_text h flow x t i m = Inr (formatConditionJson h v t i)"
  using assms by (cases v) (simp_all add: condition_text_def is_object_def)

lemma object_in_code:
  assumes "resolveReference (resolver_of h) flow x m = Inr (Found v)" and "is_object v" and "in_code t k"
  shows "\<exists>s. condition_text h flow x t k m = Inr (''JSON.parse('' @ s @ '')'') \<and>
      hd s = quote_char SingleQuote \<and> read_string SingleQuote (tl s @ rest) = Some (rs_json h v, rest)"
proof -
  from assms(3) have "getCodeStringQuoteContext t k (Some ''javascript'') = None"
    by (auto simp: in_code_def getCodeStringQuoteContext_def mode_context_def split: scan_mode.splits)
  then have "condition_text h flow x t k m = Inr (''JSON.parse('' @ formatInertStringLiteral (rs_json h v) (CHR 0x27) @ '')'')"
    by (simp add: context_text [OF assms(1,2)] formatConditionJson_def formatInertStringLiteral_def)
  moreover have "read_string SingleQuote (tl (formatInertStringLiteral (rs_json h v) (CHR 0x27)) @ rest) = Some (rs_json h v, rest)"
    using read_escaped [of SingleQuote "rs_json h v" "CHR 0x27 # rest"] by (simp add: formatInertStringLiteral_def)
  moreover have "hd (formatInertStringLiteral (rs_json h v) (CHR 0x27)) = quote_char SingleQuote"
    by (simp add: formatInertStringLiteral_def)
  ultimately show ?thesis by blast
qed

lemma object_in_string:
  assumes "resolveReference (resolver_of h) flow x m = Inr (Found v)" and "is_object v"
    and "getCodeStringQuoteContext t k (Some ''javascript'') = Some c"
  shows "\<exists>s. condition_text h flow x t k m = Inr s \<and>
      read_string q (s @ rest) = map_option (\<lambda>(u, z). (rs_json h v @ u, z)) (read_string q rest)"
  using assms(3) by (simp add: context_text [OF assms(1,2)] formatConditionJson_def read_escaped)


definition object_condition :: string where
  "object_condition = [CHR 0x22] @ ''got <variable.o>'' @ [CHR 0x22] @ ''.length > <variable.o>.n''"

definition object_host :: template_host where
  "object_host = demo_templates
     [(''o'', JObj [(''name'', JStr ''o''), (''type'', JStr ''object''), (''value'', JObj [(''n'', JNum 1)])])] []"


end
