(* ===== verification/FunctionProps.thy ===== *)
theory FunctionProps
  imports ReferenceDemo
begin

text \<open>
  What ends up in the code of a function block: the text of its author, and in place of references expressions that
  read the variables of the run.
\<close>

section \<open>Variables\<close>

lemma map_sum_Inr_iff: "map_sum id f r = Inr y \<longleftrightarrow> (\<exists>x. r = Inr x \<and> y = f x)"
  by (cases r) auto

lemma mput_absent: "\<not> mhas m k \<Longrightarrow> mput k v m = m @ [(k, v)]"
  unfolding mput_def mhas_def mget_def by (induction m) (auto split: if_splits)

text \<open>The variables are numbered in the order in which they are bound.\<close>

definition numbered :: "jobj \<Rightarrow> bool" where
  "numbered vars \<longleftrightarrow> mkeys vars = map context_var [0..<length vars]"

lemma context_var_inj [simp]: "context_var i = context_var j \<longleftrightarrow> i = j"
  by (simp add: context_var_def)

lemma bind_next:
  assumes "numbered (cs_vars st)"
  shows "cs_vars (bind_var (next_var st) v st) = cs_vars st @ [(next_var st, v)]"
    and "numbered (cs_vars (bind_var (next_var st) v st))"
proof -
  have "next_var st \<notin> set (mkeys (cs_vars st))"
    using assms unfolding numbered_def next_var_def by auto
  then have "\<not> mhas (cs_vars st) (next_var st)" by simp
  then show a: "cs_vars (bind_var (next_var st) v st) = cs_vars st @ [(next_var st, v)]"
    by (simp add: bind_var_def mput_absent)
  show "numbered (cs_vars (bind_var (next_var st) v st))"
    unfolding a using assms by (simp add: numbered_def mkeys_def next_var_def)
qed

text \<open>A step only adds variables.\<close>

definition extends :: "code_state \<Rightarrow> code_state \<Rightarrow> bool" where
  "extends st st1 \<longleftrightarrow> numbered (cs_vars st1) \<and> (\<exists>new. cs_vars st1 = cs_vars st @ new)"

lemma extends_refl: "numbered (cs_vars st) \<Longrightarrow> cs_vars st1 = cs_vars st \<Longrightarrow> extends st st1"
  by (simp add: extends_def)

lemma extends_bind: "numbered (cs_vars st) \<Longrightarrow> cs_vars st1 = cs_vars st \<Longrightarrow> extends st (bind_var (next_var st1) v st1)"
  using bind_next [of st1 v] by (auto simp: extends_def)

lemma extends_trans: "extends st st1 \<Longrightarrow> extends st1 st2 \<Longrightarrow> extends st st2"
  by (auto simp: extends_def)

lemma extends_length: "extends st st1 \<Longrightarrow> length (cs_vars st) \<le> length (cs_vars st1)"
  by (auto simp: extends_def)

lemma vars_show [simp]: "cs_vars (show_code s st) = cs_vars st" "cs_vars (shown h l t i v st) = cs_vars st"
  by (simp_all add: show_code_def shown_def)

lemma extends_show [simp]: "extends st (show_code s st1) = extends st st1" "extends st (shown h l t i v st1) = extends st st1"
  "extends (show_code s st) st1 = extends st st1"
  by (simp_all add: extends_def)

lemma length_bind [simp]: "numbered (cs_vars st) \<Longrightarrow> length (cs_vars (bind_var (next_var st) v st)) = Suc (length (cs_vars st))"
  by (simp add: bind_next)

section \<open>What is spliced\<close>

text \<open>Every expression through which the code at a position reads a variable.\<close>

definition code_accesses :: "string option \<Rightarrow> string \<Rightarrow> nat \<Rightarrow> string \<Rightarrow> string list" where
  "code_accesses language t i v =
     [formatContextVariableReference v language t i JNull, formatContextVariableReference v language t i (JStr []),
      formatContextVariablePathReference v language t i,
      formatJavaScriptAsyncExpression (lazy_read ''sim.files.readBase64'' v) t i False,
      formatJavaScriptAsyncExpression (lazy_read ''sim.values.read'' v) t i True,
      formatJavaScriptAsyncExpression (lazy_read ''sim.values.readArray'' v) t i True]"

lemma access_reference: "formatContextVariableReference v language t i u \<in> set (code_accesses language t i v)"
proof -
  have "formatShellContextVariableReference v t i u \<in>
      {formatShellContextVariableReference v t i JNull, formatShellContextVariableReference v t i (JStr [])}"
    by (cases u) (simp_all add: formatShellContextVariableReference_def Let_def is_object_def)
  then have "formatContextVariableReference v language t i u \<in>
      {formatContextVariableReference v language t i JNull, formatContextVariableReference v language t i (JStr [])}"
    by (simp add: formatContextVariableReference_def Let_def)
  then show ?thesis by (auto simp: code_accesses_def)
qed

lemma access_lazy:
  "formatLazyLargeValueReference v language t i = Some s \<Longrightarrow> s \<in> set (code_accesses language t i v)"
  "formatLazyLargeArrayManifestReference v language t i = Some s \<Longrightarrow> s \<in> set (code_accesses language t i v)"
  by (auto simp: formatLazyLargeValueReference_def formatLazyLargeArrayManifestReference_def code_accesses_def split: if_splits)

text \<open>What may stand in the code as a literal.\<close>

definition harmless :: "jval \<Rightarrow> string \<Rightarrow> bool" where
  "harmless v m \<longleftrightarrow>
     v = JNull \<or> (\<exists>b. v = JBool b) \<or> (\<exists>k. v = JNum k) \<or>
     (\<exists>u. v = JStr u \<and> hd (parseReferencePath m) = VARIABLE_REF \<and> (\<exists>p. Hit p \<in> set (env_pieces u)) \<and>
        (\<forall>c \<in> set u. \<not> closes_string c) \<and> \<not> has_line_separator u)"

lemma inlined_harmless: "canInlineResolvedCodeLiteral v m \<Longrightarrow> harmless v m"
  by (auto simp: canInlineResolvedCodeLiteral_def harmless_def list_ex_iff split: jval.splits piece.splits) (metis piece.exhaust)

text \<open>What replaces a reference \<open>m\<close> when \<open>n\<close> variables are bound: itself, an access to one of them, or a literal.\<close>

definition spliced :: "function_host \<Rightarrow> string option \<Rightarrow> string \<Rightarrow> nat \<Rightarrow> nat \<Rightarrow> string \<Rightarrow> string \<Rightarrow> bool" where
  "spliced h language t n i m s \<longleftrightarrow>
     s = m \<or> (\<exists>k < n. s \<in> set (code_accesses language t i (context_var k))) \<or>
     (\<exists>v. harmless v m \<and> s = formatValueForBlock h v (Some ''function'') language)"

lemma spliced_next:
  "s \<in> set (code_accesses language t i (next_var st)) \<Longrightarrow> spliced h language t (Suc (length (cs_vars st))) i m s"
  unfolding spliced_def next_var_def by blast

lemma spliced_mono: "spliced h language t n i m s \<Longrightarrow> n \<le> n' \<Longrightarrow> spliced h language t n' i m s"
  unfolding spliced_def by (meson less_le_trans)

text \<open>What a step on a reference guarantees.\<close>

definition splices ::
  "function_host \<Rightarrow> string option \<Rightarrow> string \<Rightarrow> nat \<Rightarrow> string \<Rightarrow> code_state \<Rightarrow> string \<times> code_state \<Rightarrow> bool" where
  "splices h language t i m st r \<longleftrightarrow>
     extends st (snd r) \<and> spliced h language t (length (cs_vars (snd r))) i m (fst r)"

lemma splices_new:
  assumes "numbered (cs_vars st)" "cs_vars st1 = cs_vars st" "s \<in> set (code_accesses language t i (next_var st1))"
  shows "splices h language t i m st (s, shown h language t i v (bind_var (next_var st1) u st1))"
    and "splices h language t i m st (s, show_code d (bind_var (next_var st1) u st1))"
proof -
  have n: "numbered (cs_vars st1)" using assms(1,2) by simp
  show "splices h language t i m st (s, shown h language t i v (bind_var (next_var st1) u st1))"
    "splices h language t i m st (s, show_code d (bind_var (next_var st1) u st1))"
    using extends_bind [OF assms(1,2)] spliced_next [OF assms(3)] by (simp_all add: splices_def n)
qed

lemma splices_bound: "numbered (cs_vars st) \<Longrightarrow> cs_vars st1 = cs_vars st \<Longrightarrow> splices h language t i m st (bound_value h language t i v st1)"
  unfolding bound_value_def by (rule splices_new(1)) (simp_all add: access_reference)

lemma splices_large:
  "numbered (cs_vars st) \<Longrightarrow> bound_large h language t i v st = Inr r \<Longrightarrow> splices h language t i m st r"
  by (auto simp: bound_large_def split: if_splits option.splits intro!: splices_new(1) dest: access_lazy)

lemma splices_block:
  assumes "numbered (cs_vars st)" "block_code h language t i v st = Inr r"
  shows "splices h language t i m st r"
proof (cases "isLargeValueRef v \<or> isLargeArrayManifest v")
  case True
  with assms show ?thesis by (simp add: block_code_def splices_large)
next
  case False
  obtain a st1 where o: "maybeOffloadInlineFunctionContextValue h v language t st = (a, st1)" by fastforce
  then have same: "cs_vars st1 = cs_vars st"
    by (auto simp: maybeOffloadInlineFunctionContextValue_def Let_def split: if_splits)
  show ?thesis
  proof (cases a)
    case None
    with False o assms have "r = bound_value h language t i v st1" by (auto simp: block_code_def split: if_splits)
    with splices_bound [OF assms(1) same] show ?thesis by simp
  next
    case (Some ref)
    with False o assms have "r = ((case formatLazyLargeValueReference (next_var st1) language t i of
        Some s \<Rightarrow> s | None \<Rightarrow> formatContextVariableReference (next_var st1) language t i v),
        shown h language t i ref (bind_var (next_var st1) ref st1))" by (auto simp: block_code_def split: if_splits)
    then show ?thesis
      using access_lazy(1) access_reference
      by (auto split: option.splits intro!: splices_new(1) [OF assms(1) same])
  qed
qed

lemma splices_other:
  assumes "numbered (cs_vars st)" "other_code h language t i m v st = Inr r"
  shows "splices h language t i m st r"
proof (cases "isLargeValueRef v \<or> isLargeArrayManifest v")
  case True
  with assms show ?thesis by (simp add: other_code_def splices_large)
next
  case False
  show ?thesis
  proof (cases "canInlineResolvedCodeLiteral v m")
    case True
    with False assms show ?thesis
      by (auto simp: other_code_def splices_def spliced_def Let_def extends_refl split: if_splits dest: inlined_harmless)
  next
    case lit: False
    with False assms have "r = bound_value h language t i v st" by (auto simp: other_code_def split: if_splits)
    with splices_bound [OF assms(1)] show ?thesis by simp
  qed
qed

lemma splices_path:
  assumes n: "numbered (cs_vars st)" and r: "resolveSandboxFilePathReference h flow x language t i m st = Inr (Some (s, st1))"
  shows "splices h language t i m st (s, show_code m st1)"
proof -
  have path: "formatContextVariablePathReference v language t i \<in> set (code_accesses language t i v)" for v
    by (simp add: code_accesses_def)
  from r obtain ref v where a: "file_reference ''path'' m = Some ref"
    "resolveReference (resolver_host.truncate h) flow x ref = Inr v"
    "(case file_fields v of None \<Rightarrow> None
      | Some f \<Rightarrow> (case List.find (\<lambda>(_, u). mounts_key (get_prop f ''key'') u) (cs_vars st) of
           Some (v, _) \<Rightarrow> Some (formatContextVariablePathReference v language t i, st)
         | None \<Rightarrow> Some (formatContextVariablePathReference (next_var st) language t i,
              bind_var (next_var st) (createSandboxFileMountRef (without_bytes f)) st))) = Some (s, st1)"
    unfolding resolveSandboxFilePathReference_def by (cases "file_reference ''path'' m") (auto simp: and_then_Inr_iff)
  then obtain f where "(case List.find (\<lambda>(_, u). mounts_key (get_prop f ''key'') u) (cs_vars st) of
       Some (v, _) \<Rightarrow> Some (formatContextVariablePathReference v language t i, st)
     | None \<Rightarrow> Some (formatContextVariablePathReference (next_var st) language t i,
          bind_var (next_var st) (createSandboxFileMountRef (without_bytes f)) st)) = Some (s, st1)"
    by (cases "file_fields v") auto
  then consider (known) v u where "(v, u) \<in> set (cs_vars st)" "s = formatContextVariablePathReference v language t i" "st1 = st"
    | (fresh) u where "s = formatContextVariablePathReference (next_var st) language t i" "st1 = bind_var (next_var st) u st"
    by (auto simp: find_Some_iff in_set_conv_nth split: option.splits) (metis nth_mem)
  then show ?thesis
  proof cases
    case known
    then have "v \<in> set (map context_var [0..<length (cs_vars st)])"
      using n unfolding numbered_def mkeys_def by (metis fst_conv image_eqI list.set_map)
    then obtain k where "k < length (cs_vars st)" "v = context_var k" by auto
    with known n show ?thesis using path by (auto simp: splices_def spliced_def extends_refl)
  next
    case fresh
    then show ?thesis using splices_new(2) [OF n refl] path by simp
  qed
qed

lemma splices_bytes:
  assumes "numbered (cs_vars st)" "resolveLazyFileBase64Reference h flow x language t i m st = Inr (Some (s, st1))"
  shows "splices h language t i m st (s, show_code m st1)"
  using assms(2) by (auto simp: resolveLazyFileBase64Reference_def and_then_Inr_iff code_accesses_def split: option.splits
      intro!: splices_new(2) [OF assms(1) refl])

lemma splices_same: "numbered (cs_vars st) \<Longrightarrow> splices h language t i m st (m, show_code d st)"
  by (simp add: splices_def spliced_def extends_refl)

lemma splices_value:
  assumes "numbered (cs_vars st)" "code_value h language t i m res st = Inr r"
  shows "splices h language t i m st r"
  using assms(2) by (auto simp: code_value_def Let_def splices_same [OF assms(1)] splices_block [OF assms(1)]
      splices_other [OF assms(1)] split: if_splits)

lemma splices_reference:
  assumes n: "numbered (cs_vars st)" and r: "code_reference h flow x language t i m st = Inr r"
  shows "splices h language t i m st r"
proof -
  obtain p where p: "resolveSandboxFilePathReference h flow x language t i m st = Inr p"
    using r by (auto simp: code_reference_def and_then_Inr_iff)
  obtain b where b: "p = None \<Longrightarrow> resolveLazyFileBase64Reference h flow x language t i m st = Inr b"
    using r p by (cases p) (auto simp: code_reference_def and_then_Inr_iff)
  show ?thesis
  proof (cases p)
    case (Some a)
    with p r show ?thesis by (cases a) (auto simp: code_reference_def splices_path [OF n])
  next
    case None
    with b have b: "resolveLazyFileBase64Reference h flow x language t i m st = Inr b" by simp
    show ?thesis
    proof (cases b)
      case (Some a)
      with p None b r show ?thesis by (cases a) (auto simp: code_reference_def splices_bytes [OF n])
    next
      case no: None
      with p None b r show ?thesis by (auto simp: code_reference_def and_then_Inr_iff splices_value [OF n])
    qed
  qed
qed

section \<open>Code\<close>

text \<open>The code as its pieces: the author's characters in place, and for every reference what replaces it.\<close>

fun spliced_code ::
  "function_host \<Rightarrow> string option \<Rightarrow> string \<Rightarrow> nat \<Rightarrow> nat \<Rightarrow> piece list \<Rightarrow> string \<Rightarrow> bool" where
  "spliced_code h language t n i [] code \<longleftrightarrow> code = []"
| "spliced_code h language t n i (Char c # ps) code \<longleftrightarrow>
     (\<exists>rest. code = c # rest \<and> spliced_code h language t n (Suc i) ps rest)"
| "spliced_code h language t n i (Hit m # ps) code \<longleftrightarrow>
     (\<exists>s rest. code = s @ rest \<and> spliced h language t n i m s \<and> spliced_code h language t n (i + length m) ps rest)"

lemma code_pieces_spliced:
  "code_pieces h flow x language t i ps st = Inr (code, st1) \<Longrightarrow> numbered (cs_vars st) \<Longrightarrow>
   extends st st1 \<and> spliced_code h language t (length (cs_vars st1)) i ps code"
proof (induction ps arbitrary: i st code)
  case Nil
  then show ?case by (simp add: extends_refl)
next
  case (Cons p ps)
  show ?case
  proof (cases p)
    case (Char c)
    with Cons.prems obtain s where s: "code_pieces h flow x language t (Suc i) ps (show_code [c] st) = Inr (s, st1)" "code = c # s"
      by (auto simp: map_sum_Inr_iff)
    from Cons.IH [OF s(1)] Cons.prems(2) Char s(2) show ?thesis by simp
  next
    case (Hit m)
    with Cons.prems obtain u st' s where u: "(if isLikelyWorkflowReferenceSegment m then code_reference h flow x language t i m st
        else Inr (m, show_code m st)) = Inr (u, st')"
      and s: "code_pieces h flow x language t (i + length m) ps st' = Inr (s, st1)" "code = u @ s"
      by (auto simp: and_then_Inr_iff map_sum_Inr_iff)
    have step: "splices h language t i m st (u, st')"
      using u Cons.prems(2) by (cases "isLikelyWorkflowReferenceSegment m") (auto simp: splices_same dest: splices_reference)
    then have "numbered (cs_vars st')" by (simp add: splices_def extends_def)
    from Cons.IH [OF s(1) this] step Hit s(2) show ?thesis
      by (auto simp: splices_def intro: extends_trans spliced_mono extends_length)
  qed
qed


section \<open>On a concrete block\<close>

definition sum_code :: string where "sum_code = ''return <variable.n> + <variable.s>''"

definition sum_host :: function_host where
  "sum_host = demo_functions [demo_variable ''n'' (JNum 7), demo_variable ''s'' (JStr ''f()'')] []"

definition sum_result :: string where
  "sum_result = ''return 7 + globalThis['' @ quoted_name ''__blockRef_0'' @ '']''"

lemma sum_run:
  "resolveCodeWithContextVars sum_host empty_flow quiet_world ''fn'' (Some ''javascript'') sum_code code_start =
   Inr (sum_result, code_start\<lparr>cs_vars := [(''__blockRef_0'', JStr ''f()'')],
     cs_display := ''return 7 + '' @ quoted_name ''f()''\<rparr>)"
  by code_simp


text \<open>A string that stays in the code stands in quotes of its own, which close a string of the author: the rest of the value
  is code. The comment at \<open>canInlineResolvedCodeLiteral\<close> takes such strings to be unable to close a literal.\<close>

lemma variable_closes_string:
  "map_sum id fst (resolveCodeWithContextVars (demo_functions [demo_variable ''v'' (JStr '' + steal() //{{KEY}}'')] [])
     empty_flow quiet_world ''fn'' (Some ''javascript'') (''x = '' @ quoted_name ''<variable.v>'') code_start) =
   Inr (''x = '' @ [CHR 0x22, CHR 0x22] @ '' + steal() //{{KEY}}'' @ [CHR 0x22, CHR 0x22])"
  by code_simp

end
