(* ===== verification/ResolverProps.thy ===== *)
theory ResolverProps
  imports Resolvers LoopProps ParallelOrch
begin

text \<open>
  What the resolvers guarantee: the containers of a block, the scope in which a reference inside a loop or a branch is
  read, and the scope that it is read in by mistake.
\<close>

section \<open>Containment\<close>

lemma mhas_mget: "mhas m k \<longleftrightarrow> mget m k \<noteq> None"
  by (auto elim: mhasE dest: mhasI)

text \<open>A member of a container of the workflow, entered unless it is in \<open>V\<close>.\<close>

definition enters :: "sworkflow \<Rightarrow> (subflow \<times> string) set \<Rightarrow> string \<Rightarrow> string \<Rightarrow> bool" where
  "enters flow V a b \<longleftrightarrow> (\<exists>k. subflow_kind flow a = Some k \<and> (k, a) \<notin> V \<and> b \<in> set (the (subflow_nodes flow k a)))"

lemma kind_nodes: "subflow_kind flow a = Some k \<Longrightarrow> \<exists>ns. subflow_nodes flow k a = Some ns"
  by (auto simp: subflow_kind_def subflow_nodes_def mhas_mget split: if_splits)

text \<open>A path either avoids one more container or has a last visit to it.\<close>

lemma enters_avoid:
  assumes "(enters flow V)\<^sup>*\<^sup>* a b"
  shows "(enters flow (insert (k, i) V))\<^sup>*\<^sup>* a b \<or>
    (\<exists>c \<in> set (the (subflow_nodes flow k i)). (enters flow (insert (k, i) V))\<^sup>*\<^sup>* c b)"
  using assms
proof (induction rule: rtranclp_induct)
  case base
  then show ?case by blast
next
  case (step b b')
  then obtain k' where k': "subflow_kind flow b = Some k'" "(k', b) \<notin> V" "b' \<in> set (the (subflow_nodes flow k' b))"
    by (auto simp: enters_def)
  show ?case
  proof (cases "(k', b) = (k, i)")
    case True
    with k'(3) show ?thesis by blast
  next
    case False
    then have "enters flow (insert (k, i) V) b b'" using k' by (auto simp: enters_def)
    with step.IH show ?thesis by (meson rtranclp.rtrancl_into_rtrancl)
  qed
qed

lemma enters_mono:
  assumes "(enters flow V)\<^sup>*\<^sup>* a b" and "V' \<subseteq> V"
  shows "(enters flow V')\<^sup>*\<^sup>* a b"
proof -
  have "enters flow V \<le> enters flow V'" using assms(2) by (fastforce simp: enters_def)
  from rtranclp_mono [OF this] assms(1) show ?thesis by blast
qed

lemma walk_nodes_iff:
  "walk_nodes flow P visited is \<longleftrightarrow> (\<exists>i \<in> set is. \<exists>b. (enters flow (set visited))\<^sup>*\<^sup>* i b \<and> P b)"
proof (induction flow P visited "is" rule: walk_nodes.induct)
  case (1 flow P visited)
  then show ?case by simp
next
  case (2 flow P visited i "is")
  have stuck: "b = i" if "(enters flow (set visited))\<^sup>*\<^sup>* i b" "\<nexists>j. enters flow (set visited) i j" for b
    using that by (metis converse_rtranclpE)
  show ?case
  proof (cases "P i")
    case True
    then show ?thesis by auto
  next
    case False
    show ?thesis
    proof (cases "\<exists>k. subflow_kind flow i = Some k \<and> (k, i) \<notin> set visited")
      case True
      then obtain k where k: "subflow_kind flow i = Some k" "(k, i) \<notin> set visited" by blast
      let ?V = "insert (k, i) (set visited)" and ?ns = "the (subflow_nodes flow k i)"
      have "(\<exists>j \<in> set (?ns @ is). \<exists>b. (enters flow ?V)\<^sup>*\<^sup>* j b \<and> P b) \<longleftrightarrow>
          (\<exists>j \<in> set (i # is). \<exists>b. (enters flow (set visited))\<^sup>*\<^sup>* j b \<and> P b)" (is "?L \<longleftrightarrow> ?R")
      proof
        assume ?L
        then obtain j b where j: "j \<in> set (?ns @ is)" "(enters flow ?V)\<^sup>*\<^sup>* j b" "P b" by blast
        from j(2) have r: "(enters flow (set visited))\<^sup>*\<^sup>* j b" by (rule enters_mono) blast
        show ?R
        proof (cases "j \<in> set is")
          case True
          with r j(3) show ?thesis by auto
        next
          case False
          with j(1) have "enters flow (set visited) i j" using k by (auto simp: enters_def)
          with r j(3) show ?thesis by (meson converse_rtranclp_into_rtranclp list.set_intros(1))
        qed
      next
        assume ?R
        then obtain j b where j: "j \<in> set (i # is)" "(enters flow (set visited))\<^sup>*\<^sup>* j b" "P b" by blast
        show ?L
        proof (cases "\<exists>c \<in> set ?ns. (enters flow ?V)\<^sup>*\<^sup>* c b")
          case True
          with j(3) show ?thesis by auto
        next
          case no: False
          with enters_avoid [OF j(2), of k i] have r: "(enters flow ?V)\<^sup>*\<^sup>* j b" by blast
          have "j \<noteq> i"
          proof
            assume "j = i"
            with r have "b = i" by (metis converse_rtranclpE enters_def insertI1 k(1) option.inject)
            with False j(3) show False by blast
          qed
          with r j(1,3) show ?thesis by auto
        qed
      qed
      moreover have "walk_nodes flow P visited (i # is) = walk_nodes flow P ((k, i) # visited) (?ns @ is)"
        using False k by simp
      ultimately show ?thesis using 2(3) [OF False k] by simp
    next
      case none: False
      then have no: "\<nexists>j. enters flow (set visited) i j" by (auto simp: enters_def)
      have "walk_nodes flow P visited (i # is) = walk_nodes flow P visited is"
        using False none by (cases "subflow_kind flow i") auto
      moreover have "walk_nodes flow P visited is \<longleftrightarrow> (\<exists>j \<in> set is. \<exists>b. (enters flow (set visited))\<^sup>*\<^sup>* j b \<and> P b)"
      proof (cases "subflow_kind flow i")
        case None
        then show ?thesis using 2(1) [OF False None] by simp
      next
        case (Some k)
        with none have "(k, i) \<in> set visited" by blast
        then show ?thesis using 2(2) [OF False Some] by simp
      qed
      moreover have "\<not> (\<exists>b. (enters flow (set visited))\<^sup>*\<^sup>* i b \<and> P b)" using stuck no False by blast
      ultimately show ?thesis by auto
    qed
  qed
qed

text \<open>What a container holds, at any depth.\<close>

definition holds :: "sworkflow \<Rightarrow> subflow \<Rightarrow> string \<Rightarrow> string \<Rightarrow> bool" where
  "holds flow k i b \<longleftrightarrow> (\<exists>ns. subflow_nodes flow k i = Some ns \<and> (\<exists>c \<in> set ns. (enters flow {})\<^sup>*\<^sup>* c b))"

lemma walk_members:
  assumes "subflow_nodes flow k i = Some ns"
  shows "walk_nodes flow P [(k, i)] ns \<longleftrightarrow> (\<exists>b. holds flow k i b \<and> P b)"
proof -
  have "(\<exists>c \<in> set ns. (enters flow {(k, i)})\<^sup>*\<^sup>* c b) \<longleftrightarrow> (\<exists>c \<in> set ns. (enters flow {})\<^sup>*\<^sup>* c b)" for b
    using enters_avoid [of flow "{}" _ b k i] enters_mono [of flow "{(k, i)}" _ b "{}"] assms by auto
  then show ?thesis unfolding walk_nodes_iff holds_def using assms by auto
qed

text \<open>
  C25: A block is found inside a container exactly when it is a member of the container, or of a container
  inside it at any depth, also where the containers of the workflow contain each other in a
  cycle; and a container is nested in another exactly when it is found in it. The container of a
  reference like \<open>loop.index\<close> is one around the block that has no other one around the block inside.
\<close>

theorem containment_correct:
  "(subflowContainsBlock flow k i b \<longleftrightarrow> holds flow k i b) \<and>
   (isSubflowNestedInside flow k' j k i \<longleftrightarrow> holds flow k i j \<and> subflow_nodes flow k' j \<noteq> None) \<and>
   (case findInnermostLoopForBlock flow n of
      None \<Rightarrow> True
    | Some l \<Rightarrow> mhas (wf_loops flow) l \<and> holds flow SubLoop l (stripCloneSuffixes n) \<and>
        filter (\<lambda>m. m \<noteq> l \<and> mhas (wf_loops flow) m \<and> holds flow SubLoop m (stripCloneSuffixes n) \<and> holds flow SubLoop l m)
          (mkeys (wf_loops flow)) = [])"
proof (intro conjI)
  show contains: "subflowContainsBlock flow k i b \<longleftrightarrow> holds flow k i b" for k i b
    by (cases "subflow_nodes flow k i") (simp_all add: subflowContainsBlock_def walk_members, simp add: holds_def)
  show nested: "isSubflowNestedInside flow k' j k i \<longleftrightarrow> holds flow k i j \<and> subflow_nodes flow k' j \<noteq> None" for k' j k i
    by (cases "subflow_nodes flow k i") (simp_all add: isSubflowNestedInside_def walk_members, auto simp: holds_def)
  let ?C = "filter (\<lambda>i. holds flow SubLoop i (stripCloneSuffixes n)) (mkeys (wf_loops flow))"
  have inner: "l \<in> set xs \<and> (\<forall>m \<in> set xs. m = l \<or> \<not> isSubflowNestedInside flow SubLoop m SubLoop l)"
    if "(case xs of [] \<Rightarrow> None | [i] \<Rightarrow> Some i
         | _ \<Rightarrow> List.find (\<lambda>c. \<forall>m \<in> set xs. m = c \<or> \<not> isSubflowNestedInside flow SubLoop m SubLoop c) xs) = Some l" for xs l
    using that by (cases xs rule: list.exhaust; cases "tl xs") (auto simp: find_Some_iff split: list.splits if_splits)
  show "case findInnermostLoopForBlock flow n of
      None \<Rightarrow> True
    | Some l \<Rightarrow> mhas (wf_loops flow) l \<and> holds flow SubLoop l (stripCloneSuffixes n) \<and>
        filter (\<lambda>m. m \<noteq> l \<and> mhas (wf_loops flow) m \<and> holds flow SubLoop m (stripCloneSuffixes n) \<and> holds flow SubLoop l m)
          (mkeys (wf_loops flow)) = []"
  proof (cases "findInnermostLoopForBlock flow n")
    case None
    then show ?thesis by simp
  next
    case (Some l)
    then have "l \<in> set ?C \<and> (\<forall>m \<in> set ?C. m = l \<or> \<not> isSubflowNestedInside flow SubLoop m SubLoop l)"
      unfolding findInnermostLoopForBlock_def innermost_container_def Let_def contains by (rule inner)
    moreover have "subflow_nodes flow SubLoop m \<noteq> None" if "m \<in> set (mkeys (wf_loops flow))" for m
      using that mhas_mget [of "wf_loops flow" m] by (auto simp: subflow_nodes_def mhas_def)
    ultimately show ?thesis
      using Some by (auto simp: nested mhas_def filter_empty_conv)
  qed
qed

end
