(* ===== verification/ScopeProps.thy ===== *)
theory ScopeProps
  imports ReferenceDemo ResolverProps
begin

text \<open>
  In which scope a reference inside a loop or a parallel is read: composed with the orchestrators, which put the scopes there.
\<close>

section \<open>Parsed references\<close>

lemma parsed_references:
  "parseReferencePath ''<loop.index>'' = [''loop'', ''index'']"
  "parseReferencePath ''<loop.currentItem>'' = [''loop'', ''currentItem'']"
  "parseReferencePath ''<loop.items>'' = [''loop'', ''items'']"
  "parseReferencePath ''<parallel.index>'' = [''parallel'', ''index'']"
  "parseReferencePath ''<parallel.currentItem>'' = [''parallel'', ''currentItem'']"
  "parseReferencePath ''<parallel.items>'' = [''parallel'', ''items'']"
  by code_simp+

lemma split_properties:
  "splitLeadingBracketPath ''index'' = (''index'', [])"
  "splitLeadingBracketPath ''currentItem'' = (''currentItem'', [])"
  "splitLeadingBracketPath ''items'' = (''items'', [])"
  by code_simp+

lemma container_references:
  "isReference ''<loop.index>''" "isReference ''<loop.currentItem>''" "isReference ''<loop.items>''"
  "isReference ''<parallel.index>''" "isReference ''<parallel.currentItem>''" "isReference ''<parallel.items>''"
  by code_simp+

section \<open>Loops\<close>

text \<open>The scope that a loop continues with.\<close>

lemma continued_scope:
  assumes "evaluateLoopContinuation env aborted l w = (c, w')" "lc_shouldContinue c" "getLoopScope w l = Some s"
  shows "mget (w_loops w') l = Some (next_iteration (close_iteration env s))"
proof -
  have stop: "\<not> lc_shouldContinue (fst (createExitResult env l u v))" for u v by simp
  from assms have "w' = put_loop l (next_iteration (close_iteration env s)) (put_loop l (close_iteration env s) w)"
    unfolding evaluateLoopContinuation_def Let_def
    by (simp split: if_splits) (metis fst_conv stop)+
  then show ?thesis by (simp add: put_loop_def)
qed

text \<open>No other scope belongs to a container.\<close>

definition sole_scope :: "string \<Rightarrow> string list \<Rightarrow> bool" where
  "sole_scope i ks \<longleftrightarrow> list_all (\<lambda>k. k = i \<or> stripOuterBranchSuffix k \<noteq> i \<and> \<not> starts_with k (i @ OBRANCH_LIT)) ks"

lemma sole_effective: "sole_scope i ks \<Longrightarrow> findEffectiveContainerId i n ks mapped = i"
  using findEffectiveContainerId_in_family [of i n ks mapped]
  by (auto simp: sole_scope_def list_all_iff buildOuterBranchScopedId_def starts_with_def)

lemma loop_reads:
  assumes "findInnermostLoopForBlock flow n = Some l" and "sole_scope l (mkeys (w_loops w))"
    and "mget (w_loops w) l = Some s"
  shows "resolveReference h flow (node_context w n None allow) ''<loop.index>'' = Inr (Found (JNum (int (ls_iteration s))))"
    and "resolveReference h flow (node_context w n None allow) ''<loop.currentItem>'' = Inr (Found (opt_value (ls_item s)))"
    and "resolveReference h flow (node_context w n None allow) ''<loop.items>'' = Inr (Found (items_value (ls_items s)))"
  using assms
  by (simp_all add: resolveReference_def canResolveLoop_def container_references parsed_references resolve_loop_def LOOP_REF_def
      split_properties OUTPUT_PROPERTIES_def LOOP_KNOWN_PROPERTIES_def effective_loop_def node_context_def sole_effective
      loop_scope_of_def read_loop_scope_def loop_value_def Let_def)


text \<open>The second iteration of a loop over three items.\<close>

definition items_scope :: loop_scope where
  "items_scope = \<lparr>ls_iteration = 0, ls_current = [], ls_all = [], ls_maxIterations = Some 3, ls_item = Some (JStr ''a''),
     ls_items = Some [JStr ''a'', JStr ''b'', JStr ''c''], ls_condition = Some ''<loop.index> < 3'', ls_loopType = Some ''forEach'',
     ls_skippedAtStart = False, ls_validationError = None\<rparr>"

definition items_world :: world where
  "items_world = quiet_world\<lparr>w_loops := [(''L'', items_scope)]\<rparr>"

definition items_flow :: sworkflow where
  "items_flow = empty_flow\<lparr>wf_blocks := [demo_block ''L'' ''loop'' True, demo_block ''a'' ''agent'' True],
     wf_loops := [(''L'', (demo_loop [''a'']))]\<rparr>"

lemma items_continue: "lc_shouldContinue (fst (evaluateLoopContinuation demo_env False ''L'' items_world))"
  by code_simp


section \<open>Parallels\<close>

lemma branch_reads:
  assumes "findInnermostParallelForBlock flow n = Some p" and "\<not> mhas (loopNameToId flow) ''parallel''"
    and "findEffectiveContainerId p n (mkeys (w_parallels w)) (mapped_branch True (node_context w n None allow)) = target"
    and "stripOuterBranchSuffix target = p" and "mget (wf_parallels flow) p = Some cfg"
    and "mget (w_mapping w) n = Some m" "bm_parallelId m = p" "bm_iterationIndex m = int j"
    and "mget (w_parallels w) target = Some s" "ps_items s = Some xs"
  shows "resolveReference h flow (node_context w n None allow) ''<parallel.index>'' = Inr (Found (JNum (int j)))"
    and "resolveReference h flow (node_context w n None allow) ''<parallel.currentItem>'' =
      Inr (Found (if j < length xs then xs ! j else JUndef))"
    and "resolveReference h flow (node_context w n None allow) ''<parallel.items>'' = Inr (Found (JArr xs))"
proof -
  let ?x = "node_context w n None allow"
  have b: "resolveBranchIndex flow ?x target = Some (int j)"
    using assms(4,6-8) by (simp add: resolveBranchIndex_def node_context_def)
  have i: "scope_items h ?x target cfg = xs" using assms(9,10) by (simp add: scope_items_def node_context_def)
  have c: "resolveCurrentItem xs (int j) = (if j < length xs then xs ! j else JUndef)" by (simp add: resolveCurrentItem_def)
  have f: "findInnermostParallelForBlock flow (rx_node ?x) = Some p"
    "findEffectiveContainerId p (rx_node ?x) (mkeys (w_parallels (rx_world ?x))) (mapped_branch True ?x) = target"
    using assms(1,3) by (simp_all add: node_context_def)
  note run = resolveReference_def canResolveLoop_def canResolveParallel_def container_references parsed_references
    resolve_parallel_def LOOP_REF_def PARALLEL_REF_def split_properties OUTPUT_PROPERTIES_def PARALLEL_KNOWN_PROPERTIES_def
    read_branch_def parallel_value_def Let_def
  show "resolveReference h flow ?x ''<parallel.index>'' = Inr (Found (JNum (int j)))"
    "resolveReference h flow ?x ''<parallel.currentItem>'' = Inr (Found (if j < length xs then xs ! j else JUndef))"
    "resolveReference h flow ?x ''<parallel.items>'' = Inr (Found (JArr xs))"
    using assms(2,4,5) f b i c by (simp_all add: run)
qed


text \<open>The second batch of a parallel over four items.\<close>

definition named_items :: "string \<Rightarrow> jval list" where
  "named_items pre = map (\<lambda>k. JStr (pre @ show_nat k)) [0..<4]"

definition picked_scope :: "string \<Rightarrow> parallel_scope" where
  "picked_scope pre = stale_scope\<lparr>ps_items := Some (named_items pre)\<rparr>"

definition picked_world :: "(string, parallel_scope) jsmap \<Rightarrow> world" where
  "picked_world others = stale_world\<lparr>w_parallels := (''P'', picked_scope ''x'') # others\<rparr>"

definition picked_flow :: sworkflow where
  "picked_flow = empty_flow\<lparr>wf_blocks := [demo_block ''P'' ''parallel'' True, demo_block ''a'' ''agent'' True],
     wf_parallels := [(''P'', demo_parallel [''a''])]\<rparr>"

lemma picked_facts:
  "getParallelScope (picked_world others) ''P'' = Some (picked_scope ''x'')" "\<not> ps_isEmpty (picked_scope pre)"
  "prepared_batch_size (picked_scope pre) = 2" "current_batch_start (picked_scope pre) = int 2"
  "w_dag (picked_world others) = stale_dag" "ps_items (picked_scope pre) = Some (named_items pre)"
  by (simp_all add: picked_world_def picked_scope_def stale_world_def stale_scope_def new_parallel_scope_def getParallelScope_def
      prepared_batch_size_def current_batch_start_def w_dag_def)

lemma picked_items: "named_items pre ! 3 = JStr (pre @ ''3'')" "length (named_items pre) = 4"
proof -
  have "show_nat 3 = ''3''" by code_simp
  then show "named_items pre ! 3 = JStr (pre @ ''3'')" "length (named_items pre) = 4" by (simp_all add: named_items_def)
qed

lemma picked_flow_facts:
  "findInnermostParallelForBlock picked_flow (buildBranchNodeId ''a'' 1) = Some ''P''"
  "\<not> mhas (loopNameToId picked_flow) ''parallel''" "mget (wf_parallels picked_flow) ''P'' = Some (demo_parallel [''a''])"
  "stripOuterBranchSuffix ''P'' = ''P''" "plain_outer ''P''" "extractInnermostOuterBranchIndex (buildBranchNodeId ''a'' 1) = None"
  by code_simp+


text \<open>
  C24: A parallel inside a parallel reads another branch: its scope in the first outer branch is its own, those of the other outer branches are clones
  named after their branch. A node of the inner parallel in the first outer branch has as its mapped index the number \<open>j\<close> of its inner
  branch, and when that is not 0 and the outer branch \<open>j\<close> has its clone, the item it reads is the one of that clone.
\<close>

theorem nested_branch_reads_clone:
  assumes "prepareCurrentBatch depth env p w = (Inr (), w')"
    and "getParallelScope w p = Some s" and "\<not> ps_isEmpty s" and "0 < prepared_batch_size s"
    and "current_batch_start s = int start"
    and "flat_parallel (w_dag w) p" and "mget (parallelConfigs (w_dag w)) p = Some cfg"
    and "par_nodes cfg \<noteq> []" and "distinct (par_nodes cfg)"
    and "\<forall>b \<in> set (par_nodes cfg). is_branch_node (w_dag w) (buildBranchNodeId b 0)"
    and "b \<in> set (par_nodes cfg)" and "i < nat (prepared_batch_size s)" and "0 < start + i"
    and "mget (w_parallels w) (buildOuterBranchScopedId p (start + i)) = Some s'" and "ps_items s' = Some ys"
    and "start + i < length ys"
    and "findInnermostParallelForBlock flow (buildBranchNodeId b i) = Some p" and "\<not> mhas (loopNameToId flow) ''parallel''"
    and "mget (wf_parallels flow) p = Some pc" and "plain_outer p"
    and "extractInnermostOuterBranchIndex (buildBranchNodeId b i) = None"
  shows "resolveReference h flow (node_context w' (buildBranchNodeId b i) None allow) ''<parallel.currentItem>'' =
      Inr (Found (ys ! (start + i)))"
proof -
  let ?x = "node_context w' (buildBranchNodeId b i) None allow" and ?t = "buildOuterBranchScopedId p (start + i)"
  obtain m where m: "mget (w_mapping w') (buildBranchNodeId b i) = Some m" "bm_parallelId m = p"
    "bm_iterationIndex m = int (start + i)"
    using prepared_mapping [OF assms(1-4) _ assms(6-12)] assms(5) by auto
  have ps: "w_parallels w' = w_parallels w" by (rule prepared_parallels [OF assms(1)])
  have s: "mget (w_parallels w') ?t = Some s'" using assms(14) by (simp add: ps)
  then have "?t \<in> set (mkeys (w_parallels w'))" by (auto intro: mhasI)
  moreover have "mapped_branch True ?x = Some (start + i)"
    using assms(21) m by (simp add: mapped_branch_def node_context_def)
  ultimately have "findEffectiveContainerId p (buildBranchNodeId b i) (mkeys (w_parallels w')) (mapped_branch True ?x) = ?t"
    using assms(13) by (simp add: findEffectiveContainerId_def find_scoped_or_clone_def)
  from branch_reads(2) [OF assms(17,18) this stripOuterBranchSuffix_build [OF assms(20)] assms(19) m s assms(15)] assms(16)
  show ?thesis by simp
qed

text \<open>The same batch when the third outer branch has its clone.\<close>

theorem nested_branch_reads_clone_witness:
  "\<exists>w'. prepareCurrentBatch 1 fan_env ''P'' (picked_world [(buildOuterBranchScopedId ''P'' 3, picked_scope ''y'')]) = (Inr (), w') \<and>
     resolveReference (demo_resolver [] []) picked_flow (node_context w' (buildBranchNodeId ''a'' 1) None False) ''<parallel.currentItem>'' =
     Inr (Found (JStr ''y3''))"
proof -
  let ?w = "picked_world [(buildOuterBranchScopedId ''P'' 3, picked_scope ''y'')]"
  have "fst (prepareCurrentBatch 1 fan_env ''P'' ?w) = Inr ()" by code_simp
  then obtain w' where w': "prepareCurrentBatch 1 fan_env ''P'' ?w = (Inr (), w')" by (metis prod.collapse)
  have "mget (w_parallels ?w) (buildOuterBranchScopedId ''P'' (2 + 1)) = Some (picked_scope ''y'')" by code_simp
  with w' show ?thesis
    using nested_branch_reads_clone [OF w' picked_facts(1,2) _ picked_facts(4), of "demo_parallel [''a'']" "''a''" 1]
      picked_facts picked_items picked_flow_facts stale_facts stale_template by simp
qed

end
