(* ===== verification/OutputProps.thy ===== *)
theory OutputProps
  imports ScopeProps BlockExecProps
begin

text \<open>
  A reference to the output of a block: from the block executor, which stores the output, through the state to the resolver.
\<close>

definition block_reference :: "sworkflow \<Rightarrow> string \<Rightarrow> string \<Rightarrow> string list \<Rightarrow> string \<Rightarrow> bool" where
  "block_reference flow r name path b \<longleftrightarrow>
     isReference r \<and> parseReferencePath r = name # path \<and> name \<notin> set SPECIAL_REFERENCE_PREFIXES \<and>
     \<not> mhas (loopNameToId flow) name \<and> \<not> mhas (parallelNameToId flow) name \<and>
     findBlockIdByName flow name = Some b \<and> b \<noteq> [] \<and> mget (block_map (wf_blocks flow)) b \<noteq> None"

lemma not_env_reference: "isReference r \<Longrightarrow> \<not> isEnvVarReference r"
  by (auto simp: isReference_def isEnvVarReference_def starts_with_def prefix_def)

lemma block_reads:
  assumes "block_reference flow r name path b" and "b \<notin> subflowContainerIds flow"
    and "getBlockOutput (w_state w) b (Some node) = Some out"
    and "path \<noteq> []" and "navigate h (node_context w node None allow) (JObj out) path = Inr v" and "v \<noteq> JUndef"
    and "allow \<or> containsLargeValueRef v = None"
  shows "resolveReference h flow (node_context w node None allow) r = Inr (Found v)"
proof -
  let ?x = "node_context w node None allow"
  obtain s where s: "getBlockState (w_state w) b (Some node) = Some s" "bs_output s = out"
    using assms(3) by (auto simp: getBlockOutput_def)
  have st: "resolver_block_state flow ?x b = Some s"
    using s(1) assms(2) by (simp add: resolver_block_state_def node_context_def Let_def split: option.split)
  obtain blk where blk: "mget (block_map (wf_blocks flow)) b = Some blk" using assms(1) by (auto simp: block_reference_def)
  have names: "mget (nameToBlockId flow) (normalizeName name) = Some b" "b \<noteq> []"
    using assms(1) by (auto simp: block_reference_def findBlockIdByName_def)
  have ref: "resolveBlockReference (rs_values h) nav name path (nameToBlockId flow) [(b, JObj out)] sch = Inr (Some (v, b))"
    if "nav (JObj out) path = Inr v" for nav sch
    using names assms(4,6) that by (simp add: resolveBlockReference_def get_prop_def)
  have "resolve_block h flow ?x (name # path) = Inr (Found v)"
    using assms(1,4-7) blk st s(2) ref
    by (simp add: resolve_block_def block_reference_def Let_def assertNoLargeValueRefs_def) (auto simp: node_context_def)
  moreover have "name \<notin> {LOOP_REF, PARALLEL_REF, VARIABLE_REF}" using assms(1) by (simp add: block_reference_def SPECIAL_REFERENCE_PREFIXES_def)
  ultimately show ?thesis
    using assms(1) not_env_reference [of r]
    by (simp add: resolveReference_def block_reference_def canResolveLoop_def canResolveParallel_def canResolveVariable_def
        canResolveBlock_def Let_def)
qed

text \<open>
  C17: A reference to a block of the same branch reads what that branch has just computed: when the block executor has stored the output of a node
  that belongs to a branch of a parallel, a reference that names its block, from a node of the same branch or from a clone of
  a container in that branch, resolves to what its path leads to in this output, whatever the other branches have stored.
\<close>

theorem branch_reference_reads_output:
  assumes "m_isParallelBranch (metadata n)" and "m_originalBlockId (metadata n) = Some b"
    and "m_branchIndex (metadata n) = Some i" and "extractOuterBranchIndex (node_id n) = None"
    and "plain_block_id b" and "state_wf (w_state w)" and "cur \<noteq> []"
    and "extractOuterBranchIndex cur = Some i \<and> extractBranchSuffix cur = [] \<and> extractLoopSuffix cur = [] \<and>
        (\<forall>k. stored (w_state w) k \<noteq> None \<and> in_same_scope b i [] [] k \<longrightarrow> k = buildOuterBranchScopedId b i) \<or>
      extractOuterBranchIndex cur = None \<and> node_id n = b @ extractBranchSuffix cur @ extractLoopSuffix cur"
    and "block_reference flow r name path b" and "b \<notin> subflowContainerIds flow" and "path \<noteq> []"
    and "navigate h (node_context (setNodeOutput d n out w) cur None allow) (JObj out) path = Inr v" and "v \<noteq> JUndef"
    and "allow \<or> containsLargeValueRef v = None"
  shows "resolveReference h flow (node_context (setNodeOutput d n out w) cur None allow) r = Inr (Found v)"
  by (rule block_reads [OF assms(9,10) branch_output_readable [OF assms(1-8)] assms(11-14)])

definition rows_flow :: sworkflow where
  "rows_flow = empty_flow\<lparr>wf_blocks := [(demo_block ''b'' ''api'' True)\<lparr>blk_name := Some ''Fetch Row''\<rparr>]\<rparr>"

theorem branch_reference_reads_output_witness:
  "resolveReference (demo_resolver [] []) rows_flow
     (node_context (setNodeOutput 0 branch_node [(''v'', JArr [JNum 3, JNum 4])] live_world) ''c__obranch-7'' None False)
     ''<FetchRow.v[1]>'' = Inr (Found (JNum 4))"
proof -
  have n: "m_isParallelBranch (metadata branch_node)" "m_originalBlockId (metadata branch_node) = Some ''b''"
    "m_branchIndex (metadata branch_node) = Some 7"
    by (simp_all add: branch_node_def demo_node_def)
  have b: "plain_block_id ''b''"
    by (simp add: plain_block_id_def plain_outer_def sublist_code OBRANCH_LIT_def BRANCH_PREFIX_def)
  have noout: "extractOuterBranchIndex (node_id branch_node) = None"
    using branch_id_no_outer [OF b] by (simp add: branch_node_def demo_node_def)
  have c: "extractOuterBranchIndex ''c__obranch-7'' = Some 7" "extractBranchSuffix ''c__obranch-7'' = []"
    "extractLoopSuffix ''c__obranch-7'' = []"
    by code_simp+
  have r: "block_reference rows_flow ''<FetchRow.v[1]>'' ''FetchRow'' [''v[1]''] ''b''" by code_simp
  have nav: "navigate (demo_resolver [] []) x (JObj [(''v'', JArr [JNum 3, JNum 4])]) [''v[1]''] = Inr (JNum 4)" for x
    unfolding navigate_def by (cases "rx_allow x") (simp_all only: , code_simp+)
  show ?thesis
    by (rule branch_reference_reads_output [OF n noout b _ _ _ r _ _ nav])
      (simp_all add: live_state state_wf_def stored_def c subflowContainerIds_def rows_flow_def empty_flow_def mkeys_def)
qed

end
