(* ===== verification/CollectionProps.thy ===== *)
theory CollectionProps
  imports OutputProps
begin

text \<open>
  A loop over a reference: from the value the reference leads to, to the iterations of the loop.
\<close>

text \<open>The items a value gives a loop, or none when it is no collection.\<close>

definition items_of :: "resolved \<Rightarrow> jval list option" where
  "items_of r =
     (case r of
        Found (JArr xs) \<Rightarrow> Some xs
      | Found (JObj f) \<Rightarrow> Some (map (\<lambda>(k, v). JArr [JStr k, v]) f)
      | Found JNull \<Rightarrow> Some []
      | ResolvedEmpty \<Rightarrow> Some []
      | _ \<Rightarrow> None)"

definition kept_inline :: "resolved \<Rightarrow> bool" where
  "kept_inline r \<longleftrightarrow>
     (case r of
        Found (JObj f) \<Rightarrow> \<not> isLargeArrayManifest (JObj f) \<and> \<not> isLargeValueRef (JObj f) \<and>
          get_prop f LARGE_ARRAY_MANIFEST_MARKER \<noteq> JBool True \<and> get_prop f LARGE_VALUE_REF_MARKER \<noteq> JBool True
      | _ \<Rightarrow> True)"

definition each_scope :: "jval list \<Rightarrow> loop_scope" where
  "each_scope xs = (counted (int (length xs)) new_scope)\<lparr>ls_loopType := Some ''forEach'', ls_items := Some xs,
     ls_item := (case xs of [] \<Rightarrow> None | x # _ \<Rightarrow> Some x)\<rparr>"

lemma collection_resolves:
  assumes "single_reference r" and "js_trim r = r"
    and "resolveReference (resolver_of h) flow (node_context w n None True) r = Inr res" and "kept_inline res"
  shows "resolveArrayInputAsync (Suc depth) h flow w (JStr r) n =
    (case items_of res of Some xs \<Rightarrow> Inr xs | None \<Rightarrow> Inl ''Value did not resolve to an array or object'')"
proof -
  have "isReference r" using assms(1) by (simp add: single_reference_def)
  then have "resolveArrayInputAsync (Suc depth) h flow w (JStr r) n =
      normalizeCollectionValue (Suc depth) h (case res of Found v \<Rightarrow> v | ResolvedEmpty \<Rightarrow> JNull)"
    using assms(1-3) by (simp add: resolveArrayInputAsync_def isReference_def resolveSingleReference_def)
  also have "\<dots> = (case items_of res of Some xs \<Rightarrow> Inr xs | None \<Rightarrow> Inl ''Value did not resolve to an array or object'')"
    using assms(4) by (auto simp: items_of_def kept_inline_def entry_values_def split: resolved.split jval.split)
  finally show ?thesis .
qed

lemma each_starts:
  assumes "mget (loopConfigs (w_dag w)) l = Some cfg" and "loop_nodes cfg \<noteq> []" and "loop_type cfg = Some ''forEach''"
    and "loop_forEachItems cfg = JStr r" and "single_reference r" and "js_trim r = r"
    and "resolveReference (resolver_of h) flow (node_context w (buildSentinelStartId l) None True) r = Inr res" and "kept_inline res"
  shows "initializeLoopScope (resolving_env (Suc depth) h flow env) l w =
      (case items_of res of
         Some xs \<Rightarrow> (Inr (each_scope xs), put_loop l (each_scope xs) w)
       | None \<Rightarrow> (Inl (ForEachUnresolved l),
           forEach_error l (''ForEach loop resolution failed: '' @ ''Value did not resolve to an array or object'') w))"
    (is ?resolved)
proof -
  have "\<not> no_items (loop_forEachItems cfg)"
    using assms(4,5) by (auto simp: no_items_def single_reference_def isReference_def starts_with_def)
  then show ?resolved
    using collection_resolves [OF assms(5-8)] assms(1-4)
    by (cases "items_of res") (simp_all add: initializeLoopScope_def resolving_env_def each_scope_def Let_def)
qed

lemma each_fails:
  assumes "mget (loopConfigs (w_dag w)) l = Some cfg" and "loop_nodes cfg \<noteq> []" and "loop_type cfg = Some ''forEach''"
    and "loop_forEachItems cfg = JStr r" and "single_reference r" and "js_trim r = r"
    and "resolveReference (resolver_of h) flow (node_context w (buildSentinelStartId l) None True) r = Inl e"
  shows "fst (initializeLoopScope (resolving_env (Suc depth) h flow env) l w) = Inl (ForEachUnresolved l)"
proof -
  have "isReference r" using assms(5) by (simp add: single_reference_def)
  then have "\<not> no_items (loop_forEachItems cfg)" using assms(4) by (auto simp: no_items_def isReference_def starts_with_def)
  with \<open>isReference r\<close> show ?thesis
    using assms by (simp add: initializeLoopScope_def resolving_env_def resolveArrayInputAsync_def isReference_def resolveSingleReference_def)
qed


text \<open>A loop over the entries of an object that a block has stored.\<close>

definition each_dag :: dag where
  "each_dag = \<lparr>dag_nodes = [], loopConfigs = [(''L'', (demo_loop [''a''])\<lparr>loop_type := Some ''forEach'',
     loop_forEachItems := JStr ''<fetch.row>''\<rparr>)], parallelConfigs = []\<rparr>"

definition each_world :: world where
  "each_world = quiet_world\<lparr>w_em := \<lparr>em_dag = each_dag, deactivatedEdges = [], nodesWithActivatedEdge = []\<rparr>,
     w_state := setBlockOutput False ''b1'' [(''row'', JObj [(''k'', JNum 1)])] 0 None (w_state quiet_world)\<rparr>"


end
