(* ===== verification/Spec2Isabelle.thy ===== *)
theory Spec2Isabelle
  imports Defects JsonSize BlockExecProps HandlerProps ReferenceProps InputProps ScanProps FunctionProps CollectionProps
begin

text \<open>
  The workflow executor of the repository (\<open>src/apps/labbai/executor\<close>): how a serialized
  workflow becomes a graph, and how that graph is run.

  \<^bold>\<open>The program.\<close> \<open>DAGBuilder\<close> turns a workflow into a DAG: blocks become nodes, a loop or
  parallel container becomes a pair of sentinel nodes around its body. \<open>ExecutionEngine\<close> keeps
  a queue of ready nodes and runs them concurrently; \<open>NodeExecutionOrchestrator\<close> executes a
  node and stores its output in \<open>ExecutionState\<close>; \<open>EdgeManager\<close> decides which outgoing edges an
  output activates, prunes the others with everything that is dead behind them, and returns
  the nodes that have become ready. \<open>LoopOrchestrator\<close> decides at the end sentinel of a loop
  whether its body runs again and resets it; \<open>ParallelOrchestrator\<close> copies the body of a
  parallel for each branch of a batch (\<open>ParallelExpander\<close>), collects the outputs of the
  branches and advances to the next batch. A run can start from a block
  (\<open>run-from-block.ts\<close>), pause at a human-in-the-loop block and resume from a snapshot.

  \<^bold>\<open>Theories.\<close>
  \<^item> \<open>Prelude\<close>: JavaScript sets and maps in insertion order, dynamic values, strings; the
    contract \<open>keyed_store\<close>. \<open>Worklist\<close>: the search loops of the program over one graph
    contract. \<open>Steps\<close>: contracts of transition systems (invariant, frozen view, draining,
    refinement).
  \<^item> \<open>Constants\<close>, \<open>NodeIds\<close>, \<open>Workflow\<close>: \<open>constants.ts\<close>, \<open>subflow-node-id-codec.ts\<close>, and the
    data of \<open>serializer/types.ts\<close>, \<open>dag/types.ts\<close>, \<open>dag/builder.ts\<close>.
  \<^item> \<open>Paths\<close>, \<open>Nodes\<close>, \<open>Edges\<close>, \<open>Builder\<close>: the passes of \<open>dag/construction\<close> and \<open>DAGBuilder.build\<close>.
    Shown: which blocks are reached and when the passes fail, which nodes a DAG has, that it
    is well formed, that a container is connected to its body.
  \<^item> \<open>EdgeManager\<close>: \<open>execution/edge-manager.ts\<close>. Shown: what is queued is ready, no skipped block
    runs, no join is lost, pruning is sound and agrees with its recursive description, routing
    is exclusive, the serialized edge state restores.
  \<^item> \<open>RunFrom\<close>, \<open>State\<close>, \<open>World\<close>: \<open>run-from-block.ts\<close>, \<open>execution/state.ts\<close>, and the state the
    orchestrators share. Shown: the sets of a partial run, isolation of branches.
  \<^item> \<open>LoopOrch\<close>, \<open>LoopProps\<close>: \<open>orchestrators/loop.ts\<close>. Shown: how often a body runs, limits,
    results, what a reset forgets and restores.
  \<^item> \<open>Expansion\<close>, \<open>ParallelOrch\<close>: \<open>utils/parallel-expansion.ts\<close>, \<open>orchestrators/parallel.ts\<close>.
    Shown: the copies of a batch, their isolation and wiring, that the batches cover the
    branches in order, that results arrive in order.
  \<^item> \<open>NodeOrch\<close>, \<open>NodeProps\<close>: \<open>orchestrators/node.ts\<close>. Shown: an invariant of every operation, a
    node runs once, outputs reach the right branch, the type of what a sentinel answers.
  \<^item> \<open>Engine\<close>, \<open>EngineProps\<close>: \<open>execution/engine.ts\<close> as a step relation. Shown over every
    interleaving: the invariant, the refinement of an abstract scheduler, a response is final,
    the first error decides, a stopped run ends.
  \<^item> \<open>Resume\<close>: what releasing the edges of an answered pause guarantees.
  \<^item> \<open>JsonSize\<close>, \<open>Snapshot\<close>: \<open>execution/snapshot-serializer.ts\<close>, \<open>execution/snapshot.ts\<close>. Shown: the
    size guard of the pause snapshot counts the bytes of the JSON text exactly.
  \<^item> \<open>StartBlock\<close>, \<open>StartProps\<close>: \<open>utils/start-block.ts\<close> and \<open>lib/workflows/triggers/triggers.ts\<close>, the
    choice of the start block and the output it is given. Shown: no input can steer a run, the
    precedence of the values of an input, files belong to the workspace, disabled blocks count.
  \<^item> \<open>Executor\<close>, \<open>ExecutorProps\<close>: \<open>execution/executor.ts\<close>, the assembly of a fresh, a resumed and a
    partial run. Shown: every run starts and stays consistent, a resumed run finds the state
    that was paused, a partial run re-executes what is downstream of its start and keeps what
    is upstream, containers get their parents back.
  \<^item> \<open>BlockExec\<close>, \<open>BlockExecProps\<close>: \<open>execution/block-executor.ts\<close> with the retry policy of
    \<open>lib/workflows/blocks\<close>. Shown: the number of tries, that an error reaches the error port, that an
    execution leaves no trace of its self reference, that it keeps what the engine assumes of it,
    so the results on the engine hold of runs made with it.
  \<^item> \<open>Handlers\<close>, \<open>HandlerProps\<close>: the condition, router and trigger handlers. Shown: the batched
    script of a condition and its fallback agree with testing in order, and what a condition or a router
    selects is what the edge manager follows.
  \<^item> \<open>References\<close>, \<open>ReferenceProps\<close>: \<open>variables/resolvers/reference.ts\<close>, \<open>reference-async.server.ts\<close>,
    \<open>utils/block-reference.ts\<close> and the large values of \<open>lib/execution/payloads\<close>: the syntax of a
    reference, navigation along its path, large values and manifests. Shown: navigation with
    and without storage agrees.
  \<^item> \<open>Resolvers\<close>: \<open>variables/resolvers\<close>, what a reference to a block, a loop, a parallel, a variable or the
    environment resolves to, and which containers hold a block (\<open>utils/subflow-utils.ts\<close>). \<open>Templates\<close>:
    \<open>InputResolver\<close> of \<open>variables/resolver.ts\<close> on texts, conditions, inputs and the collections of containers.
    \<open>CodeScan\<close>: its scanners of quotes in code. \<open>FunctionInputs\<close>: the code of function blocks and its bound
    variables. \<open>ReferenceDemo\<close> holds concrete hosts, worlds and workflows for the witnesses.
  \<^item> \<open>TemplateProps\<close>, \<open>ScanProps\<close>, \<open>FunctionProps\<close>: what is spliced into code. Shown: the quote scanner agrees with
    the string literals of the language; where strings, objects and environment values in a condition are data, and
    where they are not; values reach the source of a function block only bound to variables, with the listed exceptions.
  \<^item> \<open>InputProps\<close>, \<open>ResolverProps\<close>, \<open>ScopeProps\<close>, \<open>OutputProps\<close>, \<open>CollectionProps\<close>: what a reference reads. Shown: inputs
    without references are left alone; containment is membership at any depth; a block reads the iteration, the branch and
    the outputs that the orchestrators have set up for it, and in nested parallels those of another branch; a forEach loop
    runs over what its reference leads to.
  \<^item> \<open>Defects\<close>: two behaviours of the code on concrete graphs, a join lost by a late clone and a
    rerun that takes both branches of a condition.

  \<^bold>\<open>Correspondence.\<close> An operation keeps the name of the method it translates, and takes and
  returns the state the method mutates. A thrown error is a left value of a sum, paired with
  the state at the throw. A method that is a long body is split at its steps; the parts are
  named after what they do.

  \<^bold>\<open>Atomicity.\<close> JavaScript interleaves only at \<open>await\<close>. A task of the engine takes effect in
  three steps: the launch (up to the first \<open>await\<close>, with the decision whether the node runs),
  the execution, and the completion, which the code serializes by a lock. Each is one step of
  the model, in any order with the steps of other tasks.

  \<^bold>\<open>Bounds.\<close> The recursion of the code over nested containers (cloning, resetting) is bounded by
  a depth \<open>depth\<close> that stands for the call stack, with \<open>StackOverflow\<close> as its error; a depth
  above the nesting of the containers is enough. Searches and cascades are total functions
  with their own termination proofs. Numbers are unbounded integers: the code counts
  iterations and branches, far below the range in which its numbers are exact.

  \<^bold>\<open>Not modelled.\<close> Every handler other than the condition, router and trigger handlers is I/O: it is
  the parameter \<open>invoke\<close> of the block executor, which is in turn the parameter \<open>run\<close> of a node's
  execution, and of which the block executor is shown to discharge what the engine assumes. The
  orchestrators take the resolution of a collection as a parameter of their environment, for which \<open>Templates\<close>
  provides the code of the repository. The code tool, the model behind a router, the isolated VM for loop
  conditions, \<open>JSON.parse\<close> and \<open>JSON.stringify\<close>, the conversions to numbers and strings, the schemas of blocks,
  storage of large values and SHA-256 are parameters. The variants of the resolvers without storage
  (\<open>resolve\<close> beside \<open>resolveAsync\<close>) and the formatting of variables for the editor are left out. Logs, events, times,
  secret tracing and credentials do not influence what runs. The invariant of a run covers
  parallels whose bodies are regular blocks; the cloning of nested containers is modelled, and its
  defect shown, but its preservation of well-formedness is not proved. The human-in-the-loop
  manager, which edits stored snapshots in the database, and the web application are outside.
\<close>

end
